(* ===== verification/Cerebro_Prelude.thy ===== *)
theory Cerebro_Prelude
  imports Main "HOL-Library.AList"
begin

text \<open>
  Vocabulary shared by all components.

  \<^item> Time is an \<open>int\<close>: epoch milliseconds, as \<^verbatim>\<open>Date.now()\<close> returns.
  \<^item> A JavaScript \<^verbatim>\<open>Map\<close> is an association list in insertion order: \<open>map_get\<close>,
    \<open>map_set\<close> (a key already present keeps its position) and \<open>map_del\<close>. The interface the
    components rely on is the locale \<open>keyed_store\<close>; the association list interprets it.
  \<^item> Strings are \<open>char list\<close>s. The helpers model the JavaScript string methods the code uses on
    one-byte characters; a character beyond ASCII appears as its UTF-8 bytes.
  \<^item> A component with state is a step function over events; \<open>event_machine\<close> is the contract
    "the invariant survives a step", and the lemmas about whole runs are proved once in it.
\<close>

type_synonym time = int

named_theorems store_simps \<open>look-ups after an update of a keyed store\<close>
named_theorems str_simps \<open>definitions of the string helpers, for evaluating them\<close>

section \<open>Thrown HTTP exceptions as values\<close>

text \<open>\<open>InternalError\<close> is any other exception (a constraint of the database, a failed call).\<close>

datatype http_error =
    BadRequest string
  | Unauthorized string
  | Forbidden string
  | NotFound string
  | TooManyRequests string
  | InternalError string

section \<open>Keyed stores\<close>

locale keyed_store =
  fixes get :: "'m \<Rightarrow> 'k \<Rightarrow> 'v option"
    and put :: "'m \<Rightarrow> 'k \<Rightarrow> 'v \<Rightarrow> 'm"
    and del :: "'m \<Rightarrow> 'k \<Rightarrow> 'm"
    and ok :: "'m \<Rightarrow> bool"
  assumes get_put: "get (put m k v) j = (if j = k then Some v else get m j)"
    and get_del: "get (del m k) j = (if j = k then None else get m j)"
    and ok_put: "ok m \<Longrightarrow> ok (put m k v)"
    and ok_del: "ok m \<Longrightarrow> ok (del m k)"
begin

lemma get_put_same: "get (put m k v) k = Some v"
  by (simp add: get_put)

lemma get_put_other: "j \<noteq> k \<Longrightarrow> get (put m k v) j = get m j"
  by (simp add: get_put)

lemma get_del_other: "j \<noteq> k \<Longrightarrow> get (del m k) j = get m j"
  by (simp add: get_del)

text \<open>A property of every stored value survives a put of a value that has it, and every delete.\<close>

lemma all_put:
  assumes "\<And>j w. get m j = Some w \<Longrightarrow> P j w" and "P k v" and "get (put m k v) j = Some w"
  shows "P j w"
  using assms by (auto simp: get_put split: if_splits)

lemma all_del:
  assumes "\<And>j w. get m j = Some w \<Longrightarrow> P j w" and "get (del m k) j = Some w"
  shows "P j w"
  using assms by (auto simp: get_del split: if_splits)

end

type_synonym ('k, 'v) jsmap = "('k \<times> 'v) list"

definition map_get :: "('k, 'v) jsmap \<Rightarrow> 'k \<Rightarrow> 'v option" where
  "map_get m k = map_of m k"

definition map_set :: "('k, 'v) jsmap \<Rightarrow> 'k \<Rightarrow> 'v \<Rightarrow> ('k, 'v) jsmap" where
  "map_set m k v = AList.update k v m"

definition map_del :: "('k, 'v) jsmap \<Rightarrow> 'k \<Rightarrow> ('k, 'v) jsmap" where
  "map_del m k = AList.delete k m"

definition map_has :: "('k, 'v) jsmap \<Rightarrow> 'k \<Rightarrow> bool" where
  "map_has m k \<longleftrightarrow> map_get m k \<noteq> None"

definition map_keys :: "('k, 'v) jsmap \<Rightarrow> 'k list" where
  "map_keys m = map fst m"

definition map_vals :: "('k, 'v) jsmap \<Rightarrow> 'v list" where
  "map_vals m = map snd m"

definition map_ok :: "('k, 'v) jsmap \<Rightarrow> bool" where
  "map_ok m \<longleftrightarrow> distinct (map_keys m)"

definition map_keep :: "('k \<Rightarrow> 'v \<Rightarrow> bool) \<Rightarrow> ('k, 'v) jsmap \<Rightarrow> ('k, 'v) jsmap" where
  "map_keep P m = filter (\<lambda>(k, v). P k v) m"

interpretation jsm: keyed_store map_get map_set map_del map_ok
  by unfold_locales
    (auto simp: map_get_def map_set_def map_del_def map_ok_def map_keys_def update_conv' delete_conv'
      distinct_update distinct_delete)

lemmas [store_simps] = jsm.get_put jsm.get_del

lemma map_get_Nil [simp]: "map_get [] k = None"
  by (simp add: map_get_def)

lemma map_ok_Nil [simp]: "map_ok []"
  by (simp add: map_ok_def map_keys_def)

lemma map_get_keep:
  assumes "map_ok m"
  shows "map_get (map_keep P m) k =
    (case map_get m k of None \<Rightarrow> None | Some v \<Rightarrow> if P k v then Some v else None)"
  using assms
  by (induction m) (auto simp: map_get_def map_ok_def map_keys_def map_keep_def
      split: option.splits dest: map_of_SomeD simp flip: map_of_eq_None_iff)

lemma map_ok_keep: "map_ok m \<Longrightarrow> map_ok (map_keep P m)"
  by (induction m) (auto simp: map_ok_def map_keys_def map_keep_def)

lemma map_get_in_set: "map_get m k = Some v \<Longrightarrow> (k, v) \<in> set m"
  by (simp add: map_get_def map_of_SomeD)

lemma map_get_iff: "map_ok m \<Longrightarrow> map_get m k = Some v \<longleftrightarrow> (k, v) \<in> set m"
  by (simp add: map_get_def map_ok_def map_keys_def)

section \<open>Step functions and runs\<close>

locale event_machine =
  fixes step :: "'s \<Rightarrow> 'e \<Rightarrow> 's" and inv :: "'s \<Rightarrow> bool"
  assumes inv_step: "inv s \<Longrightarrow> inv (step s e)"
begin

lemma inv_run: "inv s \<Longrightarrow> inv (foldl step s es)"
  by (induction es arbitrary: s) (auto intro: inv_step)

text \<open>A fact every step keeps under the invariant holds at the end of every run.\<close>

lemma run_keeps:
  assumes "inv s" and "P s" and "\<And>s e. inv s \<Longrightarrow> P s \<Longrightarrow> P (step s e)"
  shows "P (foldl step s es)"
  using assms(1,2) by (induction es arbitrary: s) (auto intro: inv_step assms(3))

text \<open>A state function that no step lets decrease does not decrease over a run.\<close>

lemma run_mono:
  fixes f :: "'s \<Rightarrow> 'n::preorder"
  assumes "inv s" and "\<And>s e. inv s \<Longrightarrow> f s \<le> f (step s e)"
  shows "f s \<le> f (foldl step s es)"
  using assms(1)
proof (induction es arbitrary: s)
  case Nil
  then show ?case by simp
next
  case (Cons e es)
  from Cons.prems have "f s \<le> f (step s e)" by (rule assms(2))
  moreover have "f (step s e) \<le> f (foldl step (step s e) es)"
    using Cons.prems by (intro Cons.IH inv_step)
  ultimately show ?case by (simp add: order_trans)
qed

end

section \<open>Lists\<close>

text \<open>\<^verbatim>\<open>[...new Set(xs)]\<close>: the first occurrence of every element, in order.\<close>

fun uniq :: "'a list \<Rightarrow> 'a list" where
  "uniq [] = []"
| "uniq (x # xs) = x # filter (\<lambda>y. y \<noteq> x) (uniq xs)"

lemma set_uniq [simp]: "set (uniq xs) = set xs"
  by (induction xs) auto

lemma distinct_uniq [simp]: "distinct (uniq xs)"
  by (induction xs) auto

lemma uniq_distinct: "distinct xs \<Longrightarrow> uniq xs = xs"
  by (induction xs) (auto simp: filter_id_conv)

lemma uniq_uniq [simp]: "uniq (uniq xs) = uniq xs"
  by (simp add: uniq_distinct)

lemma length_uniq: "length (uniq xs) \<le> length xs"
  by (metis card_length distinct_card distinct_uniq set_uniq)

text \<open>Rewriting the rows of a table that satisfy a condition (\<^verbatim>\<open>updateMany\<close>, \<^verbatim>\<open>update\<close> by a unique key).\<close>

definition rows_update :: "('r \<Rightarrow> bool) \<Rightarrow> ('r \<Rightarrow> 'r) \<Rightarrow> 'r list \<Rightarrow> 'r list" where
  "rows_update P f rs = map (\<lambda>r. if P r then f r else r) rs"

lemma rows_update_Nil [simp]: "rows_update P f [] = []"
  by (simp add: rows_update_def)

lemma rows_update_Cons [simp]:
  "rows_update P f (r # rs) = (if P r then f r else r) # rows_update P f rs"
  by (simp add: rows_update_def)

lemma in_rows_update:
  "x \<in> set (rows_update P f rs) \<longleftrightarrow> (\<exists>r \<in> set rs. x = (if P r then f r else r))"
  by (auto simp: rows_update_def)

lemma map_rows_update: "(\<And>r. g (f r) = g r) \<Longrightarrow> map g (rows_update P f rs) = map g rs"
  by (simp add: rows_update_def)

lemma length_rows_update [simp]: "length (rows_update P f rs) = length rs"
  by (simp add: rows_update_def)

lemma find_rows_update:
  assumes "\<And>r. Q (f r) = Q r"
  shows "List.find Q (rows_update P f rs) =
    map_option (\<lambda>r. if P r then f r else r) (List.find Q rs)"
  by (induction rs) (auto simp: assms)

lemma rows_update_all:
  assumes "\<forall>r \<in> set rs. Q r" and "\<And>r. Q r \<Longrightarrow> Q (f r)"
  shows "\<forall>r \<in> set (rows_update P f rs). Q r"
  using assms by (auto simp: in_rows_update)

lemma find_append_new:
  assumes "\<forall>t \<in> set xs. \<not> P t" and "P y"
  shows "List.find P (xs @ [y]) = Some y"
  using assms by (induction xs) auto

lemma find_SomeD: "List.find P xs = Some x \<Longrightarrow> x \<in> set xs \<and> P x"
  by (induction xs) (auto split: if_splits)

text \<open>
  A table after some operations: its rows, each changed in a way \<open>K\<close> allows, then new rows.
\<close>

definition evolves :: "('r \<Rightarrow> 'r \<Rightarrow> bool) \<Rightarrow> 'r list \<Rightarrow> 'r list \<Rightarrow> bool" where
  "evolves K xs ys \<longleftrightarrow> (\<exists>g news. ys = map g xs @ news \<and> (\<forall>r \<in> set xs. K r (g r)))"

lemma evolves_refl: "(\<And>r. K r r) \<Longrightarrow> evolves K xs xs"
  by (auto simp: evolves_def intro: exI [of _ id])

lemma evolves_update: "(\<And>r. K r r) \<Longrightarrow> (\<And>r. K r (f r)) \<Longrightarrow> evolves K xs (rows_update P f xs)"
  unfolding evolves_def rows_update_def
  by (rule exI [of _ "\<lambda>r. if P r then f r else r"], rule exI [of _ "[]"]) simp

lemma evolves_append: "(\<And>r. K r r) \<Longrightarrow> evolves K xs (xs @ news)"
  unfolding evolves_def by (rule exI [of _ id], rule exI [of _ news]) simp

lemma evolves_trans:
  assumes K: "\<And>a b c. K a b \<Longrightarrow> K b c \<Longrightarrow> K a c" and xy: "evolves K xs ys" and yz: "evolves K ys zs"
  shows "evolves K xs zs"
proof -
  obtain g n h m where g: "ys = map g xs @ n" "\<forall>r \<in> set xs. K r (g r)"
    and h: "zs = map h ys @ m" "\<forall>r \<in> set ys. K r (h r)"
    using xy yz unfolding evolves_def by blast
  have "zs = map (h \<circ> g) xs @ (map h n @ m)" using g(1) h(1) by simp
  moreover have "\<forall>r \<in> set xs. K r ((h \<circ> g) r)" using g h(2) by (auto intro: K)
  ultimately show ?thesis unfolding evolves_def by blast
qed

lemma evolves_row: "evolves K xs ys \<Longrightarrow> x \<in> set xs \<Longrightarrow> \<exists>y \<in> set ys. K x y"
  by (auto simp: evolves_def)

lemma rows_update_twice:
  assumes "\<And>r. f (f r) = f r"
  shows "\<exists>R. rows_update P f (rows_update Q f xs) = rows_update R f xs"
  by (rule exI [of _ "\<lambda>r. Q r \<or> P (if Q r then f r else r)"])
    (auto simp: rows_update_def assms)

section \<open>Strings\<close>

definition code_of :: "char \<Rightarrow> nat" where
  [str_simps]: "code_of c = of_char c"

definition is_digit :: "char \<Rightarrow> bool" where
  [str_simps]: "is_digit c \<longleftrightarrow> 48 \<le> code_of c \<and> code_of c \<le> 57"

definition is_upper :: "char \<Rightarrow> bool" where
  [str_simps]: "is_upper c \<longleftrightarrow> 65 \<le> code_of c \<and> code_of c \<le> 90"

definition is_lower :: "char \<Rightarrow> bool" where
  [str_simps]: "is_lower c \<longleftrightarrow> 97 \<le> code_of c \<and> code_of c \<le> 122"

definition is_alpha :: "char \<Rightarrow> bool" where
  [str_simps]: "is_alpha c \<longleftrightarrow> is_upper c \<or> is_lower c"

text \<open>\<^verbatim>\<open>\s\<close>: space, tab, line feed, vertical tab, form feed, carriage return.\<close>

definition is_space :: "char \<Rightarrow> bool" where
  [str_simps]: "is_space c \<longleftrightarrow> code_of c = 32 \<or> (9 \<le> code_of c \<and> code_of c \<le> 13)"

definition lower_char :: "char \<Rightarrow> char" where
  [str_simps]: "lower_char c = (if is_upper c then char_of (code_of c + 32) else c)"

definition upper_char :: "char \<Rightarrow> char" where
  [str_simps]: "upper_char c = (if is_lower c then char_of (code_of c - 32) else c)"

definition to_lower :: "string \<Rightarrow> string" where
  [str_simps]: "to_lower s = map lower_char s"

definition to_upper :: "string \<Rightarrow> string" where
  [str_simps]: "to_upper s = map upper_char s"

definition trim_start :: "string \<Rightarrow> string" where
  [str_simps]: "trim_start s = dropWhile is_space s"

definition trim :: "string \<Rightarrow> string" where
  [str_simps]: "trim s = rev (dropWhile is_space (rev (dropWhile is_space s)))"

definition starts_with :: "string \<Rightarrow> string \<Rightarrow> bool" where
  [str_simps]: "starts_with s p \<longleftrightarrow> take (length p) s = p"

definition ends_with :: "string \<Rightarrow> string \<Rightarrow> bool" where
  [str_simps]: "ends_with s p \<longleftrightarrow> length p \<le> length s \<and> drop (length s - length p) s = p"

fun str_includes :: "string \<Rightarrow> string \<Rightarrow> bool" where
  "str_includes [] p \<longleftrightarrow> p = []"
| "str_includes (c # s) p \<longleftrightarrow> starts_with (c # s) p \<or> str_includes s p"

fun split_on :: "char \<Rightarrow> string \<Rightarrow> string list" where
  "split_on c [] = [[]]"
| "split_on c (x # xs) =
     (if x = c then [] # split_on c xs
      else (case split_on c xs of [] \<Rightarrow> [[x]] | y # ys \<Rightarrow> (x # y) # ys))"

fun join_with :: "string \<Rightarrow> string list \<Rightarrow> string" where
  "join_with sep [] = []"
| "join_with sep [x] = x"
| "join_with sep (x # y # ys) = x @ sep @ join_with sep (y # ys)"

lemma split_on_nonempty [simp]: "split_on c s \<noteq> []"
  by (induction s) (auto split: list.splits)

lemma join_split_on: "join_with [c] (split_on c s) = s"
proof (induction s)
  case Nil
  then show ?case by simp
next
  case (Cons x xs)
  obtain y ys where y: "split_on c xs = y # ys"
    by (cases "split_on c xs") auto
  with Cons.IH show ?case
    by (cases ys) auto
qed

lemma split_on_no_sep: "x \<in> set (split_on c s) \<Longrightarrow> c \<notin> set x"
proof (induction s arbitrary: x)
  case Nil
  then show ?case by simp
next
  case (Cons a s)
  obtain y ys where y: "split_on c s = y # ys"
    by (cases "split_on c s") auto
  with Cons show ?case by (auto split: if_splits)
qed

lemma split_on_none: "c \<notin> set s \<Longrightarrow> split_on c s = [s]"
  by (induction s) auto

lemma split_on_append: "c \<notin> set s \<Longrightarrow> split_on c (s @ c # t) = s # split_on c t"
  by (induction s) auto

lemma split_join:
  assumes "xs \<noteq> []" and "\<And>x. x \<in> set xs \<Longrightarrow> c \<notin> set x"
  shows "split_on c (join_with [c] xs) = xs"
  using assms
proof (induction "[c]" xs rule: join_with.induct)
  case (3 x y ys)
  then show ?case using split_on_append [of c x "join_with [c] (y # ys)"] by simp
qed (simp_all add: split_on_none)

lemma trim_id: "(\<And>c. c \<in> set s \<Longrightarrow> \<not> is_space c) \<Longrightarrow> trim s = s"
  by (metis dropWhile_eq_self_iff hd_in_set rev_is_Nil_conv rev_rev_ident set_rev trim_def)

text \<open>\<^verbatim>\<open>s.split(/\s+/)\<close> after \<^verbatim>\<open>filter(Boolean)\<close>: the maximal runs of non-space characters.\<close>

fun words_acc :: "string \<Rightarrow> string \<Rightarrow> string list" where
  "words_acc [] w = (if w = [] then [] else [rev w])"
| "words_acc (c # s) w =
     (if is_space c then (if w = [] then words_acc s [] else rev w # words_acc s [])
      else words_acc s (c # w))"

definition words :: "string \<Rightarrow> string list" where
  "words s = words_acc s []"

lemma words_nonempty: "w \<in> set (words s) \<Longrightarrow> w \<noteq> []"
proof -
  have "x \<in> set (words_acc s v) \<Longrightarrow> x \<noteq> []" for x v
    by (induction s v rule: words_acc.induct) (auto split: if_splits)
  then show "w \<in> set (words s) \<Longrightarrow> w \<noteq> []" by (auto simp: words_def)
qed

text \<open>Decimal rendering and reading of natural numbers.\<close>

fun show_nat :: "nat \<Rightarrow> string" where
  "show_nat n =
     (if n < 10 then [char_of (48 + n)] else show_nat (n div 10) @ [char_of (48 + n mod 10)])"

declare show_nat.simps [simp del]

definition show_int :: "int \<Rightarrow> string" where
  "show_int i = (if i < 0 then ''-'' @ show_nat (nat (- i)) else show_nat (nat i))"

definition digit_val :: "char \<Rightarrow> nat" where
  [str_simps]: "digit_val c = code_of c - 48"

definition read_nat :: "string \<Rightarrow> nat" where
  "read_nat s = foldl (\<lambda>a c. 10 * a + digit_val c) 0 s"

definition all_digits :: "string \<Rightarrow> bool" where
  [str_simps]: "all_digits s \<longleftrightarrow> s \<noteq> [] \<and> list_all is_digit s"

lemma digit_char:
  assumes "d < 10"
  shows "is_digit (char_of (48 + d))" and "digit_val (char_of (48 + d)) = d"
  using assms by (auto simp: str_simps of_char_of)

lemma show_nat_digits: "all_digits (show_nat n)"
proof (induction n rule: show_nat.induct)
  case (1 n)
  show ?case
  proof (cases "n < 10")
    case True
    then show ?thesis
      by (subst show_nat.simps) (simp add: all_digits_def digit_char)
  next
    case False
    with 1 show ?thesis
      by (subst show_nat.simps) (auto simp: all_digits_def digit_char)
  qed
qed

lemma read_show_nat: "read_nat (show_nat n) = n"
proof (induction n rule: show_nat.induct)
  case (1 n)
  show ?case
  proof (cases "n < 10")
    case True
    then show ?thesis
      by (subst show_nat.simps) (simp add: read_nat_def digit_char)
  next
    case False
    with 1 have "read_nat (show_nat (n div 10)) = n div 10" by blast
    with False show ?thesis
      by (subst show_nat.simps) (simp add: read_nat_def digit_char)
  qed
qed

text \<open>The dash some messages contain, as UTF-8 bytes.\<close>

definition em_dash :: string where
  "em_dash = map char_of [226, 128, 148 :: nat]"

section \<open>JSON values\<close>

text \<open>
  What an untyped value can be at run time (\<^verbatim>\<open>unknown\<close>, a JSON column). Numbers are integers;
  \<open>JUndef\<close> is \<^verbatim>\<open>undefined\<close>.
\<close>

datatype json =
    JUndef | JNull | JBool bool | JNum int | JStr string
  | JArr "json list" | JObj "(string \<times> json) list"

text \<open>Property access on an object; an absent key is \<^verbatim>\<open>undefined\<close>.\<close>

definition obj_get :: "(string \<times> json) list \<Rightarrow> string \<Rightarrow> json" where
  "obj_get ob k = (case map_of ob k of None \<Rightarrow> JUndef | Some v \<Rightarrow> v)"

text \<open>\<^verbatim>\<open>String(v)\<close>; the elements of an array that are null or undefined print as nothing.\<close>

fun js_string :: "json \<Rightarrow> string" where
  "js_string JUndef = ''undefined''"
| "js_string JNull = ''null''"
| "js_string (JBool b) = (if b then ''true'' else ''false'')"
| "js_string (JNum i) = show_int i"
| "js_string (JStr s) = s"
| "js_string (JArr vs) =
     join_with '','' (map (\<lambda>v. case v of JUndef \<Rightarrow> [] | JNull \<Rightarrow> [] | _ \<Rightarrow> js_string v) vs)"
| "js_string (JObj ob) = ''[object Object]''"

end
