(* ===== verification/Rbac.thy ===== *)
theory Rbac
  imports Cerebro_Prelude
begin

text \<open>
  Role-based access control: \<^verbatim>\<open>packages/shared/src/rbac.ts\<close> and the guard of
  \<^verbatim>\<open>apps/server/src/auth/permissions.guard.ts\<close>.

  The union type \<^verbatim>\<open>Permission\<close> is a datatype and \<open>perm_str\<close> gives each member its literal.
  At run time a permission is a string (rows and requests hold string arrays), so the functions
  that compare permissions take strings.
\<close>

datatype permission =
    Settings_read | Settings_write | Users_read | Users_write | Logs_read | Audit_read
  | Secrets_read | Secrets_write
  | Automations_read | Automations_write
  | Replicator_read | Replicator_write
  | Backup_read | Backup_write | Backup_restore
  | Connectors_read | Connectors_write | Connectors_action
  | Monitors_read | Monitors_write
  | Notifications_send
  | Fabric_read | Fabric_connect | Fabric_manage | Fabric_approve
  | Assistant_use | Agents_manage | Agents_read

primrec perm_str :: "permission \<Rightarrow> string" where
  "perm_str Settings_read = ''settings:read''"
| "perm_str Settings_write = ''settings:write''"
| "perm_str Users_read = ''users:read''"
| "perm_str Users_write = ''users:write''"
| "perm_str Logs_read = ''logs:read''"
| "perm_str Audit_read = ''audit:read''"
| "perm_str Secrets_read = ''secrets:read''"
| "perm_str Secrets_write = ''secrets:write''"
| "perm_str Automations_read = ''automations:read''"
| "perm_str Automations_write = ''automations:write''"
| "perm_str Replicator_read = ''replicator:read''"
| "perm_str Replicator_write = ''replicator:write''"
| "perm_str Backup_read = ''backup:read''"
| "perm_str Backup_write = ''backup:write''"
| "perm_str Backup_restore = ''backup:restore''"
| "perm_str Connectors_read = ''connectors:read''"
| "perm_str Connectors_write = ''connectors:write''"
| "perm_str Connectors_action = ''connectors:action''"
| "perm_str Monitors_read = ''monitors:read''"
| "perm_str Monitors_write = ''monitors:write''"
| "perm_str Notifications_send = ''notifications:send''"
| "perm_str Fabric_read = ''fabric:read''"
| "perm_str Fabric_connect = ''fabric:connect''"
| "perm_str Fabric_manage = ''fabric:manage''"
| "perm_str Fabric_approve = ''fabric:approve''"
| "perm_str Assistant_use = ''assistant:use''"
| "perm_str Agents_manage = ''agents:manage''"
| "perm_str Agents_read = ''agents:read''"

record builtin_role =
  br_name :: string
  br_slug :: string
  br_description :: string
  br_permissions :: "permission list"

definition role_viewer :: builtin_role where
  "role_viewer = \<lparr>br_name = ''Viewer'', br_slug = ''viewer'',
     br_description = ''Read-only access to everything.'',
     br_permissions =
       [Settings_read, Users_read, Logs_read, Audit_read, Connectors_read, Monitors_read,
        Replicator_read, Backup_read, Fabric_read, Assistant_use]\<rparr>"

definition role_admin :: builtin_role where
  "role_admin = \<lparr>br_name = ''Administrator'', br_slug = ''admin'',
     br_description = ''Full control of Cerebro and all connectors.'',
     br_permissions =
       [Settings_read, Settings_write, Users_read, Users_write, Logs_read, Audit_read,
        Connectors_read, Connectors_write, Connectors_action, Monitors_read, Monitors_write,
        Notifications_send, Secrets_read, Secrets_write, Automations_read, Automations_write,
        Replicator_read, Replicator_write, Backup_read, Backup_write, Backup_restore,
        Fabric_read, Fabric_connect, Fabric_manage, Fabric_approve, Assistant_use,
        Agents_manage, Agents_read]\<rparr>"

definition hasPermission :: "string list option \<Rightarrow> string \<Rightarrow> bool" where
  "hasPermission granted required =
     (case granted of None \<Rightarrow> False | Some ps \<Rightarrow> required \<in> set ps)"

definition GRANTABLE_TOKEN_SCOPES :: "permission list" where
  "GRANTABLE_TOKEN_SCOPES =
     [Connectors_read, Monitors_read, Logs_read, Audit_read, Users_read, Settings_read,
      Automations_read, Replicator_read, Backup_read,
      Connectors_action, Monitors_write, Notifications_send, Fabric_read, Fabric_connect,
      Agents_read]"

definition MACHINE_CLIENT_SCOPES :: "permission list" where
  "MACHINE_CLIENT_SCOPES = [Agents_read]"

definition isWriteScope :: "permission \<Rightarrow> bool" where
  "isWriteScope s \<longleftrightarrow> \<not> ends_with (perm_str s) '':read''"

text \<open>
  \<^verbatim>\<open>PermissionsGuard.canActivate\<close>: the metadata of \<^verbatim>\<open>@RequirePermissions\<close> (\<open>None\<close> when the
  route has none) against the permissions of the attached user (\<open>None\<close> when there is none).
\<close>

definition guard_missing :: "string list option \<Rightarrow> string list \<Rightarrow> string list" where
  "guard_missing perms required = filter (\<lambda>p. \<not> hasPermission perms p) required"

definition canActivate :: "string list option \<Rightarrow> string list option \<Rightarrow> http_error + bool" where
  "canActivate required perms =
     (case required of
        None \<Rightarrow> Inr True
      | Some [] \<Rightarrow> Inr True
      | Some req \<Rightarrow>
          (let missing = guard_missing perms req
           in if missing \<noteq> []
              then Inl (Forbidden (''Missing permission(s): '' @ join_with '', '' missing))
              else Inr True))"

section \<open>Lemmas\<close>

lemma perm_str_inj: "perm_str p = perm_str q \<Longrightarrow> p = q"
  by (cases p; cases q) simp_all

lemma inj_perm_str: "inj perm_str"
  by (rule injI) (rule perm_str_inj)

lemma perm_str_mem [simp]: "perm_str p \<in> perm_str ` P \<longleftrightarrow> p \<in> P"
  by (auto dest: perm_str_inj)

lemma perm_str_nonempty: "perm_str p \<noteq> []"
  by (cases p) simp_all

lemma grantable_in_admin: "p \<in> set GRANTABLE_TOKEN_SCOPES \<Longrightarrow> p \<in> set (br_permissions role_admin)"
  by (auto simp: GRANTABLE_TOKEN_SCOPES_def role_admin_def)

lemma isWriteScope_simps [simp]:
  "\<not> isWriteScope Settings_read" "\<not> isWriteScope Users_read" "\<not> isWriteScope Logs_read"
  "\<not> isWriteScope Audit_read" "\<not> isWriteScope Secrets_read" "\<not> isWriteScope Automations_read"
  "\<not> isWriteScope Replicator_read" "\<not> isWriteScope Backup_read" "\<not> isWriteScope Connectors_read"
  "\<not> isWriteScope Monitors_read" "\<not> isWriteScope Fabric_read" "\<not> isWriteScope Agents_read"
  "isWriteScope Settings_write" "isWriteScope Users_write" "isWriteScope Secrets_write"
  "isWriteScope Automations_write" "isWriteScope Replicator_write" "isWriteScope Backup_write"
  "isWriteScope Backup_restore" "isWriteScope Connectors_write" "isWriteScope Connectors_action"
  "isWriteScope Monitors_write" "isWriteScope Notifications_send" "isWriteScope Fabric_connect"
  "isWriteScope Fabric_manage" "isWriteScope Fabric_approve" "isWriteScope Assistant_use"
  "isWriteScope Agents_manage"
  by (simp_all add: isWriteScope_def ends_with_def)

lemma canActivate_iff:
  "canActivate required perms = Inr True \<longleftrightarrow>
     (\<forall>p \<in> set (case required of None \<Rightarrow> [] | Some r \<Rightarrow> r). hasPermission perms p)"
  by (auto simp: canActivate_def guard_missing_def filter_empty_conv Let_def
      split: option.splits list.splits if_splits)

lemma canActivate_no_false: "canActivate required perms \<noteq> Inr False"
  by (auto simp: canActivate_def Let_def split: option.splits list.splits)

end
