(* ===== verification/Rate_Limiter.thy ===== *)
theory Rate_Limiter
  imports Cerebro_Prelude
begin

text \<open>
  The fixed-window rate limiter of \<^verbatim>\<open>apps/server/src/common/rate-limiter.ts\<close>.

  \<open>hit\<close> and \<open>prune\<close> are the class's two methods on its private map. \<open>spec_hit\<close> is the abstract
  limiter, a total map from keys to windows that forgets nothing; under a clock that does not go
  back the class answers every hit as the abstract limiter does, so pruning is unobservable, and
  the rate bound is proved on the abstract side.
\<close>

record window =
  w_start :: time
  w_count :: int

record limiter =
  lim_limit :: int
  lim_windowMs :: int
  lim_windows :: "(string, window) jsmap"

text \<open>\<^verbatim>\<open>Math.ceil(x / 1000)\<close> on integers.\<close>

definition ceil_sec :: "int \<Rightarrow> int" where
  "ceil_sec x = - ((- x) div 1000)"

lemma ceil_sec_ge: "x \<le> 1000 * ceil_sec x"
proof -
  have "1000 * ((- x) div 1000) + (- x) mod 1000 = - x" by (rule mult_div_mod_eq)
  moreover have "0 \<le> (- x) mod 1000" by simp
  ultimately show ?thesis unfolding ceil_sec_def by linarith
qed

definition prune :: "limiter \<Rightarrow> time \<Rightarrow> limiter" where
  "prune L now =
     (if length (lim_windows L) < 1000 then L
      else L\<lparr>lim_windows := map_keep (\<lambda>k w. \<not> (now - w_start w \<ge> lim_windowMs L)) (lim_windows L)\<rparr>)"

definition hit :: "limiter \<Rightarrow> string \<Rightarrow> time \<Rightarrow> limiter \<times> int option" where
  "hit L key now =
     (let fresh = (prune (L\<lparr>lim_windows := map_set (lim_windows L) key \<lparr>w_start = now, w_count = 1\<rparr>\<rparr>) now, None)
      in case map_get (lim_windows L) key of
           None \<Rightarrow> fresh
         | Some w \<Rightarrow>
             if now - w_start w \<ge> lim_windowMs L then fresh
             else if w_count w \<ge> lim_limit L
               then (L, Some (max 1 (ceil_sec (w_start w + lim_windowMs L - now))))
             else (L\<lparr>lim_windows := map_set (lim_windows L) key (w\<lparr>w_count := w_count w + 1\<rparr>)\<rparr>, None))"

definition new_limiter :: "int \<Rightarrow> int \<Rightarrow> limiter" where
  "new_limiter limit windowMs = \<lparr>lim_limit = limit, lim_windowMs = windowMs, lim_windows = []\<rparr>"

text \<open>A sequence of hits and the answers they get.\<close>

fun hits :: "limiter \<Rightarrow> (string \<times> time) list \<Rightarrow> int option list" where
  "hits L [] = []"
| "hits L ((k, t) # es) = snd (hit L k t) # hits (fst (hit L k t)) es"

section \<open>The abstract limiter\<close>

type_synonym windows = "string \<Rightarrow> window option"

definition spec_hit :: "int \<Rightarrow> int \<Rightarrow> windows \<Rightarrow> string \<Rightarrow> time \<Rightarrow> windows \<times> int option" where
  "spec_hit lim W ws key now =
     (case ws key of
        None \<Rightarrow> (ws(key \<mapsto> \<lparr>w_start = now, w_count = 1\<rparr>), None)
      | Some w \<Rightarrow>
          if now - w_start w \<ge> W then (ws(key \<mapsto> \<lparr>w_start = now, w_count = 1\<rparr>), None)
          else if w_count w \<ge> lim then (ws, Some (max 1 (ceil_sec (w_start w + W - now))))
          else (ws(key \<mapsto> w\<lparr>w_count := w_count w + 1\<rparr>), None))"

fun spec_hits :: "int \<Rightarrow> int \<Rightarrow> windows \<Rightarrow> (string \<times> time) list \<Rightarrow> int option list" where
  "spec_hits lim W ws [] = []"
| "spec_hits lim W ws ((k, t) # es) =
     snd (spec_hit lim W ws k t) # spec_hits lim W (fst (spec_hit lim W ws k t)) es"

text \<open>
  The simulation at time \<open>now\<close>: the class holds the abstract window, or has dropped one that is
  over.
\<close>

definition lim_sim :: "time \<Rightarrow> limiter \<Rightarrow> windows \<Rightarrow> bool" where
  "lim_sim now L ws \<longleftrightarrow> map_ok (lim_windows L) \<and>
     (\<forall>k. map_get (lim_windows L) k = ws k \<or>
          (map_get (lim_windows L) k = None \<and>
           (\<exists>w. ws k = Some w \<and> now - w_start w \<ge> lim_windowMs L)))"

lemma prune_simps [simp]:
  "lim_limit (prune L now) = lim_limit L" "lim_windowMs (prune L now) = lim_windowMs L"
  by (simp_all add: prune_def)

lemma hit_params [simp]:
  "lim_limit (fst (hit L k t)) = lim_limit L" "lim_windowMs (fst (hit L k t)) = lim_windowMs L"
  by (simp_all add: hit_def Let_def split: option.splits)

lemma lim_sim_prune:
  assumes "lim_sim now L ws"
  shows "lim_sim now (prune L now) ws"
  unfolding lim_sim_def
proof (intro conjI allI)
  show "map_ok (lim_windows (prune L now))"
    using assms by (simp add: lim_sim_def prune_def map_ok_keep)
  fix k
  have ok: "map_ok (lim_windows L)" using assms by (simp add: lim_sim_def)
  have k: "map_get (lim_windows L) k = ws k \<or> (map_get (lim_windows L) k = None \<and>
      (\<exists>w. ws k = Some w \<and> now - w_start w \<ge> lim_windowMs L))"
    using assms by (simp add: lim_sim_def)
  then show "map_get (lim_windows (prune L now)) k = ws k \<or>
      (map_get (lim_windows (prune L now)) k = None \<and>
       (\<exists>w. ws k = Some w \<and> now - w_start w \<ge> lim_windowMs (prune L now)))"
    by (cases "ws k") (auto simp: prune_def map_get_keep [OF ok] split: if_splits)
qed

lemma lim_sim_put:
  "lim_sim now L ws \<Longrightarrow> lim_sim now (L\<lparr>lim_windows := map_set (lim_windows L) k w\<rparr>) (ws(k \<mapsto> w))"
  by (auto simp: lim_sim_def jsm.ok_put store_simps)

lemma lim_sim_later: "lim_sim now L ws \<Longrightarrow> now \<le> t \<Longrightarrow> lim_sim t L ws"
  by (fastforce simp: lim_sim_def)

lemma hit_simulates:
  assumes sim: "lim_sim now L ws"
  shows "snd (hit L k now) = snd (spec_hit (lim_limit L) (lim_windowMs L) ws k now)"
    and "lim_sim now (fst (hit L k now)) (fst (spec_hit (lim_limit L) (lim_windowMs L) ws k now))"
proof -
  have *: "map_get (lim_windows L) k = ws k \<or>
      (map_get (lim_windows L) k = None \<and> (\<exists>w. ws k = Some w \<and> now - w_start w \<ge> lim_windowMs L))"
    using sim by (simp add: lim_sim_def)
  show "snd (hit L k now) = snd (spec_hit (lim_limit L) (lim_windowMs L) ws k now)"
    using * by (cases "ws k") (auto simp: hit_def spec_hit_def Let_def)
  show "lim_sim now (fst (hit L k now)) (fst (spec_hit (lim_limit L) (lim_windowMs L) ws k now))"
    using * sim
    by (cases "ws k") (auto simp: hit_def spec_hit_def Let_def intro!: lim_sim_prune lim_sim_put)
qed

lemma hits_spec:
  assumes "lim_sim now L ws" and "sorted (now # map snd es)"
  shows "hits L es = spec_hits (lim_limit L) (lim_windowMs L) ws es"
  using assms
proof (induction es arbitrary: now L ws)
  case Nil
  then show ?case by simp
next
  case (Cons e es)
  obtain k t where e: "e = (k, t)" by force
  have "lim_sim t L ws"
    using Cons.prems e by (auto intro: lim_sim_later)
  note sim = hit_simulates [OF this, of k]
  have "sorted (t # map snd es)" using Cons.prems e by simp
  with Cons.IH [OF sim(2)] sim(1) show ?case by (simp add: e)
qed

lemma lim_sim_new: "lim_sim now (new_limiter lim W) (\<lambda>_. None)"
  by (simp add: lim_sim_def new_limiter_def)

section \<open>The rate bound\<close>

text \<open>How many of the hits on \<open>k\<close> with a time in \<open>[a, a + W)\<close> are allowed.\<close>

fun allowed_in :: "string \<Rightarrow> time \<Rightarrow> int \<Rightarrow> (string \<times> time) list \<Rightarrow> int option list \<Rightarrow> int" where
  "allowed_in k a W ((j, t) # es) (r # rs) =
     (if j = k \<and> a \<le> t \<and> t < a + W \<and> r = None then 1 else 0) + allowed_in k a W es rs"
| "allowed_in k a W _ _ = 0"

text \<open>The room left in \<open>[a, a + W)\<close> given the current window of the key; \<open>m\<close> is \<open>max 1 limit\<close>.\<close>

definition room :: "int \<Rightarrow> int \<Rightarrow> time \<Rightarrow> window option \<Rightarrow> int" where
  "room m W a w =
     (case w of
        None \<Rightarrow> 2 * m
      | Some x \<Rightarrow>
          if a + W \<le> w_start x then 0
          else if a \<le> w_start x then m - w_count x
          else if a < w_start x + W then 2 * m - w_count x
          else 2 * m)"

definition win_ok :: "int \<Rightarrow> time \<Rightarrow> window option \<Rightarrow> bool" where
  "win_ok m now w \<longleftrightarrow>
     (\<forall>x. w = Some x \<longrightarrow> w_start x \<le> now \<and> 1 \<le> w_count x \<and> w_count x \<le> m)"

lemma room_nonneg: "win_ok m now w \<Longrightarrow> 1 \<le> m \<Longrightarrow> 0 \<le> room m W a w"
  by (auto simp: room_def win_ok_def split: option.splits)

lemma room_le: "win_ok m now w \<Longrightarrow> 1 \<le> m \<Longrightarrow> room m W a w \<le> 2 * m"
  by (auto simp: room_def win_ok_def split: option.splits)

lemma spec_hit_other: "j \<noteq> k \<Longrightarrow> fst (spec_hit lim W ws j t) k = ws k"
  by (auto simp: spec_hit_def split: option.splits)

lemma spec_hit_win_ok:
  assumes "win_ok (max 1 lim) now (ws k)" and "now \<le> t"
  shows "win_ok (max 1 lim) t (fst (spec_hit lim W ws j t) k)"
  using assms by (auto simp: win_ok_def spec_hit_def split: option.splits if_splits)

lemma spec_hit_room:
  assumes "win_ok (max 1 lim) now (ws k)" and "now \<le> t" and "0 < W"
  shows "(if a \<le> t \<and> t < a + W \<and> snd (spec_hit lim W ws k t) = None then 1 else 0)
    + room (max 1 lim) W a (fst (spec_hit lim W ws k t) k) \<le> room (max 1 lim) W a (ws k)"
  using assms
  by (auto simp: win_ok_def spec_hit_def room_def split: option.splits if_splits)

lemma allowed_le_room:
  assumes "win_ok (max 1 lim) now (ws k)" and "sorted (now # map snd es)" and "0 < W"
  shows "allowed_in k a W es (spec_hits lim W ws es) \<le> room (max 1 lim) W a (ws k)"
  using assms
proof (induction es arbitrary: now ws)
  case Nil
  then show ?case by (auto intro: room_nonneg)
next
  case (Cons e es)
  obtain j t where e: "e = (j, t)" by force
  let ?ws = "fst (spec_hit lim W ws j t)"
  have t: "now \<le> t" and s: "sorted (t # map snd es)" using Cons.prems e by auto
  have "win_ok (max 1 lim) t (?ws k)" using Cons.prems(1) t by (rule spec_hit_win_ok)
  then have IH: "allowed_in k a W es (spec_hits lim W ?ws es) \<le> room (max 1 lim) W a (?ws k)"
    using s Cons.prems(3) by (rule Cons.IH)
  show ?case
  proof (cases "j = k")
    case True
    have "(if a \<le> t \<and> t < a + W \<and> snd (spec_hit lim W ws k t) = None then 1 else 0)
        + room (max 1 lim) W a (fst (spec_hit lim W ws k t) k) \<le> room (max 1 lim) W a (ws k)"
      using Cons.prems(1) t Cons.prems(3) by (rule spec_hit_room)
    with IH True show ?thesis by (simp add: e)
  next
    case False
    with IH show ?thesis by (simp add: e spec_hit_other)
  qed
qed

lemma hit_Some_iff:
  "snd (hit L k now) = Some r \<longleftrightarrow>
     (\<exists>w. map_get (lim_windows L) k = Some w \<and> \<not> lim_windowMs L \<le> now - w_start w \<and>
          lim_limit L \<le> w_count w \<and> r = max 1 (ceil_sec (w_start w + lim_windowMs L - now)))"
  by (cases "map_get (lim_windows L) k") (auto simp: hit_def Let_def)

section \<open>Properties\<close>



text \<open>
  whatever the interleaving of keys, at most twice the limit of a key's hits are allowed in any
  half-open interval as long as the window.
\<close>

theorem limiter_rate_bound:
  assumes "sorted (map snd es)" and "0 < W"
  shows "allowed_in k a W es (hits (new_limiter lim W) es) \<le> 2 * max 1 lim"
proof (cases es)
  case Nil
  then show ?thesis by simp
next
  case (Cons e rest)
  have s: "sorted (snd e # map snd es)" using assms(1) Cons by simp
  have w: "win_ok (max 1 lim) (snd e) None" by (simp add: win_ok_def)
  have eq: "hits (new_limiter lim W) es = spec_hits lim W (\<lambda>_. None) es"
    using hits_spec [OF lim_sim_new s, of lim W] by (simp add: new_limiter_def)
  have "allowed_in k a W es (spec_hits lim W (\<lambda>_. None) es) \<le> room (max 1 lim) W a None"
    using allowed_le_room [where ws = "\<lambda>_. None", OF _ s assms(2)] w by simp
  also have "\<dots> \<le> 2 * max 1 lim" by (rule room_le [OF w]) simp
  finally show ?thesis by (simp add: eq)
qed

theorem limiter_rate_bound_witness:
  "allowed_in ''a'' 0 100 [(''a'', 0), (''a'', 99), (''a'', 99)]
     (hits (new_limiter 2 100) [(''a'', 0), (''a'', 99), (''a'', 99)]) \<le> 4"
  using limiter_rate_bound [of "[(''a'', 0), (''a'', 99), (''a'', 99)]" 100 "''a''" 0 2] by simp

text \<open>
  the seconds a refused caller is told to wait are at least one, and a hit that many seconds
  later (the window untouched in between) is allowed.
\<close>

theorem limiter_retry_after:
  assumes "snd (hit L k now) = Some r"
  shows "1 \<le> r \<and> fst (hit L k now) = L \<and> snd (hit L k (now + 1000 * r)) = None"
proof -
  from assms obtain w where w: "map_get (lim_windows L) k = Some w"
    and "\<not> lim_windowMs L \<le> now - w_start w" and c: "lim_limit L \<le> w_count w"
    and r: "r = max 1 (ceil_sec (w_start w + lim_windowMs L - now))"
    unfolding hit_Some_iff by blast
  let ?x = "w_start w + lim_windowMs L - now"
  have "?x \<le> 1000 * ceil_sec ?x" by (rule ceil_sec_ge)
  also have "\<dots> \<le> 1000 * r" by (simp add: r)
  finally have "lim_windowMs L \<le> now + 1000 * r - w_start w" by simp
  with w have "snd (hit L k (now + 1000 * r)) = None" by (simp add: hit_def)
  moreover have "fst (hit L k now) = L"
    using w(1) assms by (simp add: hit_def Let_def split: if_splits)
  ultimately show ?thesis by (simp add: r)
qed

theorem limiter_retry_after_witness:
  "snd (hit (fst (hit (new_limiter 1 5000) ''a'' 0)) ''a'' 1) = Some 5 \<and>
   snd (hit (fst (hit (new_limiter 1 5000) ''a'' 0)) ''a'' 5001) = None"
proof -
  have h: "snd (hit (fst (hit (new_limiter 1 5000) ''a'' 0)) ''a'' 1) = Some 5"
    by (simp add: hit_def new_limiter_def prune_def map_get_def map_set_def ceil_sec_def)
  show ?thesis using h limiter_retry_after [OF h] by simp
qed

end
