(* ===== verification/Ip_Policy.thy ===== *)
theory Ip_Policy
  imports Cerebro_Prelude "HOL-Library.Word"
begin

unbundle bit_operations_syntax

text \<open>
  Source-address policies: \<^verbatim>\<open>auth/local-login-policy.ts\<close> (who may sign in with a password) and
  \<^verbatim>\<open>common/ip-allowlist.ts\<close> (which addresses a machine client may call from).

  Both rest on two pieces of Node's \<^verbatim>\<open>net\<close> module, modelled first: \<^verbatim>\<open>isIP\<close> (the textual forms of
  IPv4 and IPv6 addresses) and \<^verbatim>\<open>BlockList\<close> (a list of subnets with a membership test). An IPv4
  address is compared as the IPv6 address \<open>::ffff:a.b.c.d\<close>, as \<^verbatim>\<open>BlockList\<close> documents.
\<close>

section \<open>Node: the textual forms of addresses\<close>

definition v4seg :: "string \<Rightarrow> int option" where
  "v4seg s =
     (if all_digits s \<and> length s \<le> 3 \<and> (length s = 1 \<or> hd s \<noteq> CHR ''0'') \<and> read_nat s \<le> 255
      then Some (int (read_nat s)) else None)"

definition parse_v4 :: "string \<Rightarrow> int option" where
  "parse_v4 s =
     (case split_on CHR ''.'' s of
        [a, b, c, d] \<Rightarrow>
          (case (v4seg a, v4seg b, v4seg c, v4seg d) of
             (Some a', Some b', Some c', Some d') \<Rightarrow> Some (((a' * 256 + b') * 256 + c') * 256 + d')
           | _ \<Rightarrow> None)
      | _ \<Rightarrow> None)"

definition hex_val :: "char \<Rightarrow> int option" where
  "hex_val c =
     (if is_digit c then Some (int (digit_val c))
      else if 97 \<le> code_of c \<and> code_of c \<le> 102 then Some (int (code_of c - 87))
      else if 65 \<le> code_of c \<and> code_of c \<le> 70 then Some (int (code_of c - 55))
      else None)"

fun hex_acc :: "int \<Rightarrow> string \<Rightarrow> int option" where
  "hex_acc a [] = Some a"
| "hex_acc a (c # s) = (case hex_val c of None \<Rightarrow> None | Some v \<Rightarrow> hex_acc (16 * a + v) s)"

definition v6seg :: "string \<Rightarrow> int option" where
  "v6seg s = (if s \<noteq> [] \<and> length s \<le> 4 then hex_acc 0 s else None)"

text \<open>The 16-bit groups of colon-separated parts; only the last part may be dotted IPv4.\<close>

fun v6_groups :: "bool \<Rightarrow> string list \<Rightarrow> int list option" where
  "v6_groups v4 [] = Some []"
| "v6_groups v4 (x # xs) =
     (if xs = [] \<and> v4 \<and> CHR ''.'' \<in> set x
      then (case parse_v4 x of None \<Rightarrow> None | Some n \<Rightarrow> Some [n div 65536, n mod 65536])
      else (case (v6seg x, v6_groups v4 xs) of (Some g, Some gs) \<Rightarrow> Some (g # gs) | _ \<Rightarrow> None))"

fun split_dcolon :: "string \<Rightarrow> (string \<times> string) option" where
  "split_dcolon (c # d # s) =
     (if c = CHR '':'' \<and> d = CHR '':'' then Some ([], s)
      else map_option (\<lambda>(l, r). (c # l, r)) (split_dcolon (d # s)))"
| "split_dcolon _ = None"

definition colon_parts :: "string \<Rightarrow> string list" where
  "colon_parts s = (if s = [] then [] else split_on CHR '':'' s)"

definition v6_body :: "string \<Rightarrow> int list option" where
  "v6_body s =
     (case split_dcolon s of
        None \<Rightarrow>
          (case v6_groups True (split_on CHR '':'' s) of
             Some gs \<Rightarrow> if length gs = 8 then Some gs else None
           | None \<Rightarrow> None)
      | Some (l, r) \<Rightarrow>
          (case (v6_groups False (colon_parts l), v6_groups True (colon_parts r)) of
             (Some a, Some b) \<Rightarrow>
               if length a + length b \<le> 7
               then Some (a @ replicate (8 - (length a + length b)) 0 @ b) else None
           | _ \<Rightarrow> None))"

definition zone_char :: "char \<Rightarrow> bool" where
  "zone_char c \<longleftrightarrow> is_digit c \<or> is_alpha c \<or> c = CHR ''-'' \<or> c = CHR ''.'' \<or> c = CHR '':''"

definition parse_v6 :: "string \<Rightarrow> int option" where
  "parse_v6 s =
     (let body = takeWhile (\<lambda>c. c \<noteq> CHR ''%'') s; zone = dropWhile (\<lambda>c. c \<noteq> CHR ''%'') s
      in if zone = [] \<or> (length zone \<ge> 2 \<and> list_all zone_char (tl zone))
         then map_option (foldl (\<lambda>a g. a * 65536 + g) 0) (v6_body body) else None)"

definition isIP :: "string \<Rightarrow> nat" where
  "isIP s = (if parse_v4 s \<noteq> None then 4 else if parse_v6 s \<noteq> None then 6 else 0)"

text \<open>The 128-bit value an address is compared by.\<close>

definition addr_bits :: "string \<Rightarrow> 128 word option" where
  "addr_bits s =
     (case parse_v4 s of
        Some n \<Rightarrow> Some (word_of_int (65535 * 2 ^ 32 + n))
      | None \<Rightarrow> map_option word_of_int (parse_v6 s))"

section \<open>Node: block lists\<close>

datatype ip_family = Ipv4 | Ipv6

datatype net_error = InvalidAddress string | OutOfRange nat

type_synonym block_list = "(128 word \<times> nat) list"

definition family_bits :: "ip_family \<Rightarrow> nat" where
  "family_bits f = (case f of Ipv4 \<Rightarrow> 32 | Ipv6 \<Rightarrow> 128)"

definition family_of :: "string \<Rightarrow> ip_family option" where
  "family_of a = (if isIP a = 4 then Some Ipv4 else if isIP a = 6 then Some Ipv6 else None)"

definition addSubnet :: "block_list \<Rightarrow> string \<Rightarrow> nat \<Rightarrow> ip_family \<Rightarrow> net_error + block_list" where
  "addSubnet bl a prefix f =
     (if family_of a \<noteq> Some f then Inl (InvalidAddress a)
      else if prefix > family_bits f then Inl (OutOfRange prefix)
      else case addr_bits a of
             None \<Rightarrow> Inl (InvalidAddress a)
           | Some w \<Rightarrow> Inr (bl @ [(w, prefix + (128 - family_bits f))]))"

definition addAddress :: "block_list \<Rightarrow> string \<Rightarrow> ip_family \<Rightarrow> net_error + block_list" where
  "addAddress bl a f = addSubnet bl a (family_bits f) f"

definition same_prefix :: "nat \<Rightarrow> 128 word \<Rightarrow> 128 word \<Rightarrow> bool" where
  "same_prefix p x y \<longleftrightarrow> drop_bit (128 - p) x = drop_bit (128 - p) y"

definition bl_check :: "block_list \<Rightarrow> string \<Rightarrow> bool" where
  "bl_check bl a =
     (case addr_bits a of
        None \<Rightarrow> False
      | Some w \<Rightarrow> list_ex (\<lambda>(n, p). same_prefix p w n) bl)"

section \<open>The password sign-in policy\<close>

record local_login_policy =
  pol_enabled :: bool
  pol_allowedCidrs :: "string list"

definition DEFAULT_LOCAL_LOGIN_POLICY :: local_login_policy where
  "DEFAULT_LOCAL_LOGIN_POLICY = \<lparr>pol_enabled = True, pol_allowedCidrs = []\<rparr>"

text \<open>\<^verbatim>\<open>/^\d+\.\d+\.\d+\.\d+$/\<close>.\<close>

definition dotted :: "string \<Rightarrow> bool" where
  "dotted s \<longleftrightarrow> (let ps = split_on CHR ''.'' s in length ps = 4 \<and> list_all all_digits ps)"

definition strip_mapped :: "string \<Rightarrow> string" where
  "strip_mapped s =
     (if to_lower (take 7 s) = ''::ffff:'' \<and> dotted (drop 7 s) then drop 7 s else s)"

definition normalizeIp :: "string option \<Rightarrow> string option" where
  "normalizeIp ip =
     (case ip of
        None \<Rightarrow> None
      | Some s \<Rightarrow>
          if s = [] then None
          else let v = strip_mapped (trim s) in if isIP v \<noteq> 0 then Some v else None)"

record cidr =
  c_address :: string
  c_prefix :: nat
  c_family :: ip_family
  c_text :: string

text \<open>The dash of the range in the message is U+2013, three bytes in UTF-8.\<close>

definition en_dash :: string where
  "en_dash = [CHR 0xE2, CHR 0x80, CHR 0x93]"

definition parseCidr :: "string \<Rightarrow> string + cidr" where
  "parseCidr entry =
     (let raw = trim entry;
          parts = split_on CHR ''/'' raw;
          prefixPart = (case parts of _ # p # _ \<Rightarrow> Some p | _ \<Rightarrow> None);
          notIp = Inl (''\"'' @ raw @ ''\" is not an IP address or CIDR range.'')
      in case normalizeIp (Some (hd parts)) of
           None \<Rightarrow> notIp
         | Some address \<Rightarrow>
             if length parts > 2 then notIp
             else
               (let family = (if isIP address = 4 then Ipv4 else Ipv6);
                    mx = family_bits family
                in case prefixPart of
                     None \<Rightarrow> Inr \<lparr>c_address = address, c_prefix = mx, c_family = family,
                                  c_text = address @ ''/'' @ show_nat mx\<rparr>
                   | Some p \<Rightarrow>
                       if \<not> all_digits p \<or> read_nat p > mx
                       then Inl (''\"'' @ raw @ ''\" has an invalid prefix length (0'' @ en_dash @ show_nat mx @ '').'')
                       else Inr \<lparr>c_address = address, c_prefix = read_nat p, c_family = family,
                                 c_text = address @ ''/'' @ show_nat (read_nat p)\<rparr>))"

fun normalizeCidrs_acc :: "string list \<Rightarrow> string list \<Rightarrow> string + string list" where
  "normalizeCidrs_acc out [] = Inr out"
| "normalizeCidrs_acc out (e # es) =
     (if trim e = [] then normalizeCidrs_acc out es
      else case parseCidr e of
             Inl err \<Rightarrow> Inl err
           | Inr c \<Rightarrow> normalizeCidrs_acc (if c_text c \<in> set out then out else out @ [c_text c]) es)"

definition normalizeCidrs :: "string list \<Rightarrow> string + string list" where
  "normalizeCidrs entries = normalizeCidrs_acc [] entries"

text \<open>The strings of a JSON array (the filter with the type guard).\<close>

fun json_strings :: "json list \<Rightarrow> string list" where
  "json_strings [] = []"
| "json_strings (JStr s # vs) = s # json_strings vs"
| "json_strings (_ # vs) = json_strings vs"

definition coercePolicy :: "json \<Rightarrow> local_login_policy" where
  "coercePolicy value =
     (case value of
        JObj ob \<Rightarrow>
          (let cidrs = (case obj_get ob ''allowedCidrs'' of JArr vs \<Rightarrow> json_strings vs | _ \<Rightarrow> []);
               valid = filter (\<lambda>c. case parseCidr c of Inl _ \<Rightarrow> False | Inr _ \<Rightarrow> True) cidrs
           in \<lparr>pol_enabled = (obj_get ob ''enabled'' \<noteq> JBool False), pol_allowedCidrs = valid\<rparr>)
      | JArr _ \<Rightarrow> \<lparr>pol_enabled = True, pol_allowedCidrs = []\<rparr>
      | _ \<Rightarrow> DEFAULT_LOCAL_LOGIN_POLICY)"

text \<open>What \<open>isIpAllowed\<close> can throw: an entry \<open>parseCidr\<close> refuses, or an error of the block list.\<close>

datatype policy_error = BadEntry string | NetError net_error

fun policy_list :: "block_list \<Rightarrow> string list \<Rightarrow> policy_error + block_list" where
  "policy_list bl [] = Inr bl"
| "policy_list bl (c # cs) =
     (case parseCidr c of
        Inl e \<Rightarrow> Inl (BadEntry e)
      | Inr r \<Rightarrow>
          (case addSubnet bl (c_address r) (c_prefix r) (c_family r) of
             Inl e \<Rightarrow> Inl (NetError e)
           | Inr bl' \<Rightarrow> policy_list bl' cs))"

definition isIpAllowed :: "local_login_policy \<Rightarrow> string option \<Rightarrow> policy_error + bool" where
  "isIpAllowed policy ip =
     (if \<not> pol_enabled policy then Inr False
      else if pol_allowedCidrs policy = [] then Inr True
      else case normalizeIp ip of
             None \<Rightarrow> Inr False
           | Some addr \<Rightarrow>
               (case policy_list [] (pol_allowedCidrs policy) of
                  Inl e \<Rightarrow> Inl e
                | Inr bl \<Rightarrow> Inr (bl_check bl addr)))"

section \<open>The allowlist of a machine client\<close>

definition ellipsis :: string where
  "ellipsis = [CHR 0xE2, CHR 0x80, CHR 0xA6]"

fun cleanIp_acc :: "string list \<Rightarrow> json list \<Rightarrow> string + string list" where
  "cleanIp_acc out [] = Inr out"
| "cleanIp_acc out (raw # rest) =
     (let entry = trim (case raw of JUndef \<Rightarrow> [] | JNull \<Rightarrow> [] | v \<Rightarrow> js_string v)
      in if entry = [] then cleanIp_acc out rest
         else if length entry > 64
           then Inl (''\"'' @ take 64 entry @ ellipsis @ ''\" is not an IP address or CIDR range.'')
         else
           (let parts = split_on CHR ''/'' entry;
                family = isIP (hd parts);
                mx = (if family = 4 then 32 else 128);
                okBits = (case parts of
                            _ # b # _ \<Rightarrow> all_digits b \<and> length b \<le> 3 \<and> read_nat b \<le> mx
                          | _ \<Rightarrow> True)
            in if family = 0 \<or> length parts > 2 \<or> \<not> okBits
               then Inl (''\"'' @ entry @ ''\" is not an IP address or CIDR range.'')
               else cleanIp_acc (out @ [entry]) rest))"

definition cleanIpAllowlist :: "json \<Rightarrow> string + string list" where
  "cleanIpAllowlist entries =
     (case entries of
        JArr vs \<Rightarrow>
          (case cleanIp_acc [] vs of
             Inl e \<Rightarrow> Inl e
           | Inr out \<Rightarrow> if length out > 100 then Inl ''At most 100 IP allowlist entries.'' else Inr (uniq out))
      | _ \<Rightarrow> Inl ''The IP allowlist must be a list.'')"

fun allow_list :: "block_list \<Rightarrow> string list \<Rightarrow> net_error + block_list" where
  "allow_list bl [] = Inr bl"
| "allow_list bl (e # es) =
     (let parts = split_on CHR ''/'' e;
          a = hd parts;
          f = (if isIP a = 6 then Ipv6 else Ipv4);
          r = (case parts of _ # b # _ \<Rightarrow> addSubnet bl a (read_nat b) f | _ \<Rightarrow> addAddress bl a f)
      in case r of Inl err \<Rightarrow> Inl err | Inr bl' \<Rightarrow> allow_list bl' es)"

definition ipAllowed :: "string list \<Rightarrow> string option \<Rightarrow> net_error + bool" where
  "ipAllowed entries ip =
     (if entries = [] then Inr True
      else case ip of
             None \<Rightarrow> Inr False
           | Some s \<Rightarrow>
               if s = [] then Inr False
               else
                 (let addr = (if starts_with s ''::ffff:'' \<and> isIP (drop 7 s) = 4 then drop 7 s else s)
                  in if isIP addr = 0 then Inr False
                     else case allow_list [] entries of
                            Inl e \<Rightarrow> Inl e
                          | Inr bl \<Rightarrow> Inr (bl_check bl addr)))"

section \<open>Lemmas: the characters of an address\<close>

definition ip_char :: "char \<Rightarrow> bool" where
  "ip_char c \<longleftrightarrow> zone_char c \<or> c = CHR ''%''"

lemma set_split_on: "set s \<subseteq> insert c (\<Union> (set ` set (split_on c s)))"
proof (induction s)
  case Nil
  then show ?case by simp
next
  case (Cons x xs)
  obtain y ys where "split_on c xs = y # ys" by (cases "split_on c xs") auto
  with Cons show ?case by auto
qed

lemma v4seg_chars: "v4seg s = Some n \<Longrightarrow> list_all is_digit s"
  by (auto simp: v4seg_def all_digits_def split: if_splits)

lemma digit_ip_char: "is_digit c \<Longrightarrow> ip_char c"
  by (simp add: ip_char_def zone_char_def)

lemma parse_v4_segs:
  assumes "parse_v4 s = Some n"
  obtains a b c d where "split_on CHR ''.'' s = [a, b, c, d]"
    and "list_all all_digits [a, b, c, d]"
  using assms
  by (auto simp: parse_v4_def v4seg_def split: list.splits option.splits if_splits)

lemma parse_v4_chars:
  assumes "parse_v4 s = Some n" and "x \<in> set s"
  shows "is_digit x \<or> x = CHR ''.''"
proof -
  from assms(1) obtain a b c d where "split_on CHR ''.'' s = [a, b, c, d]"
    and "list_all all_digits [a, b, c, d]" by (rule parse_v4_segs)
  with set_split_on [of s "CHR ''.''"] assms(2) show ?thesis
    by (auto simp: all_digits_def list_all_iff)
qed

lemma parse_v4_dotted:
  assumes "parse_v4 s = Some n"
  shows "dotted s"
proof -
  from assms obtain a b c d where "split_on CHR ''.'' s = [a, b, c, d]"
    and "list_all all_digits [a, b, c, d]" by (rule parse_v4_segs)
  then show ?thesis by (simp add: dotted_def)
qed

lemma hex_val_char: "hex_val c = Some v \<Longrightarrow> ip_char c"
  by (auto simp: hex_val_def ip_char_def zone_char_def is_alpha_def is_upper_def is_lower_def
      split: if_splits)

lemma hex_acc_chars: "hex_acc a s = Some v \<Longrightarrow> x \<in> set s \<Longrightarrow> ip_char x"
  by (induction a s rule: hex_acc.induct) (auto dest: hex_val_char split: option.splits)

lemma v6_groups_chars:
  "v6_groups v4 ps = Some gs \<Longrightarrow> p \<in> set ps \<Longrightarrow> x \<in> set p \<Longrightarrow> ip_char x"
proof (induction v4 ps arbitrary: gs rule: v6_groups.induct)
  case (1 v4)
  then show ?case by simp
next
  case (2 v4 y ys)
  show ?case
  proof (cases "ys = [] \<and> v4 \<and> CHR ''.'' \<in> set y")
    case True
    with 2(2,3) obtain n where "parse_v4 y = Some n" and "p = y"
      by (auto split: option.splits)
    with 2(4) parse_v4_chars show ?thesis
      by (auto simp: ip_char_def zone_char_def)
  next
    case False
    with 2(2) obtain g hs where "v6seg y = Some g" and h: "v6_groups v4 ys = Some hs"
      by (simp split: option.splits)
    then have "\<forall>x \<in> set y. ip_char x"
      by (auto simp: v6seg_def dest: hex_acc_chars split: if_splits)
    with 2(1) [OF False h] 2(3,4) show ?thesis by auto
  qed
qed

lemma colon_ip_char: "ip_char CHR '':''"
  by (simp add: ip_char_def zone_char_def)

lemma split_dcolon_set: "split_dcolon s = Some (l, r) \<Longrightarrow> set s \<subseteq> insert CHR '':'' (set l \<union> set r)"
  by (induction s arbitrary: l rule: split_dcolon.induct) (auto split: if_splits)

lemma colon_parts_set: "x \<in> set s \<Longrightarrow> x = CHR '':'' \<or> (\<exists>p \<in> set (colon_parts s). x \<in> set p)"
  using set_split_on [of s "CHR '':''"] by (auto simp: colon_parts_def)

lemma v6_body_chars:
  assumes "v6_body s = Some gs" and "x \<in> set s"
  shows "ip_char x"
proof (cases "split_dcolon s")
  case None
  with assms(1) obtain hs where "v6_groups True (split_on CHR '':'' s) = Some hs"
    by (auto simp: v6_body_def split: option.splits)
  with assms(2) set_split_on [of s "CHR '':''"] show ?thesis
    by (auto dest: v6_groups_chars intro: colon_ip_char)
next
  case (Some lr)
  obtain l r where lr: "lr = (l, r)" by force
  with Some assms(1) obtain a b where a: "v6_groups False (colon_parts l) = Some a"
    and b: "v6_groups True (colon_parts r) = Some b"
    by (auto simp: v6_body_def split: option.splits)
  from Some lr have "set s \<subseteq> insert CHR '':'' (set l \<union> set r)"
    using split_dcolon_set by blast
  with assms(2) have "x = CHR '':'' \<or> x \<in> set l \<or> x \<in> set r" by blast
  then have "x = CHR '':'' \<or> (\<exists>q \<in> set (colon_parts l) \<union> set (colon_parts r). x \<in> set q)"
    using colon_parts_set [of x l] colon_parts_set [of x r] by blast
  then show ?thesis
    using v6_groups_chars [OF a] v6_groups_chars [OF b] colon_ip_char by blast
qed

lemma parse_v6_chars:
  assumes "parse_v6 s = Some n" and "x \<in> set s"
  shows "ip_char x"
proof -
  let ?b = "takeWhile (\<lambda>c. c \<noteq> CHR ''%'') s" and ?z = "dropWhile (\<lambda>c. c \<noteq> CHR ''%'') s"
  from assms(1) have z: "?z = [] \<or> list_all zone_char (tl ?z)" and b: "\<exists>gs. v6_body ?b = Some gs"
    by (auto simp: parse_v6_def Let_def split: if_splits)
  from assms(2) have "x \<in> set ?b \<or> x \<in> set ?z"
    by (metis Un_iff set_append takeWhile_dropWhile_id)
  then show ?thesis
  proof
    assume "x \<in> set ?b"
    with b show ?thesis by (auto dest: v6_body_chars)
  next
    assume x: "x \<in> set ?z"
    then have ne: "?z \<noteq> []" by (metis empty_iff list.set(1))
    from hd_dropWhile [OF ne] have "hd ?z = CHR ''%''" by simp
    with x z ne show ?thesis
      by (cases ?z) (auto simp: ip_char_def list_all_iff)
  qed
qed

lemma isIP_chars: "isIP s \<noteq> 0 \<Longrightarrow> x \<in> set s \<Longrightarrow> ip_char x"
  by (auto simp: isIP_def ip_char_def zone_char_def dest: parse_v4_chars parse_v6_chars split: if_splits)

lemma ip_char_not: "ip_char c \<Longrightarrow> \<not> is_space c \<and> c \<noteq> CHR ''/''"
  by (auto simp: ip_char_def zone_char_def str_simps)

lemma isIP_nonempty: "isIP s \<noteq> 0 \<Longrightarrow> s \<noteq> []"
  by (rule notI) (simp add: isIP_def parse_v4_def parse_v6_def v6_body_def v6seg_def)

lemma isIP_addr_bits: "isIP s \<noteq> 0 \<Longrightarrow> \<exists>w. addr_bits s = Some w"
  by (auto simp: isIP_def addr_bits_def split: option.splits if_splits)

section \<open>Lemmas: canonical entries\<close>

lemma strip_mapped_stable:
  assumes "v = strip_mapped s"
  shows "strip_mapped v = v"
proof (cases "to_lower (take 7 s) = ''::ffff:'' \<and> dotted (drop 7 s)")
  case False
  then have "strip_mapped s = s" unfolding strip_mapped_def by (rule if_not_P)
  with assms show ?thesis by simp
next
  case True
  with assms have v: "v = drop 7 s" by (simp add: strip_mapped_def)
  have "dotted v" using True v by blast
  then obtain y ys where y: "split_on CHR ''.'' v = y # ys" and d: "all_digits y"
    by (cases "split_on CHR ''.'' v") (auto simp: dotted_def Let_def)
  then obtain c cs where "v = c # cs" and "is_digit c"
    by (cases v) (auto simp: all_digits_def split: if_splits list.splits)
  then have "to_lower (take 7 v) \<noteq> ''::ffff:''"
    by (cases "is_upper c") (auto simp: str_simps)
  then show ?thesis by (simp add: strip_mapped_def)
qed

lemma normalizeIp_isIP: "normalizeIp ip = Some a \<Longrightarrow> isIP a \<noteq> 0"
  by (auto simp: normalizeIp_def Let_def split: option.splits if_splits)

lemma normalizeIp_stable:
  assumes "normalizeIp ip = Some a"
  shows "normalizeIp (Some a) = Some a"
proof -
  have a: "isIP a \<noteq> 0" using assms by (rule normalizeIp_isIP)
  from assms obtain s where "a = strip_mapped (trim s)"
    by (auto simp: normalizeIp_def Let_def split: option.splits if_splits)
  then have "strip_mapped a = a" by (rule strip_mapped_stable)
  moreover have "trim a = a" using isIP_chars [OF a] ip_char_not by (blast intro: trim_id)
  ultimately show ?thesis using a isIP_nonempty [OF a] by (simp add: normalizeIp_def)
qed

lemma parseCidr_Inr:
  assumes "parseCidr e = Inr c"
  shows "normalizeIp (Some (c_address c)) = Some (c_address c)"
    and "c_family c = (if isIP (c_address c) = 4 then Ipv4 else Ipv6)"
    and "c_prefix c \<le> family_bits (c_family c)"
    and "c_text c = c_address c @ ''/'' @ show_nat (c_prefix c)"
  using assms
  by (auto simp: parseCidr_def Let_def dest: normalizeIp_stable split: option.splits if_splits)

lemma show_nat_chars: "x \<in> set (show_nat n) \<Longrightarrow> is_digit x"
  using show_nat_digits [of n] by (auto simp: all_digits_def list_all_iff)

lemma digit_not: "is_digit c \<Longrightarrow> \<not> is_space c \<and> c \<noteq> CHR ''/''"
  by (auto simp: str_simps)

lemma parseCidr_text:
  assumes "parseCidr e = Inr c"
  shows "parseCidr (c_text c) = Inr c"
proof -
  note c = parseCidr_Inr [OF assms]
  let ?a = "c_address c" and ?p = "show_nat (c_prefix c)"
  have ip: "isIP ?a \<noteq> 0" using c(1) by (rule normalizeIp_isIP)
  have a: "\<not> is_space x \<and> x \<noteq> CHR ''/''" if "x \<in> set ?a" for x
    using isIP_chars [OF ip that] by (rule ip_char_not)
  have p: "\<not> is_space x \<and> x \<noteq> CHR ''/''" if "x \<in> set ?p" for x
    using show_nat_chars [OF that] by (rule digit_not)
  have slash: "\<not> is_space CHR ''/''" by (simp add: str_simps)
  have t: "trim (?a @ ''/'' @ ?p) = ?a @ ''/'' @ ?p"
    by (rule trim_id) (use a p slash in auto)
  have "CHR ''/'' \<notin> set ?a" and "CHR ''/'' \<notin> set ?p" using a p by blast+
  then have s: "split_on CHR ''/'' (?a @ ''/'' @ ?p) = [?a, ?p]"
    by (simp add: split_on_append split_on_none)
  have "parseCidr (?a @ ''/'' @ ?p) = Inr \<lparr>c_address = ?a, c_prefix = c_prefix c,
      c_family = c_family c, c_text = ?a @ ''/'' @ ?p\<rparr>"
    using c(1,2,3) show_nat_digits [of "c_prefix c"]
    by (simp add: parseCidr_def Let_def t [simplified] s [simplified] read_show_nat split: if_splits)
  with c(4) show ?thesis by (cases c) simp
qed

lemma parseCidr_blank: "parseCidr e = Inr c \<Longrightarrow> trim (c_text c) \<noteq> []"
  using parseCidr_text [of e c]
  by (auto simp: parseCidr_def Let_def normalizeIp_def split: option.splits if_splits)

definition canonical :: "string \<Rightarrow> bool" where
  "canonical t \<longleftrightarrow> (\<exists>c. parseCidr t = Inr c \<and> c_text c = t)"

lemma canonical_text: "parseCidr e = Inr c \<Longrightarrow> canonical (c_text c)"
  using parseCidr_text canonical_def by blast

lemma normalizeCidrs_acc_canonical:
  "normalizeCidrs_acc out es = Inr ys \<Longrightarrow> distinct out \<Longrightarrow> list_all canonical out \<Longrightarrow>
     distinct ys \<and> list_all canonical ys"
  by (induction out es rule: normalizeCidrs_acc.induct)
    (auto split: if_splits sum.splits intro: canonical_text)

lemma normalizeCidrs_acc_id:
  assumes "list_all canonical ys" and "distinct (out @ ys)"
  shows "normalizeCidrs_acc out ys = Inr (out @ ys)"
  using assms
proof (induction ys arbitrary: out)
  case Nil
  then show ?case by simp
next
  case (Cons y ys)
  then obtain c where c: "parseCidr y = Inr c" "c_text c = y" by (auto simp: canonical_def)
  have "trim y \<noteq> []" using parseCidr_blank [OF c(1)] c(2) by simp
  with c Cons show ?case by auto
qed

section \<open>Lemmas: the decision\<close>

definition rule_of :: "cidr \<Rightarrow> 128 word \<times> nat" where
  "rule_of c = (case addr_bits (c_address c) of None \<Rightarrow> (0, 0)
     | Some w \<Rightarrow> (w, c_prefix c + (128 - family_bits (c_family c))))"

definition entry_rule :: "string \<Rightarrow> 128 word \<times> nat" where
  "entry_rule e = (case parseCidr e of Inl _ \<Rightarrow> (0, 0) | Inr c \<Rightarrow> rule_of c)"

lemma addSubnet_ok:
  assumes "parseCidr e = Inr c"
  shows "addSubnet bl (c_address c) (c_prefix c) (c_family c) = Inr (bl @ [rule_of c])"
proof -
  note c = parseCidr_Inr [OF assms]
  have ip: "isIP (c_address c) \<noteq> 0" using c(1) by (rule normalizeIp_isIP)
  then obtain w where "addr_bits (c_address c) = Some w" using isIP_addr_bits by blast
  with c(2,3) ip show ?thesis
    by (auto simp: addSubnet_def family_of_def rule_of_def isIP_def split: if_splits)
qed

lemma policy_list_ok:
  assumes "list_all (\<lambda>e. \<exists>c. parseCidr e = Inr c) es"
  shows "policy_list bl es = Inr (bl @ map entry_rule es)"
  using assms
  by (induction es arbitrary: bl) (auto simp: addSubnet_ok entry_rule_def)

lemma coercePolicy_entries: "list_all (\<lambda>e. \<exists>c. parseCidr e = Inr c) (pol_allowedCidrs (coercePolicy v))"
  by (cases v) (auto simp: coercePolicy_def DEFAULT_LOCAL_LOGIN_POLICY_def Let_def list_all_iff split: sum.splits)

lemma same_prefix_bits:
  "same_prefix p x y \<longleftrightarrow> (\<forall>i. 128 - p \<le> i \<and> i < 128 \<longrightarrow> bit x i = bit y i)"
proof
  assume *: "same_prefix p x y"
  show "\<forall>i. 128 - p \<le> i \<and> i < 128 \<longrightarrow> bit x i = bit y i"
  proof (intro allI impI)
    fix i
    assume "128 - p \<le> i \<and> i < 128"
    then have i: "i = 128 - p + (i - (128 - p))" by simp
    have "bit (drop_bit (128 - p) x) (i - (128 - p)) = bit (drop_bit (128 - p) y) (i - (128 - p))"
      using * by (simp only: same_prefix_def)
    then show "bit x i = bit y i"
      by (subst (1 2) i) (simp only: bit_drop_bit_eq comp_apply)
  qed
next
  assume *: "\<forall>i. 128 - p \<le> i \<and> i < 128 \<longrightarrow> bit x i = bit y i"
  show "same_prefix p x y"
    unfolding same_prefix_def
  proof (rule bit_word_eqI)
    fix n
    have "bit x (128 - p + n) = bit y (128 - p + n)"
      using * bit_imp_le_length [of x "128 - p + n"] bit_imp_le_length [of y "128 - p + n"]
      by (cases "128 - p + n < 128") auto
    then show "bit (drop_bit (128 - p) x) n = bit (drop_bit (128 - p) y) n"
      by (simp add: bit_drop_bit_eq)
  qed
qed

text \<open>An entry covers an address when the two agree on the bits of the prefix, from the top.\<close>

definition entry_covers :: "string \<Rightarrow> 128 word \<Rightarrow> bool" where
  "entry_covers e w \<longleftrightarrow>
     (case parseCidr e of
        Inl _ \<Rightarrow> False
      | Inr c \<Rightarrow>
          (case addr_bits (c_address c) of
             None \<Rightarrow> False
           | Some n \<Rightarrow>
               (\<forall>i. family_bits (c_family c) - c_prefix c \<le> i \<and> i < 128 \<longrightarrow> bit w i = bit n i)))"

lemma entry_rule_covers:
  assumes "parseCidr e = Inr c"
  shows "(case entry_rule e of (n, p) \<Rightarrow> same_prefix p w n) \<longleftrightarrow> entry_covers e w"
proof -
  note c = parseCidr_Inr [OF assms]
  obtain n where n: "addr_bits (c_address c) = Some n"
    using isIP_addr_bits normalizeIp_isIP [OF c(1)] by blast
  have fam: "family_bits (c_family c) \<le> 128" by (simp add: family_bits_def split: ip_family.split)
  have "128 - (c_prefix c + (128 - family_bits (c_family c))) = family_bits (c_family c) - c_prefix c"
    using fam c(3) by simp
  then show ?thesis
    by (simp add: entry_rule_def rule_of_def entry_covers_def assms n same_prefix_bits)
qed

lemma bl_check_entries:
  assumes "list_all (\<lambda>e. \<exists>c. parseCidr e = Inr c) es" and "addr_bits a = Some w"
  shows "bl_check (map entry_rule es) a \<longleftrightarrow> (\<exists>e \<in> set es. entry_covers e w)"
  using assms entry_rule_covers
  by (fastforce simp: bl_check_def list_ex_iff list_all_iff)

section \<open>Lemmas: cleaned allowlists\<close>

definition allow_entry :: "string \<Rightarrow> bool" where
  "allow_entry e \<longleftrightarrow>
     (let parts = split_on CHR ''/'' e; family = isIP (hd parts)
      in family \<noteq> 0 \<and> length parts \<le> 2 \<and>
         (\<forall>a b ps. parts = a # b # ps \<longrightarrow> read_nat b \<le> (if family = 4 then 32 else 128)))"

lemma isIP_cases: "isIP s = 0 \<or> isIP s = 4 \<or> isIP s = 6"
  by (simp add: isIP_def)

lemma cleanIp_acc_entries:
  "cleanIp_acc out vs = Inr r \<Longrightarrow> list_all allow_entry out \<Longrightarrow> list_all allow_entry r"
proof (induction out vs rule: cleanIp_acc.induct)
  case (1 out)
  then show ?case by simp
next
  case (2 out raw rest)
  let ?e = "trim (case raw of JUndef \<Rightarrow> [] | JNull \<Rightarrow> [] | v \<Rightarrow> js_string v)"
  show ?case
  proof (cases "?e = []")
    case True
    with 2 show ?thesis by simp
  next
    case False
    with 2(3) have e: "allow_entry ?e" and r: "cleanIp_acc (out @ [?e]) rest = Inr r"
      by (auto simp: allow_entry_def Let_def split: if_splits list.splits)
    have l: "length ?e \<le> 64" using 2(3) False by (simp add: Let_def split: if_splits)
    have "list_all allow_entry (out @ [?e])" using 2(4) e by simp
    with False l r 2(3) show ?thesis
      by (intro 2(2)) (auto simp: Let_def split: if_splits)
  qed
qed

lemma allow_list_ok: "list_all allow_entry es \<Longrightarrow> \<exists>bl'. allow_list bl es = Inr bl'"
proof (induction es arbitrary: bl)
  case Nil
  then show ?case by simp
next
  case (Cons e es)
  let ?parts = "split_on CHR ''/'' e"
  let ?f = "if isIP (hd ?parts) = 6 then Ipv6 else Ipv4"
  have e: "isIP (hd ?parts) \<noteq> 0" using Cons.prems by (simp add: allow_entry_def Let_def)
  obtain w where w: "addr_bits (hd ?parts) = Some w" using isIP_addr_bits [OF e] by blast
  have fam: "family_of (hd ?parts) = Some ?f"
    using e isIP_cases [of "hd ?parts"] by (auto simp: family_of_def)
  have sub: "\<exists>bl'. addSubnet bl (hd ?parts) p ?f = Inr bl'" if "p \<le> family_bits ?f" for p
    using that w fam by (simp add: addSubnet_def)
  have bound: "read_nat b \<le> family_bits ?f" if "?parts = a # b # ps" for a b ps
    using Cons.prems that isIP_cases [of "hd ?parts"]
    by (auto simp: allow_entry_def Let_def family_bits_def)
  obtain bl1 where r: "(case ?parts of _ # b # _ \<Rightarrow> addSubnet bl (hd ?parts) (read_nat b) ?f
      | _ \<Rightarrow> addAddress bl (hd ?parts) ?f) = Inr bl1"
  proof (cases "\<exists>a b ps. ?parts = a # b # ps")
    case True
    then obtain a b ps where p: "?parts = a # b # ps" by blast
    with sub [OF bound [OF p]] that show ?thesis by auto
  next
    case False
    then obtain a where "?parts = [a]" by (cases ?parts rule: remdups_adj.cases) auto
    with sub [OF order_refl] that show ?thesis by (auto simp: addAddress_def)
  qed
  obtain bl2 where "allow_list bl1 es = Inr bl2" using Cons by fastforce
  then have "allow_list bl (e # es) = Inr bl2" by (simp only: allow_list.simps Let_def r sum.case)
  then show ?case ..
qed

section \<open>Properties\<close>

text \<open>
  under any stored policy value, well formed or not, the check never throws, and it admits
  exactly the enabled policies with an empty list, or with an entry whose prefix the caller's
  normalized address shares bit for bit.
\<close>

theorem policy_decision:
  "isIpAllowed (coercePolicy v) ip =
     Inr (pol_enabled (coercePolicy v) \<and>
          (pol_allowedCidrs (coercePolicy v) = [] \<or>
           (\<exists>a w. normalizeIp ip = Some a \<and> addr_bits a = Some w \<and>
                  (\<exists>e \<in> set (pol_allowedCidrs (coercePolicy v)). entry_covers e w))))"
proof -
  let ?es = "pol_allowedCidrs (coercePolicy v)"
  have es: "list_all (\<lambda>e. \<exists>c. parseCidr e = Inr c) ?es" by (rule coercePolicy_entries)
  show ?thesis
  proof (cases "normalizeIp ip")
    case None
    then show ?thesis by (simp add: isIpAllowed_def)
  next
    case (Some a)
    obtain w where w: "addr_bits a = Some w" using isIP_addr_bits normalizeIp_isIP [OF Some] by blast
    from Some w show ?thesis
      by (simp add: isIpAllowed_def policy_list_ok [OF es] bl_check_entries [OF es w])
  qed
qed

text \<open>
  saving a list of entries yields canonical text: the result has no duplicates, and
  normalizing it again changes nothing.
\<close>

theorem normalizeCidrs_idempotent:
  assumes "normalizeCidrs es = Inr ys"
  shows "normalizeCidrs ys = Inr ys \<and> distinct ys"
proof -
  have "distinct ys \<and> list_all canonical ys"
    using normalizeCidrs_acc_canonical [of "[]" es ys] assms by (simp add: normalizeCidrs_def)
  then show ?thesis using normalizeCidrs_acc_id [of ys "[]"] by (simp add: normalizeCidrs_def)
qed

theorem normalizeCidrs_idempotent_witness:
  "normalizeCidrs ['' 10.0.0.0/08'', ''::ffff:10.0.0.0/8'', ''::1''] = Inr [''10.0.0.0/8'', ''::1/128''] \<and>
   normalizeCidrs [''10.0.0.0/8'', ''::1/128''] = Inr [''10.0.0.0/8'', ''::1/128'']"
proof -
  have h: "normalizeCidrs ['' 10.0.0.0/08'', ''::ffff:10.0.0.0/8'', ''::1''] = Inr [''10.0.0.0/8'', ''::1/128'']"
    by code_simp
  show ?thesis using h normalizeCidrs_idempotent [OF h] by simp
qed

text \<open>
  an IPv4 client on a dual-stack socket (\<open>::ffff:a.b.c.d\<close>) gets the decision of its plain
  IPv4 address, from the sign-in policy and from a client's allowlist.
\<close>

theorem mapped_same_decision:
  assumes "parse_v4 a = Some n"
  shows "isIpAllowed pol (Some (''::ffff:'' @ a)) = isIpAllowed pol (Some a) \<and>
         ipAllowed entries (Some (''::ffff:'' @ a)) = ipAllowed entries (Some a)"
proof -
  have ip: "isIP a = 4" using assms by (simp add: isIP_def)
  have ch: "\<not> is_space c" if "c \<in> set a" for c
    using isIP_chars [of a c] ip that ip_char_not by auto
  have ne: "a \<noteq> []" using isIP_nonempty [of a] ip by simp
  have t: "trim a = a" using ch by (rule trim_id)
  have t': "trim (''::ffff:'' @ a) = ''::ffff:'' @ a"
    by (rule trim_id) (use ch in \<open>auto simp: str_simps\<close>)
  have s: "strip_mapped (''::ffff:'' @ a) = a"
    using parse_v4_dotted [OF assms] by (simp add: strip_mapped_def str_simps)
  then have s': "strip_mapped a = a" using strip_mapped_stable [of a "''::ffff:'' @ a"] by simp
  have "normalizeIp (Some (''::ffff:'' @ a)) = normalizeIp (Some a)"
    using ne by (simp add: normalizeIp_def t t' [simplified] s [simplified] s')
  then have 1: "isIpAllowed pol (Some (''::ffff:'' @ a)) = isIpAllowed pol (Some a)"
    by (simp add: isIpAllowed_def)
  have hd: "\<not> starts_with a ''::ffff:''"
    using parse_v4_chars [OF assms, of "hd a"] ne
    by (cases a) (auto simp: starts_with_def is_digit_def code_of_def)
  have "ipAllowed entries (Some (''::ffff:'' @ a)) = ipAllowed entries (Some a)"
    using ip ne hd by (simp add: ipAllowed_def starts_with_def Let_def)
  with 1 show ?thesis ..
qed

theorem mapped_same_decision_witness:
  "parse_v4 ''10.1.2.3'' = Some 167838211 \<and>
   ipAllowed [''10.0.0.0/8''] (Some ''::ffff:10.1.2.3'') = ipAllowed [''10.0.0.0/8''] (Some ''10.1.2.3'')"
proof -
  have h: "parse_v4 ''10.1.2.3'' = Some 167838211" by code_simp
  show ?thesis using h mapped_same_decision [OF h, of _ "[''10.0.0.0/8'']"] by simp
qed

text \<open>
  a stored allowlist (the output of the cleaning) can always be checked against a caller's
  address without an exception, holds no duplicates and at most 100 entries.
\<close>

theorem cleaned_allowlist_total:
  assumes "cleanIpAllowlist v = Inr es"
  shows "(\<exists>b. ipAllowed es ip = Inr b) \<and> distinct es \<and> length es \<le> 100"
proof -
  from assms obtain vs out where out: "cleanIp_acc [] vs = Inr out" "es = uniq out" "length out \<le> 100"
    by (auto simp: cleanIpAllowlist_def split: json.splits sum.splits if_splits)
  then have "list_all allow_entry es" using cleanIp_acc_entries [of "[]" vs out] by (auto simp: list_all_iff)
  then obtain bl where "allow_list [] es = Inr bl" using allow_list_ok by blast
  then have "\<exists>b. ipAllowed es ip = Inr b"
    by (cases ip) (auto simp: ipAllowed_def Let_def)
  with out length_uniq [of out] show ?thesis by simp
qed

theorem cleaned_allowlist_total_witness:
  "cleanIpAllowlist (JArr [JStr ''10.0.0.0/8'', JNull, JStr '' 10.0.0.0/8'']) = Inr [''10.0.0.0/8''] \<and>
   (\<exists>b. ipAllowed [''10.0.0.0/8''] (Some ''10.0.0.1'') = Inr b)"
proof -
  have h: "cleanIpAllowlist (JArr [JStr ''10.0.0.0/8'', JNull, JStr '' 10.0.0.0/8'']) = Inr [''10.0.0.0/8'']"
    by code_simp
  show ?thesis using h cleaned_allowlist_total [OF h] by blast
qed

end
