(* ===== verification/Users.thy ===== *)
theory Users
  imports Rbac
begin

text \<open>
  Accounts: the user, role and recovery-code tables, \<^verbatim>\<open>auth/auth.service.ts\<close>,
  \<^verbatim>\<open>users/users.service.ts\<close> and \<^verbatim>\<open>auth/totp.service.ts\<close>. A method is a function from
  \<open>auth_db\<close> to its outcome and the new database; audit records are appended to \<open>ad_audit\<close>.
  Password hashing, symmetric encryption and TOTP verification are the fields of \<open>auth_env\<close>;
  \<open>None\<close> stands for a throw.
\<close>

section \<open>Rows\<close>

record role_row =
  ro_id :: string
  ro_slug :: string
  ro_name :: string
  ro_permissions :: "string list"
  ro_builtin :: bool

record user_row =
  us_id :: string
  us_email :: string
  us_displayName :: string
  us_passwordHash :: "string option"
  us_authProvider :: string
  us_totpSecret :: "string option"
  us_totpEnabledAt :: "time option"
  us_disabled :: bool
  us_roleId :: string
  us_lastLoginAt :: "time option"
  us_createdAt :: time

record recovery_code =
  rc_id :: string
  rc_userId :: string
  rc_codeHash :: string
  rc_consumedAt :: "time option"

record audit_entry =
  au_actorId :: "string option"
  au_actorEmail :: "string option"
  au_action :: string
  au_target :: "string option"

record auth_db =
  ad_users :: "user_row list"
  ad_roles :: "role_row list"
  ad_recovery :: "recovery_code list"
  ad_audit :: "audit_entry list"

record auth_env =
  ae_hash :: "string \<Rightarrow> string \<Rightarrow> string"
  ae_compare :: "string \<Rightarrow> string \<Rightarrow> bool"
  ae_encrypt :: "string \<Rightarrow> string"
  ae_decrypt :: "string \<Rightarrow> string option"
  ae_totp_verify :: "string \<Rightarrow> string \<Rightarrow> time \<Rightarrow> bool option"
  ae_keyuri :: "string \<Rightarrow> string \<Rightarrow> string"

datatype auth_provider = Local_provider | Oidc_provider

record session_user =
  su_id :: string
  su_email :: string
  su_displayName :: string
  su_roleSlug :: string
  su_roleName :: string
  su_permissions :: "string list"
  su_authProvider :: auth_provider

definition record_audit :: "auth_db \<Rightarrow> string option \<Rightarrow> string option \<Rightarrow> string \<Rightarrow> string option \<Rightarrow> auth_db" where
  "record_audit db actor email action target =
     db\<lparr>ad_audit := ad_audit db @
       [\<lparr>au_actorId = actor, au_actorEmail = email, au_action = action, au_target = target\<rparr>]\<rparr>"

definition find_user :: "auth_db \<Rightarrow> string \<Rightarrow> user_row option" where
  "find_user db i = List.find (\<lambda>u. us_id u = i) (ad_users db)"

definition find_user_email :: "auth_db \<Rightarrow> string \<Rightarrow> user_row option" where
  "find_user_email db e = List.find (\<lambda>u. us_email u = e) (ad_users db)"

definition find_role :: "auth_db \<Rightarrow> string \<Rightarrow> role_row option" where
  "find_role db i = List.find (\<lambda>r. ro_id r = i) (ad_roles db)"

definition find_role_slug :: "auth_db \<Rightarrow> string \<Rightarrow> role_row option" where
  "find_role_slug db s = List.find (\<lambda>r. ro_slug r = s) (ad_roles db)"

definition update_user :: "auth_db \<Rightarrow> string \<Rightarrow> (user_row \<Rightarrow> user_row) \<Rightarrow> auth_db" where
  "update_user db i f = db\<lparr>ad_users := rows_update (\<lambda>u. us_id u = i) f (ad_users db)\<rparr>"

definition nonempty :: "string option \<Rightarrow> bool" where
  "nonempty v = (case v of None \<Rightarrow> False | Some s \<Rightarrow> s \<noteq> [])"

section \<open>\<open>AuthService\<close>\<close>

definition isFirstRun :: "auth_db \<Rightarrow> bool" where
  "isFirstRun db \<longleftrightarrow> length (ad_users db) = 0"

definition validateLocal :: "auth_env \<Rightarrow> auth_db \<Rightarrow> string \<Rightarrow> string \<Rightarrow> time \<Rightarrow> string option \<times> auth_db" where
  "validateLocal env db email password now =
     (case find_user_email db (to_lower email) of
        None \<Rightarrow> (None, db)
      | Some user \<Rightarrow>
          if us_disabled user \<or> \<not> nonempty (us_passwordHash user) then (None, db)
          else if \<not> ae_compare env password (the (us_passwordHash user)) then (None, db)
          else (Some (us_id user), update_user db (us_id user) (\<lambda>u. u\<lparr>us_lastLoginAt := Some now\<rparr>)))"

definition verifyPassword :: "auth_env \<Rightarrow> auth_db \<Rightarrow> string \<Rightarrow> string \<Rightarrow> bool" where
  "verifyPassword env db userId password =
     (if password = [] then False
      else case find_user db userId of
             None \<Rightarrow> False
           | Some user \<Rightarrow>
               if us_disabled user \<or> \<not> nonempty (us_passwordHash user) then False
               else ae_compare env password (the (us_passwordHash user)))"

definition hasPassword :: "auth_db \<Rightarrow> string \<Rightarrow> bool" where
  "hasPassword db userId =
     (case find_user db userId of None \<Rightarrow> False | Some u \<Rightarrow> nonempty (us_passwordHash u))"

text \<open>A user's role exists: the schema declares a required foreign key; the model returns
  \<open>None\<close> in the excluded case.\<close>

definition buildSessionUser :: "auth_db \<Rightarrow> string \<Rightarrow> session_user option" where
  "buildSessionUser db userId =
     (case find_user db userId of
        None \<Rightarrow> None
      | Some user \<Rightarrow>
          if us_disabled user then None
          else (case find_role db (us_roleId user) of
                  None \<Rightarrow> None
                | Some role \<Rightarrow>
                    Some \<lparr>su_id = us_id user, su_email = us_email user,
                          su_displayName = us_displayName user, su_roleSlug = ro_slug role,
                          su_roleName = ro_name role, su_permissions = ro_permissions role,
                          su_authProvider = (if us_authProvider user = ''oidc'' then Oidc_provider
                                             else Local_provider)\<rparr>))"

definition ensureAdminRole :: "auth_db \<Rightarrow> string \<Rightarrow> role_row \<times> auth_db" where
  "ensureAdminRole db freshId =
     (case find_role_slug db (br_slug role_admin) of
        Some r \<Rightarrow> (r, db)
      | None \<Rightarrow>
          (let r = \<lparr>ro_id = freshId, ro_slug = br_slug role_admin, ro_name = br_name role_admin,
                    ro_permissions = map perm_str (br_permissions role_admin), ro_builtin = True\<rparr>
           in (r, db\<lparr>ad_roles := ad_roles db @ [r]\<rparr>)))"

record user_fresh =
  uf_id :: string
  uf_roleId :: string
  uf_salt :: string

definition new_user :: "string \<Rightarrow> string \<Rightarrow> string \<Rightarrow> string option \<Rightarrow> string \<Rightarrow> string \<Rightarrow> time \<Rightarrow> user_row" where
  "new_user i email displayName passwordHash provider roleId now =
     \<lparr>us_id = i, us_email = email, us_displayName = displayName, us_passwordHash = passwordHash,
      us_authProvider = provider, us_totpSecret = None, us_totpEnabledAt = None,
      us_disabled = False, us_roleId = roleId, us_lastLoginAt = None, us_createdAt = now\<rparr>"

definition createInitialAdmin ::
    "auth_env \<Rightarrow> auth_db \<Rightarrow> string \<Rightarrow> string \<Rightarrow> string \<Rightarrow> user_fresh \<Rightarrow> time \<Rightarrow>
     (http_error + string) \<times> auth_db" where
  "createInitialAdmin env db email displayName password fr now =
     (if \<not> isFirstRun db then (Inl (BadRequest ''Setup has already been completed.''), db)
      else (case ensureAdminRole db (uf_roleId fr) of
              (role, db1) \<Rightarrow>
                (let user = new_user (uf_id fr) (to_lower email) displayName
                       (Some (ae_hash env (uf_salt fr) password)) ''local'' (ro_id role) now;
                     db2 = db1\<lparr>ad_users := ad_users db1 @ [user]\<rparr>
                 in (Inr (us_id user),
                     record_audit db2 (Some (us_id user)) (Some (us_email user)) ''setup.admin_created''
                       (Some (us_email user))))))"

section \<open>\<open>UsersService\<close>\<close>

text \<open>An insert whose id exists is refused by the primary key.\<close>

record new_user_input =
  nu_email :: string
  nu_displayName :: "string option"
  nu_password :: "string option"
  nu_roleSlug :: string

definition user_create ::
    "auth_env \<Rightarrow> auth_db \<Rightarrow> new_user_input \<Rightarrow> user_fresh \<Rightarrow> time \<Rightarrow> (http_error + (string \<times> bool)) \<times> auth_db" where
  "user_create env db inp fr now =
     (case find_role_slug db (nu_roleSlug inp) of
        None \<Rightarrow> (Inl (BadRequest ''Unknown role.''), db)
      | Some role \<Rightarrow>
          (let email = to_lower (nu_email inp);
               password = (case nu_password inp of None \<Rightarrow> [] | Some p \<Rightarrow> trim p)
           in if find_user_email db email \<noteq> None
              then (Inl (BadRequest
                      (if password \<noteq> [] then ''A user with that email already exists.''
                       else email @ '' already has an account '' @ em_dash
                         @ '' it will be linked to SSO automatically the first time they sign in''
                         @ '' with that provider, so no invite is needed.'')), db)
              else if password \<noteq> [] \<and> length password < 10
              then (Inl (BadRequest ''Password must be at least 10 characters.''), db)
              else
                (let passwordHash = (if password \<noteq> [] then Some (ae_hash env (uf_salt fr) password) else None);
                     given = (case nu_displayName inp of None \<Rightarrow> [] | Some d \<Rightarrow> trim d);
                     displayName = (if given \<noteq> [] then given else hd (split_on CHR ''@'' email));
                     user = new_user (uf_id fr) email displayName passwordHash
                       (if password \<noteq> [] then ''local'' else ''oidc'') (ro_id role) now
                 in if find_user db (us_id user) \<noteq> None then (Inl (InternalError ''duplicate id''), db)
                    else (Inr (us_id user, password = []), db\<lparr>ad_users := ad_users db @ [user]\<rparr>))))"

definition adminRoleIds :: "auth_db \<Rightarrow> string list" where
  "adminRoleIds db = map ro_id (filter (\<lambda>r. ''users:write'' \<in> set (ro_permissions r)) (ad_roles db))"

definition last_admin_error :: http_error where
  "last_admin_error = BadRequest (''This is the last active administrator ''
     @ em_dash @ '' grant the admin role to another active user first.'')"

definition active_admin :: "auth_db \<Rightarrow> user_row \<Rightarrow> bool" where
  "active_admin db u \<longleftrightarrow> \<not> us_disabled u \<and> us_roleId u \<in> set (adminRoleIds db)"

definition assertKeepsAnAdmin :: "auth_db \<Rightarrow> string \<Rightarrow> string option \<Rightarrow> http_error + unit" where
  "assertKeepsAnAdmin db userId newRoleId =
     (let ids = adminRoleIds db
      in case find_user db userId of
           None \<Rightarrow> Inr ()
         | Some user \<Rightarrow>
             if \<not> active_admin db user then Inr ()
             else if nonempty newRoleId \<and> the newRoleId \<in> set ids then Inr ()
             else if length (filter (\<lambda>u. us_id u \<noteq> userId \<and> \<not> us_disabled u \<and> us_roleId u \<in> set ids)
                       (ad_users db)) = 0
             then Inl last_admin_error
             else Inr ())"

definition setRole :: "auth_db \<Rightarrow> string \<Rightarrow> string \<Rightarrow> (http_error + unit) \<times> auth_db" where
  "setRole db userId roleSlug =
     (case find_role_slug db roleSlug of
        None \<Rightarrow> (Inl (BadRequest ''Unknown role.''), db)
      | Some role \<Rightarrow>
          (case find_user db userId of
             None \<Rightarrow> (Inl (NotFound ''User not found.''), db)
           | Some _ \<Rightarrow>
               (case assertKeepsAnAdmin db userId (Some (ro_id role)) of
                  Inl e \<Rightarrow> (Inl e, db)
                | Inr _ \<Rightarrow> (Inr (), update_user db userId (\<lambda>u. u\<lparr>us_roleId := ro_id role\<rparr>)))))"

definition setDisabled :: "auth_db \<Rightarrow> string \<Rightarrow> bool \<Rightarrow> (http_error + unit) \<times> auth_db" where
  "setDisabled db userId disabled =
     (case find_user db userId of
        None \<Rightarrow> (Inl (NotFound ''User not found.''), db)
      | Some _ \<Rightarrow>
          (case (if disabled then assertKeepsAnAdmin db userId None else Inr ()) of
             Inl e \<Rightarrow> (Inl e, db)
           | Inr _ \<Rightarrow> (Inr (), update_user db userId (\<lambda>u. u\<lparr>us_disabled := disabled\<rparr>))))"

definition delete_codes :: "auth_db \<Rightarrow> string \<Rightarrow> auth_db" where
  "delete_codes db userId = db\<lparr>ad_recovery := filter (\<lambda>r. rc_userId r \<noteq> userId) (ad_recovery db)\<rparr>"

definition clearMfa :: "auth_db \<Rightarrow> string \<Rightarrow> (http_error + bool) \<times> auth_db" where
  "clearMfa db userId =
     (case find_user db userId of
        None \<Rightarrow> (Inl (NotFound ''User not found.''), db)
      | Some user \<Rightarrow>
          (Inr (us_totpEnabledAt user \<noteq> None),
           delete_codes (update_user db userId (\<lambda>u. u\<lparr>us_totpSecret := None, us_totpEnabledAt := None\<rparr>))
             userId))"

text \<open>Deleting a user deletes the rows that refer to it (\<^verbatim>\<open>onDelete: Cascade\<close>).\<close>

definition user_remove :: "auth_db \<Rightarrow> string \<Rightarrow> string \<Rightarrow> (http_error + unit) \<times> auth_db" where
  "user_remove db userId actingUserId =
     (if userId = actingUserId then (Inl (BadRequest ''You can't delete your own account.''), db)
      else case find_user db userId of
             None \<Rightarrow> (Inl (NotFound ''User not found.''), db)
           | Some _ \<Rightarrow>
               (case assertKeepsAnAdmin db userId None of
                  Inl e \<Rightarrow> (Inl e, db)
                | Inr _ \<Rightarrow>
                    (Inr (), delete_codes (db\<lparr>ad_users := filter (\<lambda>u. us_id u \<noteq> userId) (ad_users db)\<rparr>)
                       userId)))"

section \<open>\<open>TotpService\<close>\<close>

definition getStatus :: "auth_db \<Rightarrow> string \<Rightarrow> http_error + (bool \<times> bool)" where
  "getStatus db userId =
     (case find_user db userId of
        None \<Rightarrow> Inl (BadRequest ''User not found.'')
      | Some user \<Rightarrow>
          Inr (us_totpEnabledAt user \<noteq> None,
               nonempty (us_totpSecret user) \<and> us_totpEnabledAt user = None))"

definition beginEnrollment :: "auth_env \<Rightarrow> auth_db \<Rightarrow> string \<Rightarrow> string \<Rightarrow> (http_error + string) \<times> auth_db" where
  "beginEnrollment env db userId secret =
     (case find_user db userId of
        None \<Rightarrow> (Inl (BadRequest ''User not found.''), db)
      | Some user \<Rightarrow>
          if \<not> nonempty (us_passwordHash user)
          then (Inl (BadRequest ''This account signs in via SSO and cannot use a password-based second factor.''), db)
          else if us_totpEnabledAt user \<noteq> None
          then (Inl (BadRequest ''Two-factor authentication is already enabled. Disable it first to re-enroll.''), db)
          else (Inr (ae_keyuri env (us_email user) secret),
                update_user db userId (\<lambda>u. u\<lparr>us_totpSecret := Some (ae_encrypt env secret), us_totpEnabledAt := None\<rparr>)))"

definition verifyTotp :: "auth_env \<Rightarrow> string \<Rightarrow> string \<Rightarrow> time \<Rightarrow> bool" where
  "verifyTotp env encryptedSecret code now =
     (let token = filter (\<lambda>c. \<not> is_space c) code
      in if \<not> (length token = 6 \<and> list_all is_digit token) then False
         else (case ae_decrypt env encryptedSecret of
                 None \<Rightarrow> False
               | Some secret \<Rightarrow>
                   (case ae_totp_verify env secret token now of None \<Rightarrow> False | Some b \<Rightarrow> b)))"

definition RECOVERY_CODE_COUNT :: nat where "RECOVERY_CODE_COUNT = 10"
definition RECOVERY_ALPHABET :: string where
  "RECOVERY_ALPHABET = ''ABCDEFGHJKMNPQRSTUVWXYZ23456789''"

text \<open>The ten draws of \<^verbatim>\<open>randomInt\<close> are the argument.\<close>

definition randomRecoveryCode :: "nat list \<Rightarrow> string" where
  "randomRecoveryCode draws =
     (let out = map (\<lambda>d. RECOVERY_ALPHABET ! d) draws
      in take 5 out @ ''-'' @ drop 5 out)"

record code_draw =
  cd_id :: string
  cd_salt :: string
  cd_draws :: "nat list"

definition issueRecoveryCodes :: "auth_env \<Rightarrow> auth_db \<Rightarrow> string \<Rightarrow> code_draw list \<Rightarrow> string list \<times> auth_db" where
  "issueRecoveryCodes env db userId ds =
     (let db1 = delete_codes db userId; rows = take RECOVERY_CODE_COUNT ds
      in (map (\<lambda>d. randomRecoveryCode (cd_draws d)) rows,
          db1\<lparr>ad_recovery := ad_recovery db1 @
            map (\<lambda>d. \<lparr>rc_id = cd_id d, rc_userId = userId,
                      rc_codeHash = ae_hash env (cd_salt d) (randomRecoveryCode (cd_draws d)),
                      rc_consumedAt = None\<rparr>) rows\<rparr>))"

definition normalize_code :: "string \<Rightarrow> string" where
  "normalize_code s = filter (\<lambda>c. is_upper c \<or> is_digit c) (to_upper s)"

definition consumeRecoveryCode :: "auth_env \<Rightarrow> auth_db \<Rightarrow> string \<Rightarrow> string \<Rightarrow> time \<Rightarrow> bool \<times> auth_db" where
  "consumeRecoveryCode env db userId candidate now =
     (let normalized = normalize_code candidate
      in if length normalized < 8 then (False, db)
         else
           (case List.find (\<lambda>r. ae_compare env normalized (rc_codeHash r))
                   (filter (\<lambda>r. rc_userId r = userId \<and> rc_consumedAt r = None) (ad_recovery db)) of
              None \<Rightarrow> (False, db)
            | Some row \<Rightarrow>
                (True, db\<lparr>ad_recovery := rows_update (\<lambda>r. rc_id r = rc_id row)
                   (\<lambda>r. r\<lparr>rc_consumedAt := Some now\<rparr>) (ad_recovery db)\<rparr>)))"

definition confirmEnrollment ::
    "auth_env \<Rightarrow> auth_db \<Rightarrow> string \<Rightarrow> string \<Rightarrow> code_draw list \<Rightarrow> time \<Rightarrow> (http_error + string list) \<times> auth_db" where
  "confirmEnrollment env db userId code ds now =
     (case find_user db userId of
        None \<Rightarrow> (Inl (BadRequest ''User not found.''), db)
      | Some user \<Rightarrow>
          if us_totpEnabledAt user \<noteq> None
          then (Inl (BadRequest ''Two-factor authentication is already enabled.''), db)
          else if \<not> nonempty (us_totpSecret user)
          then (Inl (BadRequest ''Start setup before confirming a code.''), db)
          else if \<not> verifyTotp env (the (us_totpSecret user)) code now
          then (Inl (BadRequest ''That code is incorrect. Check your authenticator app and try again.''), db)
          else (case issueRecoveryCodes env db userId ds of
                  (codes, db1) \<Rightarrow>
                    (Inr codes,
                     record_audit (update_user db1 userId (\<lambda>u. u\<lparr>us_totpEnabledAt := Some now\<rparr>))
                       (Some userId) (Some (us_email user)) ''auth.mfa_enrolled'' None)))"

definition verifyForLogin :: "auth_env \<Rightarrow> auth_db \<Rightarrow> string \<Rightarrow> string \<Rightarrow> time \<Rightarrow> bool \<times> auth_db" where
  "verifyForLogin env db userId code now =
     (case find_user db userId of
        None \<Rightarrow> (False, db)
      | Some user \<Rightarrow>
          if us_totpEnabledAt user = None \<or> \<not> nonempty (us_totpSecret user) then (False, db)
          else if verifyTotp env (the (us_totpSecret user)) code now
          then (True, record_audit db (Some userId) (Some (us_email user)) ''auth.mfa_verified'' None)
          else (case consumeRecoveryCode env db userId code now of
                  (ok, db1) \<Rightarrow>
                    (ok, record_audit db1 (Some userId) (Some (us_email user))
                       (if ok then ''auth.mfa_recovery_used'' else ''auth.mfa_failed'') None)))"

definition verifyCode :: "auth_env \<Rightarrow> auth_db \<Rightarrow> string \<Rightarrow> string \<Rightarrow> time \<Rightarrow> bool" where
  "verifyCode env db userId code now =
     (case find_user db userId of
        None \<Rightarrow> False
      | Some user \<Rightarrow>
          if us_totpEnabledAt user = None \<or> \<not> nonempty (us_totpSecret user) then False
          else verifyTotp env (the (us_totpSecret user)) code now)"

definition totp_disable :: "auth_env \<Rightarrow> auth_db \<Rightarrow> string \<Rightarrow> string \<Rightarrow> time \<Rightarrow> (http_error + unit) \<times> auth_db" where
  "totp_disable env db userId code now =
     (case find_user db userId of
        None \<Rightarrow> (Inl (BadRequest ''User not found.''), db)
      | Some user \<Rightarrow>
          if us_totpEnabledAt user = None \<or> \<not> nonempty (us_totpSecret user)
          then (Inl (BadRequest ''Two-factor authentication is not enabled.''), db)
          else (case (if verifyTotp env (the (us_totpSecret user)) code now then (True, db)
                      else consumeRecoveryCode env db userId code now) of
                  (ok, db1) \<Rightarrow>
                    if \<not> ok then (Inl (BadRequest ''That code is incorrect.''), db1)
                    else (Inr (),
                          record_audit
                            (delete_codes (update_user db1 userId
                               (\<lambda>u. u\<lparr>us_totpSecret := None, us_totpEnabledAt := None\<rparr>)) userId)
                            (Some userId) (Some (us_email user)) ''auth.mfa_disabled'' None)))"

definition regenerateRecoveryCodes ::
    "auth_env \<Rightarrow> auth_db \<Rightarrow> string \<Rightarrow> string \<Rightarrow> code_draw list \<Rightarrow> time \<Rightarrow> (http_error + string list) \<times> auth_db" where
  "regenerateRecoveryCodes env db userId code ds now =
     (case find_user db userId of
        None \<Rightarrow> (Inl (BadRequest ''User not found.''), db)
      | Some user \<Rightarrow>
          if us_totpEnabledAt user = None \<or> \<not> nonempty (us_totpSecret user)
          then (Inl (BadRequest ''Two-factor authentication is not enabled.''), db)
          else if \<not> verifyTotp env (the (us_totpSecret user)) code now
          then (Inl (BadRequest ''That code is incorrect.''), db)
          else (case issueRecoveryCodes env db userId ds of
                  (codes, db1) \<Rightarrow>
                    (Inr codes, record_audit db1 (Some userId) (Some (us_email user))
                       ''auth.mfa_recovery_regenerated'' None)))"

section \<open>An administrator always remains\<close>

definition users_ok :: "auth_db \<Rightarrow> bool" where
  "users_ok db \<longleftrightarrow> distinct (map us_id (ad_users db)) \<and> (\<exists>u \<in> set (ad_users db). active_admin db u)"

lemma find_user_iff:
  assumes "distinct (map us_id (ad_users db))"
  shows "find_user db i = Some u \<longleftrightarrow> u \<in> set (ad_users db) \<and> us_id u = i"
proof -
  have "distinct (map us_id us) \<Longrightarrow> u \<in> set us \<Longrightarrow> List.find (\<lambda>v. us_id v = us_id u) us = Some u" for us
    by (induction us) (auto simp: rev_image_eqI)
  then show ?thesis using assms by (auto simp: find_user_def dest: find_SomeD)
qed

text \<open>An update of one account, or its removal, leaves an administrator when the guard passed.\<close>

lemma guard_leaves_another:
  assumes ok: "users_ok db" and g: "assertKeepsAnAdmin db i r = Inr ()"
    and no: "\<not> (nonempty r \<and> the r \<in> set (adminRoleIds db))"
  shows "\<exists>u \<in> set (ad_users db). us_id u \<noteq> i \<and> active_admin db u"
proof (cases "find_user db i")
  case None
  then show ?thesis using ok by (auto simp: users_ok_def find_user_def find_None_iff)
next
  case (Some user)
  with ok have u: "user \<in> set (ad_users db)" "us_id user = i"
    by (auto simp: users_ok_def find_user_iff)
  show ?thesis
  proof (cases "active_admin db user")
    case True
    with g no Some have "filter (\<lambda>u. us_id u \<noteq> i \<and> \<not> us_disabled u \<and> us_roleId u \<in> set (adminRoleIds db))
        (ad_users db) \<noteq> []"
      by (auto simp: assertKeepsAnAdmin_def Let_def split: if_splits)
    then show ?thesis by (auto simp: filter_empty_conv active_admin_def)
  next
    case False
    obtain a where a: "a \<in> set (ad_users db)" "active_admin db a" using ok by (auto simp: users_ok_def)
    moreover have "us_id a \<noteq> i"
      using a u False ok by (auto simp: users_ok_def distinct_map inj_on_def)
    ultimately show ?thesis by blast
  qed
qed

lemma adminRoleIds_simps [simp]:
  "adminRoleIds (update_user db i f) = adminRoleIds db"
  "adminRoleIds (delete_codes db i) = adminRoleIds db"
  "adminRoleIds (record_audit db a e x t) = adminRoleIds db"
  "adminRoleIds (db\<lparr>ad_users := us\<rparr>) = adminRoleIds db"
  "adminRoleIds (db\<lparr>ad_recovery := rs\<rparr>) = adminRoleIds db"
  by (simp_all add: adminRoleIds_def update_user_def delete_codes_def record_audit_def)

lemma ad_users_simps [simp]:
  "ad_users (update_user db i f) = rows_update (\<lambda>u. us_id u = i) f (ad_users db)"
  "ad_users (delete_codes db i) = ad_users db"
  "ad_users (record_audit db a e x t) = ad_users db"
  by (simp_all add: update_user_def delete_codes_def record_audit_def)

lemma users_ok_update:
  assumes ok: "users_ok db" and f: "\<And>u. us_id (f u) = us_id u"
    and same: "\<And>u. active_admin db u \<Longrightarrow> active_admin db (f u)"
  shows "users_ok (update_user db i f)"
proof -
  obtain a where a: "a \<in> set (ad_users db)" "active_admin db a" using ok by (auto simp: users_ok_def)
  have "(if us_id a = i then f a else a) \<in> set (ad_users (update_user db i f))"
    using a by (auto simp: in_rows_update)
  moreover have "active_admin (update_user db i f) (if us_id a = i then f a else a)"
    using a same [of a] by (simp add: active_admin_def)
  ultimately show ?thesis using ok f by (auto simp: users_ok_def map_rows_update)
qed

lemma users_ok_update_guarded:
  assumes ok: "users_ok db" and f: "\<And>u. us_id (f u) = us_id u"
    and g: "assertKeepsAnAdmin db i r = Inr ()"
    and no: "\<not> (nonempty r \<and> the r \<in> set (adminRoleIds db))"
  shows "users_ok (update_user db i f)"
proof -
  obtain a where a: "a \<in> set (ad_users db)" "us_id a \<noteq> i" "active_admin db a"
    using guard_leaves_another [OF ok g no] by blast
  then have "a \<in> set (ad_users (update_user db i f))" by (auto simp: in_rows_update)
  moreover have "active_admin (update_user db i f) a" using a by (simp add: active_admin_def)
  ultimately show ?thesis using ok f by (auto simp: users_ok_def map_rows_update)
qed

lemma users_ok_same:
  assumes "users_ok db" and "ad_users db' = ad_users db" and "ad_roles db' = ad_roles db"
  shows "users_ok db'"
  using assms by (simp add: users_ok_def active_admin_def adminRoleIds_def)

lemma setRole_keeps: "users_ok db \<Longrightarrow> users_ok (snd (setRole db i slug))"
proof -
  assume ok: "users_ok db"
  have *: "users_ok (update_user db i (\<lambda>u. u\<lparr>us_roleId := ro_id role\<rparr>))"
    if "assertKeepsAnAdmin db i (Some (ro_id role)) = Inr ()" for role
  proof (cases "nonempty (Some (ro_id role)) \<and> ro_id role \<in> set (adminRoleIds db)")
    case True
    then show ?thesis by (intro users_ok_update [OF ok]) (auto simp: active_admin_def)
  next
    case False
    then show ?thesis by (intro users_ok_update_guarded [OF ok _ that]) auto
  qed
  show ?thesis using ok * by (auto simp: setRole_def split: option.splits sum.splits)
qed

lemma setDisabled_keeps: "users_ok db \<Longrightarrow> users_ok (snd (setDisabled db i b))"
proof -
  assume ok: "users_ok db"
  have "users_ok (update_user db i (\<lambda>u. u\<lparr>us_disabled := True\<rparr>))" if "assertKeepsAnAdmin db i None = Inr ()"
    by (rule users_ok_update_guarded [OF ok _ that]) (auto simp: nonempty_def)
  moreover have "users_ok (update_user db i (\<lambda>u. u\<lparr>us_disabled := False\<rparr>))"
    by (rule users_ok_update [OF ok]) (auto simp: active_admin_def)
  ultimately show ?thesis using ok
    by (cases b) (auto simp: setDisabled_def split: option.splits sum.splits)
qed

lemma remove_keeps: "users_ok db \<Longrightarrow> users_ok (snd (user_remove db i acting))"
proof -
  assume ok: "users_ok db"
  have "users_ok (delete_codes (db\<lparr>ad_users := filter (\<lambda>u. us_id u \<noteq> i) (ad_users db)\<rparr>) i)"
    if g: "assertKeepsAnAdmin db i None = Inr ()"
  proof -
    obtain a where "a \<in> set (ad_users db)" "us_id a \<noteq> i" "active_admin db a"
      using guard_leaves_another [OF ok g] by (auto simp: nonempty_def)
    then show ?thesis using ok
      by (auto simp: users_ok_def active_admin_def distinct_map_filter)
  qed
  then show ?thesis using ok by (auto simp: user_remove_def split: option.splits sum.splits)
qed

lemma user_create_keeps: "users_ok db \<Longrightarrow> users_ok (snd (user_create env db inp fr now))"
  by (auto simp: user_create_def Let_def users_ok_def active_admin_def find_user_def find_None_iff
      split: option.splits if_splits)

lemma clearMfa_keeps:
  assumes "users_ok db"
  shows "users_ok (snd (clearMfa db i))"
proof -
  let ?f = "\<lambda>u. u\<lparr>us_totpSecret := None, us_totpEnabledAt := None\<rparr>"
  have "users_ok (update_user db i ?f)"
    by (rule users_ok_update [OF assms]) (auto simp: active_admin_def)
  then have "users_ok (delete_codes (update_user db i ?f) i)"
    by (rule users_ok_same) (simp_all add: delete_codes_def)
  then show ?thesis using assms by (auto simp: clearMfa_def split: option.splits)
qed

text \<open>The account operations as events. A login stamps the account it succeeds for.\<close>

datatype user_event =
    Ue_setup string string string user_fresh time
  | Ue_create new_user_input user_fresh time
  | Ue_set_role string string
  | Ue_set_disabled string bool
  | Ue_clear_mfa string
  | Ue_remove string string
  | Ue_validate string string time
  | Ue_begin_totp string string
  | Ue_confirm_totp string string "code_draw list" time
  | Ue_login_totp string string time
  | Ue_disable_totp string string time
  | Ue_regenerate string string "code_draw list" time

primrec user_step :: "auth_env \<Rightarrow> auth_db \<Rightarrow> user_event \<Rightarrow> auth_db" where
  "user_step env db (Ue_setup email name pw fr now) = snd (createInitialAdmin env db email name pw fr now)"
| "user_step env db (Ue_create inp fr now) = snd (user_create env db inp fr now)"
| "user_step env db (Ue_set_role i slug) = snd (setRole db i slug)"
| "user_step env db (Ue_set_disabled i b) = snd (setDisabled db i b)"
| "user_step env db (Ue_clear_mfa i) = snd (clearMfa db i)"
| "user_step env db (Ue_remove i acting) = snd (user_remove db i acting)"
| "user_step env db (Ue_validate email pw now) = snd (validateLocal env db email pw now)"
| "user_step env db (Ue_begin_totp i secret) = snd (beginEnrollment env db i secret)"
| "user_step env db (Ue_confirm_totp i code ds now) = snd (confirmEnrollment env db i code ds now)"
| "user_step env db (Ue_login_totp i code now) = snd (verifyForLogin env db i code now)"
| "user_step env db (Ue_disable_totp i code now) = snd (totp_disable env db i code now)"
| "user_step env db (Ue_regenerate i code ds now) = snd (regenerateRecoveryCodes env db i code ds now)"

lemma setup_keeps: "users_ok db \<Longrightarrow> createInitialAdmin env db email name pw fr now =
    (Inl (BadRequest ''Setup has already been completed.''), db)"
  by (auto simp: createInitialAdmin_def isFirstRun_def users_ok_def)

text \<open>The second-factor operations touch no account but for its TOTP fields.\<close>

lemma consume_tables [simp]:
  "ad_users (snd (consumeRecoveryCode env db i c now)) = ad_users db"
  "ad_roles (snd (consumeRecoveryCode env db i c now)) = ad_roles db"
  by (simp_all add: consumeRecoveryCode_def Let_def split: option.split)

lemma issue_tables [simp]:
  "ad_users (snd (issueRecoveryCodes env db i ds)) = ad_users db"
  "ad_roles (snd (issueRecoveryCodes env db i ds)) = ad_roles db"
  by (simp_all add: issueRecoveryCodes_def Let_def delete_codes_def)

lemma ad_roles_simps [simp]:
  "ad_roles (update_user db i f) = ad_roles db"
  "ad_roles (delete_codes db i) = ad_roles db"
  "ad_roles (record_audit db a e x t) = ad_roles db"
  by (simp_all add: update_user_def delete_codes_def record_audit_def)

lemma users_ok_touch:
  assumes ok: "users_ok db" and "ad_users db' = rows_update P f (ad_users db)" and "ad_roles db' = ad_roles db"
    and "\<And>u. us_id (f u) = us_id u \<and> us_disabled (f u) = us_disabled u \<and> us_roleId (f u) = us_roleId u"
  shows "users_ok db'"
proof -
  obtain a where a: "a \<in> set (ad_users db)" "active_admin db a" using ok by (auto simp: users_ok_def)
  have "(if P a then f a else a) \<in> set (ad_users db')" using a(1) by (auto simp: assms(2) in_rows_update)
  moreover have "active_admin db' (if P a then f a else a)"
    using a(2) assms(3,4) by (simp add: active_admin_def adminRoleIds_def)
  ultimately show ?thesis using ok assms(2,4) by (auto simp: users_ok_def map_rows_update)
qed

lemma totp_keeps:
  assumes ok: "users_ok db"
  shows "users_ok (snd (validateLocal env db email pw now))"
    and "users_ok (snd (beginEnrollment env db i secret))"
    and "users_ok (snd (confirmEnrollment env db i code ds now))"
    and "users_ok (snd (verifyForLogin env db i code now))"
    and "users_ok (snd (totp_disable env db i code now))"
    and "users_ok (snd (regenerateRecoveryCodes env db i code ds now))"
proof -
  show "users_ok (snd (validateLocal env db email pw now))"
    using ok by (auto simp: validateLocal_def split: option.splits intro: users_ok_touch [OF ok])
  show "users_ok (snd (beginEnrollment env db i secret))"
    using ok by (auto simp: beginEnrollment_def split: option.splits intro: users_ok_touch [OF ok])
  show "users_ok (snd (confirmEnrollment env db i code ds now))"
  proof (cases "issueRecoveryCodes env db i ds")
    case (Pair codes db1)
    with issue_tables [of env db i ds] have "ad_users db1 = ad_users db" "ad_roles db1 = ad_roles db" by simp_all
    with ok Pair show ?thesis
      by (auto simp: confirmEnrollment_def split: option.splits intro: users_ok_touch [OF ok])
  qed
  show "users_ok (snd (verifyForLogin env db i code now))"
  proof (cases "consumeRecoveryCode env db i code now")
    case (Pair b db1)
    with consume_tables [of env db i code now] have "ad_users db1 = ad_users db" "ad_roles db1 = ad_roles db" by simp_all
    with ok Pair show ?thesis
      by (auto simp: verifyForLogin_def split: option.splits intro: users_ok_same [OF ok])
  qed
  show "users_ok (snd (totp_disable env db i code now))"
  proof (cases "consumeRecoveryCode env db i code now")
    case (Pair b db1)
    with consume_tables [of env db i code now] have "ad_users db1 = ad_users db" "ad_roles db1 = ad_roles db" by simp_all
    with ok Pair show ?thesis
      by (auto simp: totp_disable_def split: option.splits if_splits
          intro: users_ok_touch [OF ok] users_ok_same [OF ok])
  qed
  show "users_ok (snd (regenerateRecoveryCodes env db i code ds now))"
  proof (cases "issueRecoveryCodes env db i ds")
    case (Pair codes db1)
    with issue_tables [of env db i ds] have "ad_users db1 = ad_users db" "ad_roles db1 = ad_roles db" by simp_all
    with ok Pair show ?thesis
      by (auto simp: regenerateRecoveryCodes_def split: option.splits intro: users_ok_same [OF ok])
  qed
qed

interpretation accounts: event_machine "user_step env" users_ok for env
proof
  fix db e
  assume ok: "users_ok db"
  show "users_ok (user_step env db e)"
    by (cases e) (simp_all add: ok setup_keeps [OF ok] user_create_keeps setRole_keeps setDisabled_keeps
        clearMfa_keeps remove_keeps totp_keeps)
qed

text \<open>
  C33: Once an active administrator exists, one exists after any sequence of account operations:
  creation, role changes, disabling, removal, enrolment and sign-in with arbitrary inputs. So no
  sequence of requests locks everyone out of user management. (Operations run one at a time.)
\<close>

theorem an_administrator_remains:
  assumes "distinct (map us_id (ad_users db))" and "\<exists>u \<in> set (ad_users db). active_admin db u"
  shows "\<exists>u \<in> set (ad_users (foldl (user_step env) db es)). active_admin (foldl (user_step env) db es) u"
  using accounts.inv_run [of db env es] assms by (simp add: users_ok_def)

definition demo_auth_env :: auth_env where
  "demo_auth_env = \<lparr>ae_hash = (\<lambda>salt pw. pw), ae_compare = (\<lambda>pw h. pw = h), ae_encrypt = (\<lambda>s. s),
     ae_decrypt = Some, ae_totp_verify = (\<lambda>s t now. Some (t = s)), ae_keyuri = (\<lambda>e s. e @ s)\<rparr>"

definition demo_auth_db :: auth_db where
  "demo_auth_db = snd (createInitialAdmin demo_auth_env
     \<lparr>ad_users = [], ad_roles = [], ad_recovery = [], ad_audit = []\<rparr>
     ''Root@x.org'' ''Root'' ''correct horse'' \<lparr>uf_id = ''u1'', uf_roleId = ''r1'', uf_salt = []\<rparr> 0)"

theorem an_administrator_remains_witness:
  "\<exists>u \<in> set (ad_users (foldl (user_step demo_auth_env) demo_auth_db [Ue_set_disabled ''u1'' True, Ue_remove ''u1'' ''u2''])).
     active_admin (foldl (user_step demo_auth_env) demo_auth_db [Ue_set_disabled ''u1'' True, Ue_remove ''u1'' ''u2'']) u"
  by (rule an_administrator_remains; code_simp)

section \<open>Concurrent demotions\<close>

text \<open>
  \<open>setRole\<close> and \<open>setDisabled\<close> check and then write, in two database calls. When the checks of two
  requests both run before either write, both pass: two administrators who disable each other at
  the same moment leave none.
\<close>

definition two_admins :: auth_db where
  "two_admins = snd (user_create demo_auth_env demo_auth_db
     \<lparr>nu_email = ''b@x.org'', nu_displayName = None, nu_password = None, nu_roleSlug = ''admin''\<rparr>
     \<lparr>uf_id = ''u2'', uf_roleId = [], uf_salt = []\<rparr> 1)"

theorem concurrent_disables_leave_no_admin:
  "(\<exists>u \<in> set (ad_users two_admins). active_admin two_admins u) \<and>
   assertKeepsAnAdmin two_admins ''u1'' None = Inr () \<and>
   assertKeepsAnAdmin two_admins ''u2'' None = Inr () \<and>
   \<not> (\<exists>u \<in> set (ad_users (update_user (update_user two_admins ''u1'' (\<lambda>u. u\<lparr>us_disabled := True\<rparr>))
          ''u2'' (\<lambda>u. u\<lparr>us_disabled := True\<rparr>))).
        active_admin (update_user (update_user two_admins ''u1'' (\<lambda>u. u\<lparr>us_disabled := True\<rparr>))
          ''u2'' (\<lambda>u. u\<lparr>us_disabled := True\<rparr>)) u)"
  by code_simp

section \<open>Recovery codes\<close>

lemma normalize_no_dash: "CHR ''-'' \<notin> set (normalize_code s)"
  by (simp add: normalize_code_def is_upper_def is_digit_def code_of_def)

lemma issued_code_has_dash: "CHR ''-'' \<in> set (randomRecoveryCode draws)"
  by (simp add: randomRecoveryCode_def Let_def)

lemma issued_code_length: "length draws = 10 \<Longrightarrow> length (randomRecoveryCode draws) = 11"
  by (simp add: randomRecoveryCode_def Let_def)

lemma issued_rows:
  assumes "issueRecoveryCodes env db userId ds = (codes, db')"
  shows "filter (\<lambda>r. rc_userId r = userId) (ad_recovery db') =
    map (\<lambda>d. \<lparr>rc_id = cd_id d, rc_userId = userId,
              rc_codeHash = ae_hash env (cd_salt d) (randomRecoveryCode (cd_draws d)),
              rc_consumedAt = None\<rparr>) (take RECOVERY_CODE_COUNT ds)"
proof -
  have "db' = snd (issueRecoveryCodes env db userId ds)" using assms by simp
  then show ?thesis
    by (simp add: issueRecoveryCodes_def Let_def delete_codes_def filter_map comp_def)
qed

text \<open>
  C36: No recovery code is ever accepted. The codes are hashed in their printed form, with the dash
  (\<open>issueRecoveryCodes\<close>), while a candidate is compared with the dash removed
  (\<open>consumeRecoveryCode\<close>); so for a password hash that accepts exactly the text hashed (below its
  72-byte limit), every candidate is refused after every issue, the printed codes among them.
\<close>

theorem recovery_codes_never_accepted:
  assumes bcrypt: "\<And>salt a b. length b < 72 \<Longrightarrow> ae_compare env a (ae_hash env salt b) \<longleftrightarrow> a = b"
    and draws: "\<And>d. d \<in> set ds \<Longrightarrow> length (cd_draws d) = 10"
    and "issueRecoveryCodes env db userId ds = (codes, db')"
  shows "consumeRecoveryCode env db' userId candidate now = (False, db')"
proof -
  let ?mine = "filter (\<lambda>r. rc_userId r = userId \<and> rc_consumedAt r = None) (ad_recovery db')"
  have "\<not> ae_compare env (normalize_code candidate) (rc_codeHash r)" if "r \<in> set ?mine" for r
  proof -
    from that have "r \<in> set (filter (\<lambda>r. rc_userId r = userId) (ad_recovery db'))" by simp
    then obtain d where d: "d \<in> set (take RECOVERY_CODE_COUNT ds)"
        "rc_codeHash r = ae_hash env (cd_salt d) (randomRecoveryCode (cd_draws d))"
      unfolding issued_rows [OF assms(3)] by auto
    then have "length (cd_draws d) = 10" by (auto intro: draws dest: in_set_takeD)
    moreover have "normalize_code candidate \<noteq> randomRecoveryCode (cd_draws d)"
      using normalize_no_dash issued_code_has_dash by metis
    ultimately show ?thesis using d(2) by (simp add: bcrypt issued_code_length)
  qed
  then have "List.find (\<lambda>r. ae_compare env (normalize_code candidate) (rc_codeHash r)) ?mine = None"
    by (simp only: find_None_iff) blast
  then show ?thesis by (simp add: consumeRecoveryCode_def Let_def)
qed

theorem recovery_codes_never_accepted_witness:
  "consumeRecoveryCode demo_auth_env
     (snd (issueRecoveryCodes demo_auth_env demo_auth_db ''u1'' [\<lparr>cd_id = ''c1'', cd_salt = [], cd_draws = [0,1,2,3,4,5,6,7,8,9]\<rparr>]))
     ''u1'' ''ABCDE-FGHJK'' 7 =
   (False, snd (issueRecoveryCodes demo_auth_env demo_auth_db ''u1'' [\<lparr>cd_id = ''c1'', cd_salt = [], cd_draws = [0,1,2,3,4,5,6,7,8,9]\<rparr>]))"
  by (rule recovery_codes_never_accepted [where env = demo_auth_env
        and ds = "[\<lparr>cd_id = ''c1'', cd_salt = [], cd_draws = [0,1,2,3,4,5,6,7,8,9]\<rparr>]", OF _ _ prod.collapse [symmetric]])
    (simp_all add: demo_auth_env_def)

text \<open>The code printed for these draws is the candidate of the witness.\<close>

lemma printed_code: "randomRecoveryCode [0,1,2,3,4,5,6,7,8,9] = ''ABCDE-FGHJK''"
  by code_simp

section \<open>The second factor at sign-in\<close>

text \<open>
  The second factor of a sign-in succeeds only for an account with TOTP enabled, and only by
  a verified six-digit code or a recovery code that was unused; a recovery code is then marked
  used, and every attempt on an enrolled account is audited.
\<close>

theorem second_factor_success:
  assumes "verifyForLogin env db userId code now = (True, db')"
  shows "\<exists>user secret. find_user db userId = Some user \<and> us_totpEnabledAt user \<noteq> None \<and>
      us_totpSecret user = Some secret \<and>
      (verifyTotp env secret code now \<or>
       (\<exists>r \<in> set (ad_recovery db). rc_userId r = userId \<and> rc_consumedAt r = None \<and>
          ae_compare env (normalize_code code) (rc_codeHash r) \<and>
          (\<forall>q \<in> set (ad_recovery db'). rc_id q = rc_id r \<longrightarrow> rc_consumedAt q = Some now))) \<and>
      length (ad_audit db') = Suc (length (ad_audit db))"
proof -
  obtain user where u: "find_user db userId = Some user" "us_totpEnabledAt user \<noteq> None" "nonempty (us_totpSecret user)"
    using assms by (auto simp: verifyForLogin_def split: option.splits if_splits)
  then obtain secret where s: "us_totpSecret user = Some secret" by (auto simp: nonempty_def split: option.splits)
  show ?thesis
  proof (cases "verifyTotp env secret code now")
    case True
    then show ?thesis using assms u s
      by (auto simp: verifyForLogin_def record_audit_def)
  next
    case False
    with assms u s obtain db1 where c: "consumeRecoveryCode env db userId code now = (True, db1)"
      and d: "db' = record_audit db1 (Some userId) (Some (us_email user)) ''auth.mfa_recovery_used'' None"
      by (auto simp: verifyForLogin_def split: prod.splits)
    from c obtain r where r: "List.find (\<lambda>r. ae_compare env (normalize_code code) (rc_codeHash r))
          (filter (\<lambda>r. rc_userId r = userId \<and> rc_consumedAt r = None) (ad_recovery db)) = Some r"
      and db1: "db1 = db\<lparr>ad_recovery := rows_update (\<lambda>q. rc_id q = rc_id r)
                   (\<lambda>r. r\<lparr>rc_consumedAt := Some now\<rparr>) (ad_recovery db)\<rparr>"
      by (auto simp: consumeRecoveryCode_def Let_def split: if_splits option.splits)
    have "\<forall>q \<in> set (ad_recovery db'). rc_id q = rc_id r \<longrightarrow> rc_consumedAt q = Some now"
      by (auto simp: d db1 record_audit_def in_rows_update)
    moreover have "length (ad_audit db') = Suc (length (ad_audit db))" by (simp add: d db1 record_audit_def)
    ultimately show ?thesis using u s find_SomeD [OF r] by auto
  qed
qed

definition demo_mfa_db :: auth_db where
  "demo_mfa_db = snd (confirmEnrollment demo_auth_env
     (snd (beginEnrollment demo_auth_env demo_auth_db ''u1'' ''123456'')) ''u1'' ''123 456'' [] 5)"

theorem second_factor_success_witness:
  "\<exists>user secret. find_user demo_mfa_db ''u1'' = Some user \<and> us_totpSecret user = Some secret"
proof -
  have "fst (verifyForLogin demo_auth_env demo_mfa_db ''u1'' ''123456'' 6)" by code_simp
  then have "verifyForLogin demo_auth_env demo_mfa_db ''u1'' ''123456'' 6 =
      (True, snd (verifyForLogin demo_auth_env demo_mfa_db ''u1'' ''123456'' 6))"
    by (simp add: prod_eq_iff)
  from second_factor_success [OF this] show ?thesis by blast
qed

end
