(* ===== verification/Login.thy ===== *)
theory Login
  imports Users Ip_Policy
begin

text \<open>
  Interactive sign-in: \<^verbatim>\<open>auth/auth.controller.ts\<close>, the brute-force throttle
  \<^verbatim>\<open>auth/login-throttle.service.ts\<close> and the network policy
  \<^verbatim>\<open>auth/local-login-policy.service.ts\<close>, over the accounts of \<open>Users\<close>.

  Redis is a record of its commands over a store of any type \<open>'r\<close>; a command that fails (the
  connection is down) is \<open>None\<close>. What the throttle relies on is \<open>redis_behaves\<close>, the documented
  behaviour of the commands in terms of a view of the keys. The session is the part of
  \<^verbatim>\<open>SessionData\<close> these routes use; regenerating it gives an empty one.
\<close>

section \<open>The throttle\<close>

record 'r redis =
  rd_ttl :: "'r \<Rightarrow> string \<Rightarrow> time \<Rightarrow> int option"
  rd_get :: "'r \<Rightarrow> string \<Rightarrow> time \<Rightarrow> int option option"
  rd_incr :: "'r \<Rightarrow> string \<Rightarrow> time \<Rightarrow> (int \<times> 'r) option"
  rd_expire :: "'r \<Rightarrow> string \<Rightarrow> int \<Rightarrow> time \<Rightarrow> 'r option"
  rd_setex :: "'r \<Rightarrow> string \<Rightarrow> int \<Rightarrow> time \<Rightarrow> 'r option"
  rd_del :: "'r \<Rightarrow> string list \<Rightarrow> time \<Rightarrow> 'r option"

record throttle_config =
  th_ipMax :: int
  th_ipWindow :: int
  th_failMax :: int
  th_lockSeconds :: int

text \<open>\<open>envInt\<close> on the number read (\<open>None\<close>: not a finite number); fractions are not modelled.\<close>

definition envInt :: "int option \<Rightarrow> int \<Rightarrow> int" where
  "envInt v d = (case v of None \<Rightarrow> d | Some n \<Rightarrow> if 0 < n then n else d)"

definition default_throttle :: throttle_config where
  "default_throttle = \<lparr>th_ipMax = envInt None 30, th_ipWindow = envInt None 900,
     th_failMax = envInt None 5, th_lockSeconds = envInt None 900\<rparr>"

definition ipKey :: "string \<Rightarrow> string" where "ipKey ip = ''cerebro:login:ip:'' @ ip"
definition failKey :: "string \<Rightarrow> string" where "failKey i = ''cerebro:login:fail:'' @ to_lower i"
definition lockKey :: "string \<Rightarrow> string" where "lockKey i = ''cerebro:login:lock:'' @ to_lower i"

definition throttle_assertAllowed ::
    "'r redis \<Rightarrow> throttle_config \<Rightarrow> 'r \<Rightarrow> string option \<Rightarrow> string \<Rightarrow> time \<Rightarrow> http_error + unit" where
  "throttle_assertAllowed rd cfg s ip accountId now =
     (case (rd_ttl rd s (lockKey accountId) now,
            if nonempty ip then rd_get rd s (ipKey (the ip)) now else Some None) of
        (Some lockTtl, Some ipCount) \<Rightarrow>
          if lockTtl > 0
          then Inl (TooManyRequests (''Too many failed attempts. Try again in '' @
                 show_int ((lockTtl + 59) div 60) @ '' min.''))
          else if nonempty ip \<and> th_ipMax cfg \<le> (case ipCount of None \<Rightarrow> 0 | Some n \<Rightarrow> n)
          then Inl (TooManyRequests ''Too many sign-in attempts from your network. Try again later.'')
          else Inr ()
      | _ \<Rightarrow> Inr ())"

text \<open>The commands in order; the first that fails ends the method, with the effects so far.\<close>

definition count_ip :: "'r redis \<Rightarrow> throttle_config \<Rightarrow> 'r \<Rightarrow> string option \<Rightarrow> time \<Rightarrow> 'r option \<times> 'r" where
  "count_ip rd cfg s ip now =
     (if \<not> nonempty ip then (Some s, s)
      else case rd_incr rd s (ipKey (the ip)) now of
             None \<Rightarrow> (None, s)
           | Some (n, s1) \<Rightarrow>
               if n = 1 then (case rd_expire rd s1 (ipKey (the ip)) (th_ipWindow cfg) now of
                                None \<Rightarrow> (None, s1) | Some s2 \<Rightarrow> (Some s2, s2))
               else (Some s1, s1))"

definition count_fail :: "'r redis \<Rightarrow> throttle_config \<Rightarrow> 'r \<Rightarrow> string \<Rightarrow> time \<Rightarrow> 'r" where
  "count_fail rd cfg s accountId now =
     (case rd_incr rd s (failKey accountId) now of
        None \<Rightarrow> s
      | Some (fails, s1) \<Rightarrow>
          (case (if fails = 1 then rd_expire rd s1 (failKey accountId) (th_lockSeconds cfg) now else Some s1) of
             None \<Rightarrow> s1
           | Some s2 \<Rightarrow>
               if fails \<ge> th_failMax cfg
               then (case rd_setex rd s2 (lockKey accountId) (th_lockSeconds cfg) now of
                       None \<Rightarrow> s2
                     | Some s3 \<Rightarrow> (case rd_del rd s3 [failKey accountId] now of None \<Rightarrow> s3 | Some s4 \<Rightarrow> s4))
               else s2))"

definition recordFailure ::
    "'r redis \<Rightarrow> throttle_config \<Rightarrow> 'r \<Rightarrow> string option \<Rightarrow> string \<Rightarrow> time \<Rightarrow> 'r" where
  "recordFailure rd cfg s ip accountId now =
     (case count_ip rd cfg s ip now of
        (None, s1) \<Rightarrow> s1
      | (Some s1, _) \<Rightarrow> count_fail rd cfg s1 accountId now)"

definition recordSuccess :: "'r redis \<Rightarrow> 'r \<Rightarrow> string \<Rightarrow> time \<Rightarrow> 'r" where
  "recordSuccess rd s accountId now =
     (case rd_del rd s [failKey accountId, lockKey accountId] now of None \<Rightarrow> s | Some s1 \<Rightarrow> s1)"

section \<open>The network policy\<close>

record policy_state =
  ps_setting :: json
  ps_lastBlockedAudit :: "(string, time) jsmap"

definition BLOCKED_AUDIT_WINDOW_MS :: int where "BLOCKED_AUDIT_WINDOW_MS = 10 * 60 * 1000"

definition policy_isAllowed :: "policy_state \<Rightarrow> string option \<Rightarrow> policy_error + bool" where
  "policy_isAllowed ps ip = isIpAllowed (coercePolicy (ps_setting ps)) ip"

definition policy_assertAllowed ::
    "policy_state \<Rightarrow> auth_db \<Rightarrow> string option \<Rightarrow> string option \<Rightarrow> time \<Rightarrow>
     (http_error + unit) \<times> policy_state \<times> auth_db" where
  "policy_assertAllowed ps db ip attemptedEmail now =
     (case policy_isAllowed ps ip of
        Inl _ \<Rightarrow> (Inl (InternalError ''policy''), ps, db)
      | Inr True \<Rightarrow> (Inr (), ps, db)
      | Inr False \<Rightarrow>
          (let key = (case normalizeIp ip of None \<Rightarrow> ''unknown'' | Some k \<Rightarrow> k);
               refused = Inl (Forbidden ''Password sign-in is not available from your network. Use single sign-on.'');
               last = (case map_get (ps_lastBlockedAudit ps) key of None \<Rightarrow> 0 | Some t \<Rightarrow> t)
           in if last + BLOCKED_AUDIT_WINDOW_MS < now
              then (let m = map_set (ps_lastBlockedAudit ps) key now;
                        m' = (if length m > 1000 then [] else m)
                    in (refused, ps\<lparr>ps_lastBlockedAudit := m'\<rparr>,
                        record_audit db None attemptedEmail ''auth.login_blocked_ip'' (Some key)))
              else (refused, ps, db)))"

section \<open>The controller\<close>

record pending_mfa =
  pm_userId :: string
  pm_expiresAt :: time
  pm_attempts :: nat

record session =
  se_userId :: "string option"
  se_pendingMfa :: "pending_mfa option"

definition empty_session :: session where
  "empty_session = \<lparr>se_userId = None, se_pendingMfa = None\<rparr>"

record 'r login_state =
  ls_db :: auth_db
  ls_policy :: policy_state
  ls_redis :: 'r
  ls_session :: session

definition MFA_CHALLENGE_TTL_MS :: int where "MFA_CHALLENGE_TTL_MS = 5 * 60 * 1000"
definition MFA_MAX_ATTEMPTS :: nat where "MFA_MAX_ATTEMPTS = 5"

datatype login_ok = Signed_in | Mfa_required

definition establish :: "'r login_state \<Rightarrow> string \<Rightarrow> 'r login_state" where
  "establish st userId = st\<lparr>ls_session := empty_session\<lparr>se_userId := Some userId\<rparr>\<rparr>"

definition beginMfaChallenge :: "'r login_state \<Rightarrow> string \<Rightarrow> time \<Rightarrow> 'r login_state" where
  "beginMfaChallenge st userId now =
     st\<lparr>ls_session := empty_session\<lparr>se_pendingMfa :=
       Some \<lparr>pm_userId = userId, pm_expiresAt = now + MFA_CHALLENGE_TTL_MS, pm_attempts = 0\<rparr>\<rparr>\<rparr>"

definition clearPendingMfa :: "'r login_state \<Rightarrow> 'r login_state" where
  "clearPendingMfa st = st\<lparr>ls_session := (ls_session st)\<lparr>se_pendingMfa := None\<rparr>\<rparr>"

definition setup_admin ::
    "auth_env \<Rightarrow> 'r login_state \<Rightarrow> string \<Rightarrow> string \<Rightarrow> string \<Rightarrow> user_fresh \<Rightarrow> time \<Rightarrow>
     (http_error + login_ok) \<times> 'r login_state" where
  "setup_admin env st email displayName password fr now =
     (case createInitialAdmin env (ls_db st) email displayName password fr now of
        (Inl e, db) \<Rightarrow> (Inl e, st\<lparr>ls_db := db\<rparr>)
      | (Inr userId, db) \<Rightarrow> (Inr Signed_in, establish (st\<lparr>ls_db := db\<rparr>) userId))"

definition login ::
    "auth_env \<Rightarrow> 'r redis \<Rightarrow> throttle_config \<Rightarrow> 'r login_state \<Rightarrow> string \<Rightarrow> string \<Rightarrow> string option \<Rightarrow> time \<Rightarrow>
     (http_error + login_ok) \<times> 'r login_state" where
  "login env rd cfg st email password ip now =
     (case policy_assertAllowed (ls_policy st) (ls_db st) ip (Some email) now of
        (Inl e, ps, db) \<Rightarrow> (Inl e, st\<lparr>ls_policy := ps, ls_db := db\<rparr>)
      | (Inr _, ps, db) \<Rightarrow>
     (case throttle_assertAllowed rd cfg (ls_redis st) ip email now of
        Inl e \<Rightarrow> (Inl e, st)
      | Inr _ \<Rightarrow>
     (case validateLocal env (ls_db st) email password now of
        (None, db1) \<Rightarrow>
          (Inl (Unauthorized ''Invalid email or password.''),
           st\<lparr>ls_redis := recordFailure rd cfg (ls_redis st) ip email now,
              ls_db := record_audit db1 None (Some email) ''auth.login_failed'' (Some email)\<rparr>)
      | (Some userId, db1) \<Rightarrow>
          (case getStatus db1 userId of
             Inl e \<Rightarrow> (Inl e, st\<lparr>ls_db := db1\<rparr>)
           | Inr (enabled, _) \<Rightarrow>
               if enabled then (Inr Mfa_required, beginMfaChallenge (st\<lparr>ls_db := db1\<rparr>) userId now)
               else (Inr Signed_in,
                     establish (st\<lparr>ls_redis := recordSuccess rd (ls_redis st) email now,
                                   ls_db := record_audit db1 (Some userId) (Some email) ''auth.login'' None\<rparr>)
                       userId)))))"

definition mfa_account :: "string \<Rightarrow> string" where "mfa_account userId = ''uid:'' @ userId"

definition loginTotp ::
    "auth_env \<Rightarrow> 'r redis \<Rightarrow> throttle_config \<Rightarrow> 'r login_state \<Rightarrow> string \<Rightarrow> string option \<Rightarrow> time \<Rightarrow>
     (http_error + login_ok) \<times> 'r login_state" where
  "loginTotp env rd cfg st code ip now =
     (case se_pendingMfa (ls_session st) of
        None \<Rightarrow> (Inl (Unauthorized ''No sign-in is awaiting a code. Start over.''), st)
      | Some pending \<Rightarrow>
          if now > pm_expiresAt pending
          then (Inl (Unauthorized ''The sign-in request expired. Start over.''), clearPendingMfa st)
          else if pm_attempts pending \<ge> MFA_MAX_ATTEMPTS
          then (Inl (Unauthorized ''Too many incorrect codes. Start over.''), clearPendingMfa st)
          else
     (case policy_assertAllowed (ls_policy st) (ls_db st) ip None now of
        (Inl e, ps, db) \<Rightarrow> (Inl e, st\<lparr>ls_policy := ps, ls_db := db\<rparr>)
      | (Inr _, ps, db) \<Rightarrow>
          (let acct = mfa_account (pm_userId pending)
           in case throttle_assertAllowed rd cfg (ls_redis st) ip acct now of
                Inl e \<Rightarrow> (Inl e, st)
              | Inr _ \<Rightarrow>
                  (case verifyForLogin env (ls_db st) (pm_userId pending) code now of
                     (False, db1) \<Rightarrow>
                       (Inl (Unauthorized ''That code is incorrect.''),
                        st\<lparr>ls_db := db1,
                           ls_session := (ls_session st)\<lparr>se_pendingMfa := Some (pending\<lparr>pm_attempts := Suc (pm_attempts pending)\<rparr>)\<rparr>,
                           ls_redis := recordFailure rd cfg (ls_redis st) ip acct now\<rparr>)
                   | (True, db1) \<Rightarrow>
                       (Inr Signed_in,
                        establish (st\<lparr>ls_redis := recordSuccess rd (ls_redis st) acct now,
                                      ls_db := record_audit db1 (Some (pm_userId pending)) None ''auth.login'' None\<rparr>)
                          (pm_userId pending))))))"

definition logout :: "'r login_state \<Rightarrow> session_user option \<Rightarrow> 'r login_state" where
  "logout st user =
     (let db = (case user of
                  None \<Rightarrow> ls_db st
                | Some u \<Rightarrow> record_audit (ls_db st) (Some (su_id u)) (Some (su_email u)) ''auth.logout'' None)
      in st\<lparr>ls_db := db, ls_session := empty_session\<rparr>)"

section \<open>Sign-in needs every factor\<close>

text \<open>The requests of one browser session.\<close>

datatype login_request =
    Rq_setup string string string user_fresh
  | Rq_login string string
  | Rq_totp string
  | Rq_logout "session_user option"

definition handle_login ::
    "auth_env \<Rightarrow> 'r redis \<Rightarrow> throttle_config \<Rightarrow> 'r login_state \<Rightarrow> login_request \<Rightarrow> string option \<Rightarrow> time \<Rightarrow>
     (http_error + login_ok) option \<times> 'r login_state" where
  "handle_login env rd cfg st rq ip now =
     (case rq of
        Rq_setup email name password fr \<Rightarrow> apfst Some (setup_admin env st email name password fr now)
      | Rq_login email password \<Rightarrow> apfst Some (login env rd cfg st email password ip now)
      | Rq_totp code \<Rightarrow> apfst Some (loginTotp env rd cfg st code ip now)
      | Rq_logout user \<Rightarrow> (None, logout st user))"

definition password_accepted :: "auth_env \<Rightarrow> auth_db \<Rightarrow> string \<Rightarrow> string \<Rightarrow> user_row \<Rightarrow> bool" where
  "password_accepted env db email password u \<longleftrightarrow>
     u \<in> set (ad_users db) \<and> us_email u = to_lower email \<and> \<not> us_disabled u \<and>
     (\<exists>h. us_passwordHash u = Some h \<and> ae_compare env password h)"

lemma validateLocal_Some:
  assumes "validateLocal env db email password now = (Some i, db')"
  shows "\<exists>u. password_accepted env db email password u \<and> us_id u = i \<and>
    db' = update_user db i (\<lambda>u. u\<lparr>us_lastLoginAt := Some now\<rparr>)"
  using assms
  by (auto simp: validateLocal_def password_accepted_def find_user_email_def nonempty_def
      split: option.splits if_splits dest!: find_SomeD)

lemma establish_session [simp]:
  "se_userId (ls_session (establish st i)) = Some i"
  "se_pendingMfa (ls_session (establish st i)) = None"
  "ls_db (establish st i) = ls_db st"
  by (simp_all add: establish_def empty_session_def)

lemma begin_session [simp]:
  "se_userId (ls_session (beginMfaChallenge st i now)) = None"
  by (simp add: beginMfaChallenge_def empty_session_def)

definition mfa_enabled :: "auth_db \<Rightarrow> string \<Rightarrow> bool" where
  "mfa_enabled db i = (case find_user db i of None \<Rightarrow> False | Some u \<Rightarrow> us_totpEnabledAt u \<noteq> None)"

lemma mfa_enabled_stamp [simp]:
  "mfa_enabled (update_user db j (\<lambda>u. u\<lparr>us_lastLoginAt := Some now\<rparr>)) i = mfa_enabled db i"
  by (simp add: mfa_enabled_def find_user_def update_user_def find_rows_update split: option.split)

lemma getStatus_Inr: "getStatus db i = Inr (b, c) \<Longrightarrow> b = mfa_enabled db i"
  by (auto simp: getStatus_def mfa_enabled_def split: option.splits)

lemma login_outcome:
  assumes "login env rd cfg st email password ip now = (r, st')"
  shows "ls_session st' = ls_session st \<or>
    (\<exists>u. password_accepted env (ls_db st) email password u \<and>
       (if mfa_enabled (ls_db st) (us_id u)
        then ls_session st' = empty_session\<lparr>se_pendingMfa := Some \<lparr>pm_userId = us_id u,
               pm_expiresAt = now + MFA_CHALLENGE_TTL_MS, pm_attempts = 0\<rparr>\<rparr>
        else ls_session st' = empty_session\<lparr>se_userId := Some (us_id u)\<rparr>))"
proof -
  obtain pr ps db where pol: "policy_assertAllowed (ls_policy st) (ls_db st) ip (Some email) now = (pr, ps, db)"
    by (metis prod.exhaust)
  obtain v db1 where val: "validateLocal env (ls_db st) email password now = (v, db1)" by (metis prod.exhaust)
  show ?thesis
  proof (cases "(\<exists>e. pr = Inl e) \<or> (\<exists>e. throttle_assertAllowed rd cfg (ls_redis st) ip email now = Inl e) \<or>
      v = None \<or> (\<exists>e. getStatus db1 (the v) = Inl e)")
    case True
    then show ?thesis using assms pol val by (auto simp: login_def split: sum.splits option.splits)
  next
    case False
    then obtain i b c where v: "v = Some i" and s: "getStatus db1 i = Inr (b, c)"
        and ok: "pr = Inr ()" "throttle_assertAllowed rd cfg (ls_redis st) ip email now = Inr ()"
      by (cases pr; cases "throttle_assertAllowed rd cfg (ls_redis st) ip email now"; cases v;
          cases "getStatus db1 (the v)") auto
    from validateLocal_Some val v obtain u where u: "password_accepted env (ls_db st) email password u" "us_id u = i"
      "db1 = update_user (ls_db st) i (\<lambda>u. u\<lparr>us_lastLoginAt := Some now\<rparr>)" by blast
    have "b = mfa_enabled (ls_db st) (us_id u)" using getStatus_Inr [OF s] u by simp
    then show ?thesis using assms pol val v s ok u
      by (intro disjI2 exI [of _ u]) (auto simp: login_def establish_def beginMfaChallenge_def)
  qed
qed

lemma totp_outcome:
  assumes "loginTotp env rd cfg st code ip now = (r, st')"
  shows "(\<exists>p. se_pendingMfa (ls_session st) = Some p \<and> now \<le> pm_expiresAt p \<and> pm_attempts p < MFA_MAX_ATTEMPTS \<and>
        fst (verifyForLogin env (ls_db st) (pm_userId p) code now) \<and>
        ls_session st' = empty_session\<lparr>se_userId := Some (pm_userId p)\<rparr> \<and> r = Inr Signed_in) \<or>
    (\<exists>p. se_pendingMfa (ls_session st) = Some p \<and> pm_attempts p < MFA_MAX_ATTEMPTS \<and>
        ls_session st' = (ls_session st)\<lparr>se_pendingMfa := Some (p\<lparr>pm_attempts := Suc (pm_attempts p)\<rparr>)\<rparr>) \<or>
    ls_session st' \<in> {ls_session st, (ls_session st)\<lparr>se_pendingMfa := None\<rparr>} \<and>
      r \<noteq> Inl (Unauthorized ''That code is incorrect.'') \<and> r \<noteq> Inr Signed_in"
proof (cases "se_pendingMfa (ls_session st)")
  case None
  then show ?thesis using assms by (auto simp: loginTotp_def)
next
  case (Some p)
  show ?thesis
  proof (cases "now > pm_expiresAt p \<or> pm_attempts p \<ge> MFA_MAX_ATTEMPTS")
    case True
    then have "st' = clearPendingMfa st \<and> r \<noteq> Inl (Unauthorized ''That code is incorrect.'') \<and> r \<noteq> Inr Signed_in"
      using assms Some by (auto simp: loginTotp_def not_less split: if_splits)
    then show ?thesis by (auto simp: clearPendingMfa_def)
  next
    case False
    obtain pr ps db where pol: "policy_assertAllowed (ls_policy st) (ls_db st) ip None now = (pr, ps, db)"
      by (metis prod.exhaust)
    show ?thesis
    proof (cases pr)
      case (Inl e)
      have "e \<noteq> Unauthorized m" for m
        using pol Inl by (auto simp: policy_assertAllowed_def Let_def split: sum.splits bool.splits if_splits)
      then show ?thesis using assms Some False pol Inl by (auto simp: loginTotp_def)
    next
      case (Inr u)
      show ?thesis
      proof (cases "throttle_assertAllowed rd cfg (ls_redis st) ip (mfa_account (pm_userId p)) now")
        case (Inl e)
        have "e \<noteq> Unauthorized m" for m
          using Inl by (auto simp: throttle_assertAllowed_def split: option.splits if_splits)
        then show ?thesis using assms Some False pol Inr Inl by (auto simp: loginTotp_def Let_def)
      next
        case inner: (Inr v)
        then show ?thesis using assms Some False pol Inr
          by (cases "verifyForLogin env (ls_db st) (pm_userId p) code now")
            (auto simp: loginTotp_def Let_def establish_def split: bool.splits)
      qed
    qed
  qed
qed

lemma setup_outcome:
  assumes "setup_admin env st email name password fr now = (r, st')"
  shows "ls_session st' = ls_session st \<or> isFirstRun (ls_db st)"
  using assms
  by (auto simp: setup_admin_def createInitialAdmin_def split: prod.splits sum.splits if_splits)


text \<open>The user a session belongs to or waits for a second factor of.\<close>

definition session_names :: "'r login_state \<Rightarrow> string \<Rightarrow> bool" where
  "session_names st i \<longleftrightarrow> se_userId (ls_session st) = Some i \<or>
     (\<exists>p. se_pendingMfa (ls_session st) = Some p \<and> pm_userId p = i)"

definition proves_identity :: "auth_env \<Rightarrow> 'r login_state \<Rightarrow> login_request \<Rightarrow> string \<Rightarrow> bool" where
  "proves_identity env st rq i \<longleftrightarrow>
     (case rq of
        Rq_login email password \<Rightarrow> \<exists>u. password_accepted env (ls_db st) email password u \<and> us_id u = i
      | Rq_setup _ _ _ _ \<Rightarrow> isFirstRun (ls_db st)
      | _ \<Rightarrow> False)"

lemma session_names_step:
  assumes "session_names (snd (handle_login env rd cfg st rq ip now)) i"
  shows "session_names st i \<or> proves_identity env st rq i"
proof (cases rq)
  case (Rq_setup email name password fr)
  show ?thesis using assms setup_outcome [of env st email name password fr now] Rq_setup
    by (cases "setup_admin env st email name password fr now")
      (auto simp: handle_login_def session_names_def proves_identity_def)
next
  case (Rq_login email password)
  obtain r st' where l: "login env rd cfg st email password ip now = (r, st')" by (metis prod.exhaust)
  have "snd (handle_login env rd cfg st rq ip now) = st'" using l Rq_login by (simp add: handle_login_def)
  with assms have n: "session_names st' i" by simp
  from login_outcome [OF l] show ?thesis
  proof
    assume "ls_session st' = ls_session st"
    then show ?thesis using n by (simp add: session_names_def)
  next
    assume "\<exists>u. password_accepted env (ls_db st) email password u \<and>
       (if mfa_enabled (ls_db st) (us_id u)
        then ls_session st' = empty_session\<lparr>se_pendingMfa := Some \<lparr>pm_userId = us_id u,
               pm_expiresAt = now + MFA_CHALLENGE_TTL_MS, pm_attempts = 0\<rparr>\<rparr>
        else ls_session st' = empty_session\<lparr>se_userId := Some (us_id u)\<rparr>)"
    then obtain u where "password_accepted env (ls_db st) email password u" "us_id u = i"
      using n by (auto simp: session_names_def empty_session_def split: if_splits)
    then show ?thesis using Rq_login by (auto simp: proves_identity_def)
  qed
next
  case (Rq_totp code)
  obtain r st' where l: "loginTotp env rd cfg st code ip now = (r, st')" by (metis prod.exhaust)
  then show ?thesis using assms totp_outcome [OF l] Rq_totp
    by (auto simp: handle_login_def session_names_def empty_session_def)
next
  case (Rq_logout user)
  then show ?thesis using assms
    by (auto simp: handle_login_def logout_def session_names_def empty_session_def Let_def)
qed

definition login_run ::
    "auth_env \<Rightarrow> 'r redis \<Rightarrow> throttle_config \<Rightarrow> 'r login_state \<Rightarrow> (login_request \<times> string option \<times> time) list \<Rightarrow>
     'r login_state" where
  "login_run env rd cfg st rqs = foldl (\<lambda>st (rq, ip, now). snd (handle_login env rd cfg st rq ip now)) st rqs"

text \<open>
  However a browser session is driven from an empty one, when it ends up signed in as a user,
  an earlier request of that session gave an email and password that the account accepted at that
  moment (or performed the first-run setup).
\<close>

theorem session_origin:
  assumes "ls_session st = empty_session" and "se_userId (ls_session (login_run env rd cfg st rqs)) = Some i"
  shows "\<exists>pre rq ip now post. rqs = pre @ (rq, ip, now) # post \<and>
    proves_identity env (login_run env rd cfg st pre) rq i"
proof -
  have "\<exists>pre rq ip now post. rqs = pre @ (rq, ip, now) # post \<and>
      proves_identity env (login_run env rd cfg st pre) rq i"
    if "session_names (login_run env rd cfg st rqs) i" for rqs
    using that
  proof (induction rqs rule: rev_induct)
    case Nil
    then show ?case using assms(1) by (simp add: login_run_def session_names_def empty_session_def)
  next
    case (snoc x xs)
    obtain rq ip now where x: "x = (rq, ip, now)" by (cases x)
    from snoc.prems have "session_names (snd (handle_login env rd cfg (login_run env rd cfg st xs) rq ip now)) i"
      by (simp add: login_run_def x)
    from session_names_step [OF this] show ?case
    proof
      assume "session_names (login_run env rd cfg st xs) i"
      from snoc.IH [OF this] show ?thesis by (metis append.assoc append_Cons)
    next
      assume "proves_identity env (login_run env rd cfg st xs) rq i"
      then show ?thesis using x by blast
    qed
  qed
  then show ?thesis using assms(2) by (simp add: session_names_def)
qed

section \<open>Attempts per challenge\<close>




section \<open>Redis, and the lock-out\<close>

text \<open>A view of the keys: the number stored and the expiry; \<open>live\<close> hides what has expired.\<close>

definition live :: "('r \<Rightarrow> string \<Rightarrow> (int \<times> time option) option) \<Rightarrow> 'r \<Rightarrow> string \<Rightarrow> time \<Rightarrow> (int \<times> time option) option" where
  "live view s k now =
     (case view s k of
        Some (n, Some e) \<Rightarrow> if now < e then Some (n, Some e) else None
      | x \<Rightarrow> x)"

definition bump :: "(int \<times> time option) option \<Rightarrow> int \<times> time option" where
  "bump v = (case v of None \<Rightarrow> (1, None) | Some (n, e) \<Rightarrow> (n + 1, e))"

definition redis_behaves :: "'r redis \<Rightarrow> ('r \<Rightarrow> string \<Rightarrow> (int \<times> time option) option) \<Rightarrow> bool" where
  "redis_behaves rd view \<longleftrightarrow>
     (\<forall>s k now. \<exists>t. rd_ttl rd s k now = Some t \<and>
        (case live view s k now of Some (_, Some e) \<Rightarrow> 0 \<le> t \<and> (1000 \<le> e - now \<longrightarrow> 0 < t) | _ \<Rightarrow> t < 0)) \<and>
     (\<forall>s k now. rd_get rd s k now = Some (map_option fst (live view s k now))) \<and>
     (\<forall>s k now. \<exists>s'. rd_incr rd s k now = Some (fst (bump (live view s k now)), s') \<and>
        view s' = (view s)(k \<mapsto> bump (live view s k now))) \<and>
     (\<forall>s k n now. \<exists>s'. rd_expire rd s k n now = Some s' \<and>
        view s' = (case live view s k now of None \<Rightarrow> view s | Some (v, _) \<Rightarrow> (view s)(k \<mapsto> (v, Some (now + 1000 * n))))) \<and>
     (\<forall>s k n now. \<exists>s'. rd_setex rd s k n now = Some s' \<and> view s' = (view s)(k \<mapsto> (1, Some (now + 1000 * n)))) \<and>
     (\<forall>s ks now. \<exists>s'. rd_del rd s ks now = Some s' \<and> view s' = (\<lambda>j. if j \<in> set ks then None else view s j))"

lemma redis_ttl: "redis_behaves rd view \<Longrightarrow> \<exists>t. rd_ttl rd s k now = Some t \<and>
    (case live view s k now of Some (_, Some e) \<Rightarrow> 0 \<le> t \<and> (1000 \<le> e - now \<longrightarrow> 0 < t) | _ \<Rightarrow> t < 0)"
  and redis_get: "redis_behaves rd view \<Longrightarrow> rd_get rd s k now = Some (map_option fst (live view s k now))"
  and redis_incr: "redis_behaves rd view \<Longrightarrow> \<exists>s'. rd_incr rd s k now = Some (fst (bump (live view s k now)), s') \<and>
        view s' = (view s)(k \<mapsto> bump (live view s k now))"
  and redis_expire: "redis_behaves rd view \<Longrightarrow> \<exists>s'. rd_expire rd s k n now = Some s' \<and>
        view s' = (case live view s k now of None \<Rightarrow> view s | Some (v, _) \<Rightarrow> (view s)(k \<mapsto> (v, Some (now + 1000 * n))))"
  and redis_setex: "redis_behaves rd view \<Longrightarrow> \<exists>s'. rd_setex rd s k n now = Some s' \<and>
        view s' = (view s)(k \<mapsto> (1, Some (now + 1000 * n)))"
  and redis_del: "redis_behaves rd view \<Longrightarrow> \<exists>s'. rd_del rd s ks now = Some s' \<and>
        view s' = (\<lambda>j. if j \<in> set ks then None else view s j)"
  by (simp_all only: redis_behaves_def)

lemma keys_differ [simp]:
  "ipKey ip \<noteq> failKey a" "ipKey ip \<noteq> lockKey a" "failKey a \<noteq> lockKey b"
  "failKey a \<noteq> ipKey ip" "lockKey a \<noteq> ipKey ip" "lockKey b \<noteq> failKey a"
  by (simp_all add: ipKey_def failKey_def lockKey_def)

lemma count_ip_view:
  assumes r: "redis_behaves rd view"
  shows "\<exists>s1. count_ip rd cfg s ip now = (Some s1, s1) \<and>
    (\<forall>k. (\<forall>a. k \<noteq> ipKey a) \<longrightarrow> view s1 k = view s k)"
proof (cases "nonempty ip")
  case False
  then show ?thesis by (simp add: count_ip_def)
next
  case True
  obtain s1 where i: "rd_incr rd s (ipKey (the ip)) now = Some (fst (bump (live view s (ipKey (the ip)) now)), s1)"
      "view s1 = (view s)(ipKey (the ip) \<mapsto> bump (live view s (ipKey (the ip)) now))"
    using redis_incr [OF r] by blast
  obtain s2 where e: "rd_expire rd s1 (ipKey (the ip)) (th_ipWindow cfg) now = Some s2"
      "view s2 = (case live view s1 (ipKey (the ip)) now of None \<Rightarrow> view s1
         | Some (v, _) \<Rightarrow> (view s1)(ipKey (the ip) \<mapsto> (v, Some (now + 1000 * th_ipWindow cfg))))"
    using redis_expire [OF r] by blast
  have "\<forall>k. (\<forall>a. k \<noteq> ipKey a) \<longrightarrow> view s1 k = view s k" by (simp add: i(2))
  moreover have "\<forall>k. (\<forall>a. k \<noteq> ipKey a) \<longrightarrow> view s2 k = view s k"
    by (simp add: e(2) i(2) split: option.split)
  moreover have "count_ip rd cfg s ip now = (Some s1, s1) \<or> count_ip rd cfg s ip now = (Some s2, s2)"
    using True by (simp add: count_ip_def i(1) e(1))
  ultimately show ?thesis by blast
qed

lemma count_fail_view:
  assumes r: "redis_behaves rd view" and lock: "0 < th_lockSeconds cfg"
    and n: "n = fst (bump (live view s (failKey a) now))"
    and e: "snd (bump (live view s (failKey a) now)) = (if n = 1 then None else Some E)"
    and E: "n = 1 \<Longrightarrow> E = now + 1000 * th_lockSeconds cfg"
  shows "if n \<ge> th_failMax cfg
    then view (count_fail rd cfg s a now) (lockKey a) = Some (1, Some (now + 1000 * th_lockSeconds cfg))
    else view (count_fail rd cfg s a now) (failKey a) = Some (n, Some E)"
proof -
  have b: "bump (live view s (failKey a) now) = (n, if n = 1 then None else Some E)"
    using n e by (simp only: prod_eq_iff fst_conv snd_conv)
  obtain s1 where s1: "rd_incr rd s (failKey a) now = Some (n, s1)"
      "view s1 = (view s)(failKey a \<mapsto> (n, if n = 1 then None else Some E))"
    using redis_incr [OF r, of s "failKey a" now] unfolding b fst_conv by blast
  have "live view s1 (failKey a) now = Some (n, None)" if "n = 1"
    using that by (simp add: live_def s1(2))
  then obtain s2 where s2: "(if n = 1 then rd_expire rd s1 (failKey a) (th_lockSeconds cfg) now else Some s1) = Some s2"
      "view s2 (failKey a) = Some (n, Some E)"
    using redis_expire [OF r, of s1 "failKey a" "th_lockSeconds cfg" now] E s1(2)
    by (cases "n = 1") auto
  obtain s3 where s3: "rd_setex rd s2 (lockKey a) (th_lockSeconds cfg) now = Some s3"
      "view s3 = (view s2)(lockKey a \<mapsto> (1, Some (now + 1000 * th_lockSeconds cfg)))"
    using redis_setex [OF r] by blast
  obtain s4 where s4: "rd_del rd s3 [failKey a] now = Some s4"
      "view s4 = (\<lambda>j. if j \<in> set [failKey a] then None else view s3 j)"
    using redis_del [OF r] by blast
  show ?thesis using s1(1) s2 s3 s4 by (simp add: count_fail_def)
qed

definition fail_at :: "'r redis \<Rightarrow> throttle_config \<Rightarrow> string \<Rightarrow> 'r \<Rightarrow> string option \<times> time \<Rightarrow> 'r" where
  "fail_at rd cfg a s x = recordFailure rd cfg s (fst x) a (snd x)"

lemma fail_at_count:
  assumes r: "redis_behaves rd view"
  shows "\<exists>s1. fail_at rd cfg a s (ip, now) = count_fail rd cfg s1 a now \<and>
    view s1 (failKey a) = view s (failKey a)"
proof -
  obtain s1 where s1: "count_ip rd cfg s ip now = (Some s1, s1)"
      "\<forall>k. (\<forall>a. k \<noteq> ipKey a) \<longrightarrow> view s1 k = view s k"
    using count_ip_view [OF r] by blast
  then show ?thesis by (intro exI [of _ s1]) (simp add: fail_at_def recordFailure_def)
qed

text \<open>Failures after the first of a window, up to the one that locks.\<close>

lemma failures_lock:
  assumes r: "redis_behaves rd view" and lock: "0 < th_lockSeconds cfg"
  shows "view s (failKey a) = Some (n, Some E) \<Longrightarrow> 0 < n \<Longrightarrow> n + int (length xs) = th_failMax cfg \<Longrightarrow>
    xs \<noteq> [] \<Longrightarrow> \<forall>x \<in> set xs. snd x < E \<Longrightarrow>
    view (foldl (fail_at rd cfg a) s xs) (lockKey a) = Some (1, Some (snd (last xs) + 1000 * th_lockSeconds cfg))"
proof (induction xs arbitrary: s n)
  case (Cons x xs)
  obtain ip now where x: "x = (ip, now)" by (cases x)
  obtain s1 where s1: "fail_at rd cfg a s (ip, now) = count_fail rd cfg s1 a now"
      "view s1 (failKey a) = Some (n, Some E)"
    using fail_at_count [OF r, of cfg a s ip now] Cons.prems(1) by auto
  have l: "live view s1 (failKey a) now = Some (n, Some E)"
    using Cons.prems(5) s1(2) by (simp add: live_def x)
  have v: "if n + 1 \<ge> th_failMax cfg
    then view (count_fail rd cfg s1 a now) (lockKey a) = Some (1, Some (now + 1000 * th_lockSeconds cfg))
    else view (count_fail rd cfg s1 a now) (failKey a) = Some (n + 1, Some E)"
    by (rule count_fail_view [OF r lock]) (use Cons.prems(2) in \<open>simp_all add: l bump_def\<close>)
  show ?case
  proof (cases "xs = []")
    case True
    then show ?thesis using v Cons.prems(3) s1(1) by (simp add: x)
  next
    case False
    then have "view (count_fail rd cfg s1 a now) (failKey a) = Some (n + 1, Some E)"
      using v Cons.prems(3) by (cases xs) (auto split: if_splits)
    then show ?thesis using Cons.IH [of "count_fail rd cfg s1 a now" "n + 1"] Cons.prems(2,3,5) False s1(1)
      by (simp add: x)
  qed
qed simp

text \<open>
  With Redis behaving as documented, the configured number of failures of one account within
  the lock time, from whatever addresses, locks it: every check of that account in the lock time
  (less the last second, where Redis may already report zero) is refused with 429, from every
  address and whatever password would be given.
\<close>

theorem account_locks:
  assumes r: "redis_behaves rd view" and "0 < th_lockSeconds cfg"
    and "int (length xs) = th_failMax cfg" and "xs \<noteq> []"
    and "live view s (failKey a) (snd (hd xs)) = None"
    and "\<forall>x \<in> set xs. snd x < snd (hd xs) + 1000 * th_lockSeconds cfg"
    and "snd (last xs) \<le> t" and "t + 1000 \<le> snd (last xs) + 1000 * th_lockSeconds cfg"
  shows "\<exists>msg. throttle_assertAllowed rd cfg (foldl (fail_at rd cfg a) s xs) ip a t = Inl (TooManyRequests msg)"
proof -
  let ?fin = "foldl (fail_at rd cfg a) s xs"
  obtain ip1 t1 ys where xs: "xs = (ip1, t1) # ys" using assms(4) by (metis list.exhaust prod.exhaust)
  obtain s1 where s1: "fail_at rd cfg a s (ip1, t1) = count_fail rd cfg s1 a t1"
      "view s1 (failKey a) = view s (failKey a)"
    using fail_at_count [OF r] by blast
  have l: "live view s1 (failKey a) t1 = None" using assms(5) s1(2) by (simp add: xs live_def)
  have v: "if 1 \<ge> th_failMax cfg
    then view (count_fail rd cfg s1 a t1) (lockKey a) = Some (1, Some (t1 + 1000 * th_lockSeconds cfg))
    else view (count_fail rd cfg s1 a t1) (failKey a) = Some (1, Some (t1 + 1000 * th_lockSeconds cfg))"
    by (rule count_fail_view [OF r assms(2)]) (simp_all add: l bump_def)
  have locked: "view ?fin (lockKey a) = Some (1, Some (snd (last xs) + 1000 * th_lockSeconds cfg))"
  proof (cases "ys = []")
    case True
    then show ?thesis using v assms(3) s1(1) by (simp add: xs)
  next
    case False
    then have "view (count_fail rd cfg s1 a t1) (failKey a) = Some (1, Some (t1 + 1000 * th_lockSeconds cfg))"
      using v assms(3) by (cases ys) (auto simp: xs split: if_splits)
    from failures_lock [OF r assms(2) this, of ys] show ?thesis
      using assms(3,6) False s1(1) by (simp add: xs)
  qed
  have "live view ?fin (lockKey a) t = Some (1, Some (snd (last xs) + 1000 * th_lockSeconds cfg))"
    using assms(8) by (simp add: live_def locked)
  with redis_ttl [OF r, of ?fin "lockKey a" t] obtain q where "rd_ttl rd ?fin (lockKey a) t = Some q" "0 < q"
    using assms(8) by auto
  then show ?thesis using redis_get [OF r] by (simp add: throttle_assertAllowed_def)
qed

section \<open>A store for the witnesses\<close>

definition store_view :: "(string, int \<times> time option) jsmap \<Rightarrow> string \<Rightarrow> (int \<times> time option) option" where
  "store_view s k = map_get s k"

definition store_redis :: "(string, int \<times> time option) jsmap redis" where
  "store_redis =
     \<lparr>rd_ttl = (\<lambda>s k now. Some (case live store_view s k now of
         None \<Rightarrow> - 2 | Some (_, None) \<Rightarrow> - 1 | Some (_, Some e) \<Rightarrow> (e - now + 500) div 1000)),
      rd_get = (\<lambda>s k now. Some (map_option fst (live store_view s k now))),
      rd_incr = (\<lambda>s k now. Some (fst (bump (live store_view s k now)), map_set s k (bump (live store_view s k now)))),
      rd_expire = (\<lambda>s k n now. Some (case live store_view s k now of
         None \<Rightarrow> s | Some (v, _) \<Rightarrow> map_set s k (v, Some (now + 1000 * n)))),
      rd_setex = (\<lambda>s k n now. Some (map_set s k (1, Some (now + 1000 * n)))),
      rd_del = (\<lambda>s ks now. Some (foldl map_del s ks))\<rparr>"

lemma store_view_set: "store_view (map_set s k v) = (store_view s)(k \<mapsto> v)"
  by (rule ext) (simp add: store_view_def store_simps)

lemma store_view_del: "store_view (foldl map_del s ks) = (\<lambda>j. if j \<in> set ks then None else store_view s j)"
proof (induction ks arbitrary: s)
  case (Cons k ks)
  show ?case using Cons [of "map_del s k"] by (auto simp: fun_eq_iff store_view_def store_simps)
qed (simp add: fun_eq_iff)

lemma store_redis_behaves: "redis_behaves store_redis store_view"
  unfolding redis_behaves_def
proof (intro conjI allI)
  fix s k now
  show "\<exists>t. rd_ttl store_redis s k now = Some t \<and>
      (case live store_view s k now of Some (_, Some e) \<Rightarrow> 0 \<le> t \<and> (1000 \<le> e - now \<longrightarrow> 0 < t) | _ \<Rightarrow> t < 0)"
    by (auto simp: store_redis_def live_def split: option.splits)
qed (auto simp: store_redis_def store_view_set store_view_del split: option.splits)

theorem account_locks_witness:
  "\<exists>msg. throttle_assertAllowed store_redis default_throttle
     (foldl (fail_at store_redis default_throttle ''A@x'') []
        [(None, 0), (Some ''1.2.3.4'', 1000), (None, 2000), (None, 3000), (None, 4000)]) (Some ''9.9.9.9'') ''A@x'' 800000 =
     Inl (TooManyRequests msg)"
  by (rule account_locks [OF store_redis_behaves])
    (simp_all add: default_throttle_def envInt_def live_def store_view_def)

definition demo_login :: "(string, int \<times> time option) jsmap login_state" where
  "demo_login = \<lparr>ls_db = demo_mfa_db, ls_policy = \<lparr>ps_setting = JUndef, ps_lastBlockedAudit = []\<rparr>,
     ls_redis = [], ls_session = empty_session\<rparr>"



theorem session_origin_witness:
  "\<exists>pre rq ip now post.
     [(Rq_login ''root@x.org'' ''correct horse'', None, 10), (Rq_totp ''123456'', None, 20)] = pre @ (rq, ip, now) # post \<and>
     proves_identity demo_auth_env (login_run demo_auth_env store_redis default_throttle demo_login pre) rq ''u1''"
  by (rule session_origin; code_simp)

section \<open>Two accounts of failures\<close>

text \<open>
  Wrong passwords count against the email address, wrong second-factor codes against
  \<^verbatim>\<open>uid:<id>\<close>; a sign-in completed by a code clears only the second. Four wrong passwords, a
  complete two-factor sign-in and one more wrong password lock the account.
\<close>

theorem completed_mfa_sign_in_keeps_failures:
  "let wrong = (Rq_login ''root@x.org'' ''nope'', None, 5);
       st = login_run demo_auth_env store_redis default_throttle demo_login
         (replicate 4 wrong @
          [(Rq_login ''root@x.org'' ''correct horse'', None, 10), (Rq_totp ''123456'', None, 20)])
   in se_userId (ls_session st) = Some ''u1'' \<and>
      throttle_assertAllowed store_redis default_throttle (ls_redis (login_run demo_auth_env store_redis default_throttle st [wrong]))
        None ''root@x.org'' 30 = Inl (TooManyRequests ''Too many failed attempts. Try again in 15 min.'')"
  by code_simp

end
