(* ===== verification/Oauth_Flow.thy ===== *)
theory Oauth_Flow
  imports Rbac Rate_Limiter Ip_Policy
begin

text \<open>
  The OAuth 2.1 authorization server: \<^verbatim>\<open>oauth/oauth-flow.service.ts\<close> over the tables of
  \<^verbatim>\<open>prisma/schema.prisma\<close>, and the two controllers that drive it up to a code
  (\<^verbatim>\<open>oauth-authorize.controller.ts\<close>, \<^verbatim>\<open>oauth-consent.controller.ts\<close>).

  The tables are lists of rows in \<open>oauth_db\<close>; a service method is a function from the database and
  its inputs to an outcome and the new database, since some methods write before they throw.
  Creating a row whose unique key exists throws (\<open>Db_unique\<close>). What a method draws from outside
  (the clock, a fresh row id, random bytes) is an argument; one call sees one value of the clock.
  Hashing, URL parsing and the signing of access tokens (\<^verbatim>\<open>jsonwebtoken\<close>) are the fields of
  \<open>oauth_env\<close>; no law of theirs is assumed.
\<close>

section \<open>Rows\<close>

datatype client_type = Public_client | Confidential_client | Machine_client

record oauth_client =
  cl_id :: string
  cl_clientId :: string
  cl_name :: string
  cl_type :: client_type
  cl_secretHash :: "string option"
  cl_redirectUris :: "string list"
  cl_disabled :: bool
  cl_allowedScopes :: "string list"
  cl_ipAllowlist :: "string list"
  cl_lastUsedAt :: "time option"
  cl_secretRotatedAt :: "time option"
  cl_createdAt :: time

record auth_code =
  co_id :: string
  co_codeHash :: string
  co_clientId :: string
  co_userId :: string
  co_scopes :: "string list"
  co_redirectUri :: string
  co_codeChallenge :: string
  co_codeChallengeMethod :: string
  co_resource :: "string option"
  co_expiresAt :: time
  co_consumedAt :: "time option"

record oauth_grant =
  gr_id :: string
  gr_userId :: string
  gr_clientId :: string
  gr_scopes :: "string list"
  gr_createdAt :: time
  gr_revokedAt :: "time option"

record refresh_token =
  rt_id :: string
  rt_tokenHash :: string
  rt_clientId :: string
  rt_userId :: string
  rt_scopes :: "string list"
  rt_resource :: "string option"
  rt_expiresAt :: time
  rt_revokedAt :: "time option"
  rt_rotatedTo :: "string option"

record oauth_db =
  od_clients :: "oauth_client list"
  od_codes :: "auth_code list"
  od_grants :: "oauth_grant list"
  od_refresh :: "refresh_token list"
  od_rate :: limiter

section \<open>The environment\<close>

record url =
  u_protocol :: string
  u_hostname :: string
  u_pathname :: string

record sign_input =
  si_userId :: string
  si_clientId :: string
  si_scopes :: "string list"
  si_resource :: "string option"
  si_machine :: bool
  si_ttlSec :: int

record oauth_env =
  ev_sha256 :: "string \<Rightarrow> string"
  ev_base64urlSha256 :: "string \<Rightarrow> string"
  ev_parse_url :: "string \<Rightarrow> url option"
  ev_sign :: "sign_input \<Rightarrow> time \<Rightarrow> string"
  ev_app_url :: "string option"

text \<open>Fresh values drawn by one call: a row id and the random part of a code or token.\<close>

record fresh =
  fr_id :: string
  fr_random :: string

datatype oauth_error =
    Oauth_error (oe_code: string) (oe_description: string) (oe_redirectable: bool)
      (oe_clientName: "string option")
  | Db_unique
  | Net_fault net_error

definition flow_error :: "string \<Rightarrow> string \<Rightarrow> oauth_error" where
  "flow_error c d = Oauth_error c d False None"

definition flow_error_redirectable :: "string \<Rightarrow> string \<Rightarrow> oauth_error" where
  "flow_error_redirectable c d = Oauth_error c d True None"

definition CODE_TTL_MS :: int where "CODE_TTL_MS = 60000"
definition REFRESH_TTL_MS :: int where "REFRESH_TTL_MS = 30 * 24 * 60 * 60 * 1000"
definition ACCESS_TOKEN_TTL_SEC :: int where "ACCESS_TOKEN_TTL_SEC = 60 * 60"
definition MACHINE_TOKEN_TTL_SEC :: int where "MACHINE_TOKEN_TTL_SEC = 15 * 60"
definition AGENT_CATALOG_RESOURCE_PATH :: string where
  "AGENT_CATALOG_RESOURCE_PATH = ''/api/v1/agents''"

record token_response =
  tr_access_token :: string
  tr_expires_in :: int
  tr_refresh_token :: "string option"
  tr_scope :: string

definition init_db :: "oauth_client list \<Rightarrow> oauth_db" where
  "init_db cs = \<lparr>od_clients = cs, od_codes = [], od_grants = [], od_refresh = [],
     od_rate = new_limiter 10 60000\<rparr>"

section \<open>Clients\<close>

definition getEnabledClient :: "oauth_db \<Rightarrow> string \<Rightarrow> oauth_client option" where
  "getEnabledClient db clientId =
     (if clientId = [] then None
      else case List.find (\<lambda>c. cl_clientId c = clientId) (od_clients db) of
             None \<Rightarrow> None
           | Some c \<Rightarrow> if cl_disabled c then None else Some c)"

definition loopback_hosts :: "string list" where
  "loopback_hosts = [''localhost'', ''127.0.0.1'', ''[::1]'', ''::1'']"

definition redirectUriMatches :: "oauth_env \<Rightarrow> string list \<Rightarrow> string \<Rightarrow> bool" where
  "redirectUriMatches env registered presented =
     (case ev_parse_url env presented of
        None \<Rightarrow> False
      | Some p \<Rightarrow>
          list_ex (\<lambda>r.
            r = presented \<or>
            (case ev_parse_url env r of
               None \<Rightarrow> False
             | Some ru \<Rightarrow>
                 u_hostname ru \<in> set loopback_hosts \<and> u_hostname p \<in> set loopback_hosts \<and>
                 u_protocol ru = u_protocol p \<and> u_hostname ru = u_hostname p \<and>
                 u_pathname ru = u_pathname p)) registered)"

text \<open>\<^verbatim>\<open>Buffer.from(s, 'hex')\<close>: whole bytes up to the first pair that is not hexadecimal.\<close>

fun hex_bytes :: "string \<Rightarrow> int list" where
  "hex_bytes (c # d # s) =
     (case (hex_val c, hex_val d) of
        (Some a, Some b) \<Rightarrow> (16 * a + b) # hex_bytes s
      | _ \<Rightarrow> [])"
| "hex_bytes _ = []"

definition authenticateClient ::
    "oauth_env \<Rightarrow> oauth_client \<Rightarrow> string option \<Rightarrow> oauth_error + unit" where
  "authenticateClient env client presentedSecret =
     (let failed = Inl (flow_error ''invalid_client'' ''Client authentication failed.'')
      in if cl_type client = Public_client then Inr ()
         else case (cl_secretHash client, presentedSecret) of
                (Some h, Some s) \<Rightarrow>
                  if h = [] \<or> s = [] then failed
                  else if hex_bytes (ev_sha256 env s) = hex_bytes h then Inr () else failed
              | _ \<Rightarrow> failed)"

section \<open>Scopes\<close>

definition parseScopes :: "string option \<Rightarrow> string list" where
  "parseScopes scope = uniq (words (case scope of None \<Rightarrow> [] | Some s \<Rightarrow> s))"

definition effectiveScopes :: "string list \<Rightarrow> string list \<Rightarrow> string list" where
  "effectiveScopes userPermissions requested =
     filter (\<lambda>s. s \<in> set (map perm_str GRANTABLE_TOKEN_SCOPES) \<and> s \<in> set userPermissions) requested"

section \<open>Validation of an authorization request\<close>

record authorize_query =
  q_client_id :: "string option"
  q_redirect_uri :: "string option"
  q_response_type :: "string option"
  q_scope :: "string option"
  q_code_challenge :: "string option"
  q_code_challenge_method :: "string option"
  q_resource :: "string option"

definition or_empty :: "string option \<Rightarrow> string" where
  "or_empty v = (case v of None \<Rightarrow> [] | Some s \<Rightarrow> s)"

definition validateAuthorize ::
    "oauth_env \<Rightarrow> oauth_db \<Rightarrow> authorize_query \<Rightarrow> oauth_error + (oauth_client \<times> string)" where
  "validateAuthorize env db q =
     (case getEnabledClient db (or_empty (q_client_id q)) of
        None \<Rightarrow> Inl (flow_error ''invalid_client'' ''Unknown or disabled client.'')
      | Some client \<Rightarrow>
          if cl_type client = Machine_client
          then Inl (flow_error ''unauthorized_client'' ''Machine clients use the client_credentials grant only.'')
          else
            (let redirectUri = or_empty (q_redirect_uri q)
             in if redirectUri = [] \<or> \<not> redirectUriMatches env (cl_redirectUris client) redirectUri
                then Inl (flow_error ''invalid_request'' ''redirect_uri is not registered for this client.'')
                else if q_response_type q \<noteq> Some ''code''
                then Inl (flow_error_redirectable ''unsupported_response_type'' ''Only response_type=code is supported.'')
                else if or_empty (q_code_challenge q) = []
                then Inl (flow_error_redirectable ''invalid_request'' ''PKCE code_challenge is required.'')
                else if (case q_code_challenge_method q of None \<Rightarrow> ''plain'' | Some m \<Rightarrow> m) \<noteq> ''S256''
                then Inl (flow_error_redirectable ''invalid_request'' ''Only code_challenge_method=S256 is supported.'')
                else Inr (client, redirectUri)))"

section \<open>Remembered consent\<close>

definition find_grant :: "oauth_db \<Rightarrow> string \<Rightarrow> string \<Rightarrow> oauth_grant option" where
  "find_grant db userId clientId =
     List.find (\<lambda>g. gr_userId g = userId \<and> gr_clientId g = clientId) (od_grants db)"

definition hasRememberedGrant :: "oauth_db \<Rightarrow> string \<Rightarrow> string \<Rightarrow> string list \<Rightarrow> bool" where
  "hasRememberedGrant db userId clientId scopes =
     (case find_grant db userId clientId of
        None \<Rightarrow> False
      | Some g \<Rightarrow> gr_revokedAt g = None \<and> list_all (\<lambda>s. s \<in> set (gr_scopes g)) scopes)"

definition rememberGrant ::
    "oauth_db \<Rightarrow> string \<Rightarrow> string \<Rightarrow> string list \<Rightarrow> string \<Rightarrow> time \<Rightarrow> oauth_db" where
  "rememberGrant db userId clientId scopes freshId now =
     (let existing = find_grant db userId clientId;
          merged = uniq ((case existing of
                            Some g \<Rightarrow> if gr_revokedAt g = None then gr_scopes g else []
                          | None \<Rightarrow> []) @ scopes)
      in case existing of
           Some _ \<Rightarrow>
             db\<lparr>od_grants := rows_update (\<lambda>g. gr_userId g = userId \<and> gr_clientId g = clientId)
                  (\<lambda>g. g\<lparr>gr_scopes := merged, gr_revokedAt := None\<rparr>) (od_grants db)\<rparr>
         | None \<Rightarrow>
             db\<lparr>od_grants := od_grants db @
                  [\<lparr>gr_id = freshId, gr_userId = userId, gr_clientId = clientId, gr_scopes = merged,
                    gr_createdAt = now, gr_revokedAt = None\<rparr>]\<rparr>)"

section \<open>Codes and tokens\<close>

record code_input =
  ci_clientId :: string
  ci_userId :: string
  ci_scopes :: "string list"
  ci_redirectUri :: string
  ci_codeChallenge :: string
  ci_resource :: "string option"

definition issueCode ::
    "oauth_env \<Rightarrow> oauth_db \<Rightarrow> code_input \<Rightarrow> fresh \<Rightarrow> time \<Rightarrow> (oauth_error + string) \<times> oauth_db" where
  "issueCode env db inp fr now =
     (let code = ''oca_'' @ fr_random fr; h = ev_sha256 env code
      in if list_ex (\<lambda>r. co_codeHash r = h \<or> co_id r = fr_id fr) (od_codes db) then (Inl Db_unique, db)
         else (Inr code,
               db\<lparr>od_codes := od_codes db @
                 [\<lparr>co_id = fr_id fr, co_codeHash = h, co_clientId = ci_clientId inp,
                   co_userId = ci_userId inp, co_scopes = ci_scopes inp,
                   co_redirectUri = ci_redirectUri inp, co_codeChallenge = ci_codeChallenge inp,
                   co_codeChallengeMethod = ''S256'', co_resource = ci_resource inp,
                   co_expiresAt = now + CODE_TTL_MS, co_consumedAt = None\<rparr>]\<rparr>))"

definition audienceFor :: "oauth_env \<Rightarrow> string \<Rightarrow> string option" where
  "audienceFor env path =
     (case ev_app_url env of
        None \<Rightarrow> None
      | Some u \<Rightarrow>
          if u = [] then None
          else Some ((if last u = CHR ''/'' then butlast u else u) @ path))"

definition issueTokens ::
    "oauth_env \<Rightarrow> oauth_db \<Rightarrow> string \<Rightarrow> string \<Rightarrow> string list \<Rightarrow> string option \<Rightarrow> fresh \<Rightarrow> time \<Rightarrow>
     (oauth_error + token_response) \<times> oauth_db" where
  "issueTokens env db userId clientId scopes resource fr now =
     (let accessToken = ev_sign env
            \<lparr>si_userId = userId, si_clientId = clientId, si_scopes = scopes, si_resource = resource,
             si_machine = False, si_ttlSec = ACCESS_TOKEN_TTL_SEC\<rparr> now;
          refreshToken = ''ocr_'' @ fr_random fr;
          h = ev_sha256 env refreshToken
      in if list_ex (\<lambda>r. rt_tokenHash r = h \<or> rt_id r = fr_id fr) (od_refresh db) then (Inl Db_unique, db)
         else (Inr \<lparr>tr_access_token = accessToken, tr_expires_in = ACCESS_TOKEN_TTL_SEC,
                     tr_refresh_token = Some refreshToken, tr_scope = join_with '' '' scopes\<rparr>,
               db\<lparr>od_refresh := od_refresh db @
                 [\<lparr>rt_id = fr_id fr, rt_tokenHash = h, rt_clientId = clientId, rt_userId = userId,
                   rt_scopes = scopes, rt_resource = resource,
                   rt_expiresAt = now + REFRESH_TTL_MS, rt_revokedAt = None,
                   rt_rotatedTo = None\<rparr>]\<rparr>))"

record exchange_input =
  ex_clientId :: "string option"
  ex_clientSecret :: "string option"
  ex_code :: "string option"
  ex_redirectUri :: "string option"
  ex_codeVerifier :: "string option"

text \<open>
  \<^verbatim>\<open>exchangeAuthCode\<close> reads and checks, then marks the code consumed, then issues. The checks are
  \<open>exchange_check\<close>; they change nothing.
\<close>

definition exchange_check ::
    "oauth_env \<Rightarrow> oauth_db \<Rightarrow> exchange_input \<Rightarrow> time \<Rightarrow> oauth_error + (oauth_client \<times> auth_code)" where
  "exchange_check env db inp now =
     (case getEnabledClient db (or_empty (ex_clientId inp)) of
        None \<Rightarrow> Inl (flow_error ''invalid_client'' ''Unknown or disabled client.'')
      | Some client \<Rightarrow>
          (case authenticateClient env client (ex_clientSecret inp) of
             Inl e \<Rightarrow> Inl e
           | Inr _ \<Rightarrow>
               if or_empty (ex_code inp) = [] \<or> or_empty (ex_codeVerifier inp) = [] \<or>
                  or_empty (ex_redirectUri inp) = []
               then Inl (flow_error ''invalid_request'' ''code, redirect_uri and code_verifier are required.'')
               else
                 (case List.find (\<lambda>r. co_codeHash r = ev_sha256 env (or_empty (ex_code inp))) (od_codes db) of
                    None \<Rightarrow> Inl (flow_error ''invalid_grant'' ''Invalid authorization code.'')
                  | Some row \<Rightarrow>
                      if co_clientId row \<noteq> cl_clientId client
                      then Inl (flow_error ''invalid_grant'' ''Invalid authorization code.'')
                      else if co_consumedAt row \<noteq> None
                      then Inl (flow_error ''invalid_grant'' ''Authorization code already used.'')
                      else if co_expiresAt row \<le> now
                      then Inl (flow_error ''invalid_grant'' ''Authorization code expired.'')
                      else if co_redirectUri row \<noteq> or_empty (ex_redirectUri inp)
                      then Inl (flow_error ''invalid_grant'' ''redirect_uri mismatch.'')
                      else if ev_base64urlSha256 env (or_empty (ex_codeVerifier inp)) \<noteq> co_codeChallenge row
                      then Inl (flow_error ''invalid_grant'' ''PKCE verification failed.'')
                      else Inr (client, row))))"

definition consume_code :: "oauth_db \<Rightarrow> string \<Rightarrow> time \<Rightarrow> oauth_db" where
  "consume_code db codeId now =
     db\<lparr>od_codes := rows_update (\<lambda>r. co_id r = codeId) (\<lambda>r. r\<lparr>co_consumedAt := Some now\<rparr>) (od_codes db)\<rparr>"

definition exchangeAuthCode ::
    "oauth_env \<Rightarrow> oauth_db \<Rightarrow> exchange_input \<Rightarrow> fresh \<Rightarrow> time \<Rightarrow>
     (oauth_error + token_response) \<times> oauth_db" where
  "exchangeAuthCode env db inp fr now =
     (case exchange_check env db inp now of
        Inl e \<Rightarrow> (Inl e, db)
      | Inr (client, row) \<Rightarrow>
          issueTokens env (consume_code db (co_id row) now) (co_userId row) (cl_clientId client)
            (co_scopes row) (co_resource row) fr now)"

section \<open>Refresh\<close>

definition find_refresh :: "oauth_db \<Rightarrow> string \<Rightarrow> refresh_token option" where
  "find_refresh db i = List.find (\<lambda>r. rt_id r = i) (od_refresh db)"

definition revoke_row :: "string \<Rightarrow> time \<Rightarrow> refresh_token list \<Rightarrow> refresh_token list" where
  "revoke_row i now tbl = rows_update (\<lambda>r. rt_id r = i) (\<lambda>r. r\<lparr>rt_revokedAt := Some now\<rparr>) tbl"

lemma revoke_row_ids [simp]: "map rt_id (revoke_row i now tbl) = map rt_id tbl"
  by (simp add: revoke_row_def map_rows_update)

lemma revoke_chain_measure:
  assumes "i \<notin> set seen" and "List.find (\<lambda>r. rt_id r = i) tbl = Some t"
    and "set (map rt_id tbl') = set (map rt_id tbl)"
  shows "card (set (map rt_id tbl') - set (i # seen)) < card (set (map rt_id tbl) - set seen)"
proof -
  have "i \<in> set (map rt_id tbl)" using find_SomeD [OF assms(2)] by force
  then have "set (map rt_id tbl) - set (i # seen) \<subset> set (map rt_id tbl) - set seen"
    using assms(1) by auto
  then show ?thesis unfolding assms(3) by (intro psubset_card_mono) auto
qed

text \<open>\<^verbatim>\<open>revokeRefreshChain\<close>: the loop over \<open>id\<close>, guarded by the set \<open>seen\<close>.\<close>

function revoke_chain ::
    "time \<Rightarrow> string list \<Rightarrow> string option \<Rightarrow> refresh_token list \<Rightarrow> refresh_token list" where
  "revoke_chain now seen None tbl = tbl"
| "revoke_chain now seen (Some i) tbl =
     (if i \<in> set seen then tbl
      else case List.find (\<lambda>r. rt_id r = i) tbl of
             None \<Rightarrow> tbl
           | Some t \<Rightarrow>
               revoke_chain now (i # seen) (rt_rotatedTo t)
                 (if rt_revokedAt t = None then revoke_row i now tbl else tbl))"
  by pat_completeness auto

termination
proof (relation "measure (\<lambda>(now, seen, i, tbl). card (set (map rt_id tbl) - set seen))", goal_cases)
  case 1
  then show ?case by simp
next
  case (2 now seen i tbl t)
  have "set (map rt_id (if rt_revokedAt t = None then revoke_row i now tbl else tbl)) = set (map rt_id tbl)"
    by (simp only: revoke_row_ids split: if_split) simp
  from revoke_chain_measure [OF 2 this] show ?case by (simp only: in_measure prod.case)
qed

definition revokeRefreshChain :: "oauth_db \<Rightarrow> string \<Rightarrow> time \<Rightarrow> oauth_db" where
  "revokeRefreshChain db startId now =
     db\<lparr>od_refresh := revoke_chain now [] (Some startId) (od_refresh db)\<rparr>"

definition revoke_successors :: "oauth_db \<Rightarrow> string option \<Rightarrow> time \<Rightarrow> oauth_db" where
  "revoke_successors db rotatedTo now =
     (case rotatedTo of None \<Rightarrow> db | Some s \<Rightarrow> if s = [] then db else revokeRefreshChain db s now)"

record refresh_input =
  rf_clientId :: "string option"
  rf_clientSecret :: "string option"
  rf_refreshToken :: "string option"

text \<open>
  \<^verbatim>\<open>refreshTokens\<close> in the order of its database calls: \<open>refresh_read\<close> (the look-up and every check
  on the row read, with the revocation of the chain when it was rotated already), \<open>refresh_claim\<close>
  (the conditional write), \<open>refresh_lost\<close> (the branch of a lost claim), \<open>issueTokens\<close> and
  \<open>refresh_link\<close>.
\<close>

definition refresh_read ::
    "oauth_env \<Rightarrow> oauth_db \<Rightarrow> refresh_input \<Rightarrow> time \<Rightarrow>
     (oauth_error + (oauth_client \<times> refresh_token)) \<times> oauth_db" where
  "refresh_read env db inp now =
     (case getEnabledClient db (or_empty (rf_clientId inp)) of
        None \<Rightarrow> (Inl (flow_error ''invalid_client'' ''Unknown or disabled client.''), db)
      | Some client \<Rightarrow>
          (case authenticateClient env client (rf_clientSecret inp) of
             Inl e \<Rightarrow> (Inl e, db)
           | Inr _ \<Rightarrow>
               if cl_type client = Machine_client
               then (Inl (flow_error ''unauthorized_client'' ''Machine clients use the client_credentials grant only.''), db)
               else if or_empty (rf_refreshToken inp) = []
               then (Inl (flow_error ''invalid_request'' ''refresh_token is required.''), db)
               else
                 (case List.find (\<lambda>r. rt_tokenHash r = ev_sha256 env (or_empty (rf_refreshToken inp))) (od_refresh db) of
                    None \<Rightarrow> (Inl (flow_error ''invalid_grant'' ''Invalid refresh token.''), db)
                  | Some row \<Rightarrow>
                      if rt_clientId row \<noteq> cl_clientId client
                      then (Inl (flow_error ''invalid_grant'' ''Invalid refresh token.''), db)
                      else if rt_revokedAt row \<noteq> None
                      then (Inl (flow_error ''invalid_grant'' ''Refresh token revoked.''),
                            revoke_successors db (rt_rotatedTo row) now)
                      else if rt_expiresAt row \<le> now
                      then (Inl (flow_error ''invalid_grant'' ''Refresh token expired.''), db)
                      else (Inr (client, row), db))))"

definition refresh_claim :: "oauth_db \<Rightarrow> string \<Rightarrow> time \<Rightarrow> nat \<times> oauth_db" where
  "refresh_claim db rowId now =
     (let P = (\<lambda>r. rt_id r = rowId \<and> rt_revokedAt r = None)
      in (length (filter P (od_refresh db)),
          db\<lparr>od_refresh := rows_update P (\<lambda>r. r\<lparr>rt_revokedAt := Some now\<rparr>) (od_refresh db)\<rparr>))"

definition refresh_lost :: "oauth_db \<Rightarrow> string \<Rightarrow> time \<Rightarrow> oauth_db" where
  "refresh_lost db rowId now =
     (case find_refresh db rowId of
        None \<Rightarrow> db
      | Some cur \<Rightarrow> revoke_successors db (rt_rotatedTo cur) now)"

definition refresh_link :: "oauth_env \<Rightarrow> oauth_db \<Rightarrow> string \<Rightarrow> string \<Rightarrow> oauth_db" where
  "refresh_link env db rowId newToken =
     (let successor = List.find (\<lambda>r. rt_tokenHash r = ev_sha256 env newToken) (od_refresh db)
      in db\<lparr>od_refresh := rows_update (\<lambda>r. rt_id r = rowId)
              (\<lambda>r. r\<lparr>rt_rotatedTo := map_option rt_id successor\<rparr>) (od_refresh db)\<rparr>)"

definition refreshTokens ::
    "oauth_env \<Rightarrow> oauth_db \<Rightarrow> refresh_input \<Rightarrow> fresh \<Rightarrow> time \<Rightarrow>
     (oauth_error + token_response) \<times> oauth_db" where
  "refreshTokens env db inp fr now =
     (case refresh_read env db inp now of
        (Inl e, db1) \<Rightarrow> (Inl e, db1)
      | (Inr (client, row), db1) \<Rightarrow>
          (case refresh_claim db1 (rt_id row) now of
             (n, db2) \<Rightarrow>
               if n = 0
               then (Inl (flow_error ''invalid_grant'' ''Refresh token revoked.''),
                     refresh_lost db2 (rt_id row) now)
               else
                 (case issueTokens env db2 (rt_userId row) (cl_clientId client) (rt_scopes row)
                         (rt_resource row) fr now of
                    (Inl e, db3) \<Rightarrow> (Inl e, db3)
                  | (Inr issued, db3) \<Rightarrow>
                      (Inr issued, refresh_link env db3 (rt_id row) (or_empty (tr_refresh_token issued))))))"

section \<open>Revocation\<close>

record revoke_input =
  rv_clientId :: "string option"
  rv_clientSecret :: "string option"
  rv_token :: "string option"

definition revokeToken ::
    "oauth_env \<Rightarrow> oauth_db \<Rightarrow> revoke_input \<Rightarrow> time \<Rightarrow> (oauth_error + unit) \<times> oauth_db" where
  "revokeToken env db inp now =
     (case getEnabledClient db (or_empty (rv_clientId inp)) of
        None \<Rightarrow> (Inl (flow_error ''invalid_client'' ''Unknown or disabled client.''), db)
      | Some client \<Rightarrow>
          (case authenticateClient env client (rv_clientSecret inp) of
             Inl e \<Rightarrow> (Inl e, db)
           | Inr _ \<Rightarrow>
               if or_empty (rv_token inp) = [] then (Inr (), db)
               else
                 (case List.find (\<lambda>r. rt_tokenHash r = ev_sha256 env (or_empty (rv_token inp))) (od_refresh db) of
                    None \<Rightarrow> (Inr (), db)
                  | Some row \<Rightarrow>
                      if rt_clientId row = cl_clientId client \<and> rt_revokedAt row = None
                      then (Inr (), db\<lparr>od_refresh := revoke_row (rt_id row) now (od_refresh db)\<rparr>)
                      else (Inr (), db))))"

record grant_summary =
  gs_clientId :: string
  gs_clientName :: string
  gs_scopes :: "string list"
  gs_createdAt :: time
  gs_activeTokenCount :: nat

definition listUserGrants :: "oauth_db \<Rightarrow> string \<Rightarrow> time \<Rightarrow> grant_summary list" where
  "listUserGrants db userId now =
     (let grants = rev (sort_key gr_createdAt
            (rev (filter (\<lambda>g. gr_userId g = userId \<and> gr_revokedAt g = None) (od_grants db))))
      in map (\<lambda>g.
           \<lparr>gs_clientId = gr_clientId g,
            gs_clientName = (case List.find (\<lambda>c. cl_clientId c = gr_clientId g) (od_clients db) of
                               None \<Rightarrow> gr_clientId g | Some c \<Rightarrow> cl_name c),
            gs_scopes = gr_scopes g, gs_createdAt = gr_createdAt g,
            gs_activeTokenCount = length (filter (\<lambda>r. rt_userId r = userId \<and>
              rt_clientId r = gr_clientId g \<and> rt_revokedAt r = None \<and> now < rt_expiresAt r)
              (od_refresh db))\<rparr>) grants)"

definition revokeUserGrant :: "oauth_db \<Rightarrow> string \<Rightarrow> string \<Rightarrow> time \<Rightarrow> oauth_db" where
  "revokeUserGrant db userId clientId now =
     db\<lparr>od_grants := rows_update
           (\<lambda>g. gr_userId g = userId \<and> gr_clientId g = clientId \<and> gr_revokedAt g = None)
           (\<lambda>g. g\<lparr>gr_revokedAt := Some now\<rparr>) (od_grants db),
        od_refresh := rows_update
           (\<lambda>r. rt_userId r = userId \<and> rt_clientId r = clientId \<and> rt_revokedAt r = None)
           (\<lambda>r. r\<lparr>rt_revokedAt := Some now\<rparr>) (od_refresh db)\<rparr>"

section \<open>The client credentials grant\<close>

record credentials_input =
  cc_clientId :: "string option"
  cc_clientSecret :: "string option"
  cc_scope :: "string option"
  cc_ip :: "string option"

definition with_client :: "string \<Rightarrow> oauth_error \<Rightarrow> oauth_error" where
  "with_client name e =
     (case e of Oauth_error c d r _ \<Rightarrow> Oauth_error c d r (Some name) | x \<Rightarrow> x)"

text \<open>The body of the \<^verbatim>\<open>try\<close> block: the checks after the client is known to be a machine client.\<close>

definition credentials_checks ::
    "oauth_env \<Rightarrow> oauth_db \<Rightarrow> oauth_client \<Rightarrow> credentials_input \<Rightarrow> string list \<Rightarrow> string list \<Rightarrow> time \<Rightarrow>
     (oauth_error + unit) \<times> oauth_db" where
  "credentials_checks env db client inp allowed scopes now =
     (case hit (od_rate db) (cl_clientId client) now of
        (rate, retryAfter) \<Rightarrow>
          (let db1 = db\<lparr>od_rate := rate\<rparr>
           in case retryAfter of
                Some r \<Rightarrow>
                  (Inl (flow_error ''slow_down'' (''Too many token requests; retry in '' @ show_int r @ ''s.'')), db1)
              | None \<Rightarrow>
                  (case authenticateClient env client (cc_clientSecret inp) of
                     Inl e \<Rightarrow> (Inl e, db1)
                   | Inr _ \<Rightarrow>
                       (case ipAllowed (cl_ipAllowlist client) (cc_ip inp) of
                          Inl e \<Rightarrow> (Inl (Net_fault e), db1)
                        | Inr False \<Rightarrow>
                            (Inl (flow_error ''access_denied'' ''This address is not in the client's IP allowlist.''), db1)
                        | Inr True \<Rightarrow>
                            if scopes = [] \<or> list_ex (\<lambda>s. s \<notin> set allowed) scopes
                            then (Inl (flow_error ''invalid_scope'' (''This client may request: '' @
                                   (if allowed = [] then ''nothing'' else join_with '' '' allowed) @ ''.'')), db1)
                            else (Inr (), db1)))))"

definition clientCredentials ::
    "oauth_env \<Rightarrow> oauth_db \<Rightarrow> credentials_input \<Rightarrow> time \<Rightarrow>
     (oauth_error + (token_response \<times> string)) \<times> oauth_db" where
  "clientCredentials env db inp now =
     (case getEnabledClient db (or_empty (cc_clientId inp)) of
        None \<Rightarrow> (Inl (flow_error ''invalid_client'' ''Unknown or disabled client.''), db)
      | Some client \<Rightarrow>
          if cl_type client \<noteq> Machine_client
          then (Inl (flow_error ''unauthorized_client'' ''Only machine clients may use client_credentials.''), db)
          else
            (let allowed = filter (\<lambda>s. s \<in> set (cl_allowedScopes client)) (map perm_str MACHINE_CLIENT_SCOPES);
                 requested = parseScopes (cc_scope inp);
                 scopes = (if requested \<noteq> [] then requested else allowed)
             in case credentials_checks env db client inp allowed scopes now of
                  (Inl e, db1) \<Rightarrow> (Inl (with_client (cl_name client) e), db1)
                | (Inr _, db1) \<Rightarrow>
                    (let token = ev_sign env
                           \<lparr>si_userId = cl_clientId client, si_clientId = cl_clientId client,
                            si_scopes = scopes, si_resource = audienceFor env AGENT_CATALOG_RESOURCE_PATH,
                            si_machine = True, si_ttlSec = MACHINE_TOKEN_TTL_SEC\<rparr> now
                     in (Inr (\<lparr>tr_access_token = token, tr_expires_in = MACHINE_TOKEN_TTL_SEC,
                               tr_refresh_token = None, tr_scope = join_with '' '' scopes\<rparr>,
                              cl_name client),
                         db1\<lparr>od_clients := rows_update (\<lambda>c. cl_id c = cl_id client)
                               (\<lambda>c. c\<lparr>cl_lastUsedAt := Some now\<rparr>) (od_clients db1)\<rparr>))))"

end
