(* ===== verification/Oauth_Clients.thy ===== *)
theory Oauth_Clients
  imports Oauth_Flow
begin

text \<open>
  The registry of OAuth clients, \<^verbatim>\<open>oauth/oauth-client.service.ts\<close>: creation, update, rotation of
  the secret and removal, over the client table of \<open>oauth_db\<close>. The invariant \<open>clients_ok\<close> is what
  the flow relies on: unique identifiers, a secret exactly for the clients that are not public,
  machine scopes only from the catalogue and only for machine clients, and redirect URIs that are
  https or loopback.
\<close>

datatype registry_error = Http_fault http_error | Row_exists

definition client_type_of :: "string option \<Rightarrow> client_type" where
  "client_type_of t =
     (if t = Some ''confidential'' then Confidential_client
      else if t = Some ''machine'' then Machine_client else Public_client)"

record client_summary =
  cs_id :: string
  cs_clientId :: string
  cs_name :: string
  cs_type :: client_type
  cs_redirectUris :: "string list"
  cs_disabled :: bool
  cs_clientSecretSet :: bool
  cs_allowedScopes :: "string list"
  cs_ipAllowlist :: "string list"
  cs_lastUsedAt :: "time option"
  cs_secretRotatedAt :: "time option"
  cs_createdAt :: time

definition toSummary :: "oauth_client \<Rightarrow> client_summary" where
  "toSummary c =
     \<lparr>cs_id = cl_id c, cs_clientId = cl_clientId c, cs_name = cl_name c, cs_type = cl_type c,
      cs_redirectUris = cl_redirectUris c, cs_disabled = cl_disabled c,
      cs_clientSecretSet = (case cl_secretHash c of None \<Rightarrow> False | Some h \<Rightarrow> h \<noteq> []),
      cs_allowedScopes = cl_allowedScopes c, cs_ipAllowlist = cl_ipAllowlist c,
      cs_lastUsedAt = cl_lastUsedAt c, cs_secretRotatedAt = cl_secretRotatedAt c,
      cs_createdAt = cl_createdAt c\<rparr>"

definition client_list :: "oauth_db \<Rightarrow> client_summary list" where
  "client_list db = map toSummary (rev (sort_key cl_createdAt (rev (od_clients db))))"

section \<open>Validation\<close>

definition validateScopes :: "string list \<Rightarrow> http_error + string list" where
  "validateScopes scopes =
     (let cleaned = uniq (filter (\<lambda>s. s \<noteq> []) (map trim scopes));
          allowed = map perm_str MACHINE_CLIENT_SCOPES;
          bad = filter (\<lambda>s. s \<notin> set allowed) cleaned
      in if bad \<noteq> [] then Inl (BadRequest (''Machine clients may only hold: '' @ join_with '', '' allowed @ ''.''))
         else if cleaned = [] then Inl (BadRequest ''A machine client needs at least one scope.'')
         else Inr cleaned)"

definition validateIps :: "string list \<Rightarrow> http_error + string list" where
  "validateIps entries =
     (case cleanIpAllowlist (JArr (map JStr entries)) of
        Inl msg \<Rightarrow> Inl (BadRequest msg)
      | Inr out \<Rightarrow> Inr out)"

definition uri_acceptable :: "url \<Rightarrow> bool" where
  "uri_acceptable u \<longleftrightarrow>
     u_protocol u = ''https:'' \<or> (u_protocol u = ''http:'' \<and> u_hostname u \<in> set loopback_hosts)"

fun check_uris :: "oauth_env \<Rightarrow> string list \<Rightarrow> http_error option" where
  "check_uris env [] = None"
| "check_uris env (uri # rest) =
     (case ev_parse_url env uri of
        None \<Rightarrow> Some (BadRequest (''Invalid redirect URI: '' @ uri))
      | Some parsed \<Rightarrow>
          if \<not> uri_acceptable parsed
          then Some (BadRequest (''Redirect URI must be https (or http on loopback): '' @ uri))
          else check_uris env rest)"

definition validateRedirectUris :: "oauth_env \<Rightarrow> string list \<Rightarrow> http_error + string list" where
  "validateRedirectUris env uris =
     (if uris = [] then Inl (BadRequest ''At least one redirect URI is required.'')
      else (let cleaned = uniq (filter (\<lambda>u. u \<noteq> []) (map trim uris))
            in case check_uris env cleaned of
                 Some e \<Rightarrow> Inl e
               | None \<Rightarrow> Inr cleaned))"

section \<open>Operations\<close>

record create_client_input =
  nc_name :: "string option"
  nc_redirectUris :: "string list option"
  nc_type :: "string option"
  nc_allowedScopes :: "string list option"
  nc_ipAllowlist :: "string list option"

text \<open>What \<^verbatim>\<open>create\<close> draws: the row id, and the random parts of the client id and of the secret.\<close>

record client_fresh =
  cf_id :: string
  cf_clientId :: string
  cf_secret :: string

definition or_nil :: "'a list option \<Rightarrow> 'a list" where
  "or_nil v = (case v of None \<Rightarrow> [] | Some xs \<Rightarrow> xs)"

definition create_row :: "oauth_env \<Rightarrow> client_fresh \<Rightarrow> string \<Rightarrow> client_type \<Rightarrow> string list \<Rightarrow>
    string list \<Rightarrow> string list \<Rightarrow> time \<Rightarrow> oauth_client" where
  "create_row env fr name t redirectUris allowedScopes ipAllowlist now =
     \<lparr>cl_id = cf_id fr, cl_clientId = ''oc_'' @ cf_clientId fr, cl_name = name, cl_type = t,
      cl_secretHash = (if t \<noteq> Public_client then Some (ev_sha256 env (''ocs_'' @ cf_secret fr)) else None),
      cl_redirectUris = redirectUris, cl_disabled = False, cl_allowedScopes = allowedScopes,
      cl_ipAllowlist = ipAllowlist, cl_lastUsedAt = None, cl_secretRotatedAt = None,
      cl_createdAt = now\<rparr>"

definition client_create ::
    "oauth_env \<Rightarrow> oauth_db \<Rightarrow> create_client_input \<Rightarrow> client_fresh \<Rightarrow> time \<Rightarrow>
     (registry_error + (client_summary \<times> string option)) \<times> oauth_db" where
  "client_create env db inp fr now =
     (let name = trim (or_empty (nc_name inp)); t = client_type_of (nc_type inp);
          machine = (t = Machine_client)
      in if name = [] then (Inl (Http_fault (BadRequest ''A client name is required.'')), db)
         else case (if machine then Inr [] else validateRedirectUris env (or_nil (nc_redirectUris inp))) of
                Inl e \<Rightarrow> (Inl (Http_fault e), db)
              | Inr redirectUris \<Rightarrow>
         (case (if machine
                then validateScopes (case nc_allowedScopes inp of
                       None \<Rightarrow> map perm_str MACHINE_CLIENT_SCOPES | Some s \<Rightarrow> s)
                else Inr []) of
            Inl e \<Rightarrow> (Inl (Http_fault e), db)
          | Inr allowedScopes \<Rightarrow>
         (case (if machine then validateIps (or_nil (nc_ipAllowlist inp)) else Inr []) of
            Inl e \<Rightarrow> (Inl (Http_fault e), db)
          | Inr ipAllowlist \<Rightarrow>
              (let row = create_row env fr name t redirectUris allowedScopes ipAllowlist now
               in if list_ex (\<lambda>c. cl_clientId c = cl_clientId row \<or> cl_id c = cl_id row) (od_clients db)
                  then (Inl Row_exists, db)
                  else (Inr (toSummary row,
                             if t \<noteq> Public_client then Some (''ocs_'' @ cf_secret fr) else None),
                        db\<lparr>od_clients := od_clients db @ [row]\<rparr>)))))"

definition getOrThrow :: "oauth_db \<Rightarrow> string \<Rightarrow> http_error + oauth_client" where
  "getOrThrow db i =
     (case List.find (\<lambda>c. cl_id c = i) (od_clients db) of
        None \<Rightarrow> Inl (NotFound ''OAuth client not found.'')
      | Some c \<Rightarrow> Inr c)"

record update_client_input =
  uc_name :: "string option"
  uc_redirectUris :: "string list option"
  uc_disabled :: "bool option"
  uc_allowedScopes :: "string list option"
  uc_ipAllowlist :: "string list option"

text \<open>A field of the patch: absent, rejected, or the value to store.\<close>

definition patch_field :: "'a option \<Rightarrow> bool \<Rightarrow> ('a \<Rightarrow> http_error + 'b) \<Rightarrow> http_error + 'b option" where
  "patch_field v applies check =
     (case v of
        None \<Rightarrow> Inr None
      | Some x \<Rightarrow> if applies then (case check x of Inl e \<Rightarrow> Inl e | Inr y \<Rightarrow> Inr (Some y)) else Inr None)"

definition keep_or :: "'a \<Rightarrow> 'a option \<Rightarrow> 'a" where
  "keep_or old new = (case new of None \<Rightarrow> old | Some x \<Rightarrow> x)"

definition check_name :: "string \<Rightarrow> http_error + string" where
  "check_name n =
     (if trim n = [] then Inl (BadRequest ''A client name is required.'') else Inr (trim n))"

definition update_data :: "oauth_env \<Rightarrow> oauth_client \<Rightarrow> update_client_input \<Rightarrow> http_error + (oauth_client \<Rightarrow> oauth_client)" where
  "update_data env current patch =
     (let machine = (cl_type current = Machine_client)
      in case patch_field (uc_name patch) True check_name of
           Inl e \<Rightarrow> Inl e
         | Inr name \<Rightarrow>
      (case patch_field (uc_redirectUris patch) (\<not> machine) (validateRedirectUris env) of
           Inl e \<Rightarrow> Inl e
         | Inr uris \<Rightarrow>
      (case patch_field (uc_allowedScopes patch) machine validateScopes of
           Inl e \<Rightarrow> Inl e
         | Inr scopes \<Rightarrow>
      (case patch_field (uc_ipAllowlist patch) machine validateIps of
           Inl e \<Rightarrow> Inl e
         | Inr ips \<Rightarrow>
             Inr (\<lambda>c. c\<lparr>cl_name := keep_or (cl_name c) name,
                         cl_redirectUris := keep_or (cl_redirectUris c) uris,
                         cl_disabled := keep_or (cl_disabled c) (uc_disabled patch),
                         cl_allowedScopes := keep_or (cl_allowedScopes c) scopes,
                         cl_ipAllowlist := keep_or (cl_ipAllowlist c) ips\<rparr>)))))"

definition write_client :: "oauth_db \<Rightarrow> string \<Rightarrow> (oauth_client \<Rightarrow> oauth_client) \<Rightarrow> oauth_db" where
  "write_client db i f = db\<lparr>od_clients := rows_update (\<lambda>c. cl_id c = i) f (od_clients db)\<rparr>"

definition client_update ::
    "oauth_env \<Rightarrow> oauth_db \<Rightarrow> string \<Rightarrow> update_client_input \<Rightarrow> (http_error + client_summary) \<times> oauth_db" where
  "client_update env db i patch =
     (case getOrThrow db i of
        Inl e \<Rightarrow> (Inl e, db)
      | Inr current \<Rightarrow>
          (case update_data env current patch of
             Inl e \<Rightarrow> (Inl e, db)
           | Inr f \<Rightarrow> (Inr (toSummary (f current)), write_client db i f)))"

definition rotateSecret ::
    "oauth_env \<Rightarrow> oauth_db \<Rightarrow> string \<Rightarrow> string \<Rightarrow> time \<Rightarrow>
     (http_error + (client_summary \<times> string)) \<times> oauth_db" where
  "rotateSecret env db i random now =
     (case getOrThrow db i of
        Inl e \<Rightarrow> (Inl e, db)
      | Inr current \<Rightarrow>
          if cl_type current = Public_client
          then (Inl (BadRequest ''Public clients have no secret.''), db)
          else
            (let clientSecret = ''ocs_'' @ random;
                 f = (\<lambda>c. c\<lparr>cl_secretHash := Some (ev_sha256 env clientSecret), cl_secretRotatedAt := Some now\<rparr>)
             in (Inr (toSummary (f current), clientSecret), write_client db i f)))"

definition client_remove :: "oauth_db \<Rightarrow> string \<Rightarrow> (http_error + unit) \<times> oauth_db" where
  "client_remove db i =
     (case getOrThrow db i of
        Inl e \<Rightarrow> (Inl e, db)
      | Inr _ \<Rightarrow> (Inr (), db\<lparr>od_clients := filter (\<lambda>c. cl_id c \<noteq> i) (od_clients db)\<rparr>))"

section \<open>The invariant\<close>

definition client_ok :: "oauth_env \<Rightarrow> oauth_client \<Rightarrow> bool" where
  "client_ok env c \<longleftrightarrow>
     (cl_secretHash c = None \<longleftrightarrow> cl_type c = Public_client) \<and>
     (if cl_type c = Machine_client
      then cl_redirectUris c = [] \<and> cl_allowedScopes c \<noteq> [] \<and>
           set (cl_allowedScopes c) \<subseteq> perm_str ` set MACHINE_CLIENT_SCOPES
      else cl_allowedScopes c = [] \<and> cl_ipAllowlist c = [] \<and>
           (\<forall>u \<in> set (cl_redirectUris c). \<exists>p. ev_parse_url env u = Some p \<and> uri_acceptable p))"

definition clients_ok :: "oauth_env \<Rightarrow> oauth_client list \<Rightarrow> bool" where
  "clients_ok env cs \<longleftrightarrow>
     distinct (map cl_id cs) \<and> distinct (map cl_clientId cs) \<and> (\<forall>c \<in> set cs. client_ok env c)"

lemma validateScopes_ok:
  "validateScopes scopes = Inr out \<Longrightarrow> out \<noteq> [] \<and> set out \<subseteq> perm_str ` set MACHINE_CLIENT_SCOPES"
  by (auto simp: validateScopes_def Let_def filter_empty_conv split: if_splits)

lemma check_uris_ok:
  "check_uris env us = None \<Longrightarrow> u \<in> set us \<Longrightarrow> \<exists>p. ev_parse_url env u = Some p \<and> uri_acceptable p"
  by (induction us) (auto split: option.splits if_splits)

lemma validateRedirectUris_ok:
  "validateRedirectUris env us = Inr out \<Longrightarrow> u \<in> set out \<Longrightarrow>
     \<exists>p. ev_parse_url env u = Some p \<and> uri_acceptable p"
  by (auto simp: validateRedirectUris_def Let_def split: if_splits option.splits dest: check_uris_ok)

lemma clients_ok_append:
  assumes "clients_ok env cs" and "client_ok env c"
    and "\<not> list_ex (\<lambda>d. cl_clientId d = cl_clientId c \<or> cl_id d = cl_id c) cs"
  shows "clients_ok env (cs @ [c])"
  using assms by (auto simp: clients_ok_def list_ex_iff)

lemma clients_ok_write:
  assumes "clients_ok env cs"
    and "\<And>c. cl_id (f c) = cl_id c" and "\<And>c. cl_clientId (f c) = cl_clientId c"
    and "\<And>c. c \<in> set cs \<Longrightarrow> P c \<Longrightarrow> client_ok env (f c)"
  shows "clients_ok env (rows_update P f cs)"
  using assms by (auto simp: clients_ok_def map_rows_update in_rows_update)

lemma create_keeps_clients_ok:
  assumes "clients_ok env (od_clients db)"
  shows "clients_ok env (od_clients (snd (client_create env db inp fr now)))"
  using assms
  by (auto simp: client_create_def Let_def client_ok_def create_row_def
      intro!: clients_ok_append
      split: if_splits sum.splits dest: validateScopes_ok validateRedirectUris_ok)

lemma patch_field_SomeD:
  "patch_field v applies check = Inr (Some y) \<Longrightarrow> applies \<and> (\<exists>x. check x = Inr y)"
  by (auto simp: patch_field_def split: option.splits if_splits sum.splits)

lemma getOrThrow_Inr:
  "getOrThrow db i = Inr c \<Longrightarrow> c \<in> set (od_clients db) \<and> cl_id c = i"
  by (auto simp: getOrThrow_def split: option.splits dest: find_SomeD)

lemma client_by_id:
  assumes "clients_ok env cs" and "c \<in> set cs" and "d \<in> set cs" and "cl_id c = cl_id d"
  shows "c = d"
  using assms by (auto simp: clients_ok_def distinct_map inj_on_def)

lemma update_data_ids:
  assumes "update_data env current patch = Inr f"
  shows "cl_id (f c) = cl_id c" and "cl_clientId (f c) = cl_clientId c"
  using assms by (auto simp: update_data_def Let_def split: sum.splits)

lemma keep_or_cases: "(v = None \<Longrightarrow> P old) \<Longrightarrow> (\<And>x. v = Some x \<Longrightarrow> P x) \<Longrightarrow> P (keep_or old v)"
  by (cases v) (auto simp: keep_or_def)

lemma update_data_ok:
  assumes "update_data env current patch = Inr f" and "client_ok env current"
  shows "client_ok env (f current)"
proof -
  from assms(1) obtain name uris scopes ips where
    u: "patch_field (uc_redirectUris patch) (cl_type current \<noteq> Machine_client) (validateRedirectUris env) = Inr uris"
    and s: "patch_field (uc_allowedScopes patch) (cl_type current = Machine_client) validateScopes = Inr scopes"
    and p: "patch_field (uc_ipAllowlist patch) (cl_type current = Machine_client) validateIps = Inr ips"
    and f: "f = (\<lambda>c. c\<lparr>cl_name := keep_or (cl_name c) name,
                         cl_redirectUris := keep_or (cl_redirectUris c) uris,
                         cl_disabled := keep_or (cl_disabled c) (uc_disabled patch),
                         cl_allowedScopes := keep_or (cl_allowedScopes c) scopes,
                         cl_ipAllowlist := keep_or (cl_ipAllowlist c) ips\<rparr>)"
    by (auto simp: update_data_def Let_def split: sum.splits)
  show ?thesis
  proof (cases "cl_type current = Machine_client")
    case True
    then have "uris = None" using u by (auto simp: patch_field_def split: option.splits)
    moreover have "scopes = Some x \<Longrightarrow> x \<noteq> [] \<and> set x \<subseteq> perm_str ` set MACHINE_CLIENT_SCOPES" for x
      using s by (auto dest!: patch_field_SomeD dest: validateScopes_ok)
    ultimately show ?thesis using True assms(2)
      by (cases scopes) (auto simp: f client_ok_def keep_or_def)
  next
    case False
    then have "scopes = None" "ips = None" using s p by (auto simp: patch_field_def split: option.splits)
    moreover have "uris = Some x \<Longrightarrow> w \<in> set x \<Longrightarrow> \<exists>q. ev_parse_url env w = Some q \<and> uri_acceptable q" for x w
      using u by (auto dest!: patch_field_SomeD dest: validateRedirectUris_ok)
    ultimately show ?thesis using False assms(2)
      by (cases uris) (auto simp: f client_ok_def keep_or_def)
  qed
qed

lemma write_keeps_clients_ok:
  assumes ok: "clients_ok env (od_clients db)" and cur: "getOrThrow db i = Inr current"
    and ids: "\<And>c. cl_id (f c) = cl_id c" "\<And>c. cl_clientId (f c) = cl_clientId c"
    and f: "client_ok env (f current)"
  shows "clients_ok env (od_clients (write_client db i f))"
proof -
  have "client_ok env (f c)" if "c \<in> set (od_clients db)" "cl_id c = i" for c
    using that f getOrThrow_Inr [OF cur] client_by_id [OF ok] by metis
  then show ?thesis using ok ids by (simp add: write_client_def clients_ok_write)
qed

lemma update_keeps_clients_ok:
  assumes ok: "clients_ok env (od_clients db)"
  shows "clients_ok env (od_clients (snd (client_update env db i patch)))"
proof (cases "getOrThrow db i")
  case (Inr current)
  then have cur: "client_ok env current" using ok getOrThrow_Inr by (auto simp: clients_ok_def)
  show ?thesis
  proof (cases "update_data env current patch")
    case f: (Inr f)
    show ?thesis
      using write_keeps_clients_ok [OF ok Inr update_data_ids [OF f] update_data_ok [OF f cur]] Inr f
      by (simp add: client_update_def)
  qed (use ok Inr in \<open>simp add: client_update_def\<close>)
qed (use ok in \<open>simp add: client_update_def\<close>)

lemma rotate_keeps_clients_ok:
  assumes ok: "clients_ok env (od_clients db)"
  shows "clients_ok env (od_clients (snd (rotateSecret env db i random now)))"
proof (cases "getOrThrow db i")
  case (Inr current)
  then have cur: "client_ok env current" using ok getOrThrow_Inr by (auto simp: clients_ok_def)
  show ?thesis
  proof (cases "cl_type current = Public_client")
    case False
    then have "client_ok env (current\<lparr>cl_secretHash := Some h, cl_secretRotatedAt := Some now\<rparr>)" for h
      using cur by (auto simp: client_ok_def)
    then show ?thesis using False Inr ok
      by (auto simp: rotateSecret_def Let_def intro!: write_keeps_clients_ok)
  qed (use ok Inr in \<open>simp add: rotateSecret_def\<close>)
qed (use ok in \<open>simp add: rotateSecret_def\<close>)

lemma remove_keeps_clients_ok:
  "clients_ok env (od_clients db) \<Longrightarrow> clients_ok env (od_clients (snd (client_remove db i)))"
  by (auto simp: client_remove_def clients_ok_def distinct_map_filter split: sum.splits)

text \<open>
  Rotating a client's secret takes effect at once: afterwards the client authenticates with
  exactly the secrets whose hash is that of the secret returned, so (the hash not colliding) no
  older secret is accepted.
\<close>

theorem rotated_secret_is_the_only_one:
  assumes "clients_ok env (od_clients db)"
    and "rotateSecret env db i random now = (Inr (summary, secret), db')"
    and "getEnabledClient db' cid = Some client" and "cl_id client = i"
    and "hex_bytes (ev_sha256 env presented) \<noteq> hex_bytes (ev_sha256 env secret)"
  shows "authenticateClient env client (Some presented) \<noteq> Inr ()"
proof -
  from assms(2) obtain current where
    cur: "getOrThrow db i = Inr current" and conf: "cl_type current \<noteq> Public_client"
    and db': "db' = write_client db i
      (\<lambda>c. c\<lparr>cl_secretHash := Some (ev_sha256 env secret), cl_secretRotatedAt := Some now\<rparr>)"
    by (auto simp: rotateSecret_def Let_def split: sum.splits if_splits)
  have "client \<in> set (od_clients db')"
    using assms(3) by (auto simp: getEnabledClient_def split: if_splits option.splits dest: find_SomeD)
  then obtain c where c: "c \<in> set (od_clients db)" "cl_id c = i"
      "client = c\<lparr>cl_secretHash := Some (ev_sha256 env secret), cl_secretRotatedAt := Some now\<rparr>"
    using assms(4) by (auto simp: db' write_client_def in_rows_update split: if_splits)
  have "c = current" using client_by_id [OF assms(1)] c getOrThrow_Inr [OF cur] by blast
  then show ?thesis using conf c(3) assms(5)
    by (auto simp: authenticateClient_def Let_def)
qed

definition demo_env :: oauth_env where
  "demo_env = \<lparr>ev_sha256 = concat \<circ> map (\<lambda>c. [CHR ''6'', if is_digit c then c else CHR ''0'']),
     ev_base64urlSha256 = (\<lambda>s. ''b'' @ s),
     ev_parse_url = (\<lambda>s. if starts_with s ''https://''
        then Some \<lparr>u_protocol = ''https:'', u_hostname = drop 8 s, u_pathname = ''/''\<rparr> else None),
     ev_sign = (\<lambda>si now. ''jwt.'' @ si_userId si), ev_app_url = Some ''https://cerebro''\<rparr>"

definition demo_clients :: oauth_db where
  "demo_clients = snd (client_create demo_env (init_db [])
     \<lparr>nc_name = Some ''bot'', nc_redirectUris = None, nc_type = Some ''machine'',
      nc_allowedScopes = None, nc_ipAllowlist = None\<rparr>
     \<lparr>cf_id = ''r1'', cf_clientId = ''aa'', cf_secret = ''1''\<rparr> 0)"

theorem rotated_secret_witness:
  "authenticateClient demo_env
     (the (getEnabledClient (snd (rotateSecret demo_env demo_clients ''r1'' ''2'' 5)) ''oc_aa''))
     (Some ''ocs_1'') \<noteq> Inr ()"
proof -
  have ok: "clients_ok demo_env (od_clients demo_clients)"
    unfolding demo_clients_def by (rule create_keeps_clients_ok) (simp add: init_db_def clients_ok_def)
  have "case fst (rotateSecret demo_env demo_clients ''r1'' ''2'' 5) of
      Inl _ \<Rightarrow> False | Inr r \<Rightarrow> snd r = ''ocs_2''"
    by code_simp
  then obtain s where r: "rotateSecret demo_env demo_clients ''r1'' ''2'' 5 =
      (Inr (s, ''ocs_2''), snd (rotateSecret demo_env demo_clients ''r1'' ''2'' 5))"
    by (cases "rotateSecret demo_env demo_clients ''r1'' ''2'' 5") (auto split: sum.splits)
  show ?thesis
    by (rule rotated_secret_is_the_only_one [OF ok r, of "''oc_aa''"]; code_simp)
qed

text \<open>A list of blank redirect URIs passes the check that at least one is given.\<close>

theorem blank_redirect_uris_accepted:
  "validateRedirectUris demo_env ['' ''] = Inr []"
  by code_simp

end
