(* ===== verification/Token_Auth.thy ===== *)
theory Token_Auth
  imports Users Oauth_Clients
begin

text \<open>
  Bearer credentials: \<^verbatim>\<open>auth/token-auth.service.ts\<close> (API tokens, OAuth access tokens, machine
  clients), \<^verbatim>\<open>auth/oauth-token.service.ts\<close> (signing and verification), \<^verbatim>\<open>auth/auth.guard.ts\<close> (the
  global guard) and \<^verbatim>\<open>tokens/tokens.service.ts\<close> (the registry of API tokens).

  \<^verbatim>\<open>jsonwebtoken\<close> is the two fields \<open>te_jwt_sign\<close> and \<open>te_jwt_verify\<close> of \<open>token_env\<close>; they already
  know the signing secret, the algorithm and the issuer. What verification returns is an untyped
  JSON value. Writing \<open>lastUsedAt\<close> is best effort in the code and succeeds in the model.
\<close>

section \<open>Rows and environment\<close>

record api_token =
  at_id :: string
  at_userId :: string
  at_name :: string
  at_prefix :: string
  at_hash :: string
  at_scopes :: "string list"
  at_lastUsedAt :: "time option"
  at_expiresAt :: "time option"
  at_revokedAt :: "time option"
  at_createdAt :: time

record access_db =
  ax_auth :: auth_db
  ax_oauth :: oauth_db
  ax_tokens :: "api_token list"

record token_env =
  te_sha256 :: "string \<Rightarrow> string"
  te_jwt_sign :: "json \<Rightarrow> int \<Rightarrow> time \<Rightarrow> string"
  te_jwt_verify :: "string \<Rightarrow> time \<Rightarrow> json option"
  te_app_url :: "string option"

record token_principal =
  tp_user :: session_user
  tp_tokenId :: "string option"
  tp_oauthClientId :: "json option"
  tp_machineClient :: bool

section \<open>Access tokens (\<open>OAuthTokenService\<close>)\<close>

definition sign_payload :: "sign_input \<Rightarrow> json" where
  "sign_payload si =
     JObj ([(''sub'', JStr (si_userId si)), (''scope'', JStr (join_with '' '' (si_scopes si))),
            (''client_id'', JStr (si_clientId si))]
       @ (if si_machine si then [(''sub_type'', JStr ''client'')] else [])
       @ (case si_resource si of None \<Rightarrow> [] | Some r \<Rightarrow> if r = [] then [] else [(''aud'', JStr r)]))"

definition signAccessToken :: "token_env \<Rightarrow> sign_input \<Rightarrow> time \<Rightarrow> string" where
  "signAccessToken env si now = te_jwt_sign env (sign_payload si) (si_ttlSec si) now"

definition issuer :: "token_env \<Rightarrow> string option" where
  "issuer env = (case te_app_url env of None \<Rightarrow> None | Some u \<Rightarrow> if u = [] then None else Some u)"

definition chop_slash :: "string \<Rightarrow> string" where
  "chop_slash s = (if s \<noteq> [] \<and> last s = CHR ''/'' then butlast s else s)"

definition MCP_RESOURCE_PATH :: string where "MCP_RESOURCE_PATH = ''/mcp''"

definition known_audiences :: "token_env \<Rightarrow> string list" where
  "known_audiences env =
     (case issuer env of
        None \<Rightarrow> []
      | Some u \<Rightarrow> map (\<lambda>p. chop_slash u @ p) [MCP_RESOURCE_PATH, AGENT_CATALOG_RESOURCE_PATH])"

record access_claims =
  ac_sub :: string
  ac_client_type :: bool
  ac_scope :: string
  ac_client_id :: json
  ac_aud :: "string option"

definition claims_of :: "token_env \<Rightarrow> json \<Rightarrow> access_claims option" where
  "claims_of env decoded =
     (case decoded of
        JObj ob \<Rightarrow>
          (case obj_get ob ''sub'' of
             JStr sub \<Rightarrow>
               if sub = [] then None
               else
                 (let aud = (case obj_get ob ''aud'' of JStr a \<Rightarrow> Some a | _ \<Rightarrow> None)
                  in if nonempty aud \<and> issuer env \<noteq> None \<and> chop_slash (the aud) \<notin> set (known_audiences env)
                     then None
                     else Some \<lparr>ac_sub = sub, ac_client_type = (obj_get ob ''sub_type'' = JStr ''client''),
                                ac_scope = (case obj_get ob ''scope'' of JStr s \<Rightarrow> s | _ \<Rightarrow> []),
                                ac_client_id = obj_get ob ''client_id'', ac_aud = aud\<rparr>)
           | _ \<Rightarrow> None)
      | _ \<Rightarrow> None)"

definition verifyAccessToken :: "token_env \<Rightarrow> string \<Rightarrow> time \<Rightarrow> access_claims option" where
  "verifyAccessToken env token now =
     (case te_jwt_verify env token now of None \<Rightarrow> None | Some decoded \<Rightarrow> claims_of env decoded)"

section \<open>Resolution (\<open>TokenAuthService\<close>)\<close>

definition TOKEN_PREFIX :: string where "TOKEN_PREFIX = ''cbro_''"
definition LAST_USED_THROTTLE_MS :: int where "LAST_USED_THROTTLE_MS = 60000"

record token_draw =
  td_prefix :: string
  td_secret :: string

text \<open>\<open>generate\<close>: the plaintext, the prefix and the hash, from the two random draws.\<close>

definition generate :: "token_env \<Rightarrow> token_draw \<Rightarrow> string \<times> string \<times> string" where
  "generate env d =
     (TOKEN_PREFIX @ td_prefix d @ ''_'' @ td_secret d, td_prefix d, te_sha256 env (td_secret d))"

definition extractBearer :: "string option \<Rightarrow> string option" where
  "extractBearer authHeader =
     (if \<not> nonempty authHeader then None
      else case split_on CHR '' '' (the authHeader) of
             scheme # value # _ \<Rightarrow>
               if value = [] \<or> to_lower scheme \<noteq> ''bearer'' then None else Some (trim value)
           | _ \<Rightarrow> None)"

text \<open>\<^verbatim>\<open>indexOf('_')\<close>, and the two parts around it; empty when the index is not positive.\<close>

fun index_of :: "char \<Rightarrow> string \<Rightarrow> nat option" where
  "index_of c [] = None"
| "index_of c (x # xs) = (if x = c then Some 0 else map_option Suc (index_of c xs))"

definition token_parts :: "string \<Rightarrow> string \<times> string" where
  "token_parts body =
     (case index_of CHR ''_'' body of
        None \<Rightarrow> ([], [])
      | Some sep \<Rightarrow> if 0 < sep then (take sep body, drop (sep + 1) body) else ([], []))"

definition hashMatches :: "token_env \<Rightarrow> string \<Rightarrow> string \<Rightarrow> bool" where
  "hashMatches env secret storedHash \<longleftrightarrow> hex_bytes (te_sha256 env secret) = hex_bytes storedHash"

definition due :: "time option \<Rightarrow> time \<Rightarrow> bool" where
  "due lastUsed now = (case lastUsed of None \<Rightarrow> True | Some t \<Rightarrow> LAST_USED_THROTTLE_MS \<le> now - t)"

definition touchLastUsed :: "access_db \<Rightarrow> string \<Rightarrow> time option \<Rightarrow> time \<Rightarrow> access_db" where
  "touchLastUsed db i current now =
     (if due current now
      then db\<lparr>ax_tokens := rows_update (\<lambda>t. at_id t = i) (\<lambda>t. t\<lparr>at_lastUsedAt := Some now\<rparr>) (ax_tokens db)\<rparr>
      else db)"

definition clamp :: "session_user \<Rightarrow> string list \<Rightarrow> session_user" where
  "clamp owner scopes = owner\<lparr>su_permissions := filter (\<lambda>p. p \<in> set scopes) (su_permissions owner)\<rparr>"

definition scope_words :: "string \<Rightarrow> string list" where
  "scope_words s = filter (\<lambda>w. w \<noteq> []) (split_on CHR '' '' s)"

definition machine_user :: "oauth_client \<Rightarrow> string list \<Rightarrow> session_user" where
  "machine_user client permissions =
     \<lparr>su_id = ''oauth-client:'' @ cl_clientId client,
      su_email = cl_clientId client @ ''@oauth-client.local'', su_displayName = cl_name client,
      su_roleSlug = ''machine-client'', su_roleName = ''Machine client'',
      su_permissions = permissions, su_authProvider = Local_provider\<rparr>"

definition resolveMachineClient ::
    "access_db \<Rightarrow> string \<Rightarrow> string \<Rightarrow> string option \<Rightarrow> time \<Rightarrow> (net_error + token_principal option) \<times> access_db" where
  "resolveMachineClient db clientId scope ip now =
     (case List.find (\<lambda>c. cl_clientId c = clientId) (od_clients (ax_oauth db)) of
        None \<Rightarrow> (Inr None, db)
      | Some client \<Rightarrow>
          if cl_type client \<noteq> Machine_client \<or> cl_disabled client then (Inr None, db)
          else (case ipAllowed (cl_ipAllowlist client) ip of
                  Inl e \<Rightarrow> (Inl e, db)
                | Inr False \<Rightarrow> (Inr None, db)
                | Inr True \<Rightarrow>
                    (let scopes = scope_words scope;
                         permissions = filter (\<lambda>p. p \<in> set scopes \<and> p \<in> set (cl_allowedScopes client))
                           (map perm_str MACHINE_CLIENT_SCOPES);
                         db1 = (if due (cl_lastUsedAt client) now
                                then db\<lparr>ax_oauth := (ax_oauth db)\<lparr>od_clients :=
                                       rows_update (\<lambda>c. cl_id c = cl_id client)
                                         (\<lambda>c. c\<lparr>cl_lastUsedAt := Some now\<rparr>) (od_clients (ax_oauth db))\<rparr>\<rparr>
                                else db)
                     in (Inr (Some \<lparr>tp_user = machine_user client permissions, tp_tokenId = None,
                                    tp_oauthClientId = Some (JStr (cl_clientId client)),
                                    tp_machineClient = True\<rparr>), db1))))"

definition resolveOAuth ::
    "token_env \<Rightarrow> access_db \<Rightarrow> string \<Rightarrow> string option \<Rightarrow> time \<Rightarrow> (net_error + token_principal option) \<times> access_db" where
  "resolveOAuth env db raw ip now =
     (if length (split_on CHR ''.'' raw) \<noteq> 3 then (Inr None, db)
      else (case verifyAccessToken env raw now of
              None \<Rightarrow> (Inr None, db)
            | Some claims \<Rightarrow>
                if ac_client_type claims
                then resolveMachineClient db (ac_sub claims) (ac_scope claims) ip now
                else (case buildSessionUser (ax_auth db) (ac_sub claims) of
                        None \<Rightarrow> (Inr None, db)
                      | Some owner \<Rightarrow>
                          (Inr (Some \<lparr>tp_user = clamp owner (scope_words (ac_scope claims)), tp_tokenId = None,
                                      tp_oauthClientId = Some (ac_client_id claims),
                                      tp_machineClient = False\<rparr>), db))))"

definition token_rejected :: "token_env \<Rightarrow> api_token \<Rightarrow> string \<Rightarrow> time \<Rightarrow> bool" where
  "token_rejected env token secret now \<longleftrightarrow>
     at_revokedAt token \<noteq> None \<or>
     (case at_expiresAt token of None \<Rightarrow> False | Some t \<Rightarrow> t \<le> now) \<or>
     \<not> hashMatches env secret (at_hash token)"

definition resolve_token ::
    "token_env \<Rightarrow> access_db \<Rightarrow> string option \<Rightarrow> string option \<Rightarrow> time \<Rightarrow>
     (net_error + token_principal option) \<times> access_db" where
  "resolve_token env db authHeader ip now =
     (case extractBearer authHeader of
        None \<Rightarrow> (Inr None, db)
      | Some raw \<Rightarrow>
          if raw = [] then (Inr None, db)
          else if \<not> starts_with raw TOKEN_PREFIX then resolveOAuth env db raw ip now
          else (case token_parts (drop (length TOKEN_PREFIX) raw) of
                  (prefix, secret) \<Rightarrow>
                    if prefix = [] \<or> secret = [] then (Inr None, db)
                    else (case List.find (\<lambda>t. at_prefix t = prefix) (ax_tokens db) of
                            None \<Rightarrow> (Inr None, db)
                          | Some token \<Rightarrow>
                              if token_rejected env token secret now then (Inr None, db)
                              else (case buildSessionUser (ax_auth db) (at_userId token) of
                                      None \<Rightarrow> (Inr None, db)
                                    | Some owner \<Rightarrow>
                                        (Inr (Some \<lparr>tp_user = clamp owner (at_scopes token),
                                                    tp_tokenId = Some (at_id token),
                                                    tp_oauthClientId = None, tp_machineClient = False\<rparr>),
                                         touchLastUsed db (at_id token) (at_lastUsedAt token) now)))))"

section \<open>The guard (\<open>SessionAuthGuard\<close>)\<close>

definition CATALOG_PATH :: string where "CATALOG_PATH = ''/api/v1/agents''"

definition isCatalogPath :: "string \<Rightarrow> bool" where
  "isCatalogPath path \<longleftrightarrow> path = CATALOG_PATH \<or> starts_with path (CATALOG_PATH @ ''/'')"

datatype principal_type = By_session | By_token

record guarded_request =
  gq_public :: bool
  gq_sessionOnly :: bool
  gq_sessionUserId :: "string option"
  gq_path :: string
  gq_authorization :: "string option"
  gq_ip :: "string option"

record request_identity =
  ri_user :: "session_user option"
  ri_principalType :: "principal_type option"
  ri_apiTokenId :: "string option"
  ri_oauthClientId :: "json option"

definition anonymous :: request_identity where
  "anonymous = \<lparr>ri_user = None, ri_principalType = None, ri_apiTokenId = None, ri_oauthClientId = None\<rparr>"

definition auth_guard ::
    "token_env \<Rightarrow> access_db \<Rightarrow> guarded_request \<Rightarrow> time \<Rightarrow> (http_error + request_identity) \<times> access_db" where
  "auth_guard env db req now =
     (if gq_public req then (Inr anonymous, db)
      else if nonempty (gq_sessionUserId req)
      then (case buildSessionUser (ax_auth db) (the (gq_sessionUserId req)) of
              None \<Rightarrow> (Inl (Unauthorized ''Session no longer valid''), db)
            | Some user \<Rightarrow>
                (Inr (anonymous\<lparr>ri_user := Some user, ri_principalType := Some By_session\<rparr>), db))
      else (case resolve_token env db (gq_authorization req) (gq_ip req) now of
              (Inl e, db1) \<Rightarrow> (Inl (InternalError ''address list''), db1)
            | (Inr None, db1) \<Rightarrow> (Inl (Unauthorized ''Not authenticated''), db1)
            | (Inr (Some p), db1) \<Rightarrow>
                if tp_machineClient p \<and> \<not> isCatalogPath (gq_path req)
                then (Inl (Forbidden ''This client may only read the agent catalog (/api/v1/agents).''), db1)
                else if gq_sessionOnly req
                then (Inl (Forbidden ''This action requires an interactive session, not an API token.''), db1)
                else (Inr \<lparr>ri_user = Some (tp_user p), ri_principalType = Some By_token,
                           ri_apiTokenId = tp_tokenId p, ri_oauthClientId = tp_oauthClientId p\<rparr>, db1)))"

section \<open>The registry of API tokens (\<open>TokensService\<close>)\<close>

fun check_token_scopes :: "session_user \<Rightarrow> string list \<Rightarrow> http_error option" where
  "check_token_scopes user [] = None"
| "check_token_scopes user (s # ss) =
     (if s \<notin> set (map perm_str GRANTABLE_TOKEN_SCOPES)
      then Some (BadRequest (''Scope \"'' @ s @ ''\" cannot be granted to a token.''))
      else if s \<notin> set (su_permissions user)
      then Some (BadRequest (''You do not hold the \"'' @ s @ ''\" permission.''))
      else check_token_scopes user ss)"

definition validate_token_scopes :: "session_user \<Rightarrow> string list \<Rightarrow> http_error + string list" where
  "validate_token_scopes user requested =
     (if requested = [] then Inl (BadRequest ''At least one scope is required.'')
      else (let scopes = uniq requested
            in case check_token_scopes user scopes of Some e \<Rightarrow> Inl e | None \<Rightarrow> Inr scopes))"

text \<open>The requested expiry: absent, not a date, or an instant.\<close>

datatype expiry_input = No_expiry | Bad_expiry | Expires_at time

definition check_expiry :: "expiry_input \<Rightarrow> time \<Rightarrow> http_error + time option" where
  "check_expiry e now =
     (case e of
        No_expiry \<Rightarrow> Inr None
      | Bad_expiry \<Rightarrow> Inl (BadRequest ''Invalid expiry date.'')
      | Expires_at d \<Rightarrow>
          if d \<le> now then Inl (BadRequest ''Expiry must be in the future.'') else Inr (Some d))"

definition token_create ::
    "token_env \<Rightarrow> access_db \<Rightarrow> session_user \<Rightarrow> string \<Rightarrow> string list \<Rightarrow> expiry_input \<Rightarrow> string \<Rightarrow> token_draw \<Rightarrow>
     time \<Rightarrow> (http_error + string) \<times> access_db" where
  "token_create env db user name0 requested expires freshId draw now =
     (let name = trim name0
      in if name = [] then (Inl (BadRequest ''A token name is required.''), db)
         else case validate_token_scopes user requested of
                Inl e \<Rightarrow> (Inl e, db)
              | Inr scopes \<Rightarrow>
                  (case check_expiry expires now of
                     Inl e \<Rightarrow> (Inl e, db)
                   | Inr expiresAt \<Rightarrow>
                       (case generate env draw of
                          (plaintext, prefix, hash) \<Rightarrow>
                            if list_ex (\<lambda>t. at_prefix t = prefix \<or> at_id t = freshId) (ax_tokens db)
                            then (Inl (InternalError ''duplicate token''), db)
                            else
                              (Inr plaintext,
                               db\<lparr>ax_tokens := ax_tokens db @
                                    [\<lparr>at_id = freshId, at_userId = su_id user, at_name = name, at_prefix = prefix,
                                      at_hash = hash, at_scopes = scopes, at_lastUsedAt = None,
                                      at_expiresAt = expiresAt, at_revokedAt = None, at_createdAt = now\<rparr>],
                                  ax_auth := record_audit (ax_auth db) (Some (su_id user)) (Some (su_email user))
                                    ''tokens.created'' (Some name)\<rparr>))))"

definition token_revoke ::
    "access_db \<Rightarrow> session_user \<Rightarrow> string \<Rightarrow> time \<Rightarrow> (http_error + unit) \<times> access_db" where
  "token_revoke db user i now =
     (case List.find (\<lambda>t. at_id t = i \<and> at_userId t = su_id user \<and> at_revokedAt t = None) (ax_tokens db) of
        None \<Rightarrow> (Inl (NotFound ''Token not found.''), db)
      | Some token \<Rightarrow>
          (Inr (),
           db\<lparr>ax_tokens := rows_update (\<lambda>t. at_id t = i) (\<lambda>t. t\<lparr>at_revokedAt := Some now\<rparr>) (ax_tokens db),
              ax_auth := record_audit (ax_auth db) (Some (su_id user)) (Some (su_email user))
                ''tokens.revoked'' (Some (at_name token))\<rparr>))"

definition token_list :: "access_db \<Rightarrow> string \<Rightarrow> api_token list" where
  "token_list db userId =
     rev (sort_key at_createdAt (rev (filter (\<lambda>t. at_userId t = userId \<and> at_revokedAt t = None) (ax_tokens db))))"

section \<open>What a bearer can do\<close>

lemma buildSessionUser_id: "buildSessionUser db i = Some u \<Longrightarrow> su_id u = i"
  by (auto simp: buildSessionUser_def find_user_def split: option.splits if_splits dest: find_SomeD)

lemma clamp_simps [simp]:
  "su_id (clamp u s) = su_id u"
  "su_permissions (clamp u s) = filter (\<lambda>p. p \<in> set s) (su_permissions u)"
  by (simp_all add: clamp_def)

text \<open>The authority a principal can draw on: the owner's role, or the machine client's row.\<close>

definition authority :: "access_db \<Rightarrow> token_principal \<Rightarrow> string list" where
  "authority db p =
     (if tp_machineClient p
      then concat (map (\<lambda>c. filter (\<lambda>s. s \<in> set (map perm_str MACHINE_CLIENT_SCOPES)) (cl_allowedScopes c))
             (filter (\<lambda>c. su_id (tp_user p) = ''oauth-client:'' @ cl_clientId c \<and>
                cl_type c = Machine_client \<and> \<not> cl_disabled c) (od_clients (ax_oauth db))))
      else case buildSessionUser (ax_auth db) (su_id (tp_user p)) of
             None \<Rightarrow> [] | Some owner \<Rightarrow> su_permissions owner)"

lemma resolveMachineClient_authority:
  assumes "resolveMachineClient db cid scope ip now = (Inr (Some p), db')"
  shows "set (su_permissions (tp_user p)) \<subseteq> set (authority db p)"
  using assms
  by (auto simp: resolveMachineClient_def authority_def machine_user_def Let_def
      split: option.splits if_splits sum.splits bool.splits dest!: find_SomeD)

lemma resolveOAuth_authority:
  assumes "resolveOAuth env db raw ip now = (Inr (Some p), db')"
  shows "set (su_permissions (tp_user p)) \<subseteq> set (authority db p)"
proof -
  obtain claims where c: "verifyAccessToken env raw now = Some claims"
    using assms by (auto simp: resolveOAuth_def split: if_splits option.splits)
  show ?thesis
  proof (cases "ac_client_type claims")
    case True
    with assms c show ?thesis
      by (auto simp: resolveOAuth_def split: if_splits dest: resolveMachineClient_authority)
  next
    case False
    with assms c show ?thesis
      by (auto simp: resolveOAuth_def authority_def buildSessionUser_id split: if_splits option.splits)
  qed
qed

lemma resolve_token_authority:
  assumes "resolve_token env db h ip now = (Inr (Some p), db')"
  shows "set (su_permissions (tp_user p)) \<subseteq> set (authority db p)"
proof -
  obtain raw where raw: "extractBearer h = Some raw" "raw \<noteq> []"
    using assms by (auto simp: resolve_token_def split: option.splits if_splits)
  show ?thesis
  proof (cases "starts_with raw TOKEN_PREFIX")
    case True
    with assms raw show ?thesis
      by (auto simp: resolve_token_def authority_def buildSessionUser_id
          split: prod.splits if_splits option.splits)
  next
    case False
    with assms raw show ?thesis
      by (auto simp: resolve_token_def dest: resolveOAuth_authority)
  qed
qed

text \<open>A request passes when the guard attaches an identity and the permission guard accepts it.\<close>

definition request_passes ::
    "token_env \<Rightarrow> access_db \<Rightarrow> guarded_request \<Rightarrow> string list option \<Rightarrow> time \<Rightarrow> request_identity option" where
  "request_passes env db req required now =
     (case fst (auth_guard env db req now) of
        Inl _ \<Rightarrow> None
      | Inr ri \<Rightarrow>
          (case canActivate required (map_option su_permissions (ri_user ri)) of
             Inr True \<Rightarrow> Some ri
           | _ \<Rightarrow> None))"

lemma auth_guard_token:
  assumes "fst (auth_guard env db req now) = Inr ri" and "ri_principalType ri = Some By_token"
  shows "\<exists>p db'. resolve_token env db (gq_authorization req) (gq_ip req) now = (Inr (Some p), db') \<and>
    ri_user ri = Some (tp_user p) \<and> \<not> gq_sessionOnly req \<and> \<not> gq_public req \<and>
    \<not> nonempty (gq_sessionUserId req) \<and> (tp_machineClient p \<longrightarrow> isCatalogPath (gq_path req))"
  using assms
  by (auto simp: auth_guard_def anonymous_def split: if_splits option.splits prod.splits sum.splits)

text \<open>
  C11: A request authenticated by a bearer credential and let through both guards was not for a
  session-only route; a machine client's was for the agent catalogue; and every permission the
  route requires is held now by the authority behind the credential: the owner's current role,
  or the current scopes of the enabled machine client. The credential's own scopes only narrow.
\<close>

theorem bearer_confined:
  assumes "request_passes env db req required now = Some ri" and "ri_principalType ri = Some By_token"
  shows "\<exists>p db'. resolve_token env db (gq_authorization req) (gq_ip req) now = (Inr (Some p), db') \<and>
    \<not> gq_sessionOnly req \<and> (tp_machineClient p \<longrightarrow> isCatalogPath (gq_path req)) \<and>
    (\<forall>perm \<in> set (case required of None \<Rightarrow> [] | Some r \<Rightarrow> r).
       perm \<in> set (su_permissions (tp_user p)) \<and> perm \<in> set (authority db p))"
proof -
  from assms(1) have g: "fst (auth_guard env db req now) = Inr ri"
    and c: "canActivate required (map_option su_permissions (ri_user ri)) = Inr True"
    by (auto simp: request_passes_def split: sum.splits bool.splits)
  obtain p db' where p: "resolve_token env db (gq_authorization req) (gq_ip req) now = (Inr (Some p), db')"
      "ri_user ri = Some (tp_user p)" "\<not> gq_sessionOnly req" "tp_machineClient p \<longrightarrow> isCatalogPath (gq_path req)"
    using auth_guard_token [OF g assms(2)] by blast
  moreover have "\<forall>perm \<in> set (case required of None \<Rightarrow> [] | Some r \<Rightarrow> r). perm \<in> set (su_permissions (tp_user p))"
    using c p(2) by (auto simp: canActivate_iff hasPermission_def)
  ultimately show ?thesis using resolve_token_authority [OF p(1)] by blast
qed

definition demo_token_env :: token_env where
  "demo_token_env = \<lparr>te_sha256 = ev_sha256 demo_env,
     te_jwt_sign = (\<lambda>p ttl now. (case p of JObj ob \<Rightarrow>
        ''e.'' @ js_string (obj_get ob ''sub'') @ ''.'' @ js_string (obj_get ob ''scope'') | _ \<Rightarrow> [])),
     te_jwt_verify = (\<lambda>t now. (case split_on CHR ''.'' t of
        [_, s, sc] \<Rightarrow> Some (JObj [(''sub'', JStr s), (''scope'', JStr sc), (''client_id'', JStr s)]) | _ \<Rightarrow> None)),
     te_app_url = Some ''https://cerebro''\<rparr>"

definition demo_access :: access_db where
  "demo_access = \<lparr>ax_auth = demo_auth_db, ax_oauth = demo_clients, ax_tokens = []\<rparr>"

definition demo_user :: session_user where
  "demo_user = the (buildSessionUser demo_auth_db ''u1'')"

definition demo_with_token :: access_db where
  "demo_with_token = snd (token_create demo_token_env demo_access demo_user ''cron'' [''logs:read'']
     No_expiry ''t1'' \<lparr>td_prefix = ''ab'', td_secret = ''1_2''\<rparr> 0)"

definition demo_request :: guarded_request where
  "demo_request = \<lparr>gq_public = False, gq_sessionOnly = False, gq_sessionUserId = None, gq_path = ''/api/logs'',
     gq_authorization = Some ''Bearer cbro_ab_1_2'', gq_ip = None\<rparr>"

theorem bearer_confined_witness:
  "\<exists>p. fst (resolve_token demo_token_env demo_with_token (Some ''Bearer cbro_ab_1_2'') None 5) = Inr (Some p) \<and>
     ''logs:read'' \<in> set (authority demo_with_token p)"
proof -
  have "case request_passes demo_token_env demo_with_token demo_request (Some [''logs:read'']) 5 of
      None \<Rightarrow> False | Some ri \<Rightarrow> ri_principalType ri = Some By_token"
    by code_simp
  then obtain ri where "request_passes demo_token_env demo_with_token demo_request (Some [''logs:read'']) 5 = Some ri"
      "ri_principalType ri = Some By_token"
    by (auto split: option.splits)
  from bearer_confined [OF this] show ?thesis by (auto simp: demo_request_def)
qed

section \<open>Round trips\<close>

text \<open>What \<^verbatim>\<open>randomBytes\<close> in hexadecimal and in base64url draw from.\<close>

definition hex_char :: "char \<Rightarrow> bool" where
  "hex_char c \<longleftrightarrow> is_digit c \<or> (97 \<le> code_of c \<and> code_of c \<le> 102)"

definition b64_char :: "char \<Rightarrow> bool" where
  "b64_char c \<longleftrightarrow> is_digit c \<or> is_alpha c \<or> c = CHR ''-'' \<or> c = CHR ''_''"

lemma index_of_append:
  "c \<notin> set xs \<Longrightarrow> index_of c (xs @ c # ys) = Some (length xs)"
  by (induction xs) auto

lemma token_parts_join:
  assumes "CHR ''_'' \<notin> set p" and "p \<noteq> []"
  shows "token_parts (p @ ''_'' @ s) = (p, s)"
  using index_of_append [OF assms(1), of s] assms(2) by (simp add: token_parts_def)

lemma no_space_char: "hex_char c \<or> b64_char c \<or> c \<in> set TOKEN_PREFIX \<Longrightarrow> \<not> is_space c"
  by (auto simp: hex_char_def b64_char_def str_simps TOKEN_PREFIX_def)

lemma extract_plain:
  assumes "\<forall>c \<in> set s. \<not> is_space c" and "s \<noteq> []"
  shows "extractBearer (Some (''Bearer '' @ s)) = Some s"
proof -
  have "CHR '' '' \<notin> set s" using assms(1) by (auto simp: is_space_def code_of_def)
  moreover have "split_on CHR '' '' (''Bearer'' @ CHR '' '' # s) = ''Bearer'' # split_on CHR '' '' s"
    by (rule split_on_append) simp
  moreover have "to_lower ''Bearer'' = ''bearer''" by code_simp
  ultimately show ?thesis using assms by (simp add: extractBearer_def nonempty_def split_on_none trim_id)
qed

lemma generate_parts:
  assumes "list_all hex_char (td_prefix d)" "td_prefix d \<noteq> []"
    and "list_all b64_char (td_secret d)" "td_secret d \<noteq> []"
  shows "extractBearer (Some (''Bearer '' @ fst (generate env d))) = Some (fst (generate env d))"
    and "starts_with (fst (generate env d)) TOKEN_PREFIX"
    and "token_parts (drop (length TOKEN_PREFIX) (fst (generate env d))) = (td_prefix d, td_secret d)"
proof -
  have "\<forall>c \<in> set (fst (generate env d)). \<not> is_space c"
    using assms no_space_char by (auto simp: generate_def list_all_iff is_space_def code_of_def)
  then show "extractBearer (Some (''Bearer '' @ fst (generate env d))) = Some (fst (generate env d))"
    by (rule extract_plain) (simp add: generate_def TOKEN_PREFIX_def)
  show "starts_with (fst (generate env d)) TOKEN_PREFIX"
    by (simp add: starts_with_def generate_def)
  have "CHR ''_'' \<notin> set (td_prefix d)" using assms(1) by (auto simp: list_all_iff hex_char_def str_simps)
  from token_parts_join [OF this assms(2)]
  show "token_parts (drop (length TOKEN_PREFIX) (fst (generate env d))) = (td_prefix d, td_secret d)"
    by (simp add: generate_def)
qed

lemma check_token_scopes_None:
  "check_token_scopes user ss = None \<longleftrightarrow>
     set ss \<subseteq> perm_str ` set GRANTABLE_TOKEN_SCOPES \<and> set ss \<subseteq> set (su_permissions user)"
  by (induction ss) auto

lemma token_create_ok:
  assumes "token_create env db user name req ex i d now = (Inr plain, db')"
  shows "\<exists>exp. check_expiry ex now = Inr exp \<and> plain = fst (generate env d) \<and>
    set req \<subseteq> perm_str ` set GRANTABLE_TOKEN_SCOPES \<and> set req \<subseteq> set (su_permissions user) \<and>
    (\<forall>t \<in> set (ax_tokens db). at_prefix t \<noteq> td_prefix d \<and> at_id t \<noteq> i) \<and>
    ax_auth db' = record_audit (ax_auth db) (Some (su_id user)) (Some (su_email user)) ''tokens.created'' (Some (trim name)) \<and>
    ax_oauth db' = ax_oauth db \<and>
    ax_tokens db' = ax_tokens db @
      [\<lparr>at_id = i, at_userId = su_id user, at_name = trim name, at_prefix = td_prefix d,
        at_hash = te_sha256 env (td_secret d), at_scopes = uniq req, at_lastUsedAt = None,
        at_expiresAt = exp, at_revokedAt = None, at_createdAt = now\<rparr>]"
  using assms
  by (auto simp: token_create_def validate_token_scopes_def Let_def generate_def check_token_scopes_None
      list_ex_iff split: if_splits sum.splits option.splits)

lemma buildSessionUser_audit [simp]:
  "buildSessionUser (record_audit db a e x t) i = buildSessionUser db i"
  by (simp add: buildSessionUser_def find_user_def find_role_def split: option.split)

text \<open>
  The secret returned by the creation of an API token is accepted until its expiry, as the
  token created, with exactly the permissions that are both in the requested scopes and in the
  owner's current role; the requested scopes were grantable and held by the creator.
\<close>

theorem token_roundtrip:
  assumes "token_create env db user name req ex i d now = (Inr plain, db')"
    and "list_all hex_char (td_prefix d)" "td_prefix d \<noteq> []"
    and "list_all b64_char (td_secret d)" "td_secret d \<noteq> []"
    and "case ex of Expires_at e \<Rightarrow> t < e | _ \<Rightarrow> True"
    and "buildSessionUser (ax_auth db) (su_id user) = Some owner"
  shows "\<exists>p db''. resolve_token env db' (Some (''Bearer '' @ plain)) ip t = (Inr (Some p), db'') \<and>
    tp_tokenId p = Some i \<and> \<not> tp_machineClient p \<and> su_id (tp_user p) = su_id user \<and>
    set (su_permissions (tp_user p)) = set req \<inter> set (su_permissions owner) \<and>
    set req \<subseteq> perm_str ` set GRANTABLE_TOKEN_SCOPES \<inter> set (su_permissions user)"
proof -
  obtain exp where exp: "check_expiry ex now = Inr exp" and plain: "plain = fst (generate env d)"
    and req: "set req \<subseteq> perm_str ` set GRANTABLE_TOKEN_SCOPES" "set req \<subseteq> set (su_permissions user)"
    and new: "\<forall>t \<in> set (ax_tokens db). at_prefix t \<noteq> td_prefix d \<and> at_id t \<noteq> i"
    and auth: "ax_auth db' = record_audit (ax_auth db) (Some (su_id user)) (Some (su_email user)) ''tokens.created'' (Some (trim name))"
    and tok: "ax_tokens db' = ax_tokens db @
      [\<lparr>at_id = i, at_userId = su_id user, at_name = trim name, at_prefix = td_prefix d,
        at_hash = te_sha256 env (td_secret d), at_scopes = uniq req, at_lastUsedAt = None,
        at_expiresAt = exp, at_revokedAt = None, at_createdAt = now\<rparr>]"
    using token_create_ok [OF assms(1)] by blast
  let ?row = "\<lparr>at_id = i, at_userId = su_id user, at_name = trim name, at_prefix = td_prefix d,
        at_hash = te_sha256 env (td_secret d), at_scopes = uniq req, at_lastUsedAt = None,
        at_expiresAt = exp, at_revokedAt = None, at_createdAt = now\<rparr>"
  have find: "List.find (\<lambda>t. at_prefix t = td_prefix d) (ax_tokens db') = Some ?row"
    unfolding tok using new by (intro find_append_new) auto
  have live: "\<not> token_rejected env ?row (td_secret d) t"
    using exp assms(6) by (auto simp: token_rejected_def hashMatches_def check_expiry_def
        split: option.splits expiry_input.splits if_splits)
  have owner: "buildSessionUser (ax_auth db') (su_id user) = Some owner"
    using assms(7) by (simp add: auth)
  have nonnil: "fst (generate env d) \<noteq> []" by (simp add: generate_def TOKEN_PREFIX_def)
  let ?p = "\<lparr>tp_user = clamp owner (uniq req), tp_tokenId = Some i, tp_oauthClientId = None, tp_machineClient = False\<rparr>"
  have "resolve_token env db' (Some (''Bearer '' @ plain)) ip t =
      (Inr (Some ?p), touchLastUsed db' i None t)"
    using generate_parts [OF assms(2-5), of env] nonnil assms(3,5)
    by (simp add: plain resolve_token_def find live owner)
  moreover have "tp_tokenId ?p = Some i \<and> \<not> tp_machineClient ?p \<and> su_id (tp_user ?p) = su_id user \<and>
      set (su_permissions (tp_user ?p)) = set req \<inter> set (su_permissions owner)"
    using buildSessionUser_id [OF assms(7)] by auto
  ultimately show ?thesis using req by blast
qed

theorem token_roundtrip_witness:
  "\<exists>p. fst (resolve_token demo_token_env demo_with_token (Some ''Bearer cbro_ab_1_2'') None 5) = Inr (Some p) \<and>
     set (su_permissions (tp_user p)) = {''logs:read''}"
proof -
  have "fst (token_create demo_token_env demo_access demo_user ''cron'' [''logs:read'']
     No_expiry ''t1'' \<lparr>td_prefix = ''ab'', td_secret = ''1_2''\<rparr> 0) = Inr ''cbro_ab_1_2''"
    by code_simp
  then have c: "token_create demo_token_env demo_access demo_user ''cron'' [''logs:read'']
     No_expiry ''t1'' \<lparr>td_prefix = ''ab'', td_secret = ''1_2''\<rparr> 0 = (Inr ''cbro_ab_1_2'', demo_with_token)"
    by (simp add: demo_with_token_def prod_eq_iff)
  have "buildSessionUser demo_auth_db ''u1'' \<noteq> None" by code_simp
  then have u: "buildSessionUser (ax_auth demo_access) (su_id demo_user) = Some demo_user"
    by (auto simp: demo_user_def demo_access_def buildSessionUser_id)
  have perm: "''logs:read'' \<in> set (su_permissions demo_user)" by code_simp
  have l: "list_all hex_char ''ab''" "list_all b64_char ''1_2''" by code_simp+
  have "\<exists>p db''. resolve_token demo_token_env demo_with_token (Some (''Bearer '' @ ''cbro_ab_1_2'')) None 5 = (Inr (Some p), db'') \<and>
    tp_tokenId p = Some ''t1'' \<and> \<not> tp_machineClient p \<and> su_id (tp_user p) = su_id demo_user \<and>
    set (su_permissions (tp_user p)) = set [''logs:read''] \<inter> set (su_permissions demo_user) \<and>
    set [''logs:read''] \<subseteq> perm_str ` set GRANTABLE_TOKEN_SCOPES \<inter> set (su_permissions demo_user)"
    by (rule token_roundtrip [OF c, where t = 5 and ip = None, OF _ _ _ _ _ u]) (use l in \<open>simp_all only: token_draw.simps expiry_input.case list.distinct not_False_eq_True\<close>)
  then obtain p db'' where p: "resolve_token demo_token_env demo_with_token (Some (''Bearer '' @ ''cbro_ab_1_2'')) None 5 = (Inr (Some p), db'')"
    "set (su_permissions (tp_user p)) = set [''logs:read''] \<inter> set (su_permissions demo_user)" by blast
  have "set (su_permissions (tp_user p)) = {''logs:read''}" unfolding p(2) by (simp add: perm)
  moreover have "''Bearer '' @ ''cbro_ab_1_2'' = ''Bearer cbro_ab_1_2''" by simp
  ultimately show ?thesis using p(1) by (metis fst_conv)
qed

section \<open>Token tables over time\<close>

datatype token_event =
    Te_create session_user string "string list" expiry_input string token_draw time
  | Te_revoke session_user string time
  | Te_request guarded_request time
  | Te_account user_event

primrec token_step :: "token_env \<Rightarrow> auth_env \<Rightarrow> access_db \<Rightarrow> token_event \<Rightarrow> access_db" where
  "token_step env aenv db (Te_create user name req ex i d now) = snd (token_create env db user name req ex i d now)"
| "token_step env aenv db (Te_revoke user i now) = snd (token_revoke db user i now)"
| "token_step env aenv db (Te_request req now) = snd (auth_guard env db req now)"
| "token_step env aenv db (Te_account e) = db\<lparr>ax_auth := user_step aenv (ax_auth db) e\<rparr>"

definition tokens_ok :: "access_db \<Rightarrow> bool" where
  "tokens_ok db \<longleftrightarrow> distinct (map at_prefix (ax_tokens db)) \<and> distinct (map at_id (ax_tokens db)) \<and>
     (\<forall>t \<in> set (ax_tokens db). set (at_scopes t) \<subseteq> perm_str ` set GRANTABLE_TOKEN_SCOPES)"

lemma resolve_token_tokens:
  "ax_tokens (snd (resolve_token env db h ip now)) = ax_tokens db \<or>
   (\<exists>i. ax_tokens (snd (resolve_token env db h ip now)) =
      rows_update (\<lambda>t. at_id t = i) (\<lambda>t. t\<lparr>at_lastUsedAt := Some now\<rparr>) (ax_tokens db))"
  by (auto simp: resolve_token_def resolveOAuth_def resolveMachineClient_def touchLastUsed_def Let_def
      split: option.split prod.split sum.split bool.split)

lemma auth_guard_tokens:
  "ax_tokens (snd (auth_guard env db req now)) = ax_tokens db \<or>
   (\<exists>i. ax_tokens (snd (auth_guard env db req now)) =
      rows_update (\<lambda>t. at_id t = i) (\<lambda>t. t\<lparr>at_lastUsedAt := Some now\<rparr>) (ax_tokens db))"
proof -
  have "snd (auth_guard env db req now) = db \<or>
      snd (auth_guard env db req now) = snd (resolve_token env db (gq_authorization req) (gq_ip req) now)"
    by (auto simp: auth_guard_def split: option.split prod.split sum.split)
  then show ?thesis using resolve_token_tokens [of env db "gq_authorization req" "gq_ip req" now] by metis
qed

text \<open>Every step keeps the rows, but for new ones and for the usage and revocation stamps.\<close>

definition stamps :: "(api_token \<Rightarrow> api_token) \<Rightarrow> bool" where
  "stamps f \<longleftrightarrow> (\<forall>t. at_id (f t) = at_id t \<and> at_prefix (f t) = at_prefix t \<and> at_scopes (f t) = at_scopes t \<and>
     (at_revokedAt t \<noteq> None \<longrightarrow> at_revokedAt (f t) \<noteq> None))"

lemma stamps_used: "stamps (\<lambda>t. t\<lparr>at_lastUsedAt := Some now\<rparr>)"
  and stamps_revoked: "stamps (\<lambda>t. t\<lparr>at_revokedAt := Some now\<rparr>)"
  by (simp_all add: stamps_def)

lemma token_step_tokens:
  "(\<exists>P f. ax_tokens (token_step env aenv db e) = rows_update P f (ax_tokens db) \<and> stamps f) \<or>
   (\<exists>row. ax_tokens (token_step env aenv db e) = ax_tokens db @ [row] \<and>
      (\<forall>t \<in> set (ax_tokens db). at_prefix t \<noteq> at_prefix row \<and> at_id t \<noteq> at_id row) \<and>
      set (at_scopes row) \<subseteq> perm_str ` set GRANTABLE_TOKEN_SCOPES)"
proof -
  have stamped: ?thesis if "ax_tokens (token_step env aenv db e) = rows_update P f (ax_tokens db)" "stamps f" for P f
    using that by blast
  have same: ?thesis if "ax_tokens (token_step env aenv db e) = ax_tokens db"
    by (rule stamped [of "\<lambda>_. False", OF _ stamps_used]) (simp add: that rows_update_def)
  show ?thesis
  proof (cases e)
    case (Te_create user name req ex i d now)
    show ?thesis
    proof (cases "fst (token_create env db user name req ex i d now)")
      case (Inl err)
      then have "snd (token_create env db user name req ex i d now) = db"
        by (auto simp: token_create_def Let_def generate_def split: if_splits sum.splits)
      then show ?thesis by (intro same) (simp add: Te_create)
    next
      case (Inr plain)
      then have "token_create env db user name req ex i d now =
          (Inr plain, snd (token_create env db user name req ex i d now))" by (simp add: prod_eq_iff)
      from token_create_ok [OF this] show ?thesis unfolding Te_create token_step.simps
        by (intro disjI2) (elim exE conjE, rule exI, rule conjI, assumption, simp)
    qed
  next
    case (Te_revoke user i now)
    have "ax_tokens (snd (token_revoke db user i now)) = ax_tokens db \<or>
        ax_tokens (snd (token_revoke db user i now)) =
          rows_update (\<lambda>t. at_id t = i) (\<lambda>t. t\<lparr>at_revokedAt := Some now\<rparr>) (ax_tokens db)"
      by (simp add: token_revoke_def split: option.split)
    then show ?thesis using same stamped [OF _ stamps_revoked] unfolding Te_revoke token_step.simps by blast
  next
    case (Te_request req now)
    show ?thesis
      using auth_guard_tokens [of env db req now] same stamped [OF _ stamps_used]
      unfolding Te_request token_step.simps by blast
  next
    case (Te_account u)
    then show ?thesis by (intro same) simp
  qed
qed

interpretation tokens: event_machine "token_step env aenv" tokens_ok for env aenv
proof
  fix db e
  assume ok: "tokens_ok db"
  from token_step_tokens [of env aenv db e] show "tokens_ok (token_step env aenv db e)"
  proof (elim disjE exE conjE)
    fix P f
    assume "ax_tokens (token_step env aenv db e) = rows_update P f (ax_tokens db)" "stamps f"
    moreover have "\<forall>t \<in> set (rows_update P f (ax_tokens db)). set (at_scopes t) \<subseteq> perm_str ` set GRANTABLE_TOKEN_SCOPES"
      by (rule rows_update_all) (use ok \<open>stamps f\<close> in \<open>simp_all add: tokens_ok_def stamps_def\<close>)
    ultimately show ?thesis using ok by (simp add: tokens_ok_def map_rows_update stamps_def)
  qed (use ok in \<open>auto simp: tokens_ok_def\<close>)
qed

definition revoked_prefix :: "string \<Rightarrow> access_db \<Rightarrow> bool" where
  "revoked_prefix p db \<longleftrightarrow> (\<exists>t \<in> set (ax_tokens db). at_prefix t = p \<and> at_revokedAt t \<noteq> None)"

lemma revoked_stays: "revoked_prefix p db \<Longrightarrow> revoked_prefix p (token_step env aenv db e)"
  unfolding revoked_prefix_def
proof (elim bexE conjE)
  fix t assume t: "t \<in> set (ax_tokens db)" "at_prefix t = p" "at_revokedAt t \<noteq> None"
  from token_step_tokens [of env aenv db e]
  show "\<exists>t \<in> set (ax_tokens (token_step env aenv db e)). at_prefix t = p \<and> at_revokedAt t \<noteq> None"
  proof (elim disjE exE conjE)
    fix P f assume "ax_tokens (token_step env aenv db e) = rows_update P f (ax_tokens db)" "stamps f"
    with t show ?thesis by (intro bexI [of _ "if P t then f t else t"]) (auto simp: stamps_def in_rows_update)
  qed (use t in auto)
qed

text \<open>
  C31: Revoking an API token is final: whatever token, request and account operations follow, the
  token's plaintext, presented by anyone, resolves to no principal.
\<close>

theorem revoked_token_never_resolves:
  assumes "tokens_ok db" and "tk \<in> set (ax_tokens db)" and "at_prefix tk = td_prefix d"
    and "token_revoke db user (at_id tk) now = (Inr (), db')"
    and "list_all hex_char (td_prefix d)" "td_prefix d \<noteq> []"
    and "list_all b64_char (td_secret d)" "td_secret d \<noteq> []"
  shows "fst (resolve_token env (foldl (token_step env aenv) db' es)
    (Some (''Bearer '' @ fst (generate env d))) ip t) = Inr None"
proof -
  let ?fin = "foldl (token_step env aenv) db' es"
  let ?P = "revoked_prefix (td_prefix d)"
  have step: "db' = token_step env aenv db (Te_revoke user (at_id tk) now)" using assms(4) by simp
  have ok': "tokens_ok db'" unfolding step by (rule tokens.inv_step [OF assms(1)])
  have "ax_tokens db' = rows_update (\<lambda>t. at_id t = at_id tk) (\<lambda>t. t\<lparr>at_revokedAt := Some now\<rparr>) (ax_tokens db)"
    using assms(4) by (auto simp: token_revoke_def split: option.splits)
  then have "?P db'" using assms(2,3)
    unfolding revoked_prefix_def
    by (intro bexI [of _ "tk\<lparr>at_revokedAt := Some now\<rparr>"]) (auto simp: in_rows_update)
  with ok' have "?P ?fin" by (rule tokens.run_keeps) (rule revoked_stays)
  moreover have "distinct (map at_prefix (ax_tokens ?fin))"
    using tokens.inv_run [OF ok'] by (simp add: tokens_ok_def)
  ultimately have all: "at_revokedAt t \<noteq> None" if "List.find (\<lambda>t. at_prefix t = td_prefix d) (ax_tokens ?fin) = Some t" for t
    using find_SomeD [OF that] by (auto simp: revoked_prefix_def distinct_map inj_on_def)
  have nonnil: "fst (generate env d) \<noteq> []" by (simp add: generate_def TOKEN_PREFIX_def)
  show ?thesis
    using generate_parts [OF assms(5-8), of env] nonnil assms(6,8) all
    by (auto simp: resolve_token_def token_rejected_def split: option.split)
qed

theorem revoked_token_never_resolves_witness:
  "fst (resolve_token demo_token_env
     (foldl (token_step demo_token_env demo_auth_env)
        (snd (token_revoke demo_with_token demo_user ''t1'' 9)) [Te_request demo_request 10])
     (Some (''Bearer '' @ fst (generate demo_token_env \<lparr>td_prefix = ''ab'', td_secret = ''1_2''\<rparr>))) None 11) = Inr None"
proof -
  have ok: "tokens_ok demo_with_token" by code_simp
  have ex: "\<exists>tk \<in> set (ax_tokens demo_with_token). at_prefix tk = ''ab'' \<and> at_id tk = ''t1''" by code_simp
  then obtain tk where tk: "tk \<in> set (ax_tokens demo_with_token)" "at_prefix tk = ''ab''" "at_id tk = ''t1''" by blast
  have "fst (token_revoke demo_with_token demo_user ''t1'' 9) = Inr ()" by code_simp
  then have r: "token_revoke demo_with_token demo_user (at_id tk) 9 =
      (Inr (), snd (token_revoke demo_with_token demo_user ''t1'' 9))" by (simp add: tk prod_eq_iff)
  have "list_all hex_char ''ab''" "list_all b64_char ''1_2''" by code_simp+
  then show ?thesis
    by (intro revoked_token_never_resolves [OF ok tk(1) _ r]) (simp_all add: tk)
qed

section \<open>Access tokens, from signing to a principal\<close>

lemma scope_words_join:
  assumes "\<forall>w \<in> set ws. CHR '' '' \<notin> set w \<and> w \<noteq> []"
  shows "scope_words (join_with '' '' ws) = ws"
proof (cases "ws = []")
  case False
  then show ?thesis using assms split_join [of ws "CHR '' ''"] by (simp add: scope_words_def filter_id_conv)
qed (simp add: scope_words_def)

lemma claims_of_payload:
  assumes "si_userId si \<noteq> []"
    and "case si_resource si of None \<Rightarrow> True | Some r \<Rightarrow> r = [] \<or> issuer env = None \<or> chop_slash r \<in> set (known_audiences env)"
  shows "claims_of env (sign_payload si) =
    Some \<lparr>ac_sub = si_userId si, ac_client_type = si_machine si, ac_scope = join_with '' '' (si_scopes si),
          ac_client_id = JStr (si_clientId si),
          ac_aud = (case si_resource si of None \<Rightarrow> None | Some r \<Rightarrow> if r = [] then None else Some r)\<rparr>"
  using assms
  by (auto simp: claims_of_def sign_payload_def obj_get_def nonempty_def split: option.splits)

text \<open>
  An access token signed for a user is accepted until it expires, by the same server, as that
  user with exactly the permissions in both the signed scopes and the user's current role; this
  uses what \<^verbatim>\<open>jsonwebtoken\<close> documents (verification returns the payload signed, before expiry,
  and a token has three dot-separated segments) and needs a resource, if any, that is this
  server's own.
\<close>

theorem access_token_roundtrip:
  assumes law: "\<And>ttl t0 t. t0 \<le> t \<Longrightarrow> t < t0 + 1000 * ttl \<Longrightarrow>
      te_jwt_verify env (te_jwt_sign env (sign_payload si) ttl t0) t = Some (sign_payload si)"
    and shape: "length (split_on CHR ''.'' (signAccessToken env si t0)) = 3"
      "\<forall>c \<in> set (signAccessToken env si t0). \<not> is_space c" "\<not> starts_with (signAccessToken env si t0) TOKEN_PREFIX"
    and "\<not> si_machine si" and "si_userId si \<noteq> []"
    and "\<forall>w \<in> set (si_scopes si). CHR '' '' \<notin> set w \<and> w \<noteq> []"
    and "case si_resource si of None \<Rightarrow> True
         | Some r \<Rightarrow> r = [] \<or> issuer env = None \<or> chop_slash r \<in> set (known_audiences env)"
    and "t0 \<le> t" and "t < t0 + 1000 * si_ttlSec si"
    and "buildSessionUser (ax_auth db) (si_userId si) = Some owner"
  shows "resolve_token env db (Some (''Bearer '' @ signAccessToken env si t0)) ip t =
    (Inr (Some \<lparr>tp_user = owner\<lparr>su_permissions := filter (\<lambda>p. p \<in> set (si_scopes si)) (su_permissions owner)\<rparr>,
                tp_tokenId = None, tp_oauthClientId = Some (JStr (si_clientId si)), tp_machineClient = False\<rparr>), db)"
proof -
  have v: "verifyAccessToken env (signAccessToken env si t0) t =
    Some \<lparr>ac_sub = si_userId si, ac_client_type = False, ac_scope = join_with '' '' (si_scopes si),
          ac_client_id = JStr (si_clientId si),
          ac_aud = (case si_resource si of None \<Rightarrow> None | Some r \<Rightarrow> if r = [] then None else Some r)\<rparr>"
    using law [OF assms(9,10)] claims_of_payload [OF assms(6,8)] assms(5)
    by (simp add: verifyAccessToken_def signAccessToken_def)
  have nonnil: "signAccessToken env si t0 \<noteq> []" using shape(1) by auto
  show ?thesis
    using extract_plain [OF shape(2) nonnil] nonnil shape(1,3) assms(11)
    by (simp add: resolve_token_def resolveOAuth_def v scope_words_join [OF assms(7)] clamp_def)
qed

definition demo_sign :: sign_input where
  "demo_sign = \<lparr>si_userId = ''u1'', si_clientId = ''u1'', si_scopes = [''logs:read''], si_resource = None,
     si_machine = False, si_ttlSec = ACCESS_TOKEN_TTL_SEC\<rparr>"

theorem access_token_roundtrip_witness:
  "fst (resolve_token demo_token_env demo_access (Some (''Bearer '' @ signAccessToken demo_token_env demo_sign 0)) None 3599999) =
    Inr (Some \<lparr>tp_user = demo_user\<lparr>su_permissions := [''logs:read'']\<rparr>,
                tp_tokenId = None, tp_oauthClientId = Some (JStr ''u1''), tp_machineClient = False\<rparr>)"
proof -
  have law: "te_jwt_verify demo_token_env (te_jwt_sign demo_token_env (sign_payload demo_sign) ttl t0) t = Some (sign_payload demo_sign)"
    for ttl t0 t
  proof -
    have "te_jwt_sign demo_token_env (sign_payload demo_sign) ttl t0 = te_jwt_sign demo_token_env (sign_payload demo_sign) 0 0"
      "te_jwt_verify demo_token_env s t = te_jwt_verify demo_token_env s 0" for s
      by (simp_all add: demo_token_env_def)
    moreover have "(case te_jwt_verify demo_token_env (te_jwt_sign demo_token_env (sign_payload demo_sign) 0 0) 0 of
        Some p \<Rightarrow> p = sign_payload demo_sign | None \<Rightarrow> False)"
      by code_simp
    ultimately show ?thesis by (auto split: option.splits)
  qed
  have "buildSessionUser demo_auth_db ''u1'' \<noteq> None" by code_simp
  then have u: "buildSessionUser (ax_auth demo_access) (si_userId demo_sign) = Some demo_user"
    by (auto simp: demo_user_def demo_access_def demo_sign_def)
  have f: "filter (\<lambda>p. p \<in> set (si_scopes demo_sign)) (su_permissions demo_user) = [''logs:read'']" by code_simp
  have "resolve_token demo_token_env demo_access (Some (''Bearer '' @ signAccessToken demo_token_env demo_sign 0)) None 3599999 =
    (Inr (Some \<lparr>tp_user = demo_user\<lparr>su_permissions := filter (\<lambda>p. p \<in> set (si_scopes demo_sign)) (su_permissions demo_user)\<rparr>,
                tp_tokenId = None, tp_oauthClientId = Some (JStr (si_clientId demo_sign)), tp_machineClient = False\<rparr>), demo_access)"
    by (rule access_token_roundtrip [OF law _ _ _ _ _ _ _ _ _ u]; code_simp)
  then show ?thesis unfolding f by (simp add: demo_sign_def)
qed

end
