(* ===== verification/Oauth_Server.thy ===== *)
theory Oauth_Server
  imports Oauth_Endpoints
begin

text \<open>
  The authorization server over time: what the revocation of a rotation chain does to the refresh
  table, the invariant \<open>oauth_ok\<close> of the whole server (an instance of \<open>event_machine\<close>), and the
  properties of request sequences: single use of codes and refresh tokens, death of a replayed
  chain, scopes within the grantable catalogue, consent before codes.
\<close>

section \<open>The refresh table\<close>

definition keeps_refresh :: "refresh_token \<Rightarrow> refresh_token \<Rightarrow> bool" where
  "keeps_refresh r s \<longleftrightarrow> rt_id s = rt_id r \<and> rt_tokenHash s = rt_tokenHash r \<and> rt_clientId s = rt_clientId r \<and>
     rt_userId s = rt_userId r \<and> rt_scopes s = rt_scopes r \<and> rt_expiresAt s = rt_expiresAt r \<and>
     (rt_revokedAt r \<noteq> None \<longrightarrow> rt_revokedAt s \<noteq> None)"

abbreviation revoke_at :: "time \<Rightarrow> refresh_token \<Rightarrow> refresh_token" where
  "revoke_at now \<equiv> \<lambda>r. r\<lparr>rt_revokedAt := Some now\<rparr>"

lemma revoke_chain_update:
  "\<exists>P. revoke_chain now seen cur tbl = rows_update P (revoke_at now) tbl"
proof (induction now seen cur tbl rule: revoke_chain.induct)
  case (1 now seen tbl)
  show ?case by (rule exI [of _ "\<lambda>_. False"]) (simp add: rows_update_def)
next
  case (2 now seen i tbl)
  have none: "\<exists>P. tbl = rows_update P (revoke_at now) tbl"
    by (rule exI [of _ "\<lambda>_. False"]) (simp add: rows_update_def)
  show ?case
  proof (cases "i \<in> set seen \<or> List.find (\<lambda>r. rt_id r = i) tbl = None")
    case True
    then show ?thesis using none by auto
  next
    case False
    then obtain t where t: "List.find (\<lambda>r. rt_id r = i) tbl = Some t" "i \<notin> set seen" by auto
    let ?tbl = "if rt_revokedAt t = None then revoke_row i now tbl else tbl"
    obtain P where P: "revoke_chain now (i # seen) (rt_rotatedTo t) ?tbl = rows_update P (revoke_at now) ?tbl"
      using "2.IH" [OF t(2,1)] by blast
    have "\<exists>Q. ?tbl = rows_update Q (revoke_at now) tbl"
    proof (cases "rt_revokedAt t = None")
      case True
      then show ?thesis by (intro exI [of _ "\<lambda>r. rt_id r = i"]) (simp add: revoke_row_def)
    qed (use none in auto)
    then obtain Q where Q: "?tbl = rows_update Q (revoke_at now) tbl" by blast
    have "\<exists>R. rows_update P (revoke_at now) (rows_update Q (revoke_at now) tbl) = rows_update R (revoke_at now) tbl"
      by (rule rows_update_twice) simp
    then show ?thesis using t P Q by simp
  qed
qed

text \<open>The rows a rotation chain leads to, following \<open>rt_rotatedTo\<close> from an id.\<close>

definition successor :: "refresh_token list \<Rightarrow> string \<Rightarrow> string option" where
  "successor tbl i = (case List.find (\<lambda>r. rt_id r = i) tbl of None \<Rightarrow> None | Some t \<Rightarrow> rt_rotatedTo t)"

inductive descends :: "refresh_token list \<Rightarrow> string \<Rightarrow> string \<Rightarrow> bool" for tbl where
  here: "descends tbl i i"
| onward: "successor tbl i = Some j \<Longrightarrow> descends tbl j k \<Longrightarrow> descends tbl i k"

inductive_simps descends_None: "descends tbl i k"

definition revoked_id :: "refresh_token list \<Rightarrow> string \<Rightarrow> bool" where
  "revoked_id tbl i \<longleftrightarrow> (\<forall>r \<in> set tbl. rt_id r = i \<longrightarrow> rt_revokedAt r \<noteq> None)"

lemma find_by_id:
  assumes "distinct (map rt_id tbl)" and "r \<in> set tbl"
  shows "List.find (\<lambda>q. rt_id q = rt_id r) tbl = Some r"
  using assms by (induction tbl) (auto simp: rev_image_eqI)

lemma successor_revoke_row [simp]: "successor (revoke_row i now tbl) j = successor tbl j"
  by (simp add: successor_def revoke_row_def find_rows_update split: option.split)

lemma revoke_row_revokes: "revoked_id (revoke_row i now tbl) i"
  unfolding revoked_id_def
proof (intro ballI impI)
  fix r assume "r \<in> set (revoke_row i now tbl)" and i: "rt_id r = i"
  then obtain q where "r = (if rt_id q = i then revoke_at now q else q)"
    unfolding revoke_row_def in_rows_update by blast
  then show "rt_revokedAt r \<noteq> None" using i by (cases "rt_id q = i") auto
qed

lemma revoked_id_revoke_row: "revoked_id tbl j \<Longrightarrow> revoked_id (revoke_row i now tbl) j"
  by (auto simp: revoked_id_def revoke_row_def in_rows_update split: if_splits)

text \<open>The ids walked are all revoked in the end, and the walk leaves none of their successors out.\<close>

lemma revoke_chain_closed:
  assumes "distinct (map rt_id tbl)"
    and "\<forall>x \<in> set seen. revoked_id tbl x \<and> (\<forall>y. successor tbl x = Some y \<longrightarrow> y \<in> set seen \<or> cur = Some y)"
  shows "\<exists>S. set seen \<subseteq> S \<and> (\<forall>i. cur = Some i \<longrightarrow> i \<in> S) \<and>
    (\<forall>x \<in> S. revoked_id (revoke_chain now seen cur tbl) x \<and> (\<forall>y. successor tbl x = Some y \<longrightarrow> y \<in> S))"
  using assms
proof (induction now seen cur tbl rule: revoke_chain.induct)
  case (1 now seen tbl)
  then show ?case by (intro exI [of _ "set seen"]) auto
next
  case (2 now seen i tbl)
  consider (seen) "i \<in> set seen" | (none) "i \<notin> set seen" "List.find (\<lambda>r. rt_id r = i) tbl = None"
    | (some) t where "i \<notin> set seen" "List.find (\<lambda>r. rt_id r = i) tbl = Some t" by auto
  then show ?case
  proof cases
    case seen
    then show ?thesis using "2.prems" by (intro exI [of _ "set seen"]) auto
  next
    case none
    have "successor tbl i = None" using none(2) by (simp add: successor_def)
    moreover have "revoked_id tbl i" using none(2) by (auto simp: revoked_id_def find_None_iff)
    ultimately have "revoked_id tbl i" "successor tbl i = None" by simp_all
    then show ?thesis using "2.prems" none by (intro exI [of _ "insert i (set seen)"]) auto
  next
    case some
    let ?tbl = "if rt_revokedAt t = None then revoke_row i now tbl else tbl"
    have t: "t \<in> set tbl" "rt_id t = i" using find_SomeD [OF some(2)] by auto
    have ids: "distinct (map rt_id ?tbl)" using "2.prems"(1) by (simp only: revoke_row_ids split: if_split) simp
    have succ: "successor ?tbl x = successor tbl x" for x by simp
    have "revoked_id ?tbl i"
    proof (cases "rt_revokedAt t = None")
      case False
      then show ?thesis using t "2.prems"(1) by (auto simp: revoked_id_def distinct_map inj_on_def)
    qed (simp add: revoke_row_revokes)
    have more: "revoked_id tbl x \<Longrightarrow> revoked_id ?tbl x" for x by (simp add: revoked_id_revoke_row)
    have inv: "\<forall>x \<in> set (i # seen). revoked_id ?tbl x \<and>
        (\<forall>y. successor ?tbl x = Some y \<longrightarrow> y \<in> set (i # seen) \<or> rt_rotatedTo t = Some y)"
    proof
      fix x assume x: "x \<in> set (i # seen)"
      show "revoked_id ?tbl x \<and> (\<forall>y. successor ?tbl x = Some y \<longrightarrow> y \<in> set (i # seen) \<or> rt_rotatedTo t = Some y)"
      proof (cases "x = i")
        case True
        have "successor tbl i = rt_rotatedTo t" using some(2) by (simp add: successor_def)
        then show ?thesis unfolding succ True using \<open>revoked_id ?tbl i\<close> by (intro conjI allI impI) simp_all
      next
        case False
        then have "revoked_id tbl x \<and> (\<forall>y. successor tbl x = Some y \<longrightarrow> y \<in> set seen \<or> Some i = Some y)"
          using "2.prems"(2) x by simp
        then show ?thesis unfolding succ using more [of x] by auto
      qed
    qed
    have step: "revoke_chain now seen (Some i) tbl = revoke_chain now (i # seen) (rt_rotatedTo t) ?tbl"
      using some by simp
    from "2.IH" [OF some ids inv] obtain S where S: "set (i # seen) \<subseteq> S"
      "\<forall>x \<in> S. revoked_id (revoke_chain now (i # seen) (rt_rotatedTo t) ?tbl) x \<and>
         (\<forall>y. successor ?tbl x = Some y \<longrightarrow> y \<in> S)" by blast
    show ?thesis unfolding step
      by (rule exI [of _ S]) (use S in \<open>simp add: succ\<close>)
  qed
qed

lemma descends_closed:
  "descends tbl i k \<Longrightarrow> i \<in> S \<Longrightarrow> \<forall>x \<in> S. \<forall>y. successor tbl x = Some y \<longrightarrow> y \<in> S \<Longrightarrow> k \<in> S"
  by (induction rule: descends.induct) auto

text \<open>What the walk changes is on the chain.\<close>

lemma revoke_chain_only:
  assumes "distinct (map rt_id tbl)" and "cur = Some i"
  shows "\<exists>P. revoke_chain now seen cur tbl = rows_update P (revoke_at now) tbl \<and>
    (\<forall>r \<in> set tbl. P r \<longrightarrow> rt_revokedAt r = None \<and> descends tbl i (rt_id r))"
  using assms
proof (induction now seen cur tbl arbitrary: i rule: revoke_chain.induct)
  case (2 now seen j tbl)
  have none: "\<exists>P. tbl = rows_update P (revoke_at now) tbl \<and>
      (\<forall>r \<in> set tbl. P r \<longrightarrow> rt_revokedAt r = None \<and> descends tbl i (rt_id r))"
    by (rule exI [of _ "\<lambda>_. False"]) (simp add: rows_update_def)
  consider (stop) "j \<in> set seen \<or> List.find (\<lambda>r. rt_id r = j) tbl = None"
    | (some) t where "j \<notin> set seen" "List.find (\<lambda>r. rt_id r = j) tbl = Some t" by auto
  then show ?case
  proof cases
    case stop
    then show ?thesis using none by auto
  next
    case some
    let ?tbl = "if rt_revokedAt t = None then revoke_row j now tbl else tbl"
    let ?Q = "\<lambda>r. rt_id r = j \<and> rt_revokedAt t = None"
    have t: "t \<in> set tbl" "rt_id t = j" using find_SomeD [OF some(2)] by auto
    have Q: "?tbl = rows_update ?Q (revoke_at now) tbl"
      by (cases "rt_revokedAt t = None") (auto simp: revoke_row_def rows_update_def)
    have Qr: "rt_revokedAt r = None \<and> descends tbl i (rt_id r)" if "r \<in> set tbl" "?Q r" for r
      using that t 2(2,3) by (auto simp: distinct_map inj_on_def intro: descends.here)
    have step: "revoke_chain now seen (Some j) tbl = revoke_chain now (j # seen) (rt_rotatedTo t) ?tbl"
      using some by simp
    have succ: "successor ?tbl x = successor tbl x" for x by simp
    have desc: "descends ?tbl x y = descends tbl x y" for x y
    proof
      show "descends ?tbl x y \<Longrightarrow> descends tbl x y"
        by (induction rule: descends.induct) (auto simp only: succ intro: descends.intros)
      show "descends tbl x y \<Longrightarrow> descends ?tbl x y"
        by (induction rule: descends.induct) (auto simp only: succ [symmetric] intro: descends.intros)
    qed
    have ids: "distinct (map rt_id ?tbl)" using 2(2) by (simp only: revoke_row_ids split: if_split) simp
    show ?thesis
    proof (cases "rt_rotatedTo t")
      case None
      then have "revoke_chain now seen (Some j) tbl = rows_update ?Q (revoke_at now) tbl"
        using step Q by simp
      then show ?thesis using Qr by blast
    next
      case (Some k)
      obtain P where P: "revoke_chain now (j # seen) (rt_rotatedTo t) ?tbl = rows_update P (revoke_at now) ?tbl"
          "\<forall>r \<in> set ?tbl. P r \<longrightarrow> rt_revokedAt r = None \<and> descends ?tbl k (rt_id r)"
        using "2.IH" [OF some ids Some] by blast
      have "revoke_chain now seen (Some j) tbl = rows_update (\<lambda>r. ?Q r \<or> P r) (revoke_at now) tbl"
      proof -
        have c: "P (if ?Q r then revoke_at now r else r) = (if ?Q r then False else P r)" if "r \<in> set tbl" for r
        proof (cases "?Q r")
          case True
          have "revoke_at now r \<in> set ?tbl"
            unfolding Q in_rows_update using that True by (intro bexI [of _ r]) simp_all
          from bspec [OF P(2) this] have "\<not> P (revoke_at now r)" by auto
          with True show ?thesis by simp
        qed auto
        have "(if P (if ?Q r then revoke_at now r else r) then revoke_at now (if ?Q r then revoke_at now r else r)
            else (if ?Q r then revoke_at now r else r)) = (if ?Q r \<or> P r then revoke_at now r else r)"
          if "r \<in> set tbl" for r unfolding c [OF that]
          by (cases "?Q r") (simp_all only: if_True if_False simp_thms)
        then show ?thesis unfolding step unfolding P(1) unfolding Q unfolding rows_update_def map_map comp_def
          by (intro map_cong refl)
      qed
      moreover have "rt_revokedAt r = None \<and> descends tbl i (rt_id r)" if "r \<in> set tbl" "?Q r \<or> P r" for r
      proof (cases "?Q r")
        case True
        then show ?thesis using Qr that by blast
      next
        case False
        have r: "r \<in> set ?tbl"
          unfolding Q in_rows_update using that(1) by (intro bexI [of _ r]) (simp_all only: False if_False)
        have p: "P r" using that(2) False by blast
        from bspec [OF P(2) r, THEN mp, OF p] have "rt_revokedAt r = None" "descends tbl k (rt_id r)"
          unfolding desc by blast+
        moreover have "successor tbl i = Some k" using some(2) 2(3) Some by (simp add: successor_def)
        ultimately show ?thesis by (auto intro: descends.onward)
      qed
      ultimately show ?thesis by blast
    qed
  qed
qed simp

declare revoke_chain.simps [simp del]

lemma chain_exact:
  assumes ids: "distinct (map rt_id tbl)"
  shows "revoke_chain now [] (Some startId) tbl =
    map (\<lambda>r. if descends tbl startId (rt_id r) \<and> rt_revokedAt r = None then revoke_at now r else r) tbl"
proof -
  let ?fin = "revoke_chain now [] (Some startId) tbl"
  obtain P where P: "?fin = rows_update P (revoke_at now) tbl"
      "\<forall>r \<in> set tbl. P r \<longrightarrow> rt_revokedAt r = None \<and> descends tbl startId (rt_id r)"
    using revoke_chain_only [OF ids refl] by blast
  obtain S where S: "startId \<in> S" "\<forall>x \<in> S. revoked_id ?fin x \<and> (\<forall>y. successor tbl x = Some y \<longrightarrow> y \<in> S)"
    using revoke_chain_closed [OF ids, of "[]" "Some startId" now] by auto
  have "P r \<longleftrightarrow> descends tbl startId (rt_id r) \<and> rt_revokedAt r = None" if r: "r \<in> set tbl" for r
  proof
    assume d: "descends tbl startId (rt_id r) \<and> rt_revokedAt r = None"
    have "rt_id r \<in> S" using descends_closed [OF conjunct1 [OF d] S(1)] S(2) by blast
    then have rev: "revoked_id ?fin (rt_id r)" using S(2) by blast
    show "P r"
    proof (rule ccontr)
      assume "\<not> P r"
      then have "r \<in> set ?fin" unfolding P(1) in_rows_update using r by (intro bexI [of _ r]) simp_all
      then have "rt_revokedAt r \<noteq> None" using bspec [OF rev [unfolded revoked_id_def]] by blast
      then show False using d by simp
    qed
  qed (use P(2) r in blast)
  then show ?thesis by (simp add: P(1) rows_update_def)
qed

text \<open>
  Revoking from a token revokes exactly the tokens the chain of rotations leads to from it,
  cycles included: they get the revocation time unless they were revoked before, and no other row
  changes. (In particular the loop ends.)
\<close>

theorem revocation_kills_exactly_the_chain:
  assumes "distinct (map rt_id (od_refresh db))"
  shows "od_refresh (revokeRefreshChain db startId now) =
    map (\<lambda>r. if descends (od_refresh db) startId (rt_id r) \<and> rt_revokedAt r = None
             then r\<lparr>rt_revokedAt := Some now\<rparr> else r) (od_refresh db)"
  using chain_exact [OF assms] by (simp add: revokeRefreshChain_def)

definition demo_refresh :: "string \<Rightarrow> string option \<Rightarrow> refresh_token" where
  "demo_refresh i next = \<lparr>rt_id = i, rt_tokenHash = i, rt_clientId = ''c'', rt_userId = ''u'', rt_scopes = [],
     rt_resource = None, rt_expiresAt = 100, rt_revokedAt = None, rt_rotatedTo = next\<rparr>"

theorem revocation_kills_exactly_the_chain_witness:
  "od_refresh (revokeRefreshChain ((init_db [])\<lparr>od_refresh := [demo_refresh ''a'' (Some ''b''), demo_refresh ''b'' (Some ''a''), demo_refresh ''c'' None]\<rparr>) ''a'' 9) =
    map (\<lambda>r. if descends [demo_refresh ''a'' (Some ''b''), demo_refresh ''b'' (Some ''a''), demo_refresh ''c'' None] ''a'' (rt_id r) \<and> rt_revokedAt r = None
             then r\<lparr>rt_revokedAt := Some 9\<rparr> else r)
      [demo_refresh ''a'' (Some ''b''), demo_refresh ''b'' (Some ''a''), demo_refresh ''c'' None]"
  using revocation_kills_exactly_the_chain
    [of "(init_db [])\<lparr>od_refresh := [demo_refresh ''a'' (Some ''b''), demo_refresh ''b'' (Some ''a''), demo_refresh ''c'' None]\<rparr>" "''a''" 9]
  by (simp add: demo_refresh_def)

section \<open>The invariant of the server\<close>

abbreviation grantable_strings :: "string set" where
  "grantable_strings \<equiv> perm_str ` set GRANTABLE_TOKEN_SCOPES"

definition codes_ok :: "auth_code list \<Rightarrow> bool" where
  "codes_ok cs \<longleftrightarrow> distinct (map co_id cs) \<and> distinct (map co_codeHash cs) \<and>
     (\<forall>c \<in> set cs. set (co_scopes c) \<subseteq> grantable_strings)"

definition refresh_ok :: "refresh_token list \<Rightarrow> bool" where
  "refresh_ok rs \<longleftrightarrow> distinct (map rt_id rs) \<and> distinct (map rt_tokenHash rs) \<and>
     (\<forall>r \<in> set rs. set (rt_scopes r) \<subseteq> grantable_strings \<and> (rt_rotatedTo r \<noteq> None \<longrightarrow> rt_revokedAt r \<noteq> None))"

definition oauth_ok :: "oauth_env \<Rightarrow> oauth_db \<Rightarrow> bool" where
  "oauth_ok env db \<longleftrightarrow> clients_ok env (od_clients db) \<and> codes_ok (od_codes db) \<and> refresh_ok (od_refresh db)"

lemma refresh_ok_revoke: "refresh_ok rs \<Longrightarrow> refresh_ok (rows_update P (revoke_at now) rs)"
proof -
  assume ok: "refresh_ok rs"
  have "\<forall>r \<in> set (rows_update P (revoke_at now) rs). set (rt_scopes r) \<subseteq> grantable_strings \<and>
      (rt_rotatedTo r \<noteq> None \<longrightarrow> rt_revokedAt r \<noteq> None)"
    by (rule rows_update_all) (use ok in \<open>simp_all add: refresh_ok_def\<close>)
  then show ?thesis using ok by (simp add: refresh_ok_def map_rows_update)
qed

lemma keeps_refresh_refl [simp]: "keeps_refresh r r"
  by (simp add: keeps_refresh_def)

lemma keeps_refresh_trans: "keeps_refresh a b \<Longrightarrow> keeps_refresh b c \<Longrightarrow> keeps_refresh a c"
  by (simp add: keeps_refresh_def)

lemma keeps_revoke_at [simp]: "keeps_refresh r (revoke_at now r)"
  by (simp add: keeps_refresh_def)

text \<open>What an operation does to the refresh table: it stays well formed and only evolves.\<close>

definition refresh_step :: "refresh_token list \<Rightarrow> refresh_token list \<Rightarrow> bool" where
  "refresh_step rs rs' \<longleftrightarrow> evolves keeps_refresh rs rs' \<and> (refresh_ok rs \<longrightarrow> refresh_ok rs')"

lemma refresh_step_refl [simp]: "refresh_step rs rs"
  by (simp add: refresh_step_def evolves_refl)

lemma refresh_step_trans: "refresh_step a b \<Longrightarrow> refresh_step b c \<Longrightarrow> refresh_step a c"
proof -
  assume ab: "refresh_step a b" and bc: "refresh_step b c"
  have "evolves keeps_refresh a c"
    by (rule evolves_trans [where K = keeps_refresh and ys = b])
      (use ab bc in \<open>auto simp: refresh_step_def intro: keeps_refresh_trans\<close>)
  then show "refresh_step a c" using ab bc by (simp add: refresh_step_def)
qed

lemma refresh_step_revoke [simp]: "refresh_step rs (rows_update P (revoke_at now) rs)"
  by (simp add: refresh_step_def refresh_ok_revoke evolves_update)

lemma refresh_step_chain: "refresh_step rs (revoke_chain now seen cur rs)"
  using revoke_chain_update [of now seen cur rs] by (auto simp only: refresh_step_revoke)

lemma refresh_step_successors: "refresh_step (od_refresh db) (od_refresh (revoke_successors db i now))"
  by (simp add: revoke_successors_def revokeRefreshChain_def refresh_step_chain split: option.split)

lemma refresh_step_append:
  assumes "\<not> list_ex (\<lambda>r. rt_tokenHash r = rt_tokenHash row \<or> rt_id r = rt_id row) rs"
    and "set (rt_scopes row) \<subseteq> grantable_strings" and "rt_rotatedTo row = None"
  shows "refresh_step rs (rs @ [row])"
  using assms by (auto simp: refresh_step_def refresh_ok_def list_ex_iff evolves_append)

lemma issueTokens_cases:
  assumes "issueTokens env db u c scopes res fr now = (r, db')"
  obtains (failed) "r = Inl Db_unique" "db' = db"
  | (issued) row where "\<not> list_ex (\<lambda>r. rt_tokenHash r = rt_tokenHash row \<or> rt_id r = rt_id row) (od_refresh db)"
      "db' = db\<lparr>od_refresh := od_refresh db @ [row]\<rparr>" "rt_scopes row = scopes" "rt_rotatedTo row = None"
      "rt_revokedAt row = None" "rt_id row = fr_id fr" "rt_tokenHash row = ev_sha256 env (''ocr_'' @ fr_random fr)"
      "rt_userId row = u" "rt_clientId row = c" "rt_expiresAt row = now + REFRESH_TTL_MS"
      "r = Inr \<lparr>tr_access_token = ev_sign env \<lparr>si_userId = u, si_clientId = c, si_scopes = scopes, si_resource = res,
             si_machine = False, si_ttlSec = ACCESS_TOKEN_TTL_SEC\<rparr> now,
           tr_expires_in = ACCESS_TOKEN_TTL_SEC, tr_refresh_token = Some (''ocr_'' @ fr_random fr),
           tr_scope = join_with '' '' scopes\<rparr>"
proof (cases "list_ex (\<lambda>r. rt_tokenHash r = ev_sha256 env (''ocr_'' @ fr_random fr) \<or> rt_id r = fr_id fr) (od_refresh db)")
  case True
  then show thesis using assms failed by (simp add: issueTokens_def Let_def)
next
  case False
  let ?row = "\<lparr>rt_id = fr_id fr, rt_tokenHash = ev_sha256 env (''ocr_'' @ fr_random fr), rt_clientId = c, rt_userId = u,
     rt_scopes = scopes, rt_resource = res, rt_expiresAt = now + REFRESH_TTL_MS, rt_revokedAt = None, rt_rotatedTo = None\<rparr>"
  show thesis by (rule issued [of ?row]) (use assms False in \<open>auto simp: issueTokens_def Let_def\<close>)
qed

lemma issueTokens_step:
  assumes "issueTokens env db u c scopes res fr now = (r, db')"
  shows "od_clients db' = od_clients db" "od_codes db' = od_codes db"
    and "set scopes \<subseteq> grantable_strings \<Longrightarrow> refresh_step (od_refresh db) (od_refresh db')"
proof -
  show "od_clients db' = od_clients db" "od_codes db' = od_codes db" using assms by (cases rule: issueTokens_cases; simp)+
  show "refresh_step (od_refresh db) (od_refresh db')" if "set scopes \<subseteq> grantable_strings"
    using assms
  proof (cases rule: issueTokens_cases)
    case (issued row)
    then show ?thesis using that by (simp add: refresh_step_append)
  qed simp
qed

lemma other_tables [simp]:
  "od_clients (consume_code db i now) = od_clients db"
  "od_refresh (consume_code db i now) = od_refresh db"
  "od_clients (revoke_successors db s now) = od_clients db"
  "od_codes (revoke_successors db s now) = od_codes db"
  "od_clients (refresh_lost db i now) = od_clients db"
  "od_codes (refresh_lost db i now) = od_codes db"
  "od_clients (refresh_link env db i t) = od_clients db"
  "od_codes (refresh_link env db i t) = od_codes db"
  "od_clients (snd (refresh_claim db i now)) = od_clients db"
  "od_codes (snd (refresh_claim db i now)) = od_codes db"
  "od_clients (revokeUserGrant db u c now) = od_clients db"
  "od_codes (revokeUserGrant db u c now) = od_codes db"
  "od_clients (rememberGrant db u c sc g now) = od_clients db"
  "od_codes (rememberGrant db u c sc g now) = od_codes db"
  "od_refresh (rememberGrant db u c sc g now) = od_refresh db"
  by (simp_all add: consume_code_def revoke_successors_def revokeRefreshChain_def refresh_lost_def refresh_link_def
      refresh_claim_def revokeUserGrant_def rememberGrant_def Let_def split: option.split)


text \<open>The steps of a refresh: the row is revoked by the claim before it is linked.\<close>

lemma refresh_read_ok:
  assumes "refresh_read env db inp now = (Inr (client, row), db')"
  shows "db' = db" "row \<in> set (od_refresh db)" "rt_tokenHash row = ev_sha256 env (or_empty (rf_refreshToken inp))"
    "rt_clientId row = cl_clientId client" "rt_revokedAt row = None" "now < rt_expiresAt row"
    "getEnabledClient db (or_empty (rf_clientId inp)) = Some client" "cl_type client \<noteq> Machine_client"
    "authenticateClient env client (rf_clientSecret inp) = Inr ()"
  using assms by (auto simp: refresh_read_def split: option.splits sum.splits if_splits dest: find_SomeD)

lemma refresh_read_tables:
  assumes "refresh_read env db inp now = (r, db')"
  shows "od_clients db' = od_clients db" "od_codes db' = od_codes db"
    "refresh_step (od_refresh db) (od_refresh db')"
  using assms
  by (auto simp: refresh_read_def refresh_step_successors split: option.splits sum.splits if_splits)

lemma refresh_claim_step: "refresh_step (od_refresh db) (od_refresh (snd (refresh_claim db i now)))"
  by (simp add: refresh_claim_def Let_def)

lemma refresh_claim_revokes: "revoked_id (od_refresh (snd (refresh_claim db i now))) i"
  unfolding revoked_id_def refresh_claim_def Let_def
proof (intro ballI impI)
  fix r assume "r \<in> set (od_refresh (snd (length (filter (\<lambda>r. rt_id r = i \<and> rt_revokedAt r = None) (od_refresh db)),
      db\<lparr>od_refresh := rows_update (\<lambda>r. rt_id r = i \<and> rt_revokedAt r = None) (revoke_at now) (od_refresh db)\<rparr>)))"
    and i: "rt_id r = i"
  then have "r \<in> set (rows_update (\<lambda>r. rt_id r = i \<and> rt_revokedAt r = None) (revoke_at now) (od_refresh db))" by simp
  then obtain q where "r = (if rt_id q = i \<and> rt_revokedAt q = None then revoke_at now q else q)"
    unfolding in_rows_update by blast
  then show "rt_revokedAt r \<noteq> None" using i by (auto split: if_splits)
qed

lemma refresh_link_step:
  assumes "revoked_id (od_refresh db) i"
  shows "refresh_step (od_refresh db) (od_refresh (refresh_link env db i t))"
proof -
  let ?f = "\<lambda>r. r\<lparr>rt_rotatedTo := map_option rt_id
      (List.find (\<lambda>r. rt_tokenHash r = ev_sha256 env t) (od_refresh db))\<rparr>"
  let ?new = "rows_update (\<lambda>r. rt_id r = i) ?f (od_refresh db)"
  have new: "od_refresh (refresh_link env db i t) = ?new" by (simp add: refresh_link_def Let_def)
  have "refresh_ok ?new" if ok: "refresh_ok (od_refresh db)"
  proof -
    have "set (rt_scopes r) \<subseteq> grantable_strings \<and> (rt_rotatedTo r \<noteq> None \<longrightarrow> rt_revokedAt r \<noteq> None)"
      if r: "r \<in> set ?new" for r
    proof -
      obtain q where q: "q \<in> set (od_refresh db)" "r = (if rt_id q = i then ?f q else q)"
        using r unfolding in_rows_update by blast
      have "set (rt_scopes q) \<subseteq> grantable_strings" "rt_rotatedTo q \<noteq> None \<longrightarrow> rt_revokedAt q \<noteq> None"
        using ok q(1) by (simp_all add: refresh_ok_def)
      moreover have "rt_id q = i \<Longrightarrow> rt_revokedAt q \<noteq> None" using assms q(1) by (simp add: revoked_id_def)
      ultimately show ?thesis unfolding q(2) by (cases "rt_id q = i") simp_all
    qed
    then show ?thesis using ok by (simp add: refresh_ok_def map_rows_update)
  qed
  moreover have "evolves keeps_refresh (od_refresh db) ?new"
    by (rule evolves_update) (simp_all add: keeps_refresh_def)
  ultimately show ?thesis unfolding new refresh_step_def by blast
qed

lemma issueTokens_revoked:
  assumes "issueTokens env db u c scopes res fr now = (Inr t, db')" and "revoked_id (od_refresh db) i"
    and "r \<in> set (od_refresh db)" and "rt_id r = i"
  shows "revoked_id (od_refresh db') i"
  using assms(1)
proof (cases rule: issueTokens_cases)
  case (issued row)
  have "rt_id row \<noteq> i" using issued(1) assms(3,4) by (auto simp: list_ex_iff)
  then show ?thesis using assms(2) issued(2) by (simp add: revoked_id_def)
qed simp

lemma refreshTokens_step:
  assumes ok: "refresh_ok (od_refresh db)" and ref: "refreshTokens env db inp fr now = (r, db')"
  shows "od_clients db' = od_clients db \<and> od_codes db' = od_codes db \<and>
    refresh_step (od_refresh db) (od_refresh db')"
proof -
  obtain x db1 where read: "refresh_read env db inp now = (x, db1)" by (metis prod.exhaust)
  note t1 = refresh_read_tables [OF read]
  show ?thesis
  proof (cases x)
    case (Inl e)
    then show ?thesis using ref read t1 by (simp add: refreshTokens_def)
  next
    case (Inr y)
    obtain client row where y: "y = (client, row)" by (cases y)
    note row = refresh_read_ok [OF read [unfolded Inr y]]
    obtain n db2 where claim: "refresh_claim db1 (rt_id row) now = (n, db2)" by (metis prod.exhaust)
    have db2: "db2 = snd (refresh_claim db1 (rt_id row) now)" by (simp add: claim)
    have t2: "refresh_step (od_refresh db) (od_refresh db2)"
      using t1(3) refresh_claim_step unfolding db2 by (blast intro: refresh_step_trans)
    have rev2: "revoked_id (od_refresh db2) (rt_id row)" unfolding db2 by (rule refresh_claim_revokes)
    have same2: "od_clients db2 = od_clients db" "od_codes db2 = od_codes db" using t1 by (simp_all add: db2)
    show ?thesis
    proof (cases "n = 0")
      case True
      have "refresh_step (od_refresh db2) (od_refresh (refresh_lost db2 (rt_id row) now))"
        by (simp add: refresh_lost_def refresh_step_successors split: option.split)
      with t2 have "refresh_step (od_refresh db) (od_refresh (refresh_lost db2 (rt_id row) now))"
        by (rule refresh_step_trans)
      moreover have "db' = refresh_lost db2 (rt_id row) now"
        using ref read claim True unfolding Inr y by (simp add: refreshTokens_def)
      ultimately show ?thesis using same2 by simp
    next
      case False
      obtain z db3 where issue: "issueTokens env db2 (rt_userId row) (cl_clientId client) (rt_scopes row)
          (rt_resource row) fr now = (z, db3)" by (metis prod.exhaust)
      have sc: "set (rt_scopes row) \<subseteq> grantable_strings" using ok row(2) by (simp add: refresh_ok_def)
      note t3 = issueTokens_step [OF issue]
      have t23: "refresh_step (od_refresh db) (od_refresh db3)" using t2 t3(3) [OF sc] by (rule refresh_step_trans)
      show ?thesis
      proof (cases z)
        case (Inl e)
        then show ?thesis using ref read claim False issue t23 same2 t3 unfolding Inr y
          by (simp add: refreshTokens_def)
      next
        case z: (Inr tok)
        have "evolves keeps_refresh (od_refresh db) (od_refresh db2)" using t2 by (simp add: refresh_step_def)
        from evolves_row [OF this row(2)] obtain q where q: "q \<in> set (od_refresh db2)" "keeps_refresh row q" by blast
        have "revoked_id (od_refresh db3) (rt_id row)"
          by (rule issueTokens_revoked [OF issue [unfolded z] rev2 q(1)]) (use q(2) in \<open>simp add: keeps_refresh_def\<close>)
        from t23 refresh_link_step [OF this]
        have "refresh_step (od_refresh db) (od_refresh (refresh_link env db3 (rt_id row) (or_empty (tr_refresh_token tok))))"
          by (rule refresh_step_trans)
        moreover have "db' = refresh_link env db3 (rt_id row) (or_empty (tr_refresh_token tok))"
          using ref unfolding refreshTokens_def read [unfolded Inr y] prod.case sum.case claim issue [unfolded z]
          by (simp only: if_not_P [OF False] prod.inject)
        ultimately show ?thesis using same2 t3 by simp
      qed
    qed
  qed
qed

section \<open>Every request keeps the invariant\<close>

definition keeps_code :: "auth_code \<Rightarrow> auth_code \<Rightarrow> bool" where
  "keeps_code c d \<longleftrightarrow> d\<lparr>co_consumedAt := co_consumedAt c\<rparr> = c \<and> (co_consumedAt c \<noteq> None \<longrightarrow> co_consumedAt d \<noteq> None)"

lemma keeps_code_refl [simp]: "keeps_code c c"
  by (simp add: keeps_code_def)

lemma keeps_code_trans: "keeps_code a b \<Longrightarrow> keeps_code b c \<Longrightarrow> keeps_code a c"
  by (auto simp: keeps_code_def) (metis auth_code.surjective auth_code.update_convs(11))+

lemma keeps_code_fields:
  "keeps_code c d \<Longrightarrow> co_id d = co_id c \<and> co_codeHash d = co_codeHash c \<and> co_scopes d = co_scopes c"
  unfolding keeps_code_def by (metis auth_code.select_convs auth_code.surjective auth_code.update_convs(11))

lemma codes_ok_consume: "codes_ok cs \<Longrightarrow> codes_ok (rows_update P (\<lambda>c. c\<lparr>co_consumedAt := Some now\<rparr>) cs)"
proof -
  assume ok: "codes_ok cs"
  have "\<forall>c \<in> set (rows_update P (\<lambda>c. c\<lparr>co_consumedAt := Some now\<rparr>) cs). set (co_scopes c) \<subseteq> grantable_strings"
    by (rule rows_update_all) (use ok in \<open>simp_all add: codes_ok_def\<close>)
  then show ?thesis using ok by (simp add: codes_ok_def map_rows_update)
qed

definition oauth_evolves :: "oauth_db \<Rightarrow> oauth_db \<Rightarrow> bool" where
  "oauth_evolves db db' \<longleftrightarrow> evolves keeps_code (od_codes db) (od_codes db') \<and>
     evolves keeps_refresh (od_refresh db) (od_refresh db')"

lemma evolves_same:
  "od_codes db' = od_codes db \<Longrightarrow> refresh_step (od_refresh db) (od_refresh db') \<Longrightarrow> oauth_evolves db db'"
  by (simp add: oauth_evolves_def refresh_step_def evolves_refl)

lemma issueCode_cases:
  assumes "issueCode env db inp fr now = (r, db')"
  obtains (failed) "r = Inl Db_unique" "db' = db"
  | (issued) row where "\<not> list_ex (\<lambda>c. co_codeHash c = co_codeHash row \<or> co_id c = co_id row) (od_codes db)"
      "db' = db\<lparr>od_codes := od_codes db @ [row]\<rparr>" "co_scopes row = ci_scopes inp" "co_consumedAt row = None"
      "co_userId row = ci_userId inp" "co_clientId row = ci_clientId inp" "r = Inr (''oca_'' @ fr_random fr)"
proof (cases "list_ex (\<lambda>r. co_codeHash r = ev_sha256 env (''oca_'' @ fr_random fr) \<or> co_id r = fr_id fr) (od_codes db)")
  case True
  then show thesis using assms failed by (simp add: issueCode_def Let_def)
next
  case False
  let ?row = "\<lparr>co_id = fr_id fr, co_codeHash = ev_sha256 env (''oca_'' @ fr_random fr), co_clientId = ci_clientId inp,
     co_userId = ci_userId inp, co_scopes = ci_scopes inp, co_redirectUri = ci_redirectUri inp,
     co_codeChallenge = ci_codeChallenge inp, co_codeChallengeMethod = ''S256'', co_resource = ci_resource inp,
     co_expiresAt = now + CODE_TTL_MS, co_consumedAt = None\<rparr>"
  show thesis by (rule issued [of ?row]) (use assms False in \<open>auto simp: issueCode_def Let_def\<close>)
qed

lemma issueCode_step:
  assumes "issueCode env db inp fr now = (r, db')" and "set (ci_scopes inp) \<subseteq> grantable_strings" and "oauth_ok env db"
  shows "oauth_evolves db db' \<and> oauth_ok env db'"
  using assms(1)
proof (cases rule: issueCode_cases)
  case failed
  then show ?thesis using assms(3) by (simp add: evolves_same)
next
  case (issued row)
  have "codes_ok (od_codes db @ [row])"
    using assms(2,3) issued(1,3) by (auto simp: oauth_ok_def codes_ok_def list_ex_iff)
  then show ?thesis using issued(2) assms(3)
    by (simp add: oauth_ok_def oauth_evolves_def evolves_append evolves_refl)
qed

lemma effectiveScopes_grantable: "set (effectiveScopes perms req) \<subseteq> grantable_strings"
  by (auto simp: effectiveScopes_def)

lemma oauth_ok_same:
  assumes "oauth_ok env db" and "od_clients db' = od_clients db" "od_codes db' = od_codes db"
    and "refresh_step (od_refresh db) (od_refresh db')"
  shows "oauth_evolves db db' \<and> oauth_ok env db'"
  using assms by (simp add: oauth_ok_def evolves_same refresh_step_def)

lemma authorize_step:
  assumes ok: "oauth_ok env db"
  shows "oauth_evolves db (snd (authorize env db q s u fr now)) \<and> oauth_ok env (snd (authorize env db q s u fr now))"
proof -
  have "snd (authorize env db q s u fr now) = db \<or>
    (\<exists>inp. set (ci_scopes inp) \<subseteq> grantable_strings \<and>
       snd (authorize env db q s u fr now) = snd (issueCode env db inp fr now))"
  proof -
    have "snd (redirectWithCode env db inp s fr now) = snd (issueCode env db inp fr now)" for inp
      by (simp add: redirectWithCode_def split: prod.split sum.split)
    moreover have "set (ci_scopes (code_input_of q us (effectiveScopes p r) ru)) \<subseteq> grantable_strings" for us p r ru
      by (simp add: code_input_of_def effectiveScopes_grantable)
    ultimately show ?thesis
      unfolding authorize_def Let_def by (simp split: sum.split oauth_error.split prod.split option.split) blast
  qed
  then show ?thesis
  proof (elim disjE exE conjE)
    fix inp
    assume "set (ci_scopes inp) \<subseteq> grantable_strings" and e: "snd (authorize env db q s u fr now) = snd (issueCode env db inp fr now)"
    then show ?thesis using issueCode_step [OF prod.collapse [symmetric] _ ok] by simp
  qed (use ok in \<open>simp add: evolves_same\<close>)
qed

lemma decide_step:
  assumes ok: "oauth_ok env db"
  shows "oauth_evolves db (snd (decide env db q s b u g fr now)) \<and> oauth_ok env (snd (decide env db q s b u g fr now))"
proof -
  have same: "oauth_evolves db (rememberGrant db uu c sc gg now) \<and> oauth_ok env (rememberGrant db uu c sc gg now)" for uu c sc gg
    by (rule oauth_ok_same [OF ok]) simp_all
  have "snd (decide env db q s b u g fr now) = db \<or>
    (\<exists>inp db1 uu c sc. set (ci_scopes inp) \<subseteq> grantable_strings \<and> db1 = rememberGrant db uu c sc g now \<and>
       snd (decide env db q s b u g fr now) = snd (issueCode env db1 inp fr now))"
  proof -
    have i: "snd (case issueCode env db1 inp fr now of (Inl _, db2) \<Rightarrow> (Inl (InternalError ''code''), db2)
        | (Inr code, db2) \<Rightarrow> (Inr (buildRedirect ru [(''code'', Some code), (''state'', s)]), db2)) =
      snd (issueCode env db1 inp fr now)" for db1 inp ru
      by (simp split: prod.split sum.split)
    have sc: "set (ci_scopes (code_input_of q us (effectiveScopes p r) ru)) \<subseteq> grantable_strings" for us p r ru
      by (simp add: code_input_of_def effectiveScopes_grantable)
    show ?thesis
      unfolding decide_def Let_def
      apply (cases "validateAuthorize env db q")
       apply (simp split: oauth_error.split)
      apply (clarsimp simp: i simp del: if_split_asm)
      using sc by blast
  qed
  then show ?thesis
  proof (elim disjE exE conjE)
    fix inp db1 uu c sc
    assume inp: "set (ci_scopes inp) \<subseteq> grantable_strings" and db1: "db1 = rememberGrant db uu c sc g now"
      and e: "snd (decide env db q s b u g fr now) = snd (issueCode env db1 inp fr now)"
    have "oauth_evolves db1 (snd (issueCode env db1 inp fr now)) \<and> oauth_ok env (snd (issueCode env db1 inp fr now))"
      by (rule issueCode_step [OF prod.collapse [symmetric] inp]) (use same db1 in simp)
    moreover have "od_codes db1 = od_codes db" "od_refresh db1 = od_refresh db" by (simp_all add: db1)
    ultimately show ?thesis unfolding e by (simp add: oauth_evolves_def)
  qed (use ok in \<open>simp add: evolves_same\<close>)
qed

lemma exchange_check_ok:
  assumes "exchange_check env db inp now = Inr (client, row)"
  shows "row \<in> set (od_codes db)" "co_codeHash row = ev_sha256 env (or_empty (ex_code inp))"
    "co_clientId row = cl_clientId client" "co_consumedAt row = None" "now < co_expiresAt row"
    "co_redirectUri row = or_empty (ex_redirectUri inp)"
    "ev_base64urlSha256 env (or_empty (ex_codeVerifier inp)) = co_codeChallenge row"
    "getEnabledClient db (or_empty (ex_clientId inp)) = Some client"
    "authenticateClient env client (ex_clientSecret inp) = Inr ()"
  using assms by (auto simp: exchange_check_def split: option.splits sum.splits if_splits dest: find_SomeD)

lemma exchange_step:
  assumes ok: "oauth_ok env db" and ex: "exchangeAuthCode env db inp fr now = (r, db')"
  shows "oauth_evolves db db' \<and> oauth_ok env db'"
proof (cases "exchange_check env db inp now")
  case (Inl e)
  then show ?thesis using ex ok by (simp add: exchangeAuthCode_def evolves_same)
next
  case (Inr x)
  obtain client row where x: "x = (client, row)" by (cases x)
  let ?mid = "consume_code db (co_id row) now"
  have issue: "issueTokens env ?mid (co_userId row) (cl_clientId client) (co_scopes row) (co_resource row) fr now = (r, db')"
    using ex unfolding exchangeAuthCode_def Inr x by simp
  have "set (co_scopes row) \<subseteq> grantable_strings"
    using exchange_check_ok(1) [OF Inr [unfolded x]] ok by (simp add: oauth_ok_def codes_ok_def)
  note t = issueTokens_step(1,2) [OF issue] issueTokens_step(3) [OF issue this]
  have codes: "od_codes ?mid = rows_update (\<lambda>r. co_id r = co_id row) (\<lambda>c. c\<lparr>co_consumedAt := Some now\<rparr>) (od_codes db)"
    by (simp add: consume_code_def)
  have "evolves keeps_code (od_codes db) (od_codes ?mid)"
    unfolding codes by (rule evolves_update) (simp_all add: keeps_code_def)
  moreover have "codes_ok (od_codes ?mid)" unfolding codes using ok by (intro codes_ok_consume) (simp add: oauth_ok_def)
  ultimately show ?thesis using t ok by (simp add: oauth_ok_def oauth_evolves_def refresh_step_def)
qed

lemma credentials_checks_tables:
  "od_clients (snd (credentials_checks env db c inp al sc now)) = od_clients db"
  "od_codes (snd (credentials_checks env db c inp al sc now)) = od_codes db"
  "od_refresh (snd (credentials_checks env db c inp al sc now)) = od_refresh db"
  by (simp_all add: credentials_checks_def Let_def split: prod.split option.split sum.split bool.split)

lemma clients_ok_touch:
  assumes "clients_ok env cs"
  shows "clients_ok env (rows_update P (\<lambda>c. c\<lparr>cl_lastUsedAt := Some now\<rparr>) cs)"
  by (rule clients_ok_write [OF assms]) (use assms in \<open>simp_all add: clients_ok_def client_ok_def\<close>)

text \<open>The scopes a machine client may have and those a request asks for.\<close>

definition machine_allowed :: "oauth_client \<Rightarrow> string list" where
  "machine_allowed client = filter (\<lambda>s. s \<in> set (cl_allowedScopes client)) (map perm_str MACHINE_CLIENT_SCOPES)"

definition machine_scopes :: "oauth_client \<Rightarrow> credentials_input \<Rightarrow> string list" where
  "machine_scopes client inp =
     (if parseScopes (cc_scope inp) \<noteq> [] then parseScopes (cc_scope inp) else machine_allowed client)"

lemma clientCredentials_machine:
  assumes "getEnabledClient db (or_empty (cc_clientId inp)) = Some client" and "cl_type client = Machine_client"
  shows "clientCredentials env db inp now =
    (case credentials_checks env db client inp (machine_allowed client) (machine_scopes client inp) now of
       (Inl e, db1) \<Rightarrow> (Inl (with_client (cl_name client) e), db1)
     | (Inr _, db1) \<Rightarrow>
         (Inr (\<lparr>tr_access_token = ev_sign env
                  \<lparr>si_userId = cl_clientId client, si_clientId = cl_clientId client,
                   si_scopes = machine_scopes client inp, si_resource = audienceFor env AGENT_CATALOG_RESOURCE_PATH,
                   si_machine = True, si_ttlSec = MACHINE_TOKEN_TTL_SEC\<rparr> now,
                tr_expires_in = MACHINE_TOKEN_TTL_SEC, tr_refresh_token = None,
                tr_scope = join_with '' '' (machine_scopes client inp)\<rparr>, cl_name client),
          db1\<lparr>od_clients := rows_update (\<lambda>c. cl_id c = cl_id client)
                (\<lambda>c. c\<lparr>cl_lastUsedAt := Some now\<rparr>) (od_clients db1)\<rparr>))"
proof -
  have "\<not> cl_type client \<noteq> Machine_client" using assms(2) by simp
  then show ?thesis
    unfolding clientCredentials_def assms(1) option.case Let_def machine_allowed_def machine_scopes_def
    by (rule if_not_P)
qed

lemma credentials_step:
  assumes ok: "oauth_ok env db"
  shows "oauth_evolves db (snd (clientCredentials env db inp now)) \<and> oauth_ok env (snd (clientCredentials env db inp now))"
proof (cases "\<exists>client. getEnabledClient db (or_empty (cc_clientId inp)) = Some client \<and> cl_type client = Machine_client")
  case False
  then have "snd (clientCredentials env db inp now) = db"
    by (auto simp: clientCredentials_def split: option.split)
  then show ?thesis using ok by (simp add: evolves_same)
next
  case True
  then obtain client where c: "getEnabledClient db (or_empty (cc_clientId inp)) = Some client" "cl_type client = Machine_client"
    by blast
  obtain x db1 where k: "credentials_checks env db client inp (machine_allowed client) (machine_scopes client inp) now = (x, db1)"
    by (metis prod.exhaust)
  have tabs: "od_clients db1 = od_clients db" "od_codes db1 = od_codes db" "od_refresh db1 = od_refresh db"
    using credentials_checks_tables [of env db client inp "machine_allowed client" "machine_scopes client inp" now]
    by (simp_all only: k snd_conv)
  show ?thesis unfolding clientCredentials_machine [OF c] k
    using ok tabs by (cases x) (simp_all add: oauth_ok_def oauth_evolves_def evolves_refl clients_ok_touch)
qed

lemma token_endpoint_step:
  assumes ok: "oauth_ok env db"
  shows "oauth_evolves db (snd (snd (token_endpoint env db rq fr now))) \<and>
    oauth_ok env (snd (snd (token_endpoint env db rq fr now)))"
proof -
  have e: "snd (snd (token_endpoint env db rq fr now)) = snd (token_body env db rq fr now)"
    by (simp add: token_endpoint_def split: prod.split sum.split)
  have ex: "oauth_evolves db (snd (exchangeAuthCode env db inp fr now)) \<and> oauth_ok env (snd (exchangeAuthCode env db inp fr now))" for inp
    by (rule exchange_step [OF ok prod.collapse [symmetric]])
  have rf: "oauth_evolves db (snd (refreshTokens env db inp fr now)) \<and> oauth_ok env (snd (refreshTokens env db inp fr now))" for inp
  proof -
    have "refresh_ok (od_refresh db)" using ok by (simp add: oauth_ok_def)
    from refreshTokens_step [OF this prod.collapse [symmetric]] show ?thesis by (intro oauth_ok_same [OF ok]) blast+
  qed
  show ?thesis unfolding e token_body_def
    using ex rf credentials_step [OF ok] ok by (simp add: evolves_same)
qed

lemma revoke_step:
  assumes ok: "oauth_ok env db"
  shows "oauth_evolves db (snd (revoke_endpoint env db inp now)) \<and> oauth_ok env (snd (revoke_endpoint env db inp now))"
proof (rule oauth_ok_same [OF ok])
  have e: "snd (revoke_endpoint env db inp now) = snd (revokeToken env db inp now)"
    by (simp add: revoke_endpoint_def split: prod.split sum.split)
  show "od_clients (snd (revoke_endpoint env db inp now)) = od_clients db"
    "od_codes (snd (revoke_endpoint env db inp now)) = od_codes db"
    "refresh_step (od_refresh db) (od_refresh (snd (revoke_endpoint env db inp now)))"
    unfolding e by (simp_all add: revokeToken_def revoke_row_def split: option.split sum.split)
qed

lemma registry_step:
  assumes ok: "oauth_ok env db" and "clients_ok env (od_clients db')"
    and "od_codes db' = od_codes db" and "od_refresh db' = od_refresh db"
  shows "oauth_evolves db db' \<and> oauth_ok env db'"
  using assms by (simp add: oauth_ok_def evolves_same)

lemma registry_tables:
  "od_codes (snd (client_create env db inp fr now)) = od_codes db"
  "od_refresh (snd (client_create env db inp fr now)) = od_refresh db"
  "od_codes (snd (client_update env db i patch)) = od_codes db"
  "od_refresh (snd (client_update env db i patch)) = od_refresh db"
  "od_codes (snd (rotateSecret env db i rnd now)) = od_codes db"
  "od_refresh (snd (rotateSecret env db i rnd now)) = od_refresh db"
  "od_codes (snd (client_remove db i)) = od_codes db"
  "od_refresh (snd (client_remove db i)) = od_refresh db"
  by (simp_all add: client_create_def client_update_def rotateSecret_def client_remove_def write_client_def Let_def
      split: sum.split)

lemma oauth_step_ok:
  assumes ok: "oauth_ok env db"
  shows "oauth_evolves db (oauth_step env db e) \<and> oauth_ok env (oauth_step env db e)"
proof (cases e)
  case (Oe_revoke_grant u c now)
  have "refresh_step (od_refresh db) (od_refresh (revokeUserGrant db u c now))" by (simp add: revokeUserGrant_def)
  then show ?thesis unfolding Oe_revoke_grant oauth_step.simps by (intro oauth_ok_same [OF ok]) simp_all
next
  case (Oe_client_create inp fr now)
  show ?thesis unfolding Oe_client_create oauth_step.simps
    by (rule registry_step [OF ok]) (use ok in \<open>simp_all add: registry_tables create_keeps_clients_ok oauth_ok_def\<close>)
next
  case (Oe_client_update i patch)
  show ?thesis unfolding Oe_client_update oauth_step.simps
    by (rule registry_step [OF ok]) (use ok in \<open>simp_all add: registry_tables update_keeps_clients_ok oauth_ok_def\<close>)
next
  case (Oe_client_rotate i rnd now)
  show ?thesis unfolding Oe_client_rotate oauth_step.simps
    by (rule registry_step [OF ok]) (use ok in \<open>simp_all add: registry_tables rotate_keeps_clients_ok oauth_ok_def\<close>)
next
  case (Oe_client_remove i)
  show ?thesis unfolding Oe_client_remove oauth_step.simps
    by (rule registry_step [OF ok]) (use ok in \<open>simp_all add: registry_tables remove_keeps_clients_ok oauth_ok_def\<close>)
qed (simp_all add: authorize_step [OF ok] decide_step [OF ok] token_endpoint_step [OF ok] revoke_step [OF ok])

interpretation oauth: event_machine "oauth_step env" "oauth_ok env" for env
  by unfold_locales (rule conjunct2 [OF oauth_step_ok])

lemma init_ok: "oauth_ok env (init_db [])"
  by (simp add: oauth_ok_def init_db_def clients_ok_def codes_ok_def refresh_ok_def)

text \<open>What holds of one code or refresh token hash, once true, stays true.\<close>

definition code_consumed :: "string \<Rightarrow> oauth_db \<Rightarrow> bool" where
  "code_consumed h db \<longleftrightarrow> (\<exists>c \<in> set (od_codes db). co_codeHash c = h \<and> co_consumedAt c \<noteq> None)"

definition refresh_revoked :: "string \<Rightarrow> oauth_db \<Rightarrow> bool" where
  "refresh_revoked h db \<longleftrightarrow> (\<exists>r \<in> set (od_refresh db). rt_tokenHash r = h \<and> rt_revokedAt r \<noteq> None)"

lemma code_consumed_step: "oauth_ok env db \<Longrightarrow> code_consumed h db \<Longrightarrow> code_consumed h (oauth_step env db e)"
  unfolding code_consumed_def
proof (elim bexE conjE)
  fix c assume ok: "oauth_ok env db" and c: "c \<in> set (od_codes db)" "co_codeHash c = h" "co_consumedAt c \<noteq> None"
  obtain d where d: "d \<in> set (od_codes (oauth_step env db e))" "keeps_code c d"
    using evolves_row [OF _ c(1)] oauth_step_ok [OF ok] unfolding oauth_evolves_def by blast
  then show "\<exists>c \<in> set (od_codes (oauth_step env db e)). co_codeHash c = h \<and> co_consumedAt c \<noteq> None"
    using c(2,3) keeps_code_fields [OF d(2)] by (intro bexI [OF _ d(1)]) (auto simp: keeps_code_def)
qed

lemma refresh_revoked_step: "oauth_ok env db \<Longrightarrow> refresh_revoked h db \<Longrightarrow> refresh_revoked h (oauth_step env db e)"
  unfolding refresh_revoked_def
proof (elim bexE conjE)
  fix r assume ok: "oauth_ok env db" and r: "r \<in> set (od_refresh db)" "rt_tokenHash r = h" "rt_revokedAt r \<noteq> None"
  obtain s where s: "s \<in> set (od_refresh (oauth_step env db e))" "keeps_refresh r s"
    using evolves_row [OF _ r(1)] oauth_step_ok [OF ok] unfolding oauth_evolves_def by blast
  then show "\<exists>r \<in> set (od_refresh (oauth_step env db e)). rt_tokenHash r = h \<and> rt_revokedAt r \<noteq> None"
    using r(2,3) by (intro bexI [OF _ s(1)]) (auto simp: keeps_refresh_def)
qed

lemma consumed_code_refused:
  assumes "oauth_ok env db" and "code_consumed (ev_sha256 env (or_empty (ex_code inp))) db"
  shows "exchange_check env db inp now \<noteq> Inr x"
proof
  assume e: "exchange_check env db inp now = Inr x"
  obtain client row where x: "x = (client, row)" by (cases x)
  note row = exchange_check_ok(1,2,4) [OF e [unfolded x]]
  show False using assms row by (auto simp: code_consumed_def oauth_ok_def codes_ok_def distinct_map inj_on_def)
qed

lemma revoked_token_refused:
  assumes "oauth_ok env db" and "refresh_revoked (ev_sha256 env (or_empty (rf_refreshToken inp))) db"
  shows "fst (refreshTokens env db inp fr now) \<noteq> Inr x"
proof
  assume e: "fst (refreshTokens env db inp fr now) = Inr x"
  obtain y db1 where read: "refresh_read env db inp now = (y, db1)" by (metis prod.exhaust)
  show False
  proof (cases y)
    case (Inl err)
    then show ?thesis using e read by (simp add: refreshTokens_def)
  next
    case (Inr z)
    obtain client row where z: "z = (client, row)" by (cases z)
    note row = refresh_read_ok(2,3,5) [OF read [unfolded Inr z]]
    show ?thesis using assms row by (auto simp: refresh_revoked_def oauth_ok_def refresh_ok_def distinct_map inj_on_def)
  qed
qed

section \<open>Properties of request sequences\<close>

lemma refreshTokens_won:
  assumes "refreshTokens env db inp fr now = (Inr tok, db')"
  shows "\<exists>client row db2 db3. refresh_read env db inp now = (Inr (client, row), db) \<and>
    db2 = snd (refresh_claim db (rt_id row) now) \<and>
    issueTokens env db2 (rt_userId row) (cl_clientId client) (rt_scopes row) (rt_resource row) fr now = (Inr tok, db3) \<and>
    db' = refresh_link env db3 (rt_id row) (or_empty (tr_refresh_token tok))"
proof -
  obtain x db1 where read: "refresh_read env db inp now = (x, db1)" by (metis prod.exhaust)
  obtain client row where x: "x = Inr (client, row)"
    using assms read by (cases x) (auto simp: refreshTokens_def)
  have db1: "db1 = db" using refresh_read_ok(1) [OF read [unfolded x]] .
  obtain n db2 where claim: "refresh_claim db (rt_id row) now = (n, db2)" by (metis prod.exhaust)
  have n: "n \<noteq> 0" using assms unfolding refreshTokens_def read x db1 by (simp add: claim split: if_splits)
  obtain z db3 where issue: "issueTokens env db2 (rt_userId row) (cl_clientId client) (rt_scopes row)
      (rt_resource row) fr now = (z, db3)" by (metis prod.exhaust)
  have r: "(case (z, db3) of (Inl e, db3) \<Rightarrow> (Inl e, db3)
        | (Inr issued, db3) \<Rightarrow> (Inr issued, refresh_link env db3 (rt_id row) (or_empty (tr_refresh_token issued)))) = (Inr tok, db')"
    using assms unfolding refreshTokens_def read x db1 prod.case sum.case claim issue if_not_P [OF n] .
  then have z: "z = Inr tok" by (cases z) simp_all
  with r have "db' = refresh_link env db3 (rt_id row) (or_empty (tr_refresh_token tok))" by simp
  moreover have "db2 = snd (refresh_claim db (rt_id row) now)" by (simp add: claim)
  ultimately show ?thesis using read [unfolded x db1] issue z by blast
qed

text \<open>
  C3: An authorization code is exchanged at most once: after a successful exchange no request with
  that code succeeds, whatever requests came in between (each handled to its end before the next).
\<close>

theorem code_single_use:
  assumes "oauth_ok env db" and "exchangeAuthCode env db inp fr now = (Inr tok, db')"
    and "or_empty (ex_code inp2) = or_empty (ex_code inp)"
  shows "fst (exchangeAuthCode env (foldl (oauth_step env) db' es) inp2 fr2 now2) \<noteq> Inr tok2"
proof -
  let ?fin = "foldl (oauth_step env) db' es"
  have ok': "oauth_ok env db'" using exchange_step [OF assms(1,2)] by blast
  obtain client row where chk: "exchange_check env db inp now = Inr (client, row)"
    using assms(2) by (auto simp: exchangeAuthCode_def split: sum.splits)
  have iss: "issueTokens env (consume_code db (co_id row) now) (co_userId row) (cl_clientId client) (co_scopes row) (co_resource row) fr now = (Inr tok, db')"
    using assms(2) unfolding exchangeAuthCode_def chk by simp
  have "row\<lparr>co_consumedAt := Some now\<rparr> \<in> set (od_codes (consume_code db (co_id row) now))"
    using exchange_check_ok(1) [OF chk] unfolding consume_code_def by (simp add: in_rows_update bexI [of _ row])
  then have "code_consumed (ev_sha256 env (or_empty (ex_code inp2))) db'"
    using exchange_check_ok(2) [OF chk] assms(3) issueTokens_step(2) [OF iss]
    unfolding code_consumed_def by (intro bexI [of _ "row\<lparr>co_consumedAt := Some now\<rparr>"]) simp_all
  then have "code_consumed (ev_sha256 env (or_empty (ex_code inp2))) ?fin"
    by (rule oauth.run_keeps [OF ok']) (rule code_consumed_step)
  from consumed_code_refused [OF oauth.inv_run [OF ok'] this]
  show ?thesis by (cases "exchange_check env ?fin inp2 now2") (auto simp: exchangeAuthCode_def)
qed

text \<open>
  C2: A refresh token is used at most once: after a successful refresh no request presenting that
  token succeeds, whatever requests came in between.
\<close>

theorem refresh_single_use:
  assumes "oauth_ok env db" and "refreshTokens env db inp fr now = (Inr tok, db')"
    and "or_empty (rf_refreshToken inp2) = or_empty (rf_refreshToken inp)"
  shows "fst (refreshTokens env (foldl (oauth_step env) db' es) inp2 fr2 now2) \<noteq> Inr tok2"
proof -
  let ?fin = "foldl (oauth_step env) db' es"
  have rok: "refresh_ok (od_refresh db)" using assms(1) by (simp add: oauth_ok_def)
  have step: "od_clients db' = od_clients db \<and> od_codes db' = od_codes db \<and> refresh_step (od_refresh db) (od_refresh db')"
    by (rule refreshTokens_step [OF rok assms(2)])
  have ok': "oauth_ok env db'" using oauth_ok_same [OF assms(1)] step by blast
  obtain client row db2 db3 where w: "refresh_read env db inp now = (Inr (client, row), db)"
      "db2 = snd (refresh_claim db (rt_id row) now)"
      "issueTokens env db2 (rt_userId row) (cl_clientId client) (rt_scopes row) (rt_resource row) fr now = (Inr tok, db3)"
      "db' = refresh_link env db3 (rt_id row) (or_empty (tr_refresh_token tok))"
    using refreshTokens_won [OF assms(2)] by blast
  note row = refresh_read_ok(2,3,5) [OF w(1)]
  have "revoke_at now row \<in> set (od_refresh db2)"
    using row(1,3) unfolding w(2) refresh_claim_def Let_def snd_conv
    by (simp add: in_rows_update) (intro bexI [of _ row], simp_all)
  note r2 = this
  have r3: "revoke_at now row \<in> set (od_refresh db3)"
    using w(3)
  proof (cases rule: issueTokens_cases)
    case (issued q)
    then show ?thesis using r2 by simp
  qed simp
  let ?f = "\<lambda>r. r\<lparr>rt_rotatedTo := map_option rt_id (List.find (\<lambda>r. rt_tokenHash r = ev_sha256 env (or_empty (tr_refresh_token tok))) (od_refresh db3))\<rparr>"
  have "?f (revoke_at now row) \<in> set (od_refresh db')"
    unfolding w(4) refresh_link_def Let_def using r3
    by (simp add: in_rows_update) (intro bexI [of _ "revoke_at now row"], simp_all)
  then have "refresh_revoked (ev_sha256 env (or_empty (rf_refreshToken inp2))) db'"
    using row(2) assms(3) unfolding refresh_revoked_def by (intro bexI [of _ "?f (revoke_at now row)"]) simp_all
  then have "refresh_revoked (ev_sha256 env (or_empty (rf_refreshToken inp2))) ?fin"
    by (rule oauth.run_keeps [OF ok']) (rule refresh_revoked_step)
  then show ?thesis by (intro revoked_token_refused oauth.inv_run [OF ok'])
qed

text \<open>
  C1: Presenting a refresh token that was rotated away is refused and kills its family: every
  token the chain of rotations leads to from its successor is revoked afterwards, and stays
  refused for good.
\<close>

theorem replay_kills_family:
  assumes "oauth_ok env db"
    and "List.find (\<lambda>r. rt_tokenHash r = ev_sha256 env (or_empty (rf_refreshToken inp))) (od_refresh db) = Some row"
    and "rt_rotatedTo row = Some next" and "next \<noteq> []"
    and "getEnabledClient db (or_empty (rf_clientId inp)) = Some client" and "rt_clientId row = cl_clientId client"
    and "cl_type client \<noteq> Machine_client" and "authenticateClient env client (rf_clientSecret inp) = Inr ()"
    and "or_empty (rf_refreshToken inp) \<noteq> []"
    and "refreshTokens env db inp fr now = (r, db')"
    and "d \<in> set (od_refresh db)" and "descends (od_refresh db) next (rt_id d)"
    and "rt_tokenHash d = ev_sha256 env (or_empty (rf_refreshToken inp2))"
  shows "r = Inl (flow_error ''invalid_grant'' ''Refresh token revoked.'') \<and>
    fst (refreshTokens env (foldl (oauth_step env) db' es) inp2 fr2 now2) \<noteq> Inr tok2"
proof -
  have rok: "refresh_ok (od_refresh db)" using assms(1) by (simp add: oauth_ok_def)
  have revoked: "rt_revokedAt row \<noteq> None"
    using rok find_SomeD [OF assms(2)] assms(3) by (auto simp: refresh_ok_def)
  have ids: "distinct (map rt_id (od_refresh db))" using rok by (simp add: refresh_ok_def)
  have out: "r = Inl (flow_error ''invalid_grant'' ''Refresh token revoked.'') \<and> db' = revokeRefreshChain db next now"
    using assms(10) revoked assms(2-9)
    by (simp add: refreshTokens_def refresh_read_def revoke_successors_def)
  let ?f = "\<lambda>r. if descends (od_refresh db) next (rt_id r) \<and> rt_revokedAt r = None then revoke_at now r else r"
  have tbl: "od_refresh db' = map ?f (od_refresh db)"
    using out chain_exact [OF ids] by (simp add: revokeRefreshChain_def)
  have "?f d \<in> set (od_refresh db')" unfolding tbl using assms(11) by simp
  moreover have "rt_tokenHash (?f d) = rt_tokenHash d" "rt_revokedAt (?f d) \<noteq> None" using assms(12) by auto
  ultimately have "refresh_revoked (rt_tokenHash d) db'" unfolding refresh_revoked_def by blast
  moreover have ok': "oauth_ok env db'"
    using oauth_ok_same [OF assms(1)] refreshTokens_step [OF rok assms(10)] by blast
  ultimately have "refresh_revoked (rt_tokenHash d) (foldl (oauth_step env) db' es)"
    using oauth.run_keeps [OF ok', of "refresh_revoked (rt_tokenHash d)"] refresh_revoked_step by blast
  then show ?thesis using out assms(13)
    by (intro conjI) (simp, intro revoked_token_refused oauth.inv_run [OF ok'], simp)
qed


section \<open>A run of the server\<close>

definition demo_grantee :: session_user where
  "demo_grantee = \<lparr>su_id = ''u1'', su_email = ''a@x'', su_displayName = ''A'', su_roleSlug = ''viewer'',
     su_roleName = ''Viewer'', su_permissions = map perm_str (br_permissions role_viewer),
     su_authProvider = Local_provider\<rparr>"

definition demo_query :: authorize_query where
  "demo_query = \<lparr>q_client_id = Some ''oc_1'', q_redirect_uri = Some ''https://app'', q_response_type = Some ''code'',
     q_scope = Some ''logs:read secrets:read'', q_code_challenge = Some ''bv'', q_code_challenge_method = Some ''S256'',
     q_resource = None\<rparr>"

definition demo_exchange :: exchange_input where
  "demo_exchange = \<lparr>ex_clientId = Some ''oc_1'', ex_clientSecret = None, ex_code = Some ''oca_1'',
     ex_redirectUri = Some ''https://app'', ex_codeVerifier = Some ''v''\<rparr>"

definition demo_refresh_req :: "string \<Rightarrow> refresh_input" where
  "demo_refresh_req t = \<lparr>rf_clientId = Some ''oc_1'', rf_clientSecret = None, rf_refreshToken = Some t\<rparr>"

definition demo_coded :: oauth_db where
  "demo_coded = foldl (oauth_step demo_env) (init_db [])
     [Oe_client_create \<lparr>nc_name = Some ''app'', nc_redirectUris = Some [''https://app''], nc_type = None,
        nc_allowedScopes = None, nc_ipAllowlist = None\<rparr> \<lparr>cf_id = ''r1'', cf_clientId = ''1'', cf_secret = []\<rparr> 0,
      Oe_decide demo_query None True demo_grantee ''g1'' \<lparr>fr_id = ''k1'', fr_random = ''1''\<rparr> 10]"

lemma demo_coded_ok: "oauth_ok demo_env demo_coded"
  unfolding demo_coded_def by (rule oauth.inv_run [OF init_ok])

definition demo_issued :: oauth_db where
  "demo_issued = snd (exchangeAuthCode demo_env demo_coded demo_exchange \<lparr>fr_id = ''t1'', fr_random = ''11''\<rparr> 20)"

definition demo_rotated :: oauth_db where
  "demo_rotated = snd (refreshTokens demo_env demo_issued (demo_refresh_req ''ocr_11'') \<lparr>fr_id = ''t2'', fr_random = ''22''\<rparr> 30)"

lemma demo_issued_ok: "oauth_ok demo_env demo_issued"
  unfolding demo_issued_def using exchange_step [OF demo_coded_ok prod.collapse [symmetric]] by blast

lemma demo_rotated_ok: "oauth_ok demo_env demo_rotated"
proof -
  have "refresh_ok (od_refresh demo_issued)" using demo_issued_ok by (simp add: oauth_ok_def)
  from refreshTokens_step [OF this prod.collapse [symmetric]] show ?thesis
    unfolding demo_rotated_def using oauth_ok_same [OF demo_issued_ok] by blast
qed

lemma demo_exchange_ok:
  "\<exists>tok. exchangeAuthCode demo_env demo_coded demo_exchange \<lparr>fr_id = ''t1'', fr_random = ''11''\<rparr> 20 = (Inr tok, demo_issued)"
proof -
  have "case fst (exchangeAuthCode demo_env demo_coded demo_exchange \<lparr>fr_id = ''t1'', fr_random = ''11''\<rparr> 20) of
      Inl _ \<Rightarrow> False | Inr _ \<Rightarrow> True" by code_simp
  then show ?thesis unfolding demo_issued_def
    by (cases "exchangeAuthCode demo_env demo_coded demo_exchange \<lparr>fr_id = ''t1'', fr_random = ''11''\<rparr> 20")
      (auto split: sum.splits)
qed

lemma demo_refresh_ok:
  "\<exists>tok. refreshTokens demo_env demo_issued (demo_refresh_req ''ocr_11'') \<lparr>fr_id = ''t2'', fr_random = ''22''\<rparr> 30 = (Inr tok, demo_rotated)"
proof -
  have "case fst (refreshTokens demo_env demo_issued (demo_refresh_req ''ocr_11'') \<lparr>fr_id = ''t2'', fr_random = ''22''\<rparr> 30) of
      Inl _ \<Rightarrow> False | Inr _ \<Rightarrow> True" by code_simp
  then show ?thesis unfolding demo_rotated_def
    by (cases "refreshTokens demo_env demo_issued (demo_refresh_req ''ocr_11'') \<lparr>fr_id = ''t2'', fr_random = ''22''\<rparr> 30")
      (auto split: sum.splits)
qed

theorem code_single_use_witness:
  "fst (exchangeAuthCode demo_env (foldl (oauth_step demo_env) demo_issued [Oe_revoke_grant ''u9'' ''oc_1'' 25]) demo_exchange
     \<lparr>fr_id = ''t9'', fr_random = ''99''\<rparr> 26) \<notin> range Inr"
proof -
  obtain tok where "exchangeAuthCode demo_env demo_coded demo_exchange \<lparr>fr_id = ''t1'', fr_random = ''11''\<rparr> 20 = (Inr tok, demo_issued)"
    using demo_exchange_ok by blast
  from code_single_use [OF demo_coded_ok this refl] show ?thesis by blast
qed

theorem refresh_single_use_witness:
  "fst (refreshTokens demo_env (foldl (oauth_step demo_env) demo_rotated [Oe_revoke_grant ''u9'' ''oc_1'' 35]) (demo_refresh_req ''ocr_11'')
     \<lparr>fr_id = ''t9'', fr_random = ''99''\<rparr> 36) \<notin> range Inr"
proof -
  obtain tok where "refreshTokens demo_env demo_issued (demo_refresh_req ''ocr_11'') \<lparr>fr_id = ''t2'', fr_random = ''22''\<rparr> 30 = (Inr tok, demo_rotated)"
    using demo_refresh_ok by blast
  from refresh_single_use [OF demo_issued_ok this refl] show ?thesis by blast
qed


theorem replay_kills_family_witness:
  "fst (refreshTokens demo_env (foldl (oauth_step demo_env)
        (snd (refreshTokens demo_env demo_rotated (demo_refresh_req ''ocr_11'') \<lparr>fr_id = ''t3'', fr_random = ''33''\<rparr> 40)) [])
     (demo_refresh_req ''ocr_22'') \<lparr>fr_id = ''t4'', fr_random = ''44''\<rparr> 41) \<notin> range Inr"
proof -
  let ?h = "\<lambda>s. ev_sha256 demo_env s"
  have "case List.find (\<lambda>r. rt_tokenHash r = ?h ''ocr_11'') (od_refresh demo_rotated) of None \<Rightarrow> False
      | Some row \<Rightarrow> rt_rotatedTo row = Some ''t2'' \<and> rt_clientId row = ''oc_1''" by code_simp
  then obtain row where row: "List.find (\<lambda>r. rt_tokenHash r = ?h (or_empty (rf_refreshToken (demo_refresh_req ''ocr_11'')))) (od_refresh demo_rotated) = Some row"
      "rt_rotatedTo row = Some ''t2''" "rt_clientId row = ''oc_1''"
    by (auto simp: demo_refresh_req_def or_empty_def split: option.splits)
  have "case getEnabledClient demo_rotated ''oc_1'' of None \<Rightarrow> False
      | Some c \<Rightarrow> cl_clientId c = ''oc_1'' \<and> cl_type c = Public_client" by code_simp
  then obtain c where c: "getEnabledClient demo_rotated (or_empty (rf_clientId (demo_refresh_req ''ocr_11''))) = Some c"
      "cl_clientId c = ''oc_1''" "cl_type c = Public_client"
    by (auto simp: demo_refresh_req_def or_empty_def split: option.splits)
  have "\<exists>d \<in> set (od_refresh demo_rotated). rt_id d = ''t2'' \<and> rt_tokenHash d = ?h ''ocr_22''" by code_simp
  then obtain d where d: "d \<in> set (od_refresh demo_rotated)" "rt_id d = ''t2''" "rt_tokenHash d = ?h ''ocr_22''" by blast
  have desc: "descends (od_refresh demo_rotated) ''t2'' (rt_id d)" unfolding d(2) by (rule descends.here)
  have auth: "authenticateClient demo_env c x = Inr ()" for x using c(3) by (simp add: authenticateClient_def)
  note r = replay_kills_family [OF demo_rotated_ok row(1,2) _ c(1) _ _ auth _ prod.collapse [symmetric] d(1) desc,
      where ?inp2.0 = "demo_refresh_req ''ocr_22''" and es = "[]" and ?fr2.0 = "\<lparr>fr_id = ''t4'', fr_random = ''44''\<rparr>" and ?now2.0 = 41
        and fr = "\<lparr>fr_id = ''t3'', fr_random = ''33''\<rparr>" and now = 40]
  show ?thesis
    using r row(3) c(2,3) d(3) by (auto simp: demo_refresh_req_def or_empty_def)
qed

text \<open>
  From the empty server, after any sequence of requests, every authorization code and refresh
  token carries only grantable scopes, every refresh token rotated away is revoked, and every
  client is well formed: a secret exactly when it is not public, machine scopes only from the
  machine catalogue, redirect URIs only https or loopback.
\<close>

theorem reachable_server_ok: "oauth_ok env (foldl (oauth_step env) (init_db []) es)"
  by (rule oauth.inv_run [OF init_ok])

section \<open>Exchange, consent and machine clients\<close>

text \<open>
  A code is exchanged only for an enabled client that authenticates and that the code was
  issued to, before it expires, unused, with the redirect URI of the authorization and a PKCE
  verifier whose S256 digest is the challenge; the tokens issued are for the user and the scopes
  of the code, the refresh token lives 30 days and the access token an hour.
\<close>

theorem exchange_success:
  assumes "exchangeAuthCode env db inp fr now = (Inr tok, db')"
  shows "\<exists>client row new. getEnabledClient db (or_empty (ex_clientId inp)) = Some client \<and>
    authenticateClient env client (ex_clientSecret inp) = Inr () \<and>
    row \<in> set (od_codes db) \<and> co_codeHash row = ev_sha256 env (or_empty (ex_code inp)) \<and>
    co_clientId row = cl_clientId client \<and> co_consumedAt row = None \<and> now < co_expiresAt row \<and>
    co_redirectUri row = or_empty (ex_redirectUri inp) \<and>
    ev_base64urlSha256 env (or_empty (ex_codeVerifier inp)) = co_codeChallenge row \<and>
    od_refresh db' = od_refresh db @ [new] \<and> rt_userId new = co_userId row \<and> rt_scopes new = co_scopes row \<and>
    rt_clientId new = co_clientId row \<and> rt_expiresAt new = now + 30 * 24 * 3600 * 1000 \<and> rt_revokedAt new = None \<and>
    tr_expires_in tok = 3600 \<and> tr_scope tok = join_with '' '' (co_scopes row)"
proof -
  obtain client row where chk: "exchange_check env db inp now = Inr (client, row)"
    using assms by (auto simp: exchangeAuthCode_def split: sum.splits)
  note c = exchange_check_ok [OF chk]
  have iss: "issueTokens env (consume_code db (co_id row) now) (co_userId row) (cl_clientId client) (co_scopes row) (co_resource row) fr now = (Inr tok, db')"
    using assms unfolding exchangeAuthCode_def chk by simp
  then obtain new where "od_refresh db' = od_refresh db @ [new]" "rt_userId new = co_userId row" "rt_scopes new = co_scopes row"
    "rt_clientId new = cl_clientId client" "rt_expiresAt new = now + REFRESH_TTL_MS" "rt_revokedAt new = None"
    "tr_expires_in tok = ACCESS_TOKEN_TTL_SEC" "tr_scope tok = join_with '' '' (co_scopes row)"
  proof (cases rule: issueTokens_cases)
    case (issued new)
    then show thesis by (intro that [of new]) simp_all
  qed simp
  then show ?thesis using c by (intro exI [of _ client] exI [of _ row] exI [of _ new]) (simp add: REFRESH_TTL_MS_def ACCESS_TOKEN_TTL_SEC_def)
qed

theorem exchange_success_witness:
  "\<exists>new. od_refresh demo_issued = od_refresh demo_coded @ [new] \<and> rt_expiresAt new = 20 + 30 * 24 * 3600 * 1000"
proof -
  obtain tok where "exchangeAuthCode demo_env demo_coded demo_exchange \<lparr>fr_id = ''t1'', fr_random = ''11''\<rparr> 20 = (Inr tok, demo_issued)"
    using demo_exchange_ok by blast
  from exchange_success [OF this] show ?thesis by blast
qed

lemma find_grant_update:
  "find_grant (db\<lparr>od_grants := rows_update (\<lambda>g. gr_userId g = u \<and> gr_clientId g = c) f (od_grants db)\<rparr>) u c =
     map_option f (find_grant db u c)" if "\<And>g. gr_userId (f g) = gr_userId g \<and> gr_clientId (f g) = gr_clientId g"
proof -
  have "List.find (\<lambda>g. gr_userId g = u \<and> gr_clientId g = c)
      (rows_update (\<lambda>g. gr_userId g = u \<and> gr_clientId g = c) f (od_grants db)) =
    map_option (\<lambda>g. if gr_userId g = u \<and> gr_clientId g = c then f g else g) (find_grant db u c)"
    unfolding find_grant_def by (rule find_rows_update) (simp add: that)
  also have "\<dots> = map_option f (find_grant db u c)"
    by (cases "find_grant db u c") (auto simp: find_grant_def dest: find_SomeD)
  finally show ?thesis by (simp add: find_grant_def)
qed

lemma find_grant_append:
  "find_grant db u c = None \<Longrightarrow> gr_userId g = u \<Longrightarrow> gr_clientId g = c \<Longrightarrow>
    find_grant (db\<lparr>od_grants := od_grants db @ [g]\<rparr>) u c = Some g"
  by (auto simp: find_grant_def find_None_iff intro!: find_append_new)

lemma remember_live:
  "\<exists>g. find_grant (rememberGrant db u c scopes i now) u c = Some g \<and> gr_revokedAt g = None \<and>
     set (gr_scopes g) = (case find_grant db u c of Some g0 \<Rightarrow> if gr_revokedAt g0 = None then set (gr_scopes g0) else {} | None \<Rightarrow> {})
       \<union> set scopes"
proof (cases "find_grant db u c")
  case None
  then show ?thesis by (simp add: rememberGrant_def find_grant_append)
next
  case (Some g0)
  then show ?thesis
    by (cases "gr_revokedAt g0 = None") (auto simp: rememberGrant_def Let_def find_grant_update)
qed

text \<open>
  Remembered consent: after \<open>rememberGrant\<close> a scope set needs no new consent exactly when it
  is covered by the scopes just approved together with those already remembered and not revoked.
\<close>

theorem remembered_after_consent:
  "hasRememberedGrant (rememberGrant db u c scopes i now) u c wanted \<longleftrightarrow>
     set wanted \<subseteq> set scopes \<union>
       (case find_grant db u c of Some g \<Rightarrow> if gr_revokedAt g = None then set (gr_scopes g) else {} | None \<Rightarrow> {})"
proof -
  obtain g where g: "find_grant (rememberGrant db u c scopes i now) u c = Some g" "gr_revokedAt g = None"
    "set (gr_scopes g) = (case find_grant db u c of Some g0 \<Rightarrow> if gr_revokedAt g0 = None then set (gr_scopes g0) else {} | None \<Rightarrow> {})
       \<union> set scopes"
    using remember_live by blast
  have "hasRememberedGrant (rememberGrant db u c scopes i now) u c wanted \<longleftrightarrow> set wanted \<subseteq> set (gr_scopes g)"
    using g(1,2) by (auto simp: hasRememberedGrant_def list_all_iff)
  then show ?thesis unfolding g(3) by (simp add: Un_commute)
qed

text \<open>
  Revoking a user's authorization of a client is complete for what is stored: no scope set is
  remembered for the pair any more, no refresh token of the pair is live, and the rows of other
  pairs are untouched.
\<close>

theorem grant_revocation_complete:
  "\<not> hasRememberedGrant (revokeUserGrant db u c now) u c wanted \<and>
   filter (\<lambda>r. rt_userId r = u \<and> rt_clientId r = c \<and> rt_revokedAt r = None) (od_refresh (revokeUserGrant db u c now)) = [] \<and>
   filter (\<lambda>r. \<not> (rt_userId r = u \<and> rt_clientId r = c)) (od_refresh (revokeUserGrant db u c now)) =
     filter (\<lambda>r. \<not> (rt_userId r = u \<and> rt_clientId r = c)) (od_refresh db) \<and>
   od_codes (revokeUserGrant db u c now) = od_codes db"
proof (intro conjI)
  have "find_grant (revokeUserGrant db u c now) u c =
      map_option (\<lambda>g. if gr_userId g = u \<and> gr_clientId g = c \<and> gr_revokedAt g = None then g\<lparr>gr_revokedAt := Some now\<rparr> else g)
        (find_grant db u c)"
    unfolding find_grant_def revokeUserGrant_def by (simp add: find_rows_update)
  then show "\<not> hasRememberedGrant (revokeUserGrant db u c now) u c wanted"
    by (auto simp: hasRememberedGrant_def find_grant_def split: option.splits dest!: find_SomeD)
  show "filter (\<lambda>r. rt_userId r = u \<and> rt_clientId r = c \<and> rt_revokedAt r = None) (od_refresh (revokeUserGrant db u c now)) = []"
    unfolding filter_empty_conv
  proof
    fix r assume "r \<in> set (od_refresh (revokeUserGrant db u c now))"
    then obtain q where "r = (if rt_userId q = u \<and> rt_clientId q = c \<and> rt_revokedAt q = None then revoke_at now q else q)"
      by (auto simp: revokeUserGrant_def in_rows_update)
    then show "\<not> (rt_userId r = u \<and> rt_clientId r = c \<and> rt_revokedAt r = None)" by (auto split: if_splits)
  qed
  show "filter (\<lambda>r. \<not> (rt_userId r = u \<and> rt_clientId r = c)) (od_refresh (revokeUserGrant db u c now)) =
     filter (\<lambda>r. \<not> (rt_userId r = u \<and> rt_clientId r = c)) (od_refresh db)"
  proof -
    have "filter (\<lambda>r. \<not> (rt_userId r = u \<and> rt_clientId r = c)) (rows_update
        (\<lambda>r. rt_userId r = u \<and> rt_clientId r = c \<and> rt_revokedAt r = None) (revoke_at now) rs) =
      filter (\<lambda>r. \<not> (rt_userId r = u \<and> rt_clientId r = c)) rs" for rs
      by (induction rs) auto
    then show ?thesis by (simp add: revokeUserGrant_def)
  qed
qed simp

text \<open>Codes already issued survive the revocation and still mint a live refresh token.\<close>

theorem revoked_grant_code_still_exchanges:
  "case fst (exchangeAuthCode demo_env (revokeUserGrant demo_coded ''u1'' ''oc_1'' 15) demo_exchange
       \<lparr>fr_id = ''t1'', fr_random = ''11''\<rparr> 20) of Inl _ \<Rightarrow> False | Inr tok \<Rightarrow> tr_scope tok = ''logs:read''"
  by code_simp

lemma redirectWithCode_consent:
  "snd (authorize env db q s u fr now) = db \<or>
   (\<exists>user scopes. u = Some user \<and> scopes = effectiveScopes (su_permissions user) (parseScopes (q_scope q)) \<and> scopes \<noteq> [] \<and>
      hasRememberedGrant db (su_id user) (or_empty (q_client_id q)) scopes)"
  unfolding authorize_def Let_def by (simp split: sum.split oauth_error.split prod.split option.split)

text \<open>
  C35: The authorization endpoint issues a code without asking only to a signed-in user who has an
  unrevoked grant for that client covering every scope put into the code; those scopes are
  requested, grantable and held by the user now.
\<close>

theorem no_code_without_consent:
  assumes "od_codes (snd (authorize env db q s u fr now)) \<noteq> od_codes db"
  shows "\<exists>user code g. u = Some user \<and> od_codes (snd (authorize env db q s u fr now)) = od_codes db @ [code] \<and>
    co_userId code = su_id user \<and> co_clientId code = or_empty (q_client_id q) \<and>
    find_grant db (su_id user) (co_clientId code) = Some g \<and> gr_revokedAt g = None \<and>
    set (co_scopes code) \<subseteq> set (gr_scopes g) \<inter> set (parseScopes (q_scope q)) \<inter> set (su_permissions user) \<inter>
      perm_str ` set GRANTABLE_TOKEN_SCOPES"
proof -
  obtain user where u: "u = Some user"
      "hasRememberedGrant db (su_id user) (or_empty (q_client_id q)) (effectiveScopes (su_permissions user) (parseScopes (q_scope q)))"
      "effectiveScopes (su_permissions user) (parseScopes (q_scope q)) \<noteq> []"
    using redirectWithCode_consent [of env db q s u fr now] assms by auto
  obtain client ru where v: "validateAuthorize env db q = Inr (client, ru)"
    using assms by (cases "validateAuthorize env db q") (auto simp: authorize_def split: oauth_error.splits)
  let ?inp = "code_input_of q user (effectiveScopes (su_permissions user) (parseScopes (q_scope q))) ru"
  have e: "snd (authorize env db q s u fr now) = snd (issueCode env db ?inp fr now)"
    using u v by (simp add: authorize_def redirectWithCode_def Let_def split: prod.split sum.split)
  obtain r db' where i: "issueCode env db ?inp fr now = (r, db')" by (metis prod.exhaust)
  from u(2) obtain g where g: "find_grant db (su_id user) (or_empty (q_client_id q)) = Some g" "gr_revokedAt g = None"
      "set (effectiveScopes (su_permissions user) (parseScopes (q_scope q))) \<subseteq> set (gr_scopes g)"
    by (auto simp: hasRememberedGrant_def list_all_iff split: option.splits)
  from i show ?thesis
  proof (cases rule: issueCode_cases)
    case failed
    then show ?thesis using assms e i by simp
  next
    case (issued row)
    then have "od_codes (snd (authorize env db q s u fr now)) = od_codes db @ [row]" by (simp add: e i)
    then show ?thesis using u(1) g issued(3,5,6) effectiveScopes_grantable [of "su_permissions user" "parseScopes (q_scope q)"]
      by (intro exI [of _ user] exI [of _ row] exI [of _ g]) (auto simp: code_input_of_def effectiveScopes_def)
  qed
qed

theorem no_code_without_consent_witness:
  "\<exists>code. od_codes (snd (authorize demo_env demo_coded demo_query None (Some demo_grantee) \<lparr>fr_id = ''k2'', fr_random = ''2''\<rparr> 11)) =
     od_codes demo_coded @ [code] \<and> co_userId code = ''u1''"
proof -
  have "length (od_codes (snd (authorize demo_env demo_coded demo_query None (Some demo_grantee) \<lparr>fr_id = ''k2'', fr_random = ''2''\<rparr> 11))) \<noteq>
      length (od_codes demo_coded)" by code_simp
  then have "od_codes (snd (authorize demo_env demo_coded demo_query None (Some demo_grantee) \<lparr>fr_id = ''k2'', fr_random = ''2''\<rparr> 11)) \<noteq>
      od_codes demo_coded" by metis
  from no_code_without_consent [OF this] show ?thesis by (auto simp: demo_grantee_def)
qed

text \<open>
  A machine client gets a token only when it is enabled, within its rate, authenticated by its
  secret, calling from its allow-list, and asks for scopes that are all both in the machine
  catalogue and allowed to it; the token is for the client itself, lives 15 minutes, and no
  refresh token comes with it.
\<close>

theorem machine_token_conditions:
  assumes "clientCredentials env db inp now = (Inr (tok, name), db')"
  shows "\<exists>client. getEnabledClient db (or_empty (cc_clientId inp)) = Some client \<and> cl_type client = Machine_client \<and>
    cl_name client = name \<and> snd (hit (od_rate db) (cl_clientId client) now) = None \<and>
    authenticateClient env client (cc_clientSecret inp) = Inr () \<and> ipAllowed (cl_ipAllowlist client) (cc_ip inp) = Inr True \<and>
    machine_scopes client inp \<noteq> [] \<and>
    set (machine_scopes client inp) \<subseteq> perm_str ` set MACHINE_CLIENT_SCOPES \<inter> set (cl_allowedScopes client) \<and>
    tr_refresh_token tok = None \<and> tr_expires_in tok = 900 \<and>
    tr_access_token tok = ev_sign env \<lparr>si_userId = cl_clientId client, si_clientId = cl_clientId client,
      si_scopes = machine_scopes client inp, si_resource = audienceFor env ''/api/v1/agents'', si_machine = True, si_ttlSec = 900\<rparr> now"
proof -
  obtain client where c: "getEnabledClient db (or_empty (cc_clientId inp)) = Some client" "cl_type client = Machine_client"
    using assms by (auto simp: clientCredentials_def split: option.splits if_splits)
  obtain x db1 where k: "credentials_checks env db client inp (machine_allowed client) (machine_scopes client inp) now = (x, db1)"
    by (metis prod.exhaust)
  have x: "x = Inr ()" using assms unfolding clientCredentials_machine [OF c] k by (cases x) simp_all
  have "snd (hit (od_rate db) (cl_clientId client) now) = None \<and>
    authenticateClient env client (cc_clientSecret inp) = Inr () \<and> ipAllowed (cl_ipAllowlist client) (cc_ip inp) = Inr True \<and>
    machine_scopes client inp \<noteq> [] \<and> set (machine_scopes client inp) \<subseteq> set (machine_allowed client)"
    using k [unfolded x]
    by (auto simp: credentials_checks_def Let_def list_ex_iff split: prod.splits option.splits sum.splits bool.splits if_splits)
  moreover have "set (machine_allowed client) \<subseteq> perm_str ` set MACHINE_CLIENT_SCOPES \<inter> set (cl_allowedScopes client)"
    by (auto simp: machine_allowed_def)
  moreover have "cl_name client = name \<and> tr_refresh_token tok = None \<and> tr_expires_in tok = MACHINE_TOKEN_TTL_SEC \<and>
      tr_access_token tok = ev_sign env \<lparr>si_userId = cl_clientId client, si_clientId = cl_clientId client,
      si_scopes = machine_scopes client inp, si_resource = audienceFor env AGENT_CATALOG_RESOURCE_PATH, si_machine = True,
      si_ttlSec = MACHINE_TOKEN_TTL_SEC\<rparr> now"
    using assms unfolding clientCredentials_machine [OF c] k x by auto
  ultimately show ?thesis using c
    by (intro exI [of _ client]) (simp add: MACHINE_TOKEN_TTL_SEC_def AGENT_CATALOG_RESOURCE_PATH_def, blast)
qed

theorem machine_token_conditions_witness:
  "\<exists>client. getEnabledClient demo_clients ''oc_aa'' = Some client \<and> ipAllowed (cl_ipAllowlist client) None = Inr True"
proof -
  let ?inp = "\<lparr>cc_clientId = Some ''oc_aa'', cc_clientSecret = Some ''ocs_1'', cc_scope = None, cc_ip = None\<rparr>"
  have "case fst (clientCredentials demo_env demo_clients ?inp 7) of Inl _ \<Rightarrow> False | Inr _ \<Rightarrow> True" by code_simp
  then obtain tok name where "clientCredentials demo_env demo_clients ?inp 7 = (Inr (tok, name), snd (clientCredentials demo_env demo_clients ?inp 7))"
    by (cases "clientCredentials demo_env demo_clients ?inp 7") (auto split: sum.splits)
  from machine_token_conditions [OF this] show ?thesis by (auto simp: or_empty_def)
qed

end
