(* ===== verification/Oauth_Concurrency.thy ===== *)
theory Oauth_Concurrency
  imports Oauth_Server
begin

text \<open>
  Interleavings of the token endpoint. \<^verbatim>\<open>refreshTokens\<close> and \<^verbatim>\<open>exchangeAuthCode\<close> are several
  database calls with other requests in between: a thread is a request at one of those points, and
  a pool of threads steps one call of one thread at a time, or one other request as a whole. The
  steps are the pieces of which \<open>refreshTokens\<close> and \<open>exchangeAuthCode\<close> are composed in
  \<open>Oauth_Flow\<close>. (The walk of a chain revocation, and the look-up and write of a link, are one step
  each.) The conditional write that claims a refresh token makes it single use under every
  interleaving; the check-then-write of an authorization code does not.
\<close>

datatype thread =
    Refresh_start refresh_input fresh
  | Refresh_read oauth_client refresh_token fresh
  | Refresh_claimed oauth_client refresh_token fresh
  | Refresh_lost string
  | Refresh_issued string token_response
  | Refresh_done string token_response
  | Exchange_start exchange_input fresh
  | Exchange_checked oauth_client auth_code fresh
  | Exchange_consumed oauth_client auth_code fresh
  | Exchange_done string token_response
  | Failed oauth_error

primrec thread_step :: "oauth_env \<Rightarrow> time \<Rightarrow> oauth_db \<Rightarrow> thread \<Rightarrow> oauth_db \<times> thread" where
  "thread_step env now db (Refresh_start inp fr) =
     (case refresh_read env db inp now of
        (Inl e, db1) \<Rightarrow> (db1, Failed e)
      | (Inr (client, row), db1) \<Rightarrow> (db1, Refresh_read client row fr))"
| "thread_step env now db (Refresh_read client row fr) =
     (case refresh_claim db (rt_id row) now of
        (n, db1) \<Rightarrow> (db1, if n = 0 then Refresh_lost (rt_id row) else Refresh_claimed client row fr))"
| "thread_step env now db (Refresh_lost i) =
     (refresh_lost db i now, Failed (flow_error ''invalid_grant'' ''Refresh token revoked.''))"
| "thread_step env now db (Refresh_claimed client row fr) =
     (case issueTokens env db (rt_userId row) (cl_clientId client) (rt_scopes row) (rt_resource row) fr now of
        (Inl e, db1) \<Rightarrow> (db1, Failed e)
      | (Inr tok, db1) \<Rightarrow> (db1, Refresh_issued (rt_id row) tok))"
| "thread_step env now db (Refresh_issued i tok) =
     (refresh_link env db i (or_empty (tr_refresh_token tok)), Refresh_done i tok)"
| "thread_step env now db (Exchange_start inp fr) =
     (case exchange_check env db inp now of
        Inl e \<Rightarrow> (db, Failed e)
      | Inr (client, row) \<Rightarrow> (db, Exchange_checked client row fr))"
| "thread_step env now db (Exchange_checked client row fr) =
     (consume_code db (co_id row) now, Exchange_consumed client row fr)"
| "thread_step env now db (Exchange_consumed client row fr) =
     (case issueTokens env db (co_userId row) (cl_clientId client) (co_scopes row) (co_resource row) fr now of
        (Inl e, db1) \<Rightarrow> (db1, Failed e)
      | (Inr tok, db1) \<Rightarrow> (db1, Exchange_done (co_id row) tok))"
| "thread_step env now db (Refresh_done i tok) = (db, Refresh_done i tok)"
| "thread_step env now db (Exchange_done i tok) = (db, Exchange_done i tok)"
| "thread_step env now db (Failed e) = (db, Failed e)"

type_synonym pool = "oauth_db \<times> thread list"

datatype pool_event = Run nat time | Whole oauth_event

primrec pool_step :: "oauth_env \<Rightarrow> pool \<Rightarrow> pool_event \<Rightarrow> pool" where
  "pool_step env p (Run i now) =
     (if i < length (snd p)
      then (case thread_step env now (fst p) (snd p ! i) of (db, t) \<Rightarrow> (db, (snd p)[i := t]))
      else p)"
| "pool_step env p (Whole e) = (oauth_step env (fst p) e, snd p)"

definition starting :: "thread \<Rightarrow> bool" where
  "starting t = (case t of Refresh_start _ _ \<Rightarrow> True | Exchange_start _ _ \<Rightarrow> True | _ \<Rightarrow> False)"

section \<open>Threads run alone\<close>

text \<open>A refresh whose steps nobody interrupts is \<open>refreshTokens\<close>, at one reading of the clock.\<close>

fun run_alone :: "oauth_env \<Rightarrow> time \<Rightarrow> nat \<Rightarrow> oauth_db \<times> thread \<Rightarrow> oauth_db \<times> thread" where
  "run_alone env now 0 s = s"
| "run_alone env now (Suc n) s = run_alone env now n (thread_step env now (fst s) (snd s))"

definition outcome :: "thread \<Rightarrow> (oauth_error + token_response) option" where
  "outcome t = (case t of Refresh_done _ tok \<Rightarrow> Some (Inr tok) | Exchange_done _ tok \<Rightarrow> Some (Inr tok)
     | Failed e \<Rightarrow> Some (Inl e) | _ \<Rightarrow> None)"

lemma run_alone_4: "run_alone env now 4 s = run_alone env now 3 (thread_step env now (fst s) (snd s))"
  "run_alone env now 3 s = run_alone env now 2 (thread_step env now (fst s) (snd s))"
  "run_alone env now 2 s = run_alone env now 1 (thread_step env now (fst s) (snd s))"
  "run_alone env now 1 s = thread_step env now (fst s) (snd s)"
  by (simp_all add: numeral_eq_Suc)

text \<open>
  The threads are the methods: a refresh or an exchange run without interruption has, after at
  most four steps, the outcome and the database of \<open>refreshTokens\<close> and \<open>exchangeAuthCode\<close>.
\<close>

theorem uninterrupted_thread:
  "(case run_alone env now 4 (db, Refresh_start inp fr) of (db', t) \<Rightarrow> (outcome t, db')) =
     apfst Some (refreshTokens env db inp fr now) \<and>
   (case run_alone env now 4 (db, Exchange_start xinp fr) of (db', t) \<Rightarrow> (outcome t, db')) =
     apfst Some (exchangeAuthCode env db xinp fr now)"
proof
  show "(case run_alone env now 4 (db, Refresh_start inp fr) of (db', t) \<Rightarrow> (outcome t, db')) =
     apfst Some (refreshTokens env db inp fr now)"
    by (simp add: run_alone_4 refreshTokens_def outcome_def split: prod.split sum.split)
  show "(case run_alone env now 4 (db, Exchange_start xinp fr) of (db', t) \<Rightarrow> (outcome t, db')) =
     apfst Some (exchangeAuthCode env db xinp fr now)"
    by (simp add: run_alone_4 exchangeAuthCode_def outcome_def split: prod.split sum.split)
qed

section \<open>One winner per refresh token\<close>

text \<open>The row a thread has claimed, from the claim on.\<close>

definition won :: "thread \<Rightarrow> string option" where
  "won t = (case t of Refresh_claimed _ row _ \<Rightarrow> Some (rt_id row) | Refresh_issued i _ \<Rightarrow> Some i
     | Refresh_done i _ \<Rightarrow> Some i | _ \<Rightarrow> None)"

definition thread_scopes :: "thread \<Rightarrow> string set" where
  "thread_scopes t = (case t of Refresh_read _ row _ \<Rightarrow> set (rt_scopes row) | Refresh_claimed _ row _ \<Rightarrow> set (rt_scopes row)
     | Exchange_checked _ row _ \<Rightarrow> set (co_scopes row) | Exchange_consumed _ row _ \<Rightarrow> set (co_scopes row) | _ \<Rightarrow> {})"

text \<open>A claimed id stays that of a row, and the row revoked.\<close>

definition spent :: "oauth_db \<Rightarrow> string \<Rightarrow> bool" where
  "spent db i \<longleftrightarrow> (\<exists>r \<in> set (od_refresh db). rt_id r = i \<and> rt_revokedAt r \<noteq> None)"

lemma spent_evolves: "oauth_evolves db db' \<Longrightarrow> spent db i \<Longrightarrow> spent db' i"
  unfolding spent_def oauth_evolves_def
proof (elim bexE conjE)
  fix r assume "evolves keeps_refresh (od_refresh db) (od_refresh db')" and r: "r \<in> set (od_refresh db)" "rt_id r = i" "rt_revokedAt r \<noteq> None"
  from evolves_row [OF this(1,2)] obtain s where "s \<in> set (od_refresh db')" "keeps_refresh r s" by blast
  then show "\<exists>r \<in> set (od_refresh db'). rt_id r = i \<and> rt_revokedAt r \<noteq> None"
    using r(2,3) by (intro bexI [of _ s]) (auto simp: keeps_refresh_def)
qed

lemma spent_revoked: "oauth_ok env db \<Longrightarrow> spent db i \<Longrightarrow> revoked_id (od_refresh db) i"
  by (auto simp: spent_def revoked_id_def oauth_ok_def refresh_ok_def distinct_map inj_on_def)

text \<open>What one step of a thread does, by the point it is at.\<close>

lemma thread_step_ok:
  assumes ok: "oauth_ok env db" and sc: "thread_scopes t \<subseteq> grantable_strings"
    and sp: "\<And>i. won t = Some i \<Longrightarrow> spent db i"
    and st: "thread_step env now db t = (db', t')"
  shows "oauth_evolves db db' \<and> oauth_ok env db' \<and> thread_scopes t' \<subseteq> grantable_strings \<and>
    (\<forall>i. won t' = Some i \<longrightarrow> spent db' i \<and> (won t = Some i \<or> \<not> spent db i))"
  using sc sp st
proof (cases t)
  case (Refresh_start inp fr)
  obtain x db1 where r: "refresh_read env db inp now = (x, db1)" by (metis prod.exhaust)
  have s: "oauth_evolves db db1 \<and> oauth_ok env db1" using refresh_read_tables [OF r] by (intro oauth_ok_same [OF ok]) simp_all
  show ?thesis
  proof (cases x)
    case (Inl e)
    then show ?thesis using st Refresh_start r s by (auto simp: thread_scopes_def won_def)
  next
    case (Inr y)
    obtain client row where y: "y = (client, row)" by (cases y)
    have "set (rt_scopes row) \<subseteq> grantable_strings"
      using refresh_read_ok(2) [OF r [unfolded Inr y]] ok by (simp add: oauth_ok_def refresh_ok_def)
    moreover have "db' = db1" "t' = Refresh_read client row fr"
      using st r unfolding Refresh_start Inr y by simp_all
    ultimately show ?thesis using s by (simp add: thread_scopes_def won_def)
  qed
next
  case (Refresh_read client row fr)
  obtain n db1 where c: "refresh_claim db (rt_id row) now = (n, db1)" by (metis prod.exhaust)
  have t': "db' = db1" "t' = (if n = 0 then Refresh_lost (rt_id row) else Refresh_claimed client row fr)"
    using st c unfolding Refresh_read by simp_all
  have db1: "db1 = snd (refresh_claim db (rt_id row) now)" by (simp add: c)
  have s: "oauth_evolves db db' \<and> oauth_ok env db'"
    unfolding t'(1) db1 by (rule oauth_ok_same [OF ok]) (simp_all add: refresh_claim_step)
  show ?thesis
  proof (cases "n = 0")
    case True
    then show ?thesis using s t' by (simp add: thread_scopes_def won_def)
  next
    case False
    then have "filter (\<lambda>r. rt_id r = rt_id row \<and> rt_revokedAt r = None) (od_refresh db) \<noteq> []"
      using c by (auto simp: refresh_claim_def Let_def)
    then obtain r where r: "r \<in> set (od_refresh db)" "rt_id r = rt_id row" "rt_revokedAt r = None"
      by (auto simp: filter_empty_conv)
    then have "\<not> spent db (rt_id row)" using spent_revoked [OF ok, of "rt_id row"] by (force simp: revoked_id_def)
    moreover have "revoke_at now r \<in> set (od_refresh db')"
      using r unfolding t'(1) db1 refresh_claim_def Let_def snd_conv by (auto simp: in_rows_update intro!: bexI [of _ r])
    then have "spent db' (rt_id row)" unfolding spent_def using r(2) by (intro bexI [of _ "revoke_at now r"]) simp_all
    ultimately show ?thesis using s t' False sc unfolding Refresh_read by (simp add: thread_scopes_def won_def)
  qed
next
  case (Refresh_claimed client row fr)
  obtain x db1 where i: "issueTokens env db (rt_userId row) (cl_clientId client) (rt_scopes row) (rt_resource row) fr now = (x, db1)"
    by (metis prod.exhaust)
  have "set (rt_scopes row) \<subseteq> grantable_strings" using sc unfolding Refresh_claimed by (simp add: thread_scopes_def)
  from issueTokens_step(1,2) [OF i] issueTokens_step(3) [OF i this] have s: "oauth_evolves db db1 \<and> oauth_ok env db1"
    by (intro oauth_ok_same [OF ok])
  have "spent db (rt_id row)" using sp unfolding Refresh_claimed by (simp add: won_def)
  with s have "spent db1 (rt_id row)" by (blast intro: spent_evolves)
  then show ?thesis using st i s unfolding Refresh_claimed
    by (cases x) (auto simp: thread_scopes_def won_def)
next
  case (Refresh_lost i)
  have "refresh_step (od_refresh db) (od_refresh (refresh_lost db i now))"
    by (simp add: refresh_lost_def refresh_step_successors split: option.split)
  then have "oauth_evolves db (refresh_lost db i now) \<and> oauth_ok env (refresh_lost db i now)"
    by (intro oauth_ok_same [OF ok]) simp_all
  then show ?thesis using st unfolding Refresh_lost by (auto simp: thread_scopes_def won_def)
next
  case (Refresh_issued i tok)
  have sp': "spent db i" using sp unfolding Refresh_issued by (simp add: won_def)
  have "oauth_evolves db (refresh_link env db i (or_empty (tr_refresh_token tok))) \<and>
      oauth_ok env (refresh_link env db i (or_empty (tr_refresh_token tok)))"
    using refresh_link_step [OF spent_revoked [OF ok sp']] by (intro oauth_ok_same [OF ok]) simp_all
  then show ?thesis using st spent_evolves sp' unfolding Refresh_issued by (auto simp: thread_scopes_def won_def)
next
  case (Exchange_start inp fr)
  have "oauth_evolves db db" by (simp add: evolves_same)
  moreover have "set (co_scopes row) \<subseteq> grantable_strings" if "exchange_check env db inp now = Inr (client, row)" for client row
    using exchange_check_ok(1) [OF that] ok by (simp add: oauth_ok_def codes_ok_def)
  ultimately show ?thesis using st ok unfolding Exchange_start
    by (auto simp: thread_scopes_def won_def split: sum.splits prod.splits)
next
  case (Exchange_checked client row fr)
  have codes: "od_codes (consume_code db (co_id row) now) = rows_update (\<lambda>r. co_id r = co_id row) (\<lambda>c. c\<lparr>co_consumedAt := Some now\<rparr>) (od_codes db)"
    by (simp add: consume_code_def)
  have "evolves keeps_code (od_codes db) (od_codes (consume_code db (co_id row) now))"
    unfolding codes by (rule evolves_update) (simp_all add: keeps_code_def)
  moreover have "codes_ok (od_codes (consume_code db (co_id row) now))"
    unfolding codes using ok by (intro codes_ok_consume) (simp add: oauth_ok_def)
  ultimately have "oauth_evolves db (consume_code db (co_id row) now) \<and> oauth_ok env (consume_code db (co_id row) now)"
    using ok by (simp add: oauth_ok_def oauth_evolves_def evolves_refl)
  then show ?thesis using st sc unfolding Exchange_checked by (auto simp: thread_scopes_def won_def)
next
  case (Exchange_consumed client row fr)
  obtain x db1 where i: "issueTokens env db (co_userId row) (cl_clientId client) (co_scopes row) (co_resource row) fr now = (x, db1)"
    by (metis prod.exhaust)
  have "set (co_scopes row) \<subseteq> grantable_strings" using sc unfolding Exchange_consumed by (simp add: thread_scopes_def)
  from issueTokens_step(1,2) [OF i] issueTokens_step(3) [OF i this] have "oauth_evolves db db1 \<and> oauth_ok env db1"
    by (intro oauth_ok_same [OF ok])
  then show ?thesis using st i unfolding Exchange_consumed
    by (cases x) (auto simp: thread_scopes_def won_def)
qed (use ok in \<open>auto simp: thread_scopes_def won_def evolves_same\<close>)


section \<open>The pool\<close>

text \<open>
  What holds of a pool: its database is well formed, no thread carries scopes outside the catalogue,
  what a thread has won is spent, and no two threads have won the same row.
\<close>

definition exclusive :: "thread list \<Rightarrow> bool" where
  "exclusive ts \<longleftrightarrow> (\<forall>j k x. j < length ts \<longrightarrow> k < length ts \<longrightarrow> won (ts ! j) = Some x \<longrightarrow> won (ts ! k) = Some x \<longrightarrow> j = k)"

definition pool_ok :: "oauth_env \<Rightarrow> pool \<Rightarrow> bool" where
  "pool_ok env p \<longleftrightarrow> oauth_ok env (fst p) \<and> exclusive (snd p) \<and>
     (\<forall>t \<in> set (snd p). thread_scopes t \<subseteq> grantable_strings \<and> (\<forall>i. won t = Some i \<longrightarrow> spent (fst p) i))"

lemma exclusive_update:
  assumes ts: "exclusive ts"
    and new: "\<And>x. won t' = Some x \<Longrightarrow> won (ts ! i) = Some x \<or> Some x \<notin> won ` set ts"
  shows "exclusive (ts[i := t'])"
  unfolding exclusive_def
proof (intro allI impI)
  have only: "k = i" if "k < length ts" "won (ts ! k) = Some x" "won t' = Some x" "i < length ts" for k x
    using new [OF that(3)] ts that nth_mem [OF that(1)] unfolding exclusive_def by (metis image_eqI)
  fix j k x
  assume j: "j < length (ts[i := t'])" and k: "k < length (ts[i := t'])"
    and wj: "won (ts[i := t'] ! j) = Some x" and wk: "won (ts[i := t'] ! k) = Some x"
  consider "j = i" | "k = i" | "j \<noteq> i" "k \<noteq> i" by blast
  then show "j = k"
  proof cases
    case 1
    then show ?thesis using only [of k x] j k wj wk by (cases "k = i") auto
  next
    case 2
    then show ?thesis using only [of j x] j k wj wk by (cases "j = i") auto
  next
    case 3
    then show ?thesis using ts j k wj wk unfolding exclusive_def by (metis length_list_update nth_list_update_neq)
  qed
qed

lemma pool_step_ok:
  assumes p: "pool_ok env p"
  shows "pool_ok env (pool_step env p e)"
proof (cases e)
  case (Whole w)
  have ok: "oauth_ok env (fst p)" using p by (simp add: pool_ok_def)
  have "spent (oauth_step env (fst p) w) i" if "spent (fst p) i" for i
    using oauth_step_ok [OF ok, of w] that spent_evolves by blast
  then show ?thesis using p oauth_step_ok [OF ok, of w] unfolding Whole by (simp add: pool_ok_def)
next
  case (Run i now)
  show ?thesis
  proof (cases "i < length (snd p)")
    case False
    then show ?thesis using p unfolding Run by simp
  next
    case i: True
    obtain db' t' where st: "thread_step env now (fst p) (snd p ! i) = (db', t')" by (metis prod.exhaust)
    have ok: "oauth_ok env (fst p)" and "snd p ! i \<in> set (snd p)" using p i by (simp_all add: pool_ok_def)
    then have sc: "thread_scopes (snd p ! i) \<subseteq> grantable_strings"
      and sp: "\<And>k. won (snd p ! i) = Some k \<Longrightarrow> spent (fst p) k"
      using p by (simp_all add: pool_ok_def)
    from thread_step_ok [OF ok sc sp st] have ev: "oauth_evolves (fst p) db'" "oauth_ok env db'"
      "thread_scopes t' \<subseteq> grantable_strings"
      and w: "\<And>k. won t' = Some k \<Longrightarrow> spent db' k \<and> (won (snd p ! i) = Some k \<or> \<not> spent (fst p) k)" by blast+
    have old: "spent db' k" if "t \<in> set (snd p)" "won t = Some k" for t k
      using p that spent_evolves [OF ev(1)] by (simp add: pool_ok_def)
    have new: "won (snd p ! i) = Some x \<or> Some x \<notin> won ` set (snd p)" if "won t' = Some x" for x
      using w [OF that] p unfolding pool_ok_def by force
    have "exclusive ((snd p)[i := t'])"
      using new p by (intro exclusive_update) (simp_all add: pool_ok_def)
    moreover have "thread_scopes t \<subseteq> grantable_strings \<and> (\<forall>k. won t = Some k \<longrightarrow> spent db' k)"
      if "t \<in> set ((snd p)[i := t'])" for t
      using set_update_subset_insert [THEN subsetD, OF that] old ev(3) w p by (auto simp: pool_ok_def)
    ultimately show ?thesis using st i ev unfolding Run pool_ok_def by simp
  qed
qed

interpretation pools: event_machine "pool_step env" "pool_ok env" for env
  by unfold_locales (rule pool_step_ok)

lemma pool_ok_start: "oauth_ok env db \<Longrightarrow> list_all starting ts \<Longrightarrow> pool_ok env (db, ts)"
proof -
  assume ok: "oauth_ok env db" and ts: "list_all starting ts"
  have "thread_scopes t = {} \<and> won t = None" if "starting t" for t
    using that by (cases t) (simp_all add: starting_def thread_scopes_def won_def)
  moreover have "starting t" if "t \<in> set ts" for t using ts that by (simp add: list_all_iff)
  ultimately show ?thesis using ok nth_mem [of _ ts] unfolding pool_ok_def exclusive_def
    by (metis empty_subsetI fst_conv option.distinct(1) snd_conv)
qed

text \<open>
  C4: A refresh token is claimed once under every interleaving: however the calls of concurrent
  refresh and exchange requests, and of any other requests, follow one another, at most one request
  goes past the claim of a given row, and the row is revoked from then on.
\<close>

theorem one_winner_per_refresh_token:
  assumes "oauth_ok env db" and "list_all starting ts"
    and "foldl (pool_step env) (db, ts) es = (db', ts')"
    and "j < length ts'" and "k < length ts'"
    and "won (ts' ! j) = Some i" and "won (ts' ! k) = Some i"
  shows "j = k \<and> spent db' i"
proof -
  have "pool_ok env (db', ts')"
    using pools.inv_run [OF pool_ok_start [OF assms(1,2)], of es] assms(3) by simp
  then show ?thesis using assms(4-7) nth_mem [OF assms(4)] unfolding pool_ok_def exclusive_def by (metis fst_conv snd_conv)
qed

definition racing :: "thread list" where
  "racing = [Refresh_start (demo_refresh_req ''ocr_11'') \<lparr>fr_id = ''t2'', fr_random = ''22''\<rparr>,
     Refresh_start (demo_refresh_req ''ocr_11'') \<lparr>fr_id = ''t3'', fr_random = ''33''\<rparr>]"

definition run_races :: "nat list \<Rightarrow> pool_event list" where
  "run_races is = map (\<lambda>i. Run i 30) is"

theorem one_winner_per_refresh_token_witness:
  "case foldl (pool_step demo_env) (demo_issued, racing) (run_races [0, 1, 1, 0, 1, 0]) of (db', ts') \<Rightarrow>
     won (ts' ! 1) = Some ''t1'' \<and> spent db' ''t1''"
proof -
  obtain db' ts' where run: "foldl (pool_step demo_env) (demo_issued, racing) (run_races [0, 1, 1, 0, 1, 0]) = (db', ts')"
    by (metis prod.exhaust)
  have "case foldl (pool_step demo_env) (demo_issued, racing) (run_races [0, 1, 1, 0, 1, 0]) of (db', ts') \<Rightarrow>
      won (ts' ! 1) = Some ''t1'' \<and> 1 < length ts'" by code_simp
  then have w: "won (ts' ! 1) = Some ''t1''" "1 < length ts'" unfolding run prod.case by blast+
  have "list_all starting racing" by (simp add: racing_def starting_def)
  from one_winner_per_refresh_token [OF demo_issued_ok this run w(2) w(2) w(1) w(1)] show ?thesis
    using w unfolding run prod.case by blast
qed

section \<open>Every request finishes\<close>










section \<open>What the interleavings leave open\<close>

text \<open>
  The comment in \<^verbatim>\<open>refreshTokens\<close> says that a lost claim kills the freshly minted chain too. When
  the loser looks before the winner has linked its successor, there is no chain to follow: the loser
  is refused, and the token the winner mints afterwards stays alive.
\<close>

theorem lost_claim_leaves_fresh_token:
  "case foldl (pool_step demo_env) (demo_issued, racing) (run_races [0, 1, 0, 1, 1, 0, 0]) of (db', ts') \<Rightarrow>
     (case ts' of [Refresh_done i _, Failed _] \<Rightarrow> i = ''t1'' | _ \<Rightarrow> False) \<and>
     list_ex (\<lambda>r. rt_id r = ''t2'' \<and> rt_revokedAt r = None) (od_refresh db')"
  by code_simp

text \<open>
  An authorization code is consumed by an unconditional write after the check: two exchanges of one
  code that both check before either writes both receive tokens.
\<close>

theorem code_race_both_succeed:
  "case foldl (pool_step demo_env) (demo_coded, [Exchange_start demo_exchange \<lparr>fr_id = ''t1'', fr_random = ''11''\<rparr>,
       Exchange_start demo_exchange \<lparr>fr_id = ''t2'', fr_random = ''22''\<rparr>]) (run_races [0, 1, 0, 1, 0, 1]) of (_, ts') \<Rightarrow>
     (case ts' of [Exchange_done i _, Exchange_done j _] \<Rightarrow> i = j | _ \<Rightarrow> False)"
  by code_simp

end
