(* ===== verification/Account_Service.thy ===== *)
theory Account_Service
  imports Login
begin

text \<open>
  Account self-service: \<^verbatim>\<open>account/account.service.ts\<close> and the routes of
  \<^verbatim>\<open>account/account.controller.ts\<close>. The pending password-change codes are a map of the service,
  the accounts are those of \<open>Users\<close>, the throttle is that of \<open>Login\<close>. The outcome of the mail
  server is an argument (\<open>None\<close>: sent), and so is the draw of \<^verbatim>\<open>randomInt\<close>; every message sent is
  recorded in \<open>ac_mails\<close>.
\<close>

definition right_arrow :: string where
  "right_arrow = map char_of [226, 134, 146 :: nat]"

section \<open>\<open>AccountService\<close>\<close>

record change_code =
  cc_code :: string
  cc_expiresAt :: time
  cc_attempts :: nat

record account =
  ac_db :: auth_db
  ac_codes :: "(string, change_code) jsmap"
  ac_prefs :: "(string \<times> string, json) jsmap"
  ac_mails :: "(string \<times> string) list"

definition maskEmail :: "string \<Rightarrow> string" where
  "maskEmail e =
     (case split_on CHR ''@'' e of
        [] \<Rightarrow> []
      | u # rest \<Rightarrow> take 2 u @ replicate (max 1 (length u - 2)) CHR ''*'' @ ''@'' @
          (case rest of [] \<Rightarrow> ''undefined'' | d # _ \<Rightarrow> d))"

text \<open>The length of \<^verbatim>\<open>JSON.stringify\<close> on the values of the model.\<close>

definition json_char_length :: "char \<Rightarrow> nat" where
  "json_char_length c =
     (if code_of c \<in> {34, 92, 8, 9, 10, 12, 13} then 2 else if code_of c < 32 then 6 else 1)"

definition json_str_length :: "string \<Rightarrow> nat" where
  "json_str_length s = 2 + sum_list (map json_char_length s)"

definition commas :: "nat list \<Rightarrow> nat" where
  "commas ns = 2 + sum_list ns + (length ns - 1)"

fun json_length :: "json \<Rightarrow> nat" where
  "json_length JUndef = 4"
| "json_length JNull = 4"
| "json_length (JBool b) = (if b then 4 else 5)"
| "json_length (JNum i) = length (show_int i)"
| "json_length (JStr s) = json_str_length s"
| "json_length (JArr vs) = commas (map json_length vs)"
| "json_length (JObj ob) =
     commas (map (\<lambda>(k, n). json_str_length k + 1 + n)
       (map (\<lambda>(k, v). (k, json_length v)) (filter (\<lambda>(k, v). v \<noteq> JUndef) ob)))"

definition null_if_undefined :: "json \<Rightarrow> json" where
  "null_if_undefined v = (if v = JUndef then JNull else v)"

definition getPreference :: "account \<Rightarrow> string \<Rightarrow> string \<Rightarrow> json" where
  "getPreference ac userId key =
     (case map_get (ac_prefs ac) (userId, key) of None \<Rightarrow> JNull | Some v \<Rightarrow> null_if_undefined v)"

definition setPreference :: "account \<Rightarrow> string \<Rightarrow> string \<Rightarrow> json \<Rightarrow> (http_error + unit) \<times> account" where
  "setPreference ac userId key v =
     (if length key > 128 then (Inl (BadRequest ''Preference key too long.''), ac)
      else if json_length (null_if_undefined v) > 64000 then (Inl (BadRequest ''Preference value too large.''), ac)
      else (Inr (), ac\<lparr>ac_prefs := map_set (ac_prefs ac) (userId, key) (null_if_undefined v)\<rparr>))"

definition CODE_TTL :: int where "CODE_TTL = 10 * 60 * 1000"

definition requestPasswordChange ::
    "account \<Rightarrow> string \<Rightarrow> int \<Rightarrow> string option \<Rightarrow> time \<Rightarrow> (http_error + string) \<times> account" where
  "requestPasswordChange ac userId draw mail_error now =
     (case find_user (ac_db ac) userId of
        None \<Rightarrow> (Inl (BadRequest ''User not found.''), ac)
      | Some user \<Rightarrow>
          if \<not> nonempty (us_passwordHash user)
          then (Inl (BadRequest ''This account signs in via SSO and has no password to change.''), ac)
          else
            (let code = show_int draw;
                 ac1 = ac\<lparr>ac_codes := map_set (ac_codes ac) userId
                           \<lparr>cc_code = code, cc_expiresAt = now + CODE_TTL, cc_attempts = 0\<rparr>\<rparr>
             in case mail_error of
                  Some msg \<Rightarrow>
                    (Inl (BadRequest (''Couldn't send the verification email ('' @ msg @
                       ''). Configure outbound email in Settings '' @ right_arrow @ '' Email.'')),
                     ac1\<lparr>ac_codes := map_del (ac_codes ac1) userId\<rparr>)
                | None \<Rightarrow>
                    (Inr (maskEmail (us_email user)),
                     ac1\<lparr>ac_mails := ac_mails ac1 @ [(us_email user, code)],
                         ac_db := record_audit (ac_db ac1) (Some userId) (Some (us_email user))
                                    ''account.password_change_requested'' None\<rparr>)))"

text \<open>The salt is that of \<^verbatim>\<open>bcrypt.hash\<close>; updating a user that is gone throws.\<close>

definition confirmPasswordChange ::
    "auth_env \<Rightarrow> account \<Rightarrow> string \<Rightarrow> string \<Rightarrow> string \<Rightarrow> string \<Rightarrow> time \<Rightarrow> (http_error + unit) \<times> account" where
  "confirmPasswordChange env ac userId code newPassword salt now =
     (case map_get (ac_codes ac) userId of
        None \<Rightarrow> (Inl (BadRequest ''Request a verification code first.''), ac)
      | Some entry \<Rightarrow>
          if now > cc_expiresAt entry
          then (Inl (BadRequest ''The code expired. Request a new one.''),
                ac\<lparr>ac_codes := map_del (ac_codes ac) userId\<rparr>)
          else if cc_attempts entry \<ge> 5
          then (Inl (BadRequest ''Too many attempts. Request a new code.''),
                ac\<lparr>ac_codes := map_del (ac_codes ac) userId\<rparr>)
          else if code \<noteq> cc_code entry
          then (Inl (BadRequest ''Incorrect code.''),
                ac\<lparr>ac_codes := map_set (ac_codes ac) userId (entry\<lparr>cc_attempts := Suc (cc_attempts entry)\<rparr>)\<rparr>)
          else if length newPassword < 10
          then (Inl (BadRequest ''New password must be at least 10 characters.''), ac)
          else if find_user (ac_db ac) userId = None
          then (Inl (InternalError ''Record to update not found.''), ac)
          else
            (let db1 = update_user (ac_db ac) userId (\<lambda>u. u\<lparr>us_passwordHash := Some (ae_hash env salt newPassword)\<rparr>)
             in (Inr (),
                 ac\<lparr>ac_codes := map_del (ac_codes ac) userId,
                    ac_db := record_audit db1 (Some userId)
                      (map_option us_email (find_user db1 userId)) ''account.password_changed'' None\<rparr>)))"

section \<open>The routes\<close>

text \<open>
  A code-verifying action under the throttle: a refused attempt does not run the action, a thrown
  error counts as a failure, and success clears the counters.
\<close>

definition throttled ::
    "'r redis \<Rightarrow> throttle_config \<Rightarrow> 'r \<Rightarrow> string option \<Rightarrow> string \<Rightarrow> time \<Rightarrow> 's \<Rightarrow>
     ('s \<Rightarrow> (http_error + 'a) \<times> 's) \<Rightarrow> (http_error + 'a) \<times> 'r \<times> 's" where
  "throttled rd cfg r ip key now s action =
     (case throttle_assertAllowed rd cfg r ip key now of
        Inl e \<Rightarrow> (Inl e, r, s)
      | Inr _ \<Rightarrow>
          (case action s of
             (Inr x, s1) \<Rightarrow> (Inr x, recordSuccess rd r key now, s1)
           | (Inl e, s1) \<Rightarrow> (Inl e, recordFailure rd cfg r ip key now, s1)))"

definition pwchange_key :: "string \<Rightarrow> string" where "pwchange_key userId = ''pwchange:'' @ userId"
definition mfa_key :: "string \<Rightarrow> string" where "mfa_key userId = ''mfa:'' @ userId"

definition account_confirm ::
    "auth_env \<Rightarrow> 'r redis \<Rightarrow> throttle_config \<Rightarrow> 'r \<Rightarrow> account \<Rightarrow> session_user \<Rightarrow> string \<Rightarrow> string \<Rightarrow> string option \<Rightarrow>
     string \<Rightarrow> time \<Rightarrow> (http_error + unit) \<times> 'r \<times> account" where
  "account_confirm env rd cfg r ac user code newPassword ip salt now =
     (if length newPassword < 10 then (Inl (BadRequest ''newPassword must be longer than or equal to 10 characters''), r, ac)
      else throttled rd cfg r ip (pwchange_key (su_id user)) now ac
        (\<lambda>ac. confirmPasswordChange env ac (su_id user) code newPassword salt now))"

definition code_length_ok :: "string \<Rightarrow> bool" where
  "code_length_ok code \<longleftrightarrow> 1 \<le> length code \<and> length code \<le> 32"

definition mfaEnable ::
    "auth_env \<Rightarrow> 'r redis \<Rightarrow> throttle_config \<Rightarrow> 'r \<Rightarrow> auth_db \<Rightarrow> session_user \<Rightarrow> string \<Rightarrow> string option \<Rightarrow>
     code_draw list \<Rightarrow> time \<Rightarrow> (http_error + string list) \<times> 'r \<times> auth_db" where
  "mfaEnable env rd cfg r db user code ip ds now =
     (if \<not> code_length_ok code then (Inl (BadRequest ''code''), r, db)
      else throttled rd cfg r ip (mfa_key (su_id user)) now db
        (\<lambda>db. confirmEnrollment env db (su_id user) code ds now))"

definition mfaDisable ::
    "auth_env \<Rightarrow> 'r redis \<Rightarrow> throttle_config \<Rightarrow> 'r \<Rightarrow> auth_db \<Rightarrow> session_user \<Rightarrow> string \<Rightarrow> string option \<Rightarrow>
     time \<Rightarrow> (http_error + unit) \<times> 'r \<times> auth_db" where
  "mfaDisable env rd cfg r db user code ip now =
     (if \<not> code_length_ok code then (Inl (BadRequest ''code''), r, db)
      else throttled rd cfg r ip (mfa_key (su_id user)) now db
        (\<lambda>db. totp_disable env db (su_id user) code now))"

definition mfaRecoveryCodes ::
    "auth_env \<Rightarrow> 'r redis \<Rightarrow> throttle_config \<Rightarrow> 'r \<Rightarrow> auth_db \<Rightarrow> session_user \<Rightarrow> string \<Rightarrow> string option \<Rightarrow>
     code_draw list \<Rightarrow> time \<Rightarrow> (http_error + string list) \<times> 'r \<times> auth_db" where
  "mfaRecoveryCodes env rd cfg r db user code ip ds now =
     (if \<not> code_length_ok code then (Inl (BadRequest ''code''), r, db)
      else throttled rd cfg r ip (mfa_key (su_id user)) now db
        (\<lambda>db. regenerateRecoveryCodes env db (su_id user) code ds now))"

section \<open>Where a password change comes from\<close>

text \<open>\<open>Ac_accounts\<close> is any change of the accounts by the other components.\<close>

datatype account_event =
    Ac_request string int "string option" time
  | Ac_confirm string string string string time
  | Ac_preference string string json
  | Ac_accounts auth_db

primrec account_step :: "auth_env \<Rightarrow> account \<Rightarrow> account_event \<Rightarrow> account" where
  "account_step env ac (Ac_request u draw mail now) = snd (requestPasswordChange ac u draw mail now)"
| "account_step env ac (Ac_confirm u code password salt now) = snd (confirmPasswordChange env ac u code password salt now)"
| "account_step env ac (Ac_preference u key v) = snd (setPreference ac u key v)"
| "account_step env ac (Ac_accounts db) = ac\<lparr>ac_db := db\<rparr>"

definition new_account :: "auth_db \<Rightarrow> account" where
  "new_account db = \<lparr>ac_db = db, ac_codes = [], ac_prefs = [], ac_mails = []\<rparr>"

text \<open>The wrong guesses of a user among some events.\<close>

definition wrong_guess :: "string \<Rightarrow> string \<Rightarrow> account_event \<Rightarrow> bool" where
  "wrong_guess u code e = (case e of Ac_confirm v c _ _ _ \<Rightarrow> v = u \<and> c \<noteq> code | _ \<Rightarrow> False)"

definition has_password :: "auth_db \<Rightarrow> string \<Rightarrow> bool" where
  "has_password db u = (case find_user db u of None \<Rightarrow> False | Some user \<Rightarrow> nonempty (us_passwordHash user))"

lemma codes_request:
  "map_get (ac_codes (snd (requestPasswordChange ac v draw mail now))) u =
     (if v = u \<and> has_password (ac_db ac) u
      then (if mail = None then Some \<lparr>cc_code = show_int draw, cc_expiresAt = now + CODE_TTL, cc_attempts = 0\<rparr> else None)
      else map_get (ac_codes ac) u)"
  by (simp add: requestPasswordChange_def has_password_def store_simps Let_def split: option.split)

lemma codes_confirm:
  "map_get (ac_codes (snd (confirmPasswordChange env ac v code password salt now))) u =
     (if v \<noteq> u then map_get (ac_codes ac) u
      else case map_get (ac_codes ac) u of
             None \<Rightarrow> None
           | Some entry \<Rightarrow>
               if now > cc_expiresAt entry \<or> cc_attempts entry \<ge> 5 then None
               else if code \<noteq> cc_code entry then Some (entry\<lparr>cc_attempts := Suc (cc_attempts entry)\<rparr>)
               else if length password < 10 \<or> find_user (ac_db ac) u = None then Some entry
               else None)"
  by (cases "map_get (ac_codes ac) v"; cases "v = u"; cases "find_user (ac_db ac) v")
    (simp_all add: confirmPasswordChange_def store_simps Let_def)

lemma codes_preference [simp]:
  "ac_codes (snd (setPreference ac v key val)) = ac_codes ac"
  "ac_mails (snd (setPreference ac v key val)) = ac_mails ac"
  by (simp_all add: setPreference_def)

lemma mails_request:
  "ac_mails (snd (requestPasswordChange ac v draw mail now)) = ac_mails ac @
     (if has_password (ac_db ac) v \<and> mail = None
      then [(us_email (the (find_user (ac_db ac) v)), show_int draw)] else [])"
  by (simp add: requestPasswordChange_def has_password_def Let_def split: option.split)

lemma mails_confirm [simp]: "ac_mails (snd (confirmPasswordChange env ac v code password salt now)) = ac_mails ac"
  by (simp add: confirmPasswordChange_def Let_def split: option.split)

lemma new_account_simps [simp]: "ac_db (new_account db) = db" "ac_codes (new_account db) = []" "ac_mails (new_account db) = []"
  by (simp_all add: new_account_def)

text \<open>A pending code after one more event: a new one, or the old one with the guess counted.\<close>

lemma codes_step:
  assumes "map_get (ac_codes (account_step env ac e)) u = Some entry"
  shows "(\<exists>draw t. e = Ac_request u draw None t \<and> has_password (ac_db ac) u \<and>
      entry = \<lparr>cc_code = show_int draw, cc_expiresAt = t + CODE_TTL, cc_attempts = 0\<rparr>) \<or>
    (\<exists>old. map_get (ac_codes ac) u = Some old \<and>
      entry = old\<lparr>cc_attempts := cc_attempts old + (if wrong_guess u (cc_code old) e then 1 else 0)\<rparr>)"
proof (cases e)
  case (Ac_request v draw mail now)
  then show ?thesis using assms by (auto simp: codes_request wrong_guess_def split: if_splits)
next
  case (Ac_confirm v code password salt now)
  then show ?thesis using assms
    by (auto simp: codes_confirm wrong_guess_def split: if_splits option.splits)
qed (use assms in \<open>simp_all add: wrong_guess_def\<close>)

lemma mails_step: "set (ac_mails ac) \<subseteq> set (ac_mails (account_step env ac e))"
  by (cases e) (simp_all add: mails_request)

lemma code_origin:
  assumes "map_get (ac_codes (foldl (account_step env) (new_account db) es)) u = Some entry"
  shows "\<exists>pre draw t post. es = pre @ Ac_request u draw None t # post \<and>
    cc_code entry = show_int draw \<and> cc_expiresAt entry = t + CODE_TTL \<and>
    cc_attempts entry = length (filter (wrong_guess u (cc_code entry)) post) \<and>
    (\<exists>email. (email, show_int draw) \<in> set (ac_mails (foldl (account_step env) (new_account db) es)))"
  using assms
proof (induction es arbitrary: entry rule: rev_induct)
  case Nil
  then show ?case by (simp add: new_account_def)
next
  case (snoc e es)
  let ?ac = "foldl (account_step env) (new_account db) es"
  from snoc.prems have "map_get (ac_codes (account_step env ?ac e)) u = Some entry" by simp
  then consider (new) draw t where "e = Ac_request u draw None t" "has_password (ac_db ?ac) u"
      "entry = \<lparr>cc_code = show_int draw, cc_expiresAt = t + CODE_TTL, cc_attempts = 0\<rparr>"
    | (kept) old where "map_get (ac_codes ?ac) u = Some old"
      "entry = old\<lparr>cc_attempts := cc_attempts old + (if wrong_guess u (cc_code old) e then 1 else 0)\<rparr>"
    using codes_step by blast
  then show ?case
  proof cases
    case new
    then show ?thesis
      by - (rule exI [of _ es], rule exI [of _ draw], rule exI [of _ t], rule exI [of _ "[]"], auto simp: mails_request)
  next
    case kept
    obtain pre draw t post where o: "es = pre @ Ac_request u draw None t # post"
      "cc_code old = show_int draw" "cc_expiresAt old = t + CODE_TTL"
      "cc_attempts old = length (filter (wrong_guess u (cc_code old)) post)"
      "\<exists>email. (email, show_int draw) \<in> set (ac_mails ?ac)"
      using snoc.IH [OF kept(1)] by blast
    moreover have "\<exists>email. (email, show_int draw) \<in> set (ac_mails (foldl (account_step env) (new_account db) (es @ [e])))"
      using o(5) mails_step [of ?ac env e] by auto
    ultimately show ?thesis using kept(2)
      by - (rule exI [of _ pre], rule exI [of _ draw], rule exI [of _ t], rule exI [of _ "post @ [e]"], simp)
  qed
qed

lemma confirm_success:
  assumes "confirmPasswordChange env ac u code password salt now = (Inr (), ac')"
  shows "\<exists>entry. map_get (ac_codes ac) u = Some entry \<and> now \<le> cc_expiresAt entry \<and> cc_attempts entry < 5 \<and>
    code = cc_code entry \<and> 10 \<le> length password \<and>
    ac_db ac' = record_audit (update_user (ac_db ac) u (\<lambda>r. r\<lparr>us_passwordHash := Some (ae_hash env salt password)\<rparr>)) (Some u)
      (map_option us_email (find_user (update_user (ac_db ac) u (\<lambda>r. r\<lparr>us_passwordHash := Some (ae_hash env salt password)\<rparr>)) u))
      ''account.password_changed'' None \<and>
    map_get (ac_codes ac') u = None"
  using assms by (auto simp: confirmPasswordChange_def Let_def store_simps split: option.splits if_splits)

text \<open>
  C32: A password is changed only with a code mailed to the user at most ten minutes ago and after
  fewer than five wrong guesses since; the change uses the code up.
\<close>

theorem password_change_needs_mailed_code:
  assumes "foldl (account_step env) (new_account db) es = ac"
    and "confirmPasswordChange env ac u code password salt now = (Inr (), ac')"
  shows "(\<exists>pre draw t post email. es = pre @ Ac_request u draw None t # post \<and> code = show_int draw \<and>
      now \<le> t + CODE_TTL \<and> length (filter (wrong_guess u code) post) < 5 \<and> (email, code) \<in> set (ac_mails ac)) \<and>
    10 \<le> length password \<and> map_get (ac_codes ac') u = None"
proof -
  obtain entry where e: "map_get (ac_codes ac) u = Some entry" "now \<le> cc_expiresAt entry" "cc_attempts entry < 5"
      "code = cc_code entry" "10 \<le> length password" "map_get (ac_codes ac') u = None"
    using confirm_success [OF assms(2)] by blast
  obtain pre draw t post email where o: "es = pre @ Ac_request u draw None t # post" "cc_code entry = show_int draw"
      "cc_expiresAt entry = t + CODE_TTL" "cc_attempts entry = length (filter (wrong_guess u (cc_code entry)) post)"
      "(email, show_int draw) \<in> set (ac_mails ac)"
    using code_origin [OF e(1) [folded assms(1)]] unfolding assms(1) by blast
  have "now \<le> t + CODE_TTL" "code = show_int draw" "(email, code) \<in> set (ac_mails ac)"
    "length (filter (wrong_guess u code) post) < 5"
    using o e by simp_all
  then show ?thesis using o(1) e(5,6) by blast
qed

theorem password_change_needs_mailed_code_witness:
  "case confirmPasswordChange demo_auth_env (foldl (account_step demo_auth_env) (new_account demo_auth_db)
       [Ac_request ''u1'' 123456 None 0, Ac_confirm ''u1'' ''111111'' ''longenoughpw'' ''s'' 5]) ''u1'' ''123456'' ''newpassword'' ''s'' 10
   of (r, ac') \<Rightarrow> r = Inr () \<and> map_get (ac_codes ac') ''u1'' = None"
proof -
  let ?ac = "foldl (account_step demo_auth_env) (new_account demo_auth_db)
       [Ac_request ''u1'' 123456 None 0, Ac_confirm ''u1'' ''111111'' ''longenoughpw'' ''s'' 5]"
  have "case find_user demo_auth_db ''u1'' of None \<Rightarrow> False | Some user \<Rightarrow> nonempty (us_passwordHash user)" by code_simp
  then obtain user where user: "find_user demo_auth_db ''u1'' = Some user" "nonempty (us_passwordHash user)"
    by (auto split: option.splits)
  have code: "show_int 123456 = ''123456''" by (simp add: show_int_def show_nat.simps, code_simp)
  have "map_get (ac_codes ?ac) ''u1'' = Some \<lparr>cc_code = ''123456'', cc_expiresAt = 0 + CODE_TTL, cc_attempts = 1\<rparr>"
    using user by (simp add: codes_confirm codes_request has_password_def code CODE_TTL_def)
  moreover have "ac_db ?ac = record_audit demo_auth_db (Some ''u1'') (Some (us_email user)) ''account.password_change_requested'' None"
    using user by (simp add: requestPasswordChange_def confirmPasswordChange_def store_simps code CODE_TTL_def Let_def)
  moreover have "find_user (record_audit db a e x y) i = find_user db i" for db a e x y i
    by (simp add: find_user_def record_audit_def)
  ultimately have "fst (confirmPasswordChange demo_auth_env ?ac ''u1'' ''123456'' ''newpassword'' ''s'' 10) = Inr ()"
    using user(1) by (simp add: confirmPasswordChange_def CODE_TTL_def Let_def del: foldl.simps)
  then obtain ac' where run: "confirmPasswordChange demo_auth_env ?ac ''u1'' ''123456'' ''newpassword'' ''s'' 10 = (Inr (), ac')"
    by (metis prod.collapse)
  from password_change_needs_mailed_code [OF refl run] show ?thesis unfolding run prod.case by blast
qed

end
