(* ===== verification/Fabric_Approval.thy ===== *)
theory Fabric_Approval
  imports Users
begin

text \<open>
  Four-eyes approval of Fabric sessions: \<^verbatim>\<open>fabric/fabric-approval.service.ts\<close> and the gate of
  \<^verbatim>\<open>fabric/fabric.service.ts\<close> in front of it.

  A record of the service is an object that the \<^verbatim>\<open>pending\<close> map, its timer and a running
  \<^verbatim>\<open>approve\<close> share, so objects live in a store \<open>fs_objs\<close> of their own and the map is the list of
  ids it holds. \<^verbatim>\<open>approve\<close> waits for the mint in its middle: it is \<open>approve\<close> up to the call of the
  closure and \<open>minted\<close> from its outcome on, and \<open>fs_inflight\<close> holds the calls in between. The calls of
  the closures themselves are the effect the gate is about: \<open>fs_calls\<close> lists them. A record has
  one timer, with its due time and what it runs. A ticket is any value.
\<close>

section \<open>Data\<close>

datatype agent_mode = Endpoint | Waypoint

datatype approval_state = Pending | Approved | Denied | Expired | Error_state

primrec state_str :: "approval_state \<Rightarrow> string" where
  "state_str Pending = ''pending''"
| "state_str Approved = ''approved''"
| "state_str Denied = ''denied''"
| "state_str Expired = ''expired''"
| "state_str Error_state = ''error''"

datatype timer_job = Expire_job | Cleanup_job

text \<open>\<open>pa_result\<close> is the error or the ticket of the closure; the object keeps it once it is set.\<close>

record 't approval =
  pa_id :: string
  pa_agentId :: string
  pa_agentName :: string
  pa_agentMode :: agent_mode
  pa_kind :: string
  pa_target :: string
  pa_requesterId :: string
  pa_requesterEmail :: string
  pa_createdAt :: time
  pa_expiresAt :: time
  pa_state :: approval_state
  pa_minting :: bool
  pa_decidedByEmail :: "string option"
  pa_result :: "(string + 't) option"
  pa_timer :: "(time \<times> timer_job) option"

record approval_meta =
  me_agentId :: string
  me_agentName :: string
  me_agentMode :: agent_mode
  me_kind :: string
  me_target :: string

record approval_audit =
  aa_actorId :: string
  aa_actorEmail :: string
  aa_action :: string
  aa_target :: string
  aa_approvalId :: string

record 't approvals =
  fs_objs :: "(string, 't approval) jsmap"
  fs_listed :: "string list"
  fs_inflight :: "(string \<times> session_user) list"
  fs_calls :: "(string \<times> string) list"
  fs_audit :: "approval_audit list"
  fs_alerts :: "string list"

definition APPROVAL_TTL_MS :: int where "APPROVAL_TTL_MS = 5 * 60 * 1000"
definition CLEANUP_MS :: int where "CLEANUP_MS = 60000"

definition no_approvals :: "'t approvals" where
  "no_approvals = \<lparr>fs_objs = [], fs_listed = [], fs_inflight = [], fs_calls = [], fs_audit = [], fs_alerts = []\<rparr>"

section \<open>The service\<close>

definition put_obj :: "'t approvals \<Rightarrow> 't approval \<Rightarrow> 't approvals" where
  "put_obj st p = st\<lparr>fs_objs := map_set (fs_objs st) (pa_id p) p\<rparr>"

definition record_approval :: "'t approvals \<Rightarrow> session_user \<Rightarrow> string \<Rightarrow> 't approval \<Rightarrow> 't approvals" where
  "record_approval st user action p =
     st\<lparr>fs_audit := fs_audit st @ [\<lparr>aa_actorId = su_id user, aa_actorEmail = su_email user, aa_action = action,
          aa_target = pa_agentId p, aa_approvalId = pa_id p\<rparr>]\<rparr>"

definition scheduleCleanup :: "'t approval \<Rightarrow> time \<Rightarrow> 't approval" where
  "scheduleCleanup p now = p\<lparr>pa_timer := Some (now + CLEANUP_MS, Cleanup_job)\<rparr>"

definition get_listed :: "'t approvals \<Rightarrow> string \<Rightarrow> 't approval option" where
  "get_listed st i = (if i \<in> set (fs_listed st) then map_get (fs_objs st) i else None)"

definition held_record :: "approval_meta \<Rightarrow> session_user \<Rightarrow> string \<Rightarrow> time \<Rightarrow> 't approval" where
  "held_record meta user i now =
     \<lparr>pa_id = i, pa_agentId = me_agentId meta, pa_agentName = me_agentName meta,
      pa_agentMode = me_agentMode meta, pa_kind = me_kind meta, pa_target = me_target meta,
      pa_requesterId = su_id user, pa_requesterEmail = su_email user, pa_createdAt = now,
      pa_expiresAt = now + APPROVAL_TTL_MS, pa_state = Pending, pa_minting = False,
      pa_decidedByEmail = None, pa_result = None,
      pa_timer = Some (now + APPROVAL_TTL_MS, Expire_job)\<rparr>"

definition request :: "'t approvals \<Rightarrow> approval_meta \<Rightarrow> session_user \<Rightarrow> string \<Rightarrow> time \<Rightarrow> string \<times> 't approvals" where
  "request st meta user i now =
     (let p = held_record meta user i now;
          st1 = (put_obj st p)\<lparr>fs_listed := fs_listed st @ [i]\<rparr>;
          st2 = record_approval st1 user ''fabric.approval.requested'' p
      in (i, st2\<lparr>fs_alerts := fs_alerts st2 @ [''fabric-approval:'' @ i]\<rparr>))"

text \<open>The timer of a record runs when it is due.\<close>

definition fire :: "'t approvals \<Rightarrow> string \<Rightarrow> time \<Rightarrow> 't approvals" where
  "fire st i now =
     (case map_get (fs_objs st) i of
        None \<Rightarrow> st
      | Some p \<Rightarrow>
          (case pa_timer p of
             None \<Rightarrow> st
           | Some (due, job) \<Rightarrow>
               if now < due then st
               else (case job of
                       Expire_job \<Rightarrow>
                         put_obj st (scheduleCleanup
                           (if pa_state p = Pending
                            then p\<lparr>pa_state := Expired, pa_result := Some (Inl ''Approval request expired.'')\<rparr>
                            else p) now)
                     | Cleanup_job \<Rightarrow>
                         put_obj (st\<lparr>fs_listed := filter (\<lambda>j. j \<noteq> i) (fs_listed st)\<rparr>) (p\<lparr>pa_timer := None\<rparr>))))"

record approval_dto =
  ad_id :: string
  ad_agentId :: string
  ad_agentName :: string
  ad_agentMode :: agent_mode
  ad_kind :: string
  ad_target :: string
  ad_requesterEmail :: string
  ad_createdAt :: time
  ad_expiresAt :: time
  ad_state :: approval_state

definition toDto :: "'t approval \<Rightarrow> approval_dto" where
  "toDto p = \<lparr>ad_id = pa_id p, ad_agentId = pa_agentId p, ad_agentName = pa_agentName p,
     ad_agentMode = pa_agentMode p, ad_kind = pa_kind p, ad_target = pa_target p,
     ad_requesterEmail = pa_requesterEmail p, ad_createdAt = pa_createdAt p, ad_expiresAt = pa_expiresAt p,
     ad_state = pa_state p\<rparr>"

text \<open>ISO timestamps of the years the service runs in sort as the times they print.\<close>

definition listPending :: "'t approvals \<Rightarrow> approval_dto list" where
  "listPending st =
     sort_key ad_createdAt
       (map toDto (filter (\<lambda>p. pa_state p = Pending) (List.map_filter (get_listed st) (fs_listed st))))"

record 't ticket_status =
  as_state :: approval_state
  as_ticket :: "'t option"
  as_error :: "string option"
  as_decidedByEmail :: "string option"

definition result_ticket :: "(string + 't) option \<Rightarrow> 't option" where
  "result_ticket r = (case r of Some (Inr t) \<Rightarrow> Some t | _ \<Rightarrow> None)"

definition result_error :: "(string + 't) option \<Rightarrow> string option" where
  "result_error r = (case r of Some (Inl e) \<Rightarrow> Some e | _ \<Rightarrow> None)"

definition not_found :: http_error where "not_found = NotFound ''Approval request not found or expired.''"

definition approval_status :: "'t approvals \<Rightarrow> string \<Rightarrow> session_user \<Rightarrow> http_error + 't ticket_status" where
  "approval_status st i user =
     (case get_listed st i of
        None \<Rightarrow> Inl not_found
      | Some p \<Rightarrow>
          if pa_requesterId p \<noteq> su_id user then Inl (Forbidden ''Not your request.'')
          else Inr \<lparr>as_state = pa_state p,
                    as_ticket = (if pa_state p = Approved then result_ticket (pa_result p) else None),
                    as_error = result_error (pa_result p), as_decidedByEmail = pa_decidedByEmail p\<rparr>)"

definition already :: "'t approval \<Rightarrow> http_error" where
  "already p = Forbidden (''This request is already '' @ state_str (pa_state p) @ ''.'')"

definition approve :: "'t approvals \<Rightarrow> string \<Rightarrow> session_user \<Rightarrow> (http_error + unit) \<times> 't approvals" where
  "approve st i user =
     (case get_listed st i of
        None \<Rightarrow> (Inl not_found, st)
      | Some p \<Rightarrow>
          if pa_state p \<noteq> Pending then (Inl (already p), st)
          else if pa_minting p then (Inl (Forbidden ''This request is already being approved.''), st)
          else if pa_requesterId p = su_id user
          then (Inl (Forbidden ''You cannot approve your own session request.''), st)
          else (Inr (), (put_obj st (p\<lparr>pa_minting := True, pa_decidedByEmail := Some (su_email user)\<rparr>))
                  \<lparr>fs_inflight := fs_inflight st @ [(i, user)], fs_calls := fs_calls st @ [(i, su_id user)]\<rparr>))"

text \<open>The mint has settled: with a ticket, or with the message of its error.\<close>

definition minted :: "'t approvals \<Rightarrow> string \<Rightarrow> session_user \<Rightarrow> string + 't \<Rightarrow> time \<Rightarrow> approval_dto option \<times> 't approvals" where
  "minted st i user outcome now =
     (case map_get (fs_objs st) i of
        None \<Rightarrow> (None, st)
      | Some p \<Rightarrow>
          (let p1 = p\<lparr>pa_state := (case outcome of Inr _ \<Rightarrow> Approved | Inl _ \<Rightarrow> Error_state), pa_result := Some outcome\<rparr>;
               action = (if pa_state p1 = Approved then ''fabric.approval.approved'' else ''fabric.approval.mint_failed'');
               p2 = scheduleCleanup p1 now;
               st1 = record_approval st user action p1
           in (Some (toDto p2), (put_obj st1 p2)\<lparr>fs_inflight := remove1 (i, user) (fs_inflight st1)\<rparr>)))"

definition deny :: "'t approvals \<Rightarrow> string \<Rightarrow> session_user \<Rightarrow> time \<Rightarrow> (http_error + approval_dto) \<times> 't approvals" where
  "deny st i user now =
     (case get_listed st i of
        None \<Rightarrow> (Inl not_found, st)
      | Some p \<Rightarrow>
          if pa_state p \<noteq> Pending then (Inl (already p), st)
          else
            (let p1 = p\<lparr>pa_state := Denied, pa_decidedByEmail := Some (su_email user),
                       pa_result := Some (Inl (''Denied by '' @ su_email user @ ''.''))\<rparr>;
                 p2 = scheduleCleanup p1 now
             in (Inr (toDto p2), put_obj (record_approval st user ''fabric.approval.denied'' p1) p2)))"

section \<open>The gate\<close>

record agent_row =
  ag_requireApproval :: bool
  ag_name :: string
  ag_mode :: "agent_mode option"

datatype 't gated = Ticket "string + 't" | Held string

text \<open>\<open>outcome\<close> is what the closure returns when it is called at once.\<close>

definition gate ::
    "(string \<Rightarrow> agent_row option) \<Rightarrow> 't approvals \<Rightarrow> string \<Rightarrow> string \<Rightarrow> string \<Rightarrow> int \<Rightarrow> string option \<Rightarrow> session_user \<Rightarrow>
     string + 't \<Rightarrow> string \<Rightarrow> time \<Rightarrow> 't gated \<times> 't approvals" where
  "gate agents st agentId kind host port url user outcome i now =
     (case agents agentId of
        Some agent \<Rightarrow>
          if ag_requireApproval agent
          then (case request st
                  \<lparr>me_agentId = agentId, me_agentName = ag_name agent,
                   me_agentMode = (case ag_mode agent of None \<Rightarrow> Endpoint | Some m \<Rightarrow> m), me_kind = kind,
                   me_target = (if nonempty url then the url else host @ '':'' @ show_int port)\<rparr> user i now of
                  (j, st1) \<Rightarrow> (Held j, st1))
          else (Ticket outcome, st)
      | None \<Rightarrow> (Ticket outcome, st))"

section \<open>Reachable states\<close>

text \<open>
  One rule per thing that can happen; a new id is fresh (\<^verbatim>\<open>randomUUID\<close>), a mint settles that was
  called, and a timer runs when it is due.
\<close>

inductive fabric_step :: "'t approvals \<Rightarrow> 't approvals \<Rightarrow> bool" where
  requested: "map_get (fs_objs st) i = None \<Longrightarrow> fabric_step st (snd (request st meta user i now))"
| approving: "fabric_step st (snd (approve st i user))"
| settled: "(i, user) \<in> set (fs_inflight st) \<Longrightarrow> fabric_step st (snd (minted st i user outcome now))"
| denied: "fabric_step st (snd (deny st i user now))"
| fired: "fabric_step st (fire st i now)"

inductive_cases fabric_stepE: "fabric_step st st'"

inductive fabric_run :: "'t approvals \<Rightarrow> 't approvals \<Rightarrow> bool" where
  here: "fabric_run st st"
| step: "fabric_run st st' \<Longrightarrow> fabric_step st' st'' \<Longrightarrow> fabric_run st st''"

section \<open>The invariant\<close>

text \<open>
  What holds of a record: a call of its closure was made by somebody else than its requester, under
  the latch; it is approved, or keeps a ticket, only after a call; and while it is held its timer
  is armed.
\<close>

definition called :: "(string \<times> string) list \<Rightarrow> string \<Rightarrow> bool" where
  "called calls i \<longleftrightarrow> (\<exists>u. (i, u) \<in> set calls)"

definition rec_ok :: "(string \<times> string) list \<Rightarrow> string list \<Rightarrow> string \<Rightarrow> 't approval \<Rightarrow> bool" where
  "rec_ok calls listed i p \<longleftrightarrow> pa_id p = i \<and>
     (\<forall>u. (i, u) \<in> set calls \<longrightarrow> pa_minting p \<and> pa_requesterId p \<noteq> u) \<and>
     (pa_state p = Approved \<or> (\<exists>t. pa_result p = Some (Inr t)) \<longrightarrow> called calls i) \<and>
     (i \<in> set listed \<longrightarrow> pa_timer p \<noteq> None)"

definition fabric_ok :: "'t approvals \<Rightarrow> bool" where
  "fabric_ok st \<longleftrightarrow> distinct (map fst (fs_calls st)) \<and>
     (\<forall>i. called (fs_calls st) i \<or> i \<in> set (fs_listed st) \<longrightarrow> map_get (fs_objs st) i \<noteq> None) \<and>
     (\<forall>i user. (i, user) \<in> set (fs_inflight st) \<longrightarrow> called (fs_calls st) i) \<and>
     (\<forall>i p. map_get (fs_objs st) i = Some p \<longrightarrow> rec_ok (fs_calls st) (fs_listed st) i p)"

lemma called_append: "called (calls @ [(i, u)]) j \<longleftrightarrow> called calls j \<or> j = i"
  by (auto simp: called_def)

lemma not_called: "\<not> called calls i \<Longrightarrow> i \<notin> fst ` set calls"
  by (auto simp: called_def)

lemma fabric_okD:
  assumes "fabric_ok st"
  shows "distinct (map fst (fs_calls st))"
    and "called (fs_calls st) i \<Longrightarrow> map_get (fs_objs st) i \<noteq> None"
    and "i \<in> set (fs_listed st) \<Longrightarrow> map_get (fs_objs st) i \<noteq> None"
    and "(i, user) \<in> set (fs_inflight st) \<Longrightarrow> called (fs_calls st) i"
    and "map_get (fs_objs st) i = Some p \<Longrightarrow> rec_ok (fs_calls st) (fs_listed st) i p"
  using assms unfolding fabric_ok_def by blast+

lemma put_obj_simps [simp]:
  "fs_listed (put_obj st p) = fs_listed st" "fs_calls (put_obj st p) = fs_calls st"
  "fs_inflight (put_obj st p) = fs_inflight st"
  "map_get (fs_objs (put_obj st p)) i = (if i = pa_id p then Some p else map_get (fs_objs st) i)"
  by (simp_all add: put_obj_def store_simps)

lemma record_approval_simps [simp]:
  "fs_listed (record_approval st u a p) = fs_listed st" "fs_calls (record_approval st u a p) = fs_calls st"
  "fs_inflight (record_approval st u a p) = fs_inflight st" "fs_objs (record_approval st u a p) = fs_objs st"
  by (simp_all add: record_approval_def)

lemma fabric_ok_same:
  "fabric_ok st \<Longrightarrow> fs_objs st' = fs_objs st \<Longrightarrow> fs_calls st' = fs_calls st \<Longrightarrow> fs_listed st' = fs_listed st \<Longrightarrow>
   set (fs_inflight st') \<subseteq> set (fs_inflight st) \<Longrightarrow> fabric_ok st'"
  by (simp add: fabric_ok_def subset_iff) blast

text \<open>Writing one record; the other components may change as long as the other records do not notice.\<close>

lemma fabric_ok_write:
  assumes ok: "fabric_ok st" and rec: "rec_ok (fs_calls st') (fs_listed st') i p"
    and objs: "\<And>j. map_get (fs_objs st') j = (if j = i then Some p else map_get (fs_objs st) j)"
    and calls: "distinct (map fst (fs_calls st'))"
      "\<And>j u. j \<noteq> i \<Longrightarrow> (j, u) \<in> set (fs_calls st') \<longleftrightarrow> (j, u) \<in> set (fs_calls st)"
    and listed: "\<And>j. j \<noteq> i \<Longrightarrow> j \<in> set (fs_listed st') \<longleftrightarrow> j \<in> set (fs_listed st)"
    and inflight: "\<And>j user. (j, user) \<in> set (fs_inflight st') \<Longrightarrow> (j, user) \<in> set (fs_inflight st) \<and> j \<noteq> i \<or> called (fs_calls st') j"
  shows "fabric_ok st'"
proof -
  have c: "called (fs_calls st') j = called (fs_calls st) j" if "j \<noteq> i" for j
    using calls(2) [OF that] by (simp add: called_def)
  have "rec_ok (fs_calls st') (fs_listed st') j q" if "j \<noteq> i" "map_get (fs_objs st) j = Some q" for j q
    using fabric_okD(5) [OF ok that(2)] c [OF that(1)] calls(2) [OF that(1)] listed [OF that(1)]
    by (simp add: rec_ok_def)
  moreover have "map_get (fs_objs st') j \<noteq> None" if "called (fs_calls st') j \<or> j \<in> set (fs_listed st')" for j
    using that c listed objs fabric_okD(2,3) [OF ok, of j] by (cases "j = i") auto
  moreover have "called (fs_calls st') j" if "(j, user) \<in> set (fs_inflight st')" for j user
    using inflight [OF that] c fabric_okD(4) [OF ok] by blast
  moreover have "rec_ok (fs_calls st') (fs_listed st') j q" if "map_get (fs_objs st') j = Some q" for j q
    using that calculation(1) [of j q] objs [of j] rec by (cases "j = i") simp_all
  ultimately show ?thesis using calls(1) unfolding fabric_ok_def by simp
qed

lemma fabric_ok_put:
  assumes ok: "fabric_ok st" and rec: "rec_ok (fs_calls st) (fs_listed st) i p"
  shows "fabric_ok (put_obj st p)"
proof (rule fabric_ok_write [OF ok])
  show "rec_ok (fs_calls (put_obj st p)) (fs_listed (put_obj st p)) i p" using rec by simp
  show "map_get (fs_objs (put_obj st p)) j = (if j = i then Some p else map_get (fs_objs st) j)" for j
    using rec by (simp add: rec_ok_def)
qed (use fabric_okD(1,4) [OF ok] in simp_all)

lemma get_listed_Some: "get_listed st i = Some p \<Longrightarrow> i \<in> set (fs_listed st) \<and> map_get (fs_objs st) i = Some p"
  by (simp add: get_listed_def split: if_splits)

lemma request_ok:
  assumes ok: "fabric_ok st" and new: "map_get (fs_objs st) i = None"
  shows "fabric_ok (snd (request st meta user i now))"
proof -
  have no: "\<not> called (fs_calls st) i" "(i, u) \<notin> set (fs_calls st)" for u
    using fabric_okD(2) [OF ok, of i] new by (auto simp: called_def)
  show ?thesis
  proof (rule fabric_ok_write [OF ok])
    show "rec_ok (fs_calls (snd (request st meta user i now))) (fs_listed (snd (request st meta user i now))) i (held_record meta user i now)"
      using no by (simp add: rec_ok_def request_def held_record_def Let_def)
    show "map_get (fs_objs (snd (request st meta user i now))) j =
        (if j = i then Some (held_record meta user i now) else map_get (fs_objs st) j)" for j
      by (simp add: request_def held_record_def Let_def)
  qed (use fabric_okD(1,4) [OF ok] in \<open>simp_all add: request_def Let_def\<close>)
qed

lemma fire_ok:
  assumes ok: "fabric_ok st"
  shows "fabric_ok (fire st i now)"
proof (cases "map_get (fs_objs st) i")
  case (Some p)
  note r = fabric_okD(5) [OF ok Some]
  have "fabric_ok (put_obj st (scheduleCleanup (if pa_state p = Pending
             then p\<lparr>pa_state := Expired, pa_result := Some (Inl ''Approval request expired.'')\<rparr> else p) now))"
    using r by (intro fabric_ok_put [OF ok, of i]) (simp add: rec_ok_def scheduleCleanup_def)
  moreover have "fabric_ok (put_obj (st\<lparr>fs_listed := filter (\<lambda>j. j \<noteq> i) (fs_listed st)\<rparr>) (p\<lparr>pa_timer := None\<rparr>))"
    (is "fabric_ok ?st'")
  proof (rule fabric_ok_write [OF ok])
    show "rec_ok (fs_calls ?st') (fs_listed ?st') i (p\<lparr>pa_timer := None\<rparr>)" using r by (simp add: rec_ok_def)
    show "map_get (fs_objs ?st') j = (if j = i then Some (p\<lparr>pa_timer := None\<rparr>) else map_get (fs_objs st) j)" for j
      using r by (simp add: rec_ok_def)
  qed (use fabric_okD(1,4) [OF ok] in simp_all)
  ultimately show ?thesis using ok Some
    by (cases "pa_state p = Pending") (simp_all add: fire_def split: option.split timer_job.split)
qed (use ok in \<open>simp add: fire_def\<close>)

lemma approve_ok:
  assumes ok: "fabric_ok st"
  shows "fabric_ok (snd (approve st i user))"
proof (cases "\<exists>p. get_listed st i = Some p \<and> pa_state p = Pending \<and> \<not> pa_minting p \<and> pa_requesterId p \<noteq> su_id user")
  case True
  then obtain p where p: "get_listed st i = Some p" "pa_state p = Pending" "\<not> pa_minting p" "pa_requesterId p \<noteq> su_id user"
    by blast
  note r = fabric_okD(5) [OF ok conjunct2 [OF get_listed_Some [OF p(1)]]]
  have no: "\<not> called (fs_calls st) i" "(i, u) \<notin> set (fs_calls st)" for u
    using r p(3) by (auto simp: rec_ok_def called_def)
  let ?p = "p\<lparr>pa_minting := True, pa_decidedByEmail := Some (su_email user)\<rparr>"
  have st': "snd (approve st i user) = (put_obj st ?p)\<lparr>fs_inflight := fs_inflight st @ [(i, user)], fs_calls := fs_calls st @ [(i, su_id user)]\<rparr>"
    using p by (simp add: approve_def)
  show ?thesis unfolding st'
  proof (rule fabric_ok_write [OF ok])
    let ?st' = "(put_obj st ?p)\<lparr>fs_inflight := fs_inflight st @ [(i, user)], fs_calls := fs_calls st @ [(i, su_id user)]\<rparr>"
    show "rec_ok (fs_calls ?st') (fs_listed ?st') i ?p" using r p(4) no by (simp add: rec_ok_def called_append)
    show "map_get (fs_objs ?st') j = (if j = i then Some ?p else map_get (fs_objs st) j)" for j
      using r by (simp add: rec_ok_def)
    show "distinct (map fst (fs_calls ?st'))" using fabric_okD(1) [OF ok] not_called [OF no(1)] by simp
    show "(j, v) \<in> set (fs_inflight st) \<and> j \<noteq> i \<or> called (fs_calls ?st') j" if "(j, v) \<in> set (fs_inflight ?st')" for j v
      using that fabric_okD(4) [OF ok] by (auto simp: called_append)
  qed simp_all
next
  case False
  then have "snd (approve st i user) = st" by (auto simp: approve_def split: option.split)
  then show ?thesis using ok by simp
qed

lemma minted_ok:
  assumes ok: "fabric_ok st" and fl: "(i, user) \<in> set (fs_inflight st)"
  shows "fabric_ok (snd (minted st i user outcome now))"
proof (cases "map_get (fs_objs st) i")
  case (Some p)
  let ?p = "scheduleCleanup (p\<lparr>pa_state := (case outcome of Inr _ \<Rightarrow> Approved | Inl _ \<Rightarrow> Error_state), pa_result := Some outcome\<rparr>) now"
  have "fabric_ok (put_obj st ?p)"
    using fabric_okD(5) [OF ok Some] fabric_okD(4) [OF ok fl]
    by (intro fabric_ok_put [OF ok, of i]) (simp add: rec_ok_def scheduleCleanup_def)
  then show ?thesis using Some
    by (elim fabric_ok_same)
      (simp_all add: minted_def Let_def set_remove1_subset put_obj_def record_approval_def)
qed (use ok in \<open>simp add: minted_def\<close>)

lemma deny_ok:
  assumes ok: "fabric_ok st"
  shows "fabric_ok (snd (deny st i user now))"
proof (cases "\<exists>p. get_listed st i = Some p \<and> pa_state p = Pending")
  case True
  then obtain p where p: "get_listed st i = Some p" "pa_state p = Pending" by blast
  let ?p = "scheduleCleanup (p\<lparr>pa_state := Denied, pa_decidedByEmail := Some (su_email user),
    pa_result := Some (Inl (''Denied by '' @ su_email user @ ''.''))\<rparr>) now"
  have "fabric_ok (put_obj st ?p)"
    using fabric_okD(5) [OF ok conjunct2 [OF get_listed_Some [OF p(1)]]]
    by (intro fabric_ok_put [OF ok, of i]) (simp add: rec_ok_def scheduleCleanup_def)
  then show ?thesis using p
    by (elim fabric_ok_same) (simp_all add: deny_def Let_def put_obj_def record_approval_def)
next
  case False
  then have "snd (deny st i user now) = st" by (auto simp: deny_def split: option.split)
  then show ?thesis using ok by simp
qed

lemma fabric_step_ok: "fabric_step st st' \<Longrightarrow> fabric_ok st \<Longrightarrow> fabric_ok st'"
  by (induction rule: fabric_step.induct) (simp_all add: request_ok approve_ok minted_ok deny_ok fire_ok)

lemma fabric_run_ok: "fabric_run st st' \<Longrightarrow> fabric_ok st \<Longrightarrow> fabric_ok st'"
  by (induction rule: fabric_run.induct) (auto intro: fabric_step_ok)

lemma no_approvals_ok: "fabric_ok no_approvals"
  by (simp add: fabric_ok_def no_approvals_def called_def)

section \<open>Four eyes\<close>

text \<open>
  C9: Four eyes: in every reachable state each session closure was called at most once, by an
  approver who is not the requester, and a requester's poll shows a ticket only after such a call.
\<close>

theorem four_eyes:
  assumes "fabric_run no_approvals st"
  shows "distinct (map fst (fs_calls st)) \<and>
    (\<forall>(i, approver) \<in> set (fs_calls st). \<exists>p. map_get (fs_objs st) i = Some p \<and> pa_requesterId p \<noteq> approver) \<and>
    (\<forall>i user s. approval_status st i user = Inr s \<longrightarrow> as_ticket s \<noteq> None \<longrightarrow>
      (\<exists>approver. (i, approver) \<in> set (fs_calls st) \<and> approver \<noteq> su_id user))"
proof -
  have ok: "fabric_ok st" by (rule fabric_run_ok [OF assms no_approvals_ok])
  have one: "\<exists>p. map_get (fs_objs st) i = Some p \<and> pa_requesterId p \<noteq> u" if "(i, u) \<in> set (fs_calls st)" for i u
  proof -
    have "called (fs_calls st) i" using that by (auto simp: called_def)
    then obtain p where "map_get (fs_objs st) i = Some p" using fabric_okD(2) [OF ok] by blast
    then show ?thesis using fabric_okD(5) [OF ok] that by (auto simp: rec_ok_def)
  qed
  have two: "\<exists>u. (i, u) \<in> set (fs_calls st) \<and> u \<noteq> su_id user"
    if s: "approval_status st i user = Inr s" "as_ticket s \<noteq> None" for i user s
  proof -
    obtain p where p: "get_listed st i = Some p" "pa_requesterId p = su_id user" "pa_state p = Approved"
      using s by (auto simp: approval_status_def split: option.splits if_splits)
    note r = fabric_okD(5) [OF ok conjunct2 [OF get_listed_Some [OF p(1)]]]
    then show ?thesis using p unfolding rec_ok_def called_def by metis
  qed
  show ?thesis using fabric_okD(1) [OF ok] one two by blast
qed

lemma fire_cleanup:
  "map_get (fs_objs st) i = Some p \<Longrightarrow> pa_timer p = Some (due, Cleanup_job) \<Longrightarrow> due \<le> now \<Longrightarrow>
   i \<notin> set (fs_listed (fire st i now))"
  by (simp add: fire_def)

lemma fire_unlisted: "i \<notin> set (fs_listed st) \<Longrightarrow> i \<notin> set (fs_listed (fire st i now))"
  by (simp add: fire_def split: option.split timer_job.split)

lemma fire_expire:
  assumes "map_get (fs_objs st) i = Some p" and "pa_timer p = Some (due, Expire_job)" and "due \<le> now" and "pa_id p = i"
  shows "\<exists>q. map_get (fs_objs (fire st i now)) i = Some q \<and> pa_timer q = Some (now + CLEANUP_MS, Cleanup_job)"
  using assms by (cases "pa_state p = Pending") (simp_all add: fire_def scheduleCleanup_def)

text \<open>
  A held request is released: its timer is armed in every reachable state, and once the timer
  and the one it may arm have run, the service no longer holds the record.
\<close>

theorem held_request_released:
  assumes "fabric_run no_approvals st" and "i \<in> set (fs_listed st)"
  shows "\<exists>due. \<forall>t1 \<ge> due. \<forall>t2 \<ge> t1 + CLEANUP_MS. i \<notin> set (fs_listed (fire (fire st i t1) i t2))"
proof -
  have ok: "fabric_ok st" by (rule fabric_run_ok [OF assms(1) no_approvals_ok])
  obtain p where p: "map_get (fs_objs st) i = Some p" using fabric_okD(3) [OF ok assms(2)] by blast
  note r = fabric_okD(5) [OF ok p]
  then obtain due job where t: "pa_timer p = Some (due, job)" "pa_id p = i"
    using assms(2) by (auto simp: rec_ok_def)
  have "i \<notin> set (fs_listed (fire (fire st i t1) i t2))" if d: "t1 \<ge> due" "t2 \<ge> t1 + CLEANUP_MS" for t1 t2
  proof (cases job)
    case Expire_job
    then obtain q where "map_get (fs_objs (fire st i t1)) i = Some q" "pa_timer q = Some (t1 + CLEANUP_MS, Cleanup_job)"
      using fire_expire [OF p _ d(1) t(2)] t(1) by blast
    then show ?thesis using d(2) by (rule fire_cleanup)
  next
    case Cleanup_job
    then have "i \<notin> set (fs_listed (fire st i t1))" using fire_cleanup [OF p _ d(1)] t(1) by simp
    then show ?thesis by (rule fire_unlisted)
  qed
  then show ?thesis by blast
qed

text \<open>A denied request that nobody was approving stays denied.\<close>

definition denied_idle :: "string \<Rightarrow> 't approvals \<Rightarrow> bool" where
  "denied_idle i st \<longleftrightarrow> (\<exists>p. map_get (fs_objs st) i = Some p \<and> pa_state p = Denied \<and> pa_id p = i) \<and>
     \<not> called (fs_calls st) i \<and> (\<forall>user. (i, user) \<notin> set (fs_inflight st)) "

lemma denied_idle_put:
  assumes "denied_idle i st" and "pa_id q \<noteq> i"
  shows "denied_idle i (put_obj st q)"
  using assms by (auto simp: denied_idle_def)

lemma denied_idle_same:
  assumes "denied_idle i st" and "fs_objs st' = fs_objs st"
    and "\<And>u. (i, u) \<in> set (fs_calls st') \<Longrightarrow> (i, u) \<in> set (fs_calls st)"
    and "\<And>u. (i, u) \<in> set (fs_inflight st') \<Longrightarrow> (i, u) \<in> set (fs_inflight st)"
  shows "denied_idle i st'"
  using assms by (auto simp: denied_idle_def called_def)

lemma rec_id: "fabric_ok st \<Longrightarrow> map_get (fs_objs st) j = Some q \<Longrightarrow> pa_id q = j"
  by (drule (1) fabric_okD(5)) (simp add: rec_ok_def)

lemma denied_idle_step:
  assumes "fabric_step st st'" and ok: "fabric_ok st" and d: "denied_idle i st"
  shows "denied_idle i st'"
proof -
  obtain p where p: "map_get (fs_objs st) i = Some p" "pa_state p = Denied"
    using d by (auto simp: denied_idle_def)
  show ?thesis using assms(1)
  proof cases
    case (requested j meta user now)
    then have "j \<noteq> i" using p by auto
    then have "denied_idle i (put_obj st (held_record meta user j now))"
      by (intro denied_idle_put [OF d]) (simp add: held_record_def)
    then show ?thesis unfolding requested(1)
      by (rule denied_idle_same) (simp_all add: request_def put_obj_def record_approval_def Let_def)
  next
    case (approving j user)
    show ?thesis
    proof (cases "j = i \<or> get_listed st j = None")
      case True
      then have "st' = st" using p unfolding approving by (auto simp: approve_def get_listed_def)
      then show ?thesis using d by simp
    next
      case False
      then obtain q where q: "get_listed st j = Some q" by auto
      have "denied_idle i (put_obj st (q\<lparr>pa_minting := True, pa_decidedByEmail := Some (su_email user)\<rparr>))"
        using rec_id [OF ok conjunct2 [OF get_listed_Some [OF q]]] False by (intro denied_idle_put [OF d]) simp
      then have "denied_idle i ((put_obj st (q\<lparr>pa_minting := True, pa_decidedByEmail := Some (su_email user)\<rparr>))
          \<lparr>fs_inflight := fs_inflight st @ [(j, user)], fs_calls := fs_calls st @ [(j, su_id user)]\<rparr>)"
        using False by (elim denied_idle_same) auto
      then show ?thesis using q d unfolding approving by (simp add: approve_def)
    qed
  next
    case (settled j user outcome now)
    show ?thesis
    proof (cases "map_get (fs_objs st) j")
      case (Some q)
      have j: "j \<noteq> i" using settled d by (auto simp: denied_idle_def)
      let ?q = "scheduleCleanup (q\<lparr>pa_state := (case outcome of Inr _ \<Rightarrow> Approved | Inl _ \<Rightarrow> Error_state), pa_result := Some outcome\<rparr>) now"
      have "denied_idle i (put_obj st ?q)"
        using j rec_id [OF ok Some] by (intro denied_idle_put [OF d]) (simp add: scheduleCleanup_def)
      then show ?thesis using Some unfolding settled
        by (elim denied_idle_same) (auto simp: minted_def Let_def put_obj_def record_approval_def dest: set_remove1_subset [THEN subsetD])
    qed (use d in \<open>simp add: settled(1) minted_def\<close>)
  next
    case (denied j user now)
    show ?thesis
    proof (cases "j = i \<or> get_listed st j = None")
      case True
      then have "st' = st" using p unfolding denied by (auto simp: deny_def get_listed_def)
      then show ?thesis using d by simp
    next
      case False
      then obtain q where q: "get_listed st j = Some q" by auto
      let ?q = "scheduleCleanup (q\<lparr>pa_state := Denied, pa_decidedByEmail := Some (su_email user),
        pa_result := Some (Inl (''Denied by '' @ su_email user @ ''.''))\<rparr>) now"
      have "denied_idle i (put_obj st ?q)"
        using rec_id [OF ok conjunct2 [OF get_listed_Some [OF q]]] False
        by (intro denied_idle_put [OF d]) (simp add: scheduleCleanup_def)
      then have "denied_idle i (put_obj (record_approval st user ''fabric.approval.denied'' a) ?q)" for a
        by (rule denied_idle_same) (simp_all add: put_obj_def record_approval_def)
      then show ?thesis using q d unfolding denied by (simp add: deny_def Let_def)
    qed
  next
    case (fired j now)
    have put: "denied_idle i (put_obj st q)" if "pa_id q = j" "j \<noteq> i" for q
      using that by (intro denied_idle_put [OF d]) simp
    have put2: "denied_idle i (put_obj (st\<lparr>fs_listed := l\<rparr>) q)" if "pa_id q = j" "j \<noteq> i \<or> pa_state q = Denied" for q l
      using that d p by (auto simp: denied_idle_def)
    have put3: "denied_idle i (put_obj st q)" if "pa_id q = j" "pa_state q = Denied" for q
      using that d p by (auto simp: denied_idle_def)
    show ?thesis using d p rec_id [OF ok, of j] put put2 put3 unfolding fired
      by (cases "j = i") (simp_all add: fire_def scheduleCleanup_def split: option.split timer_job.split)
  qed
qed

lemma denied_idle_run: "fabric_run st st' \<Longrightarrow> fabric_ok st \<Longrightarrow> denied_idle i st \<Longrightarrow> denied_idle i st'"
  by (induction rule: fabric_run.induct) (auto intro: denied_idle_step fabric_run_ok)

text \<open>
  A denial given while no approval is under way is final: the session of the request is never
  started and its poll never shows a ticket, whatever follows.
\<close>

theorem denial_is_final:
  assumes "fabric_run no_approvals st" and "get_listed st i = Some p" and "pa_state p = Pending"
    and "\<not> pa_minting p" and "fabric_run (snd (deny st i user now)) st'"
  shows "(i, approver) \<notin> set (fs_calls st') \<and> approval_status st' i requester \<notin> {Inr s | s. as_ticket s \<noteq> None}"
proof -
  have ok: "fabric_ok st" by (rule fabric_run_ok [OF assms(1) no_approvals_ok])
  note r = fabric_okD(5) [OF ok conjunct2 [OF get_listed_Some [OF assms(2)]]]
  have "\<not> called (fs_calls st) i" using r assms(4) by (auto simp: rec_ok_def called_def)
  then have "denied_idle i (snd (deny st i user now))"
    using assms(2,3) r fabric_okD(4) [OF ok]
    by (auto simp: denied_idle_def deny_def scheduleCleanup_def rec_ok_def Let_def)
  from denied_idle_run [OF assms(5) deny_ok [OF ok] this] show ?thesis
    by (auto simp: denied_idle_def called_def approval_status_def get_listed_def split: option.splits if_splits)
qed

section \<open>A run, and what a denial does not stop\<close>

definition operator :: "string \<Rightarrow> session_user" where
  "operator i = \<lparr>su_id = i, su_email = i @ ''@x'', su_displayName = i, su_roleSlug = ''operator'', su_roleName = ''Operator'',
     su_permissions = [''fabric:approve''], su_authProvider = Local_provider\<rparr>"

definition demo_held :: "string approvals" where
  "demo_held = snd (request no_approvals \<lparr>me_agentId = ''ag'', me_agentName = ''box'', me_agentMode = Endpoint,
     me_kind = ''ssh'', me_target = ''h:22''\<rparr> (operator ''ann'') ''req1'' 0)"

definition demo_minted :: "string approvals" where
  "demo_minted = snd (minted (snd (approve demo_held ''req1'' (operator ''bob''))) ''req1'' (operator ''bob'') (Inr ''ticket'') 10)"

lemma demo_held_run: "fabric_run no_approvals demo_held"
  unfolding demo_held_def
  by (rule fabric_run.step [OF fabric_run.here], rule fabric_step.requested) (simp add: no_approvals_def)

lemma demo_minted_run: "fabric_run no_approvals demo_minted"
  unfolding demo_minted_def
  by (rule fabric_run.step [OF fabric_run.step [OF demo_held_run fabric_step.approving]], rule fabric_step.settled) code_simp

theorem four_eyes_witness:
  "\<exists>approver. (''req1'', approver) \<in> set (fs_calls demo_minted) \<and> approver \<noteq> ''ann''"
proof -
  have "case approval_status demo_minted ''req1'' (operator ''ann'') of Inl _ \<Rightarrow> False | Inr s \<Rightarrow> as_ticket s = Some ''ticket''"
    by code_simp
  then obtain s where s: "approval_status demo_minted ''req1'' (operator ''ann'') = Inr s" "as_ticket s \<noteq> None"
    by (auto split: sum.splits)
  have "su_id (operator ''ann'') = ''ann''" by (simp add: operator_def)
  then show ?thesis
    using four_eyes [OF demo_minted_run, THEN conjunct2, THEN conjunct2, rule_format, OF s] by simp
qed

theorem held_request_released_witness:
  "\<exists>due. \<forall>t1 \<ge> due. \<forall>t2 \<ge> t1 + CLEANUP_MS. ''req1'' \<notin> set (fs_listed (fire (fire demo_held ''req1'' t1) ''req1'' t2))"
  by (rule held_request_released [OF demo_held_run]) code_simp

theorem denial_is_final_witness:
  "(''req1'', ''bob'') \<notin> set (fs_calls (snd (approve (snd (deny demo_held ''req1'' (operator ''eve'') 5)) ''req1'' (operator ''bob'')))) \<and>
   approval_status (snd (approve (snd (deny demo_held ''req1'' (operator ''eve'') 5)) ''req1'' (operator ''bob''))) ''req1'' (operator ''ann'')
     \<notin> {Inr s | s. as_ticket s \<noteq> None}"
proof -
  have "case get_listed demo_held ''req1'' of None \<Rightarrow> False | Some p \<Rightarrow> pa_state p = Pending \<and> \<not> pa_minting p" by code_simp
  then obtain p where p: "get_listed demo_held ''req1'' = Some p" "pa_state p = Pending" "\<not> pa_minting p"
    by (auto split: option.splits)
  show ?thesis
    by (rule denial_is_final [OF demo_held_run p fabric_run.step [OF fabric_run.here fabric_step.approving]])
qed

text \<open>
  The latch stops a second approval, not a denial or the expiry: a request denied while its mint is
  under way is answered as denied and audited so, and becomes approved, with its ticket, when the
  mint settles.
\<close>

theorem denial_overtaken_by_mint:
  "case deny (snd (approve demo_held ''req1'' (operator ''bob''))) ''req1'' (operator ''eve'') 5 of
     (answer, st) \<Rightarrow>
       (case answer of Inl _ \<Rightarrow> False | Inr dto \<Rightarrow> ad_state dto = Denied) \<and>
       (case approval_status (snd (minted st ''req1'' (operator ''bob'') (Inr ''ticket'') 6)) ''req1'' (operator ''ann'') of
          Inl _ \<Rightarrow> False | Inr s \<Rightarrow> as_state s = Approved \<and> as_ticket s = Some ''ticket'')"
  by code_simp

text \<open>On an agent that requires approval the request itself never calls the closure.\<close>

lemma gate_holds_session:
  "agents agentId = Some agent \<Longrightarrow> ag_requireApproval agent \<Longrightarrow>
   fst (gate agents st agentId kind host port url user outcome i now) = Held i \<and>
   fs_calls (snd (gate agents st agentId kind host port url user outcome i now)) = fs_calls st"
  by (simp add: gate_def request_def Let_def)

end
