(* ===== verification/Timeline.thy ===== *)
theory Timeline
  imports Rbac "HOL-Library.Multiset" "HOL-Library.Char_ord" "HOL-Library.List_Lexorder"
begin

text \<open>
  The event timeline: the mappers of \<^verbatim>\<open>timeline/timeline.mappers.ts\<close>, the filter of the live bus
  \<^verbatim>\<open>timeline/timeline-bus.ts\<close> and the paged query over the seven event tables,
  \<^verbatim>\<open>timeline/timeline.service.ts\<close>. A timestamp is the time it prints (the ISO texts of the years in
  use sort alike). A table is the list of its rows; \<^verbatim>\<open>findMany\<close> with an order and a limit is \<open>fetch\<close>.
\<close>

section \<open>Events\<close>

record tl_event =
  te_id :: string
  te_ts :: time
  te_kind :: string
  te_severity :: string
  te_title :: string
  te_detail :: "string option"
  te_actorId :: "string option"
  te_actorEmail :: "string option"
  te_source :: "string option"
  te_meta :: json

record audit_log_row =
  lr_id :: string
  lr_createdAt :: time
  lr_actorId :: "string option"
  lr_actorEmail :: "string option"
  lr_action :: string
  lr_target :: "string option"
  lr_meta :: json

record app_log_row =
  ar_id :: string
  ar_createdAt :: time
  ar_level :: string
  ar_context :: string
  ar_message :: string
  ar_meta :: json

record notification_row =
  nr_id :: string
  nr_createdAt :: time
  nr_title :: string
  nr_severity :: string
  nr_status :: string
  nr_channel :: string
  nr_recipients :: int
  nr_connectorId :: "string option"
  nr_source :: "string option"
  nr_detail :: "string option"
  nr_alertKey :: "string option"

record backup_run_row =
  br_id :: string
  br_startedAt :: time
  br_finishedAt :: "time option"
  br_connectorInstanceId :: string
  br_trigger :: string
  br_status :: string
  br_message :: "string option"

record stack_backup_run_row =
  sb_id :: string
  sb_startedAt :: time
  sb_finishedAt :: "time option"
  sb_connectorInstanceId :: string
  sb_stackName :: string
  sb_trigger :: string
  sb_status :: string
  sb_message :: "string option"
  sb_snapshotId :: "string option"

record stack_restore_run_row =
  sr_id :: string
  sr_startedAt :: time
  sr_finishedAt :: "time option"
  sr_destInstanceId :: string
  sr_sourceStackName :: string
  sr_destStackName :: string
  sr_status :: string
  sr_message :: "string option"
  sr_snapshotId :: string

record heartbeat_row =
  hb_id :: int
  hb_at :: time
  hb_monitorId :: string
  hb_monitorName :: "string option"
  hb_status :: string
  hb_latencyMs :: "int option"
  hb_message :: "string option"
  hb_important :: bool

section \<open>Mappers\<close>

definition cap_first :: "string \<Rightarrow> string" where
  "cap_first s = (case s of [] \<Rightarrow> [] | c # cs \<Rightarrow> upper_char c # cs)"

definition auditSeverity :: "string \<Rightarrow> string" where
  "auditSeverity action =
     (let a = to_lower action
      in if list_ex (str_includes a) [''fail'', ''denied'', ''error'', ''delete'', ''revoke''] then ''warning'' else ''info'')"

definition humanizeAction :: "string \<Rightarrow> string" where
  "humanizeAction action = cap_first (trim (map (\<lambda>c. if c = CHR ''.'' \<or> c = CHR ''_'' then CHR '' '' else c) action))"

definition or_null :: "string option \<Rightarrow> json" where
  "or_null v = (case v of None \<Rightarrow> JNull | Some s \<Rightarrow> JStr s)"

definition time_or_null :: "time option \<Rightarrow> json" where
  "time_or_null v = (case v of None \<Rightarrow> JNull | Some t \<Rightarrow> JNum t)"

definition num_or_null :: "int option \<Rightarrow> json" where
  "num_or_null v = (case v of None \<Rightarrow> JNull | Some n \<Rightarrow> JNum n)"

definition filled :: "string option \<Rightarrow> bool" where
  "filled v = (case v of None \<Rightarrow> False | Some s \<Rightarrow> s \<noteq> [])"

text \<open>The connector id an audit record may carry, when it is a string.\<close>

definition meta_connector :: "json \<Rightarrow> string option" where
  "meta_connector m = (case m of JObj ob \<Rightarrow> (case obj_get ob ''connectorId'' of JStr s \<Rightarrow> Some s | _ \<Rightarrow> None) | _ \<Rightarrow> None)"

definition null_meta :: "json \<Rightarrow> json" where
  "null_meta m = (if m = JUndef then JNull else m)"

definition mapAuditRow :: "audit_log_row \<Rightarrow> tl_event" where
  "mapAuditRow r =
     (let actor = filled (lr_actorId r) \<or> filled (lr_actorEmail r)
      in \<lparr>te_id = ''audit:'' @ lr_id r, te_ts = lr_createdAt r, te_kind = ''audit'',
          te_severity = auditSeverity (lr_action r),
          te_title = humanizeAction (lr_action r) @ (if filled (lr_target r) then '' '' @ em_dash @ '' '' @ the (lr_target r) else []),
          te_detail = None,
          te_actorId = (if actor then lr_actorId r else None), te_actorEmail = (if actor then lr_actorEmail r else None),
          te_source = meta_connector (lr_meta r), te_meta = null_meta (lr_meta r)\<rparr>)"

definition mapAppLogRow :: "app_log_row \<Rightarrow> tl_event" where
  "mapAppLogRow r =
     \<lparr>te_id = ''app_log:'' @ ar_id r, te_ts = ar_createdAt r, te_kind = ''app_log'',
      te_severity = (if ar_level r = ''error'' then ''critical'' else ''warning''),
      te_title = ar_context r @ '': '' @ ar_message r, te_detail = None, te_actorId = None, te_actorEmail = None,
      te_source = Some (ar_context r), te_meta = null_meta (ar_meta r)\<rparr>"

definition mid_dot :: string where "mid_dot = map char_of [194, 183 :: nat]"

definition mapNotificationRow :: "notification_row \<Rightarrow> tl_event" where
  "mapNotificationRow r =
     \<lparr>te_id = ''notification:'' @ nr_id r, te_ts = nr_createdAt r, te_kind = ''notification'',
      te_severity = (if nr_status r = ''failed'' then ''critical'' else if nr_severity r = ''critical'' then ''critical''
        else if nr_severity r = ''warning'' then ''warning'' else ''info''),
      te_title = nr_title r,
      te_detail = Some (case nr_detail r of Some d \<Rightarrow> d | None \<Rightarrow> nr_channel r @ '' '' @ mid_dot @ '' '' @ nr_status r),
      te_actorId = None, te_actorEmail = None,
      te_source = (case nr_connectorId r of Some c \<Rightarrow> Some c | None \<Rightarrow> nr_source r),
      te_meta = JObj [(''channel'', JStr (nr_channel r)), (''status'', JStr (nr_status r)),
        (''recipients'', JNum (nr_recipients r)), (''alertKey'', or_null (nr_alertKey r))]\<rparr>"

definition run_severity :: "string \<Rightarrow> string \<Rightarrow> string" where
  "run_severity status otherwise =
     (if status = ''error'' then ''critical'' else if status = ''success'' then ''success'' else otherwise)"

definition mapBackupRunRow :: "backup_run_row \<Rightarrow> tl_event" where
  "mapBackupRunRow r =
     \<lparr>te_id = ''job:'' @ br_id r, te_ts = br_startedAt r, te_kind = ''job'', te_severity = run_severity (br_status r) ''info'',
      te_title = cap_first (br_trigger r) @ '' job '' @ br_status r, te_detail = br_message r,
      te_actorId = None, te_actorEmail = None, te_source = Some (br_connectorInstanceId r),
      te_meta = JObj [(''trigger'', JStr (br_trigger r)), (''status'', JStr (br_status r)),
        (''finishedAt'', time_or_null (br_finishedAt r))]\<rparr>"

definition mapStackBackupRunRow :: "stack_backup_run_row \<Rightarrow> tl_event" where
  "mapStackBackupRunRow r =
     \<lparr>te_id = ''stackbackup:'' @ sb_id r, te_ts = sb_startedAt r, te_kind = ''job'',
      te_severity = run_severity (sb_status r) ''info'',
      te_title = cap_first (sb_trigger r) @ '' stack backup '' @ sb_status r @ '': '' @ sb_stackName r, te_detail = sb_message r,
      te_actorId = None, te_actorEmail = None, te_source = Some (sb_connectorInstanceId r),
      te_meta = JObj [(''stack'', JStr (sb_stackName r)), (''trigger'', JStr (sb_trigger r)), (''status'', JStr (sb_status r)),
        (''snapshotId'', or_null (sb_snapshotId r)), (''finishedAt'', time_or_null (sb_finishedAt r))]\<rparr>"

definition r_arrow :: string where "r_arrow = map char_of [226, 134, 146 :: nat]"

definition mapStackRestoreRunRow :: "stack_restore_run_row \<Rightarrow> tl_event" where
  "mapStackRestoreRunRow r =
     \<lparr>te_id = ''stackrestore:'' @ sr_id r, te_ts = sr_startedAt r, te_kind = ''job'',
      te_severity = run_severity (sr_status r) ''warning'',
      te_title = ''Stack restore '' @ sr_status r @ '': '' @ sr_sourceStackName r @ '' '' @ r_arrow @ '' '' @ sr_destStackName r,
      te_detail = sr_message r, te_actorId = None, te_actorEmail = None, te_source = Some (sr_destInstanceId r),
      te_meta = JObj [(''sourceStack'', JStr (sr_sourceStackName r)), (''destStack'', JStr (sr_destStackName r)),
        (''snapshotId'', JStr (sr_snapshotId r)), (''status'', JStr (sr_status r)),
        (''finishedAt'', time_or_null (sr_finishedAt r))]\<rparr>"

definition mapMonitorHeartbeatRow :: "heartbeat_row \<Rightarrow> tl_event" where
  "mapMonitorHeartbeatRow r =
     \<lparr>te_id = ''monitor:'' @ show_int (hb_id r), te_ts = hb_at r, te_kind = ''monitor'',
      te_severity = (if hb_status r = ''down'' then ''critical'' else if hb_status r = ''up'' then ''success'' else ''info''),
      te_title = (case hb_monitorName r of None \<Rightarrow> ''Monitor'' | Some n \<Rightarrow> n) @ '' is '' @ hb_status r,
      te_detail = hb_message r, te_actorId = None, te_actorEmail = None, te_source = Some (hb_monitorId r),
      te_meta = JObj [(''status'', JStr (hb_status r)), (''latencyMs'', num_or_null (hb_latencyMs r))]\<rparr>"

section \<open>Queries\<close>

record tl_query =
  tq_kinds :: "string list"
  tq_severities :: "string list"
  tq_source :: "string option"
  tq_actorId :: "string option"
  tq_text :: "string option"
  tq_before :: "time option"
  tq_limit :: "int option option"

definition contains :: "string \<Rightarrow> string \<Rightarrow> bool" where
  "contains s part = str_includes (to_lower s) (to_lower part)"

definition opt_contains :: "string option \<Rightarrow> string \<Rightarrow> bool" where
  "opt_contains v part = (case v of None \<Rightarrow> False | Some s \<Rightarrow> contains s part)"

text \<open>The filter of the live stream.\<close>

definition or_blank :: "string option \<Rightarrow> string" where
  "or_blank v = (case v of None \<Rightarrow> [] | Some s \<Rightarrow> s)"

definition bus_matches :: "tl_event \<Rightarrow> tl_query \<Rightarrow> bool" where
  "bus_matches e q \<longleftrightarrow>
     (tq_kinds q \<noteq> [] \<longrightarrow> te_kind e \<in> set (tq_kinds q)) \<and>
     (tq_severities q \<noteq> [] \<longrightarrow> te_severity e \<in> set (tq_severities q)) \<and>
     (filled (tq_actorId q) \<longrightarrow> te_actorId e = tq_actorId q) \<and>
     (filled (tq_source q) \<longrightarrow> contains (or_blank (te_source e)) (the (tq_source q))) \<and>
     (filled (tq_text q) \<longrightarrow> contains (te_title e @ '' '' @ or_blank (te_detail e)) (the (tq_text q)))"

record event_tables =
  tb_audit :: "audit_log_row list"
  tb_app :: "app_log_row list"
  tb_notification :: "notification_row list"
  tb_backup :: "backup_run_row list"
  tb_stack_backup :: "stack_backup_run_row list"
  tb_stack_restore :: "stack_restore_run_row list"
  tb_heartbeat :: "heartbeat_row list"

definition older :: "time option \<Rightarrow> time \<Rightarrow> bool" where
  "older before t = (case before of None \<Rightarrow> True | Some b \<Rightarrow> t < b)"

text \<open>The most recent \<open>limit\<close> rows of a table that satisfy a condition and are older than the cursor.\<close>

definition fetch :: "('r \<Rightarrow> time) \<Rightarrow> ('r \<Rightarrow> bool) \<Rightarrow> time option \<Rightarrow> nat \<Rightarrow> 'r list \<Rightarrow> 'r list" where
  "fetch at keep before limit rows = take limit (sort_key (\<lambda>r. - at r) (filter (\<lambda>r. keep r \<and> older before (at r)) rows))"

text \<open>\<^verbatim>\<open>textWhere\<close>: one of the fields contains the text, if there is one.\<close>

definition textWhere :: "string option \<Rightarrow> string option list \<Rightarrow> bool" where
  "textWhere text vals = (if filled text then list_ex (\<lambda>f. opt_contains f (the text)) vals else True)"

definition source_is :: "string option \<Rightarrow> string option \<Rightarrow> bool" where
  "source_is source v = (if filled source then opt_contains v (the source) else True)"

definition audit_where :: "tl_query \<Rightarrow> audit_log_row \<Rightarrow> bool" where
  "audit_where q r \<longleftrightarrow>
     (tq_actorId q \<noteq> None \<longrightarrow> lr_actorId r = tq_actorId q) \<and>
     textWhere (tq_text q) [Some (lr_action r), lr_target r, lr_actorEmail r]"

definition matchesSource :: "tl_event \<Rightarrow> string option \<Rightarrow> bool" where
  "matchesSource e source = (if filled source then contains (or_blank (te_source e)) (the source) else True)"

definition fromAudit :: "event_tables \<Rightarrow> tl_query \<Rightarrow> nat \<Rightarrow> tl_event list" where
  "fromAudit db q limit =
     filter (\<lambda>e. matchesSource e (tq_source q))
       (map mapAuditRow (fetch lr_createdAt (audit_where q) (tq_before q) limit (tb_audit db)))"

definition app_where :: "tl_query \<Rightarrow> app_log_row \<Rightarrow> bool" where
  "app_where q r \<longleftrightarrow> ar_level r \<in> {''warn'', ''error''} \<and> source_is (tq_source q) (Some (ar_context r)) \<and>
     textWhere (tq_text q) [Some (ar_message r), Some (ar_context r)]"

definition fromAppLog :: "event_tables \<Rightarrow> tl_query \<Rightarrow> nat \<Rightarrow> tl_event list" where
  "fromAppLog db q limit = map mapAppLogRow (fetch ar_createdAt (app_where q) (tq_before q) limit (tb_app db))"

text \<open>The condition on the text is spread over the object and replaces the condition on the source.\<close>

definition notification_where :: "tl_query \<Rightarrow> notification_row \<Rightarrow> bool" where
  "notification_where q r \<longleftrightarrow>
     (if filled (tq_text q) then textWhere (tq_text q) [Some (nr_title r), nr_detail r]
      else if filled (tq_source q)
      then opt_contains (nr_connectorId r) (the (tq_source q)) \<or> opt_contains (nr_source r) (the (tq_source q))
      else True)"

definition fromNotifications :: "event_tables \<Rightarrow> tl_query \<Rightarrow> nat \<Rightarrow> tl_event list" where
  "fromNotifications db q limit =
     map mapNotificationRow (fetch nr_createdAt (notification_where q) (tq_before q) limit (tb_notification db))"

definition backup_where :: "tl_query \<Rightarrow> backup_run_row \<Rightarrow> bool" where
  "backup_where q r \<longleftrightarrow> source_is (tq_source q) (Some (br_connectorInstanceId r)) \<and>
     textWhere (tq_text q) [br_message r, Some (br_trigger r)]"

definition stack_backup_where :: "tl_query \<Rightarrow> stack_backup_run_row \<Rightarrow> bool" where
  "stack_backup_where q r \<longleftrightarrow> source_is (tq_source q) (Some (sb_connectorInstanceId r)) \<and>
     textWhere (tq_text q) [sb_message r, Some (sb_stackName r), Some (sb_trigger r)]"

definition stack_restore_where :: "tl_query \<Rightarrow> stack_restore_run_row \<Rightarrow> bool" where
  "stack_restore_where q r \<longleftrightarrow> source_is (tq_source q) (Some (sr_destInstanceId r)) \<and>
     textWhere (tq_text q) [sr_message r, Some (sr_sourceStackName r), Some (sr_destStackName r)]"

definition fromJobs :: "event_tables \<Rightarrow> tl_query \<Rightarrow> nat \<Rightarrow> tl_event list" where
  "fromJobs db q limit =
     map mapBackupRunRow (fetch br_startedAt (backup_where q) (tq_before q) limit (tb_backup db)) @
     map mapStackBackupRunRow (fetch sb_startedAt (stack_backup_where q) (tq_before q) limit (tb_stack_backup db)) @
     map mapStackRestoreRunRow (fetch sr_startedAt (stack_restore_where q) (tq_before q) limit (tb_stack_restore db))"

definition heartbeat_where :: "tl_query \<Rightarrow> heartbeat_row \<Rightarrow> bool" where
  "heartbeat_where q r \<longleftrightarrow> hb_important r \<and> source_is (tq_source q) (Some (hb_monitorId r)) \<and>
     textWhere (tq_text q) [hb_message r]"

definition fromMonitors :: "event_tables \<Rightarrow> tl_query \<Rightarrow> nat \<Rightarrow> tl_event list" where
  "fromMonitors db q limit =
     map mapMonitorHeartbeatRow (fetch hb_at (heartbeat_where q) (tq_before q) limit (tb_heartbeat db))"

text \<open>Newest first; among equal times the larger id first.\<close>

definition by_ts :: "tl_event list \<Rightarrow> tl_event list" where
  "by_ts es = sort_key (\<lambda>e. - te_ts e) (rev (sort_key te_id es))"

record tl_page =
  tp_events :: "tl_event list"
  tp_nextCursor :: "time option"

text \<open>The limit asked for, within bounds; \<^verbatim>\<open>NaN\<close> stays \<^verbatim>\<open>NaN\<close> (\<open>None\<close>).\<close>

definition page_limit :: "tl_query \<Rightarrow> nat option" where
  "page_limit q = (case tq_limit q of
     None \<Rightarrow> Some 100
   | Some None \<Rightarrow> None
   | Some (Some l) \<Rightarrow> Some (nat (min (max l 1) 500)))"

definition wants :: "tl_query \<Rightarrow> string \<Rightarrow> bool" where
  "wants q k \<longleftrightarrow> tq_kinds q = [] \<or> k \<in> set (tq_kinds q)"

definition batches :: "event_tables \<Rightarrow> tl_query \<Rightarrow> nat \<Rightarrow> tl_event list list" where
  "batches db q limit =
     (let others = (\<lambda>k f. if wants q k \<and> \<not> filled (tq_actorId q) then f db q limit else [])
      in [if wants q ''audit'' then fromAudit db q limit else [],
          others ''app_log'' fromAppLog, others ''notification'' fromNotifications,
          others ''job'' fromJobs, others ''monitor'' fromMonitors])"

definition timeline_page :: "event_tables \<Rightarrow> tl_query \<Rightarrow> nat \<Rightarrow> tl_page" where
  "timeline_page db q limit =
     (let bs = batches db q limit;
          raw = by_ts (concat bs);
          anyCapped = list_ex (\<lambda>b. length b \<ge> limit) bs;
          events = (if tq_severities q \<noteq> [] then filter (\<lambda>e. te_severity e \<in> set (tq_severities q)) raw else raw);
          page = take limit events;
          hasMore = anyCapped \<or> length events > limit
      in \<lparr>tp_events = page,
          tp_nextCursor =
            (if \<not> hasMore then None
             else if page \<noteq> [] then Some (te_ts (last page))
             else if raw \<noteq> [] then Some (te_ts (last raw)) else None)\<rparr>)"

text \<open>A limit that is not a number is refused by the database when a table is asked at all.\<close>

definition asks_table :: "tl_query \<Rightarrow> bool" where
  "asks_table q \<longleftrightarrow> wants q ''audit'' \<or>
     (\<not> filled (tq_actorId q) \<and> list_ex (wants q) [''app_log'', ''notification'', ''job'', ''monitor''])"

definition timeline_query :: "event_tables \<Rightarrow> tl_query \<Rightarrow> tl_page option" where
  "timeline_query db q =
     (case page_limit q of
        Some limit \<Rightarrow> Some (timeline_page db q limit)
      | None \<Rightarrow> if asks_table q then None else Some \<lparr>tp_events = [], tp_nextCursor = None\<rparr>)"

section \<open>The endpoints\<close>

definition TIMELINE_KINDS :: "string list" where
  "TIMELINE_KINDS = [''audit'', ''app_log'', ''notification'', ''job'', ''monitor'']"

definition csv :: "string option \<Rightarrow> string list" where
  "csv v = (if filled v then filter (\<lambda>s. s \<noteq> []) (map trim (split_on CHR '','' (the v))) else [])"

text \<open>\<^verbatim>\<open>parseInt(s, 10)\<close>.\<close>

definition parse_int :: "string \<Rightarrow> int option" where
  "parse_int s =
     (let t = trim_start s; neg = starts_with t ''-''; u = (if neg \<or> starts_with t ''+'' then tl t else t);
          ds = takeWhile is_digit u
      in if ds = [] then None else Some (if neg then - int (read_nat ds) else int (read_nat ds)))"

text \<open>The query parameters; the cursor is the time it prints.\<close>

record raw_query =
  rq_kinds :: "string option"
  rq_severities :: "string option"
  rq_source :: "string option"
  rq_actorId :: "string option"
  rq_text :: "string option"
  rq_before :: "time option"
  rq_limit :: "string option"

definition non_empty :: "string option \<Rightarrow> string option" where
  "non_empty v = (if filled v then v else None)"

definition requested_kinds :: "string list option \<Rightarrow> raw_query \<Rightarrow> string list" where
  "requested_kinds perms raw =
     (let requestedKinds = filter (\<lambda>k. k \<in> set TIMELINE_KINDS) (csv (rq_kinds raw))
      in if \<not> hasPermission perms ''audit:read''
         then filter (\<lambda>k. k \<noteq> ''audit'') (if requestedKinds \<noteq> [] then requestedKinds else TIMELINE_KINDS)
         else requestedKinds)"

definition buildQuery :: "string list option \<Rightarrow> raw_query \<Rightarrow> tl_query" where
  "buildQuery perms raw =
     \<lparr>tq_kinds = requested_kinds perms raw, tq_severities = csv (rq_severities raw), tq_source = non_empty (rq_source raw),
      tq_actorId = non_empty (rq_actorId raw), tq_text = non_empty (rq_text raw), tq_before = rq_before raw,
      tq_limit = (if filled (rq_limit raw) then Some (parse_int (the (rq_limit raw))) else None)\<rparr>"

definition timeline_list :: "event_tables \<Rightarrow> string list option \<Rightarrow> raw_query \<Rightarrow> tl_page option" where
  "timeline_list db perms raw = timeline_query db (buildQuery perms raw)"

text \<open>The live stream passes on the published events that match.\<close>

definition timeline_live :: "string list option \<Rightarrow> raw_query \<Rightarrow> tl_event list \<Rightarrow> tl_event list" where
  "timeline_live perms raw published =
     (let q = buildQuery perms (raw\<lparr>rq_before := None, rq_limit := None\<rparr>) in filter (\<lambda>e. bus_matches e q) published)"

section \<open>The newest events of several lists\<close>

abbreviation age :: "tl_event \<Rightarrow> int" where
  "age e \<equiv> - te_ts e"

definition newest :: "nat \<Rightarrow> tl_event list \<Rightarrow> tl_event list" where
  "newest n es = take n (sort_key age es)"

abbreviation distinct_times :: "tl_event list \<Rightarrow> bool" where
  "distinct_times es \<equiv> distinct (map te_ts es)"

lemma distinct_times_inj: "distinct_times es \<Longrightarrow> inj_on age (set es)"
  by (auto simp: distinct_map inj_on_def)

lemma sort_age_unique:
  assumes "distinct_times ys" and "distinct xs" and "set xs = set ys" and "sorted (map age xs)"
  shows "sort_key age ys = xs"
proof -
  have ys: "distinct ys" using assms(1) by (simp add: distinct_map)
  have "map age (sort_key age ys) = map age xs"
    by (rule sorted_distinct_set_unique)
      (use assms ys distinct_times_inj [OF assms(1)] in \<open>auto simp: distinct_map\<close>)
  then show ?thesis
    by (rule map_inj_on) (use assms distinct_times_inj [OF assms(1)] in simp)
qed

lemma set_by_ts [simp]: "set (by_ts es) = set es"
  by (simp add: by_ts_def)

lemma by_ts_sort: "distinct_times es \<Longrightarrow> by_ts es = sort_key age es"
  unfolding by_ts_def
  by (rule sort_age_unique)
    (auto simp: distinct_map intro: comp_inj_on)

lemma sort_age_part:
  assumes "distinct_times xs" and "set ys \<subseteq> set xs" and "distinct ys"
  shows "sort_key age ys = filter (\<lambda>e. e \<in> set ys) (sort_key age xs)"
proof (rule sort_age_unique)
  show "distinct_times ys" using assms by (auto simp: distinct_map intro: inj_on_subset)
  show "distinct (filter (\<lambda>e. e \<in> set ys) (sort_key age xs))" using assms(1) by (simp add: distinct_map)
  show "set (filter (\<lambda>e. e \<in> set ys) (sort_key age xs)) = set ys" using assms(2) by auto
  show "sorted (map age (filter (\<lambda>e. e \<in> set ys) (sort_key age xs)))" by (simp add: sorted_filter)
qed

lemma take_filter_superset:
  assumes "\<And>x. x \<in> set (take n xs) \<Longrightarrow> P x"
  shows "take n (filter P xs) = take n xs"
proof -
  have "filter P xs = filter P (take n xs) @ filter P (drop n xs)"
    by (metis append_take_drop_id filter_append)
  also have "filter P (take n xs) = take n xs" using assms by (simp add: filter_id_conv)
  finally have split: "filter P xs = take n xs @ filter P (drop n xs)" .
  show ?thesis
  proof (cases "n \<le> length xs")
    case True then show ?thesis by (simp add: split)
  next
    case False then show ?thesis by (simp add: split)
  qed
qed

lemma in_take_filter: "x \<in> set (take n xs) \<Longrightarrow> P x \<Longrightarrow> x \<in> set (take n (filter P xs))"
proof (induction xs arbitrary: n)
  case (Cons y ys)
  show ?case
  proof (cases n)
    case (Suc m)
    have "x \<in> set (take m (filter P ys)) \<Longrightarrow> x \<in> set (take n (filter P ys))"
      using set_take_subset_set_take [of m n "filter P ys"] Suc by auto
    then show ?thesis using Cons Suc by auto
  qed (use Cons in simp)
qed simp

lemma set_newest_subset: "set (newest n es) \<subseteq> set es"
  unfolding newest_def using set_take_subset [of n "sort_key age es"] by simp

text \<open>The newest of the newest of each list are the newest of all.\<close>

lemma newest_concat:
  assumes dt: "distinct_times (concat xss)"
  shows "newest n (concat (map (newest n) xss)) = newest n (concat xss)"
proof -
  let ?all = "concat xss" and ?part = "concat (map (newest n) xss)"
  have sub: "set ?part \<subseteq> set ?all"
    using set_newest_subset by fastforce
  have dp: "distinct ?part"
    using dt
  proof (induction xss)
    case (Cons xs xss)
    have "set (newest n xs) \<subseteq> set xs" and "set (concat (map (newest n) xss)) \<subseteq> set (concat xss)"
      using set_newest_subset by fastforce+
    moreover have "distinct (newest n xs)" using Cons.prems by (simp add: newest_def distinct_map)
    moreover have "distinct_times (concat xss)" using Cons.prems by simp
    moreover have "set xs \<inter> set (concat xss) = {}" using Cons.prems by (auto simp: distinct_map)
    ultimately show ?case using Cons.IH by fastforce
  qed simp
  have top: "e \<in> set ?part" if e: "e \<in> set (newest n ?all)" for e
  proof -
    have "e \<in> set ?all" using e set_newest_subset by blast
    then obtain xs where xs: "xs \<in> set xss" "e \<in> set xs" by auto
    have "distinct xs" using dt xs(1) by (auto simp: distinct_map distinct_concat_iff)
    then have "sort_key age xs = filter (\<lambda>e. e \<in> set xs) (sort_key age ?all)"
      using xs(1) by (intro sort_age_part [OF dt]) auto
    then have "e \<in> set (newest n xs)" using e xs(2) by (simp add: newest_def in_take_filter)
    then show ?thesis using xs(1) by auto
  qed
  have "newest n ?part = take n (filter (\<lambda>e. e \<in> set ?part) (sort_key age ?all))"
    unfolding newest_def [of n ?part] by (rule arg_cong [where f = "take n"], rule sort_age_part [OF dt sub dp])
  also have "\<dots> = newest n ?all"
    unfolding newest_def [of n ?all] by (rule take_filter_superset) (use top in \<open>simp add: newest_def [of n ?all]\<close>)
  finally show ?thesis .
qed


section \<open>Pages\<close>

lemma map_sort_key: "map m (sort_key (f \<circ> m) xs) = sort_key f (map m xs)"
proof -
  have "map m (insort_key (f \<circ> m) x ys) = insort_key f (m x) (map m ys)" for x ys
    by (induction ys) auto
  then show ?thesis by (induction xs) auto
qed

lemma map_fetch:
  assumes "\<And>r. te_ts (m r) = at r"
  shows "map m (fetch at keep before n rows) =
    newest n (filter (\<lambda>e. older before (te_ts e)) (map m (filter keep rows)))"
proof -
  have "(\<lambda>r. - at r) = age \<circ> m" using assms by (auto simp: fun_eq_iff)
  then have "map m (fetch at keep before n rows) = take n (sort_key age (map m (filter (\<lambda>r. keep r \<and> older before (at r)) rows)))"
    unfolding fetch_def by (simp add: take_map [symmetric] map_sort_key)
  also have "map m (filter (\<lambda>r. keep r \<and> older before (at r)) rows) = filter (\<lambda>e. older before (te_ts e)) (map m (filter keep rows))"
    by (simp add: filter_map comp_def assms conj_commute)
  finally show ?thesis by (simp add: newest_def)
qed

lemmas mapper_defs = mapAuditRow_def mapAppLogRow_def mapNotificationRow_def mapBackupRunRow_def
  mapStackBackupRunRow_def mapStackRestoreRunRow_def mapMonitorHeartbeatRow_def

lemma mapper_ts:
  "te_ts (mapAuditRow a) = lr_createdAt a" "te_ts (mapAppLogRow l) = ar_createdAt l"
  "te_ts (mapNotificationRow n) = nr_createdAt n" "te_ts (mapBackupRunRow b) = br_startedAt b"
  "te_ts (mapStackBackupRunRow s) = sb_startedAt s" "te_ts (mapStackRestoreRunRow t) = sr_startedAt t"
  "te_ts (mapMonitorHeartbeatRow h) = hb_at h"
  by (simp_all add: mapper_defs Let_def)

lemma mapper_kind:
  "te_kind (mapAuditRow a) = ''audit''" "te_kind (mapAppLogRow l) = ''app_log''"
  "te_kind (mapNotificationRow n) = ''notification''" "te_kind (mapBackupRunRow b) = ''job''"
  "te_kind (mapStackBackupRunRow s) = ''job''" "te_kind (mapStackRestoreRunRow t) = ''job''"
  "te_kind (mapMonitorHeartbeatRow h) = ''monitor''"
  by (simp_all add: mapper_defs Let_def)

text \<open>The events a query is about, table by table (the tables of one source together), whatever the page.\<close>

definition source_events :: "event_tables \<Rightarrow> tl_query \<Rightarrow> tl_event list list list" where
  "source_events db q =
     (let others = (\<lambda>k ess. if wants q k \<and> \<not> filled (tq_actorId q) then ess else [])
      in [if wants q ''audit''
          then [filter (\<lambda>e. matchesSource e (tq_source q)) (map mapAuditRow (filter (audit_where q) (tb_audit db)))] else [],
          others ''app_log'' [map mapAppLogRow (filter (app_where q) (tb_app db))],
          others ''notification'' [map mapNotificationRow (filter (notification_where q) (tb_notification db))],
          others ''job'' [map mapBackupRunRow (filter (backup_where q) (tb_backup db)),
            map mapStackBackupRunRow (filter (stack_backup_where q) (tb_stack_backup db)),
            map mapStackRestoreRunRow (filter (stack_restore_where q) (tb_stack_restore db))],
          others ''monitor'' [map mapMonitorHeartbeatRow (filter (heartbeat_where q) (tb_heartbeat db))]])"

definition matching_events :: "event_tables \<Rightarrow> tl_query \<Rightarrow> tl_event list" where
  "matching_events db q = concat (concat (source_events db q))"

definition older_events :: "tl_query \<Rightarrow> tl_event list \<Rightarrow> tl_event list" where
  "older_events q es = filter (\<lambda>e. older (tq_before q) (te_ts e)) es"

lemma newest_Nil [simp]: "newest n [] = []"
  by (simp add: newest_def)

lemma length_newest: "length (newest n es) = min n (length es)"
  by (simp add: newest_def)

lemma batches_sources:
  assumes "\<not> filled (tq_source q)"
  shows "batches db q n = map (\<lambda>g. concat (map (newest n) (map (older_events q) g))) (source_events db q)"
  using assms
  by (simp add: batches_def source_events_def Let_def fromAudit_def fromAppLog_def fromNotifications_def fromJobs_def
      fromMonitors_def matchesSource_def map_fetch mapper_ts older_events_def)

lemma older_events_concat: "concat (map (older_events q) xss) = older_events q (concat xss)"
  by (induction xss) (simp_all add: older_events_def)

lemma older_events_append: "older_events q (xs @ ys) = older_events q xs @ older_events q ys"
  by (simp add: older_events_def)

lemma concat_batches:
  assumes "\<not> filled (tq_source q)"
  shows "concat (batches db q n) = concat (map (newest n) (map (older_events q) (concat (source_events db q))))"
proof -
  have "concat (map (\<lambda>g. concat (map (newest n) (map (older_events q) g))) gs) =
      concat (map (newest n) (map (older_events q) (concat gs)))" for gs
    by (induction gs) simp_all
  then show ?thesis by (simp only: batches_sources [OF assms])
qed

text \<open>When no source filled its page, every source was read to its end.\<close>

lemma length_concat_newest:
  "length (concat (map (newest n) xss)) < n \<Longrightarrow> length (concat (map (newest n) xss)) = length (concat xss)"
  by (induction xss) (auto simp: length_newest)

lemma uncapped_complete:
  assumes src: "\<not> filled (tq_source q)" and "\<not> list_ex (\<lambda>b. length b \<ge> n) (batches db q n)"
  shows "length (concat (batches db q n)) = length (older_events q (matching_events db q))"
proof -
  have "length (concat (map (\<lambda>g. concat (map (newest n) (map (older_events q) g))) gs)) =
      length (older_events q (concat (concat gs)))"
    if "\<forall>g \<in> set gs. length (concat (map (newest n) (map (older_events q) g))) < n" for gs
    using that
  proof (induction gs)
    case (Cons g gs)
    have "length (concat (map (newest n) (map (older_events q) g))) = length (older_events q (concat g))"
      using Cons.prems by (simp only: length_concat_newest list.set_intros older_events_concat)
    then show ?case using Cons by (simp add: older_events_append)
  qed (simp add: older_events_def)
  then show ?thesis
    using assms(2) by (simp add: batches_sources [OF src] matching_events_def list_ex_iff not_le)
qed

lemma distinct_older: "distinct_times es \<Longrightarrow> distinct_times (older_events q es)"
  unfolding older_events_def by (rule distinct_map_filter)

lemma sort_age_Nil [simp]: "sort_key f xs = [] \<longleftrightarrow> xs = []"
  by (metis set_sort set_empty)

lemma page_facts:
  assumes src: "\<not> filled (tq_source q)" and sev: "tq_severities q = []" and dt: "distinct_times (matching_events db q)"
    and n: "0 < n"
  shows "tp_events (timeline_page db q n) = newest n (older_events q (matching_events db q))"
    and "tp_nextCursor (timeline_page db q n) = None \<Longrightarrow> length (older_events q (matching_events db q)) \<le> n"
    and "tp_nextCursor (timeline_page db q n) = Some c \<Longrightarrow>
      tp_events (timeline_page db q n) \<noteq> [] \<and> c = te_ts (last (tp_events (timeline_page db q n)))"
proof -
  let ?es = "older_events q (matching_events db q)" and ?bs = "batches db q n"
  have es: "?es = concat (map (older_events q) (concat (source_events db q)))"
    by (simp only: older_events_concat matching_events_def)
  have dte: "distinct_times ?es" using dt by (rule distinct_older)
  have dtb: "distinct_times (concat ?bs)"
  proof -
    have "distinct_times (concat (map (newest n) xss))" if "distinct_times (concat xss)" for xss
      using that
    proof (induction xss)
      case (Cons xs xss)
      have "te_ts ` set (newest n xs) \<subseteq> te_ts ` set xs"
        and "te_ts ` set (concat (map (newest n) xss)) \<subseteq> te_ts ` set (concat xss)"
        using set_newest_subset by fastforce+
      moreover have "distinct_times (newest n xs)"
        using Cons.prems set_newest_subset [of n xs]
        by (auto simp: distinct_map newest_def intro: inj_on_subset)
      moreover have "te_ts ` set xs \<inter> te_ts ` set (concat xss) = {}" and "distinct_times (concat xss)"
        using Cons.prems by auto
      ultimately have "te_ts ` set (newest n xs) \<inter> te_ts ` set (concat (map (newest n) xss)) = {}"
        and "distinct_times (newest n xs)" and "distinct_times (concat (map (newest n) xss))"
        using Cons.IH by blast+
      then show ?case by (simp only: list.map concat.simps map_append distinct_append set_map)
    qed simp
    then show ?thesis using dte unfolding es concat_batches [OF src] by blast
  qed
  have raw: "by_ts (concat ?bs) = sort_key age (concat ?bs)"
    by (rule by_ts_sort [OF dtb])
  show ev: "tp_events (timeline_page db q n) = newest n ?es"
    using newest_concat [of "map (older_events q) (concat (source_events db q))" n] dte
    unfolding es concat_batches [OF src, symmetric]
    by (simp add: timeline_page_def Let_def sev raw newest_def)
  show "tp_nextCursor (timeline_page db q n) = None \<Longrightarrow> length ?es \<le> n"
  proof -
    assume none: "tp_nextCursor (timeline_page db q n) = None"
    have raw_ne: "by_ts (concat ?bs) \<noteq> []" if capped: "list_ex (\<lambda>b. length b \<ge> n) ?bs"
    proof -
      obtain b where "b \<in> set ?bs" "n \<le> length b" using capped by (auto simp: list_ex_iff)
      then have "b \<noteq> []" and "set b \<subseteq> set (concat ?bs)" using n by auto
      then have "set (concat ?bs) \<noteq> {}" by (metis subset_empty set_empty)
      then show ?thesis by (metis set_by_ts set_empty)
    qed
    have "\<not> list_ex (\<lambda>b. length b \<ge> n) ?bs" and "length (concat ?bs) \<le> n"
      using none raw_ne n
      by (auto simp: timeline_page_def Let_def sev raw simp del: concat_eq_Nil_conv split: if_splits)
    then show ?thesis using uncapped_complete [OF src] by simp
  qed
  show "tp_nextCursor (timeline_page db q n) = Some c \<Longrightarrow>
      tp_events (timeline_page db q n) \<noteq> [] \<and> c = te_ts (last (tp_events (timeline_page db q n)))"
    using n by (auto simp: timeline_page_def Let_def sev split: if_splits)
qed

text \<open>The client asks for page after page until there is no cursor.\<close>

fun timeline_walk :: "event_tables \<Rightarrow> tl_query \<Rightarrow> nat \<Rightarrow> tl_event list" where
  "timeline_walk db q 0 = []"
| "timeline_walk db q (Suc k) =
     (case timeline_query db q of
        None \<Rightarrow> []
      | Some p \<Rightarrow> tp_events p @
          (case tp_nextCursor p of None \<Rightarrow> [] | Some c \<Rightarrow> timeline_walk db (q\<lparr>tq_before := Some c\<rparr>) k))"

lemma where_before [simp]:
  "audit_where (q\<lparr>tq_before := b\<rparr>) = audit_where q" "app_where (q\<lparr>tq_before := b\<rparr>) = app_where q"
  "notification_where (q\<lparr>tq_before := b\<rparr>) = notification_where q"
  "backup_where (q\<lparr>tq_before := b\<rparr>) = backup_where q"
  "stack_backup_where (q\<lparr>tq_before := b\<rparr>) = stack_backup_where q"
  "stack_restore_where (q\<lparr>tq_before := b\<rparr>) = stack_restore_where q"
  "heartbeat_where (q\<lparr>tq_before := b\<rparr>) = heartbeat_where q" "wants (q\<lparr>tq_before := b\<rparr>) = wants q"
  by (rule ext, simp add: audit_where_def app_where_def notification_where_def backup_where_def
      stack_backup_where_def stack_restore_where_def heartbeat_where_def wants_def)+

lemma source_events_before [simp]: "source_events db (q\<lparr>tq_before := b\<rparr>) = source_events db q"
  by (simp add: source_events_def)

lemma matching_events_before [simp]: "matching_events db (q\<lparr>tq_before := b\<rparr>) = matching_events db q"
  by (simp add: matching_events_def)

lemma page_limit_before [simp]: "page_limit (q\<lparr>tq_before := b\<rparr>) = page_limit q"
  by (simp add: page_limit_def)

lemma page_limit_pos: "page_limit q = Some n \<Longrightarrow> 0 < n"
  by (auto simp: page_limit_def split: option.splits)

lemma sorted_le_last: "sorted (map f xs) \<Longrightarrow> x \<in> set xs \<Longrightarrow> f x \<le> f (last xs)"
  by (induction xs) auto

text \<open>What is older than the last event of a page is what the page left out.\<close>

lemma older_than_page:
  assumes dt: "distinct_times es" and ne: "newest n (older_events q es) \<noteq> []"
    and c: "c = te_ts (last (newest n (older_events q es)))"
  shows "sort_key age (older_events (q\<lparr>tq_before := Some c\<rparr>) es) = drop n (sort_key age (older_events q es))"
proof (rule sort_age_unique)
  let ?s = "sort_key age (older_events q es)"
  have ds: "distinct_times (older_events q es)" using dt by (rule distinct_older)
  then have ds': "distinct (map age ?s)" by (simp add: distinct_map comp_inj_on distinct_times_inj)
  have sd: "sorted (map age (take n ?s @ drop n ?s))" by simp
  have last_in: "last (take n ?s) \<in> set (take n ?s)" using ne by (simp add: newest_def)
  have le: "c \<le> te_ts e" if inp: "e \<in> set (take n ?s)" for e
  proof -
    have "sorted (take n (map age ?s))" by (rule sorted_wrt_take) simp
    then have "sorted (map age (take n ?s))" by (simp only: take_map)
    then have "age e \<le> age (last (take n ?s))" using inp by (rule sorted_le_last)
    then show ?thesis by (simp add: c newest_def)
  qed
  have gt: "te_ts e < c" if "e \<in> set (drop n ?s)" for e
  proof -
    have "age (last (take n ?s)) \<le> age e"
      using sd last_in that unfolding map_append sorted_append by auto
    moreover have "age (last (take n ?s)) \<noteq> age e"
    proof -
      have "distinct (map age (take n ?s) @ map age (drop n ?s))"
        using ds' by (simp only: map_append [symmetric] append_take_drop_id)
      then show ?thesis using last_in that by auto
    qed
    ultimately show ?thesis by (simp add: c newest_def)
  qed
  show "distinct_times (older_events (q\<lparr>tq_before := Some c\<rparr>) es)" using dt by (rule distinct_older)
  show "distinct (drop n ?s)" using ds by (simp add: distinct_map)
  have "sorted (drop n (map age ?s))" by (rule sorted_wrt_drop) simp
  then show "sorted (map age (drop n ?s))" by (simp only: drop_map)
  show "set (drop n ?s) = set (older_events (q\<lparr>tq_before := Some c\<rparr>) es)"
  proof (intro equalityI subsetI)
    fix e assume e: "e \<in> set (drop n ?s)"
    then have "e \<in> set es" using set_drop_subset [of n ?s] by (auto simp: older_events_def)
    then show "e \<in> set (older_events (q\<lparr>tq_before := Some c\<rparr>) es)"
      using gt [OF e] by (simp add: older_events_def older_def)
  next
    fix e assume e: "e \<in> set (older_events (q\<lparr>tq_before := Some c\<rparr>) es)"
    have "last (take n ?s) \<in> set ?s" using last_in by (rule in_set_takeD)
    then have "older (tq_before q) c" by (simp add: older_events_def c newest_def)
    then have "e \<in> set ?s" using e by (auto simp: older_events_def older_def split: option.splits)
    then have "e \<in> set (take n ?s) \<union> set (drop n ?s)" by (simp only: set_append [symmetric] append_take_drop_id)
    moreover have "te_ts e < c" using e by (simp add: older_events_def older_def)
    ultimately show "e \<in> set (drop n ?s)" using le [of e] by auto
  qed
qed


lemma walk_complete:
  assumes "page_limit q = Some n" and "\<not> filled (tq_source q)" and "tq_severities q = []"
    and "distinct_times (matching_events db q)"
    and "length (older_events q (matching_events db q)) < k"
  shows "timeline_walk db q k = sort_key age (older_events q (matching_events db q))"
  using assms
proof (induction k arbitrary: q)
  case (Suc k)
  let ?es = "matching_events db q" and ?p = "timeline_page db q n"
  note n = page_limit_pos [OF Suc.prems(1)]
  note facts = page_facts [OF Suc.prems(2,3,4) n]
  have query: "timeline_query db q = Some ?p" by (simp add: timeline_query_def Suc.prems(1))
  have split: "sort_key age (older_events q ?es) = newest n (older_events q ?es) @ drop n (sort_key age (older_events q ?es))"
    by (simp add: newest_def)
  show ?case
  proof (cases "tp_nextCursor ?p")
    case None
    then show ?thesis using facts(2) by (subst split) (simp add: query facts(1))
  next
    case (Some c)
    let ?q = "q\<lparr>tq_before := Some c\<rparr>"
    have page: "newest n (older_events q ?es) \<noteq> []" "c = te_ts (last (newest n (older_events q ?es)))"
      using facts(3) [OF Some] by (simp_all add: facts(1))
    have rest: "sort_key age (older_events ?q ?es) = drop n (sort_key age (older_events q ?es))"
      by (rule older_than_page [OF Suc.prems(4) page])
    have "length (older_events ?q ?es) = length (older_events q ?es) - n"
      using arg_cong [OF rest, of length] by simp
    moreover have "older_events q ?es \<noteq> []" using page(1) by auto
    ultimately have "length (older_events ?q ?es) < k" using Suc.prems(5) n by (cases "older_events q ?es") auto
    then have "timeline_walk db ?q k = sort_key age (older_events ?q ?es)"
      using Suc.IH [of ?q] Suc.prems by simp
    then show ?thesis by (subst split) (simp add: query facts(1) Some rest)
  qed
qed simp

lemma by_ts_matching:
  "distinct_times es \<Longrightarrow> sorted_wrt (\<lambda>a b. te_ts b < te_ts a) (sort_key age es)"
proof -
  assume dt: "distinct_times es"
  then have "distinct (map age (sort_key age es))" by (simp add: distinct_map comp_inj_on distinct_times_inj)
  moreover have "sorted (map age (sort_key age es))" by simp
  ultimately have "sorted_wrt (<) (map age (sort_key age es))" by (simp only: strict_sorted_iff)
  then show ?thesis by (simp add: sorted_wrt_map)
qed

text \<open>
  C24: Following the cursors gives the whole timeline. For a query without a source and a severity
  filter, over tables whose matching events have different times, a client that asks for page after
  page gets every matching event exactly once and the newest first, whatever the page size.
\<close>

theorem paging_complete:
  assumes "page_limit q \<noteq> None" and "\<not> filled (tq_source q)" and "tq_severities q = []"
    and "distinct (map te_ts (matching_events db q))" and "length (matching_events db q) < k"
  shows "mset (timeline_walk db (q\<lparr>tq_before := None\<rparr>) k) = mset (matching_events db q) \<and>
    sorted_wrt (\<lambda>a b. te_ts b < te_ts a) (timeline_walk db (q\<lparr>tq_before := None\<rparr>) k)"
proof -
  let ?q = "q\<lparr>tq_before := None\<rparr>"
  obtain n where "page_limit q = Some n" using assms(1) by auto
  moreover have "older_events ?q (matching_events db ?q) = matching_events db q"
    by (simp add: older_events_def older_def)
  ultimately have walk: "timeline_walk db ?q k = sort_key age (matching_events db q)"
    using walk_complete [of ?q n db k] assms by simp
  have "sorted_wrt (\<lambda>a b. te_ts b < te_ts a) (timeline_walk db ?q k)"
    using assms(4) by (simp only: walk by_ts_matching)
  then show ?thesis by (simp add: walk)
qed

definition example_audit :: "string \<Rightarrow> time \<Rightarrow> string \<Rightarrow> json \<Rightarrow> audit_log_row" where
  "example_audit i t action meta =
     \<lparr>lr_id = i, lr_createdAt = t, lr_actorId = None, lr_actorEmail = None, lr_action = action, lr_target = None,
      lr_meta = meta\<rparr>"

definition example_app :: "time \<Rightarrow> app_log_row" where
  "example_app t = \<lparr>ar_id = ''l'', ar_createdAt = t, ar_level = ''warn'', ar_context = ''x'', ar_message = ''m'', ar_meta = JNull\<rparr>"

definition example_tables :: event_tables where
  "example_tables = \<lparr>tb_audit = [example_audit ''a'' 50 ''login'' JNull, example_audit ''b'' 40 ''delete'' (JObj [(''connectorId'', JStr ''c'')])],
     tb_app = [example_app 10],
     tb_notification = [\<lparr>nr_id = ''n'', nr_createdAt = 5, nr_title = ''oops'', nr_severity = ''info'', nr_status = ''sent'',
       nr_channel = ''email'', nr_recipients = 1, nr_connectorId = Some ''d'', nr_source = None, nr_detail = None, nr_alertKey = None\<rparr>],
     tb_backup = [], tb_stack_backup = [], tb_stack_restore = [], tb_heartbeat = []\<rparr>"

definition example_query :: tl_query where
  "example_query = \<lparr>tq_kinds = [], tq_severities = [], tq_source = None, tq_actorId = None, tq_text = None, tq_before = None,
     tq_limit = Some (Some 1)\<rparr>"

lemma paging_complete_witness:
  "map te_id (timeline_walk example_tables (example_query\<lparr>tq_before := None\<rparr>) 5) =
     [''audit:a'', ''audit:b'', ''app_log:l'', ''notification:n''] \<and>
   mset (timeline_walk example_tables (example_query\<lparr>tq_before := None\<rparr>) 5) = mset (matching_events example_tables example_query)"
proof
  show "map te_id (timeline_walk example_tables (example_query\<lparr>tq_before := None\<rparr>) 5) =
     [''audit:a'', ''audit:b'', ''app_log:l'', ''notification:n'']"
    by code_simp
  have "page_limit example_query \<noteq> None" "\<not> filled (tq_source example_query)" "tq_severities example_query = []"
    "distinct (map te_ts (matching_events example_tables example_query))"
    "length (matching_events example_tables example_query) < 5"
    by code_simp+
  then show "mset (timeline_walk example_tables (example_query\<lparr>tq_before := None\<rparr>) 5) = mset (matching_events example_tables example_query)"
    by (rule paging_complete [THEN conjunct1])
qed

text \<open>
  With a severity filter the walk loses events: the cursor moves to the oldest event of the filtered
  page, past the rows that a source with a full page has not been asked for yet.
\<close>

lemma severity_filter_skips_events:
  "map te_id (timeline_walk example_tables (example_query\<lparr>tq_severities := [''warning'']\<rparr>) 5) = [''app_log:l''] \<and>
   map te_severity (filter (\<lambda>e. te_id e = ''audit:b'') (matching_events example_tables example_query)) = [''warning'']"
  by code_simp

text \<open>
  With a source filter the audit rows are filtered after the page is cut, so that a full page is not
  recognised and the walk ends before the first match.
\<close>

lemma source_filter_ends_early:
  "timeline_query example_tables (example_query\<lparr>tq_kinds := [''audit''], tq_source := Some ''c''\<rparr>) =
     Some \<lparr>tp_events = [], tp_nextCursor = None\<rparr> \<and>
   map te_source (map mapAuditRow (tb_audit example_tables)) = [None, Some ''c'']"
  by code_simp

text \<open>A text replaces the source in the condition on the notifications.\<close>

lemma text_drops_source:
  "map_option (\<lambda>p. map te_source (tp_events p))
     (timeline_query example_tables (example_query\<lparr>tq_kinds := [''notification''], tq_source := Some ''c'', tq_text := Some ''oops''\<rparr>)) =
   Some [Some ''d''] \<and>
   map_option tp_events
     (timeline_query example_tables (example_query\<lparr>tq_kinds := [''notification''], tq_source := Some ''c''\<rparr>)) = Some []"
  by code_simp

section \<open>The audit gate\<close>

lemma wants_restricted: "tq_kinds q \<noteq> [] \<Longrightarrow> wants q k \<longleftrightarrow> k \<in> set (tq_kinds q)"
  by (simp add: wants_def)

lemma events_of_kinds:
  assumes "tq_kinds q \<noteq> []" and "''audit'' \<notin> set (tq_kinds q)" and "e \<in> set (tp_events (timeline_page db q n))"
  shows "te_kind e \<noteq> ''audit''"
proof -
  have "e \<in> set (concat (batches db q n))"
    using assms(3) by (auto simp: timeline_page_def Let_def dest!: in_set_takeD split: if_splits)
  then show ?thesis
    using assms(1,2)
    by (auto simp: batches_def Let_def wants_def fromAppLog_def fromNotifications_def fromJobs_def fromMonitors_def
        mapper_kind split: if_splits)
qed

text \<open>
  C20: Audit events need \<^verbatim>\<open>audit:read\<close>. A caller without it, who does not ask for the audit kind
  alone, gets no audit event from a page of the timeline nor from the live stream.
\<close>

theorem audit_gate:
  assumes "\<not> hasPermission perms ''audit:read''"
    and "set (csv (rq_kinds raw)) \<inter> set TIMELINE_KINDS \<noteq> {''audit''}"
  shows "(\<forall>p e. timeline_list db perms raw = Some p \<longrightarrow> e \<in> set (tp_events p) \<longrightarrow> te_kind e \<noteq> ''audit'') \<and>
    (\<forall>e \<in> set (timeline_live perms raw published). te_kind e \<noteq> ''audit'')"
proof -
  have ne: "requested_kinds perms raw \<noteq> []"
  proof (cases "filter (\<lambda>k. k \<in> set TIMELINE_KINDS) (csv (rq_kinds raw)) = []")
    case True
    then show ?thesis using assms(1) by (simp add: requested_kinds_def Let_def TIMELINE_KINDS_def)
  next
    case False
    then have "\<exists>k. k \<in> set (csv (rq_kinds raw)) \<and> k \<in> set TIMELINE_KINDS \<and> k \<noteq> ''audit''"
      using assms(2) by (auto simp: filter_empty_conv)
    then show ?thesis using assms(1) False by (auto simp: requested_kinds_def Let_def filter_empty_conv)
  qed
  have no: "''audit'' \<notin> set (requested_kinds perms raw)"
    using assms(1) by (simp add: requested_kinds_def Let_def)
  have "te_kind e \<noteq> ''audit''" if "timeline_list db perms raw = Some p" "e \<in> set (tp_events p)" for p e
  proof -
    have "\<exists>n. p = timeline_page db (buildQuery perms raw) n"
      using that by (auto simp: timeline_list_def timeline_query_def split: option.splits if_splits)
    then show ?thesis
      using that(2) ne no events_of_kinds [of "buildQuery perms raw" e db] by (auto simp: buildQuery_def)
  qed
  moreover have "te_kind e \<noteq> ''audit''" if "e \<in> set (timeline_live perms raw published)" for e
  proof -
    have "requested_kinds perms (raw\<lparr>rq_before := None, rq_limit := None\<rparr>) = requested_kinds perms raw"
      by (simp add: requested_kinds_def)
    then show ?thesis using that ne no by (auto simp: timeline_live_def bus_matches_def buildQuery_def)
  qed
  ultimately show ?thesis by blast
qed

definition example_raw :: raw_query where
  "example_raw = \<lparr>rq_kinds = None, rq_severities = None, rq_source = None, rq_actorId = None, rq_text = None, rq_before = None,
     rq_limit = None\<rparr>"

lemma audit_gate_witness:
  "\<exists>p. timeline_list example_tables (Some [''logs:read'']) (example_raw\<lparr>rq_kinds := Some ''audit, app_log''\<rparr>) = Some p \<and>
     map te_id (tp_events p) = [''app_log:l''] \<and> te_kind (hd (tp_events p)) \<noteq> ''audit''"
proof -
  have "\<not> hasPermission (Some [''logs:read'']) ''audit:read''"
    and "set (csv (rq_kinds (example_raw\<lparr>rq_kinds := Some ''audit, app_log''\<rparr>))) \<inter> set TIMELINE_KINDS \<noteq> {''audit''}"
    by code_simp+
  note gate = audit_gate [OF this, THEN conjunct1, rule_format]
  have "case timeline_list example_tables (Some [''logs:read'']) (example_raw\<lparr>rq_kinds := Some ''audit, app_log''\<rparr>) of
      None \<Rightarrow> False | Some p \<Rightarrow> map te_id (tp_events p) = [''app_log:l'']"
    by code_simp
  then obtain p where p: "timeline_list example_tables (Some [''logs:read'']) (example_raw\<lparr>rq_kinds := Some ''audit, app_log''\<rparr>) = Some p"
      "map te_id (tp_events p) = [''app_log:l'']"
    by (auto split: option.splits)
  then have "hd (tp_events p) \<in> set (tp_events p)" by (cases "tp_events p") auto
  then have "te_kind (hd (tp_events p)) \<noteq> ''audit''" by (rule gate [OF p(1)])
  then show ?thesis using p by (intro exI [of _ p]) simp
qed

text \<open>
  Who asks for the audit kind alone passes the gate: dropping it leaves no kind, and a query without
  kinds is not restricted at all.
\<close>

lemma audit_only_request_passes_gate:
  "set (csv (rq_kinds raw)) \<inter> set TIMELINE_KINDS = {''audit''} \<Longrightarrow> \<not> hasPermission perms ''audit:read'' \<Longrightarrow>
   buildQuery perms raw = buildQuery (Some [''audit:read'']) (raw\<lparr>rq_kinds := None\<rparr>)"
proof -
  assume only: "set (csv (rq_kinds raw)) \<inter> set TIMELINE_KINDS = {''audit''}" and no: "\<not> hasPermission perms ''audit:read''"
  let ?asked = "filter (\<lambda>k. k \<in> set TIMELINE_KINDS) (csv (rq_kinds raw))"
  have "set ?asked = {''audit''}" using only by auto
  then have "?asked \<noteq> []" and "\<forall>k \<in> set ?asked. \<not> k \<noteq> ''audit''"
    by (metis empty_not_insert list.set(1), metis singletonD)
  then have "?asked \<noteq> []" and "filter (\<lambda>k. k \<noteq> ''audit'') ?asked = []"
    by (simp_all only: filter_empty_conv simp_thms)
  then have "requested_kinds perms raw = []" using no by (simp only: requested_kinds_def Let_def simp_thms if_True)
  moreover have "requested_kinds (Some [''audit:read'']) (raw\<lparr>rq_kinds := None\<rparr>) = []"
    by (simp add: requested_kinds_def csv_def filled_def hasPermission_def)
  ultimately show ?thesis by (simp add: buildQuery_def)
qed

lemma audit_gate_bypassed:
  "map_option (\<lambda>p. map te_id (tp_events p))
     (timeline_list example_tables (Some [''logs:read'']) (example_raw\<lparr>rq_kinds := Some ''audit''\<rparr>)) =
   Some [''audit:a'', ''audit:b'', ''app_log:l'', ''notification:n'']"
  by code_simp

end
