(* ===== verification/Http_Probe.thy ===== *)
theory Http_Probe
  imports Ip_Policy
begin

unbundle bit_operations_syntax

text \<open>
  Monitor probes and the guard that keeps them off the host itself:
  \<^verbatim>\<open>monitors/probes/ssrf-guard.ts\<close>, \<^verbatim>\<open>monitors/probes/probe.ts\<close> and
  \<^verbatim>\<open>monitors/probes/http.probe.ts\<close>, over Node's addresses and block lists of \<open>Ip_Policy\<close>.
  What is outside the program is the record \<open>web\<close>: parsing and resolving URLs, the answers of DNS
  and of servers, and the clock, by hop. Node connects to a literal address without a lookup, and to
  one of the addresses of the lookup otherwise; \<open>connect\<close> says so. Numbers are integers;
  \<^verbatim>\<open>Number\<close> of a string is modelled for decimal integers (and is \<^verbatim>\<open>NaN\<close>, \<open>None\<close>, for words).
\<close>

section \<open>The guard\<close>

fun add_rules :: "block_list \<Rightarrow> (string \<times> nat \<times> ip_family) list \<Rightarrow> net_error + block_list" where
  "add_rules bl [] = Inr bl"
| "add_rules bl ((a, p, f) # rs) = (case addSubnet bl a p f of Inl e \<Rightarrow> Inl e | Inr bl' \<Rightarrow> add_rules bl' rs)"

text \<open>\<^verbatim>\<open>addAddress\<close> is \<^verbatim>\<open>addSubnet\<close> with the full prefix.\<close>

definition guard_rules :: "(string \<times> nat \<times> ip_family) list" where
  "guard_rules =
     [(''127.0.0.0'', 8, Ipv4), (''169.254.0.0'', 16, Ipv4), (''0.0.0.0'', 8, Ipv4),
      (''::1'', 128, Ipv6), (''::'', 128, Ipv6), (''fe80::'', 10, Ipv6),
      (''::ffff:127.0.0.0'', 104, Ipv6), (''::ffff:169.254.0.0'', 112, Ipv6), (''::ffff:0.0.0.0'', 104, Ipv6)]"

definition blockList :: block_list where
  "blockList = (case add_rules [] guard_rules of Inl _ \<Rightarrow> [] | Inr bl \<Rightarrow> bl)"

definition allowLocalTargets :: "string option \<Rightarrow> bool" where
  "allowLocalTargets v = (case v of None \<Rightarrow> False | Some s \<Rightarrow> to_lower s \<in> {''1'', ''true'', ''yes''})"

definition isBlockedAddress :: "string \<Rightarrow> bool" where
  "isBlockedAddress ip = (let a = strip_mapped ip in isIP a \<noteq> 0 \<and> bl_check blockList a)"

definition strip_brackets :: "string \<Rightarrow> string" where
  "strip_brackets h =
     (let h1 = (if starts_with h ''['' then tl h else h)
      in if h1 \<noteq> [] \<and> last h1 = CHR '']'' then butlast h1 else h1)"

definition hostBlockedReason :: "bool \<Rightarrow> string \<Rightarrow> string option" where
  "hostBlockedReason allow host =
     (if allow then None
      else let h = strip_brackets host
           in if isIP h \<noteq> 0 \<and> isBlockedAddress h
              then Some (''Blocked target '' @ h @ '' (loopback/link-local/metadata). Set MONITOR_ALLOW_LOCAL_TARGETS=true to allow.'')
              else None)"

text \<open>The callback gets an error code or the addresses.\<close>

definition guardedLookup :: "bool \<Rightarrow> string + string list \<Rightarrow> string + string list" where
  "guardedLookup allow answer =
     (if allow then answer
      else case answer of
             Inl e \<Rightarrow> Inl e
           | Inr addrs \<Rightarrow> if list_ex isBlockedAddress addrs then Inl ''EBLOCKED'' else Inr addrs)"

section \<open>What the guard blocks\<close>

definition v4_mapped :: "int \<Rightarrow> int" where "v4_mapped n = 65535 * 2 ^ 32 + n"

text \<open>Loopback, this-host and link-local addresses, as numbers.\<close>

definition sensitive :: "int \<Rightarrow> bool" where
  "sensitive n \<longleftrightarrow>
     n div 2 ^ 24 = v4_mapped (127 * 2 ^ 24) div 2 ^ 24 \<or> n div 2 ^ 24 = v4_mapped 0 div 2 ^ 24 \<or>
     n div 2 ^ 16 = v4_mapped (169 * 2 ^ 24 + 254 * 2 ^ 16) div 2 ^ 16 \<or>
     n = 1 \<or> n = 0 \<or> n div 2 ^ 118 = 1018"

lemma same_prefix_div:
  "same_prefix p x y \<longleftrightarrow> uint x div 2 ^ (128 - p) = uint y div 2 ^ (128 - p)"
proof -
  have "same_prefix p x y \<longleftrightarrow> uint (drop_bit (128 - p) x) = uint (drop_bit (128 - p) y)"
    by (simp add: same_prefix_def word_uint_eq_iff)
  moreover have "take_bit 128 (uint z) = uint z" for z :: "128 word"
    using uint_bounded [of z] by (intro take_bit_int_eq_self) simp_all
  then have "uint (drop_bit (128 - p) x) = uint (drop_bit (128 - p) y) \<longleftrightarrow> drop_bit (128 - p) (uint x) = drop_bit (128 - p) (uint y)"
    by (simp add: unsigned_drop_bit_eq)
  ultimately show ?thesis by (simp add: drop_bit_eq_div)
qed

text \<open>The addresses of the rules, read.\<close>

lemma guard_addresses:
  "parse_v4 ''127.0.0.0'' = Some (127 * 2 ^ 24)" "parse_v4 ''169.254.0.0'' = Some (169 * 2 ^ 24 + 254 * 2 ^ 16)"
  "parse_v4 ''0.0.0.0'' = Some 0" "parse_v4 ''::1'' = None" "parse_v4 ''::'' = None" "parse_v4 ''fe80::'' = None"
  "parse_v4 ''::ffff:127.0.0.0'' = None" "parse_v4 ''::ffff:169.254.0.0'' = None" "parse_v4 ''::ffff:0.0.0.0'' = None"
  "parse_v6 ''::1'' = Some 1" "parse_v6 ''::'' = Some 0" "parse_v6 ''fe80::'' = Some (1018 * 2 ^ 118)"
  "parse_v6 ''::ffff:127.0.0.0'' = Some (65535 * 2 ^ 32 + 127 * 2 ^ 24)"
  "parse_v6 ''::ffff:169.254.0.0'' = Some (65535 * 2 ^ 32 + (169 * 2 ^ 24 + 254 * 2 ^ 16))"
  "parse_v6 ''::ffff:0.0.0.0'' = Some (65535 * 2 ^ 32)"
  by code_simp+

lemma blockList_value:
  "blockList = map (\<lambda>(n, p). (word_of_int n, p))
     [(v4_mapped (127 * 2 ^ 24), 104), (v4_mapped (169 * 2 ^ 24 + 254 * 2 ^ 16), 112), (v4_mapped 0, 104),
      (1, 128), (0, 128), (1018 * 2 ^ 118, 10),
      (v4_mapped (127 * 2 ^ 24), 104), (v4_mapped (169 * 2 ^ 24 + 254 * 2 ^ 16), 112), (v4_mapped 0, 104)]"
  by (simp add: blockList_def guard_rules_def addSubnet_def family_of_def isIP_def addr_bits_def guard_addresses
      family_bits_def v4_mapped_def)

lemma uint_below: "0 \<le> n \<Longrightarrow> n < 2 ^ 128 \<Longrightarrow> uint (word_of_int n :: 128 word) = n"
  by (simp add: uint_word_of_int_eq take_bit_eq_mod)

text \<open>The block list checks exactly the loopback, this-host and link-local ranges.\<close>

lemma blockList_sensitive:
  "list_ex (\<lambda>(n, p). same_prefix p w n) blockList \<longleftrightarrow> sensitive (uint w)"
  unfolding blockList_value sensitive_def
  by (auto simp: same_prefix_div uint_below v4_mapped_def)

text \<open>
  The guard blocks an address exactly when it is loopback, this-host or link-local (the cloud
  metadata address included), in IPv4, IPv6 or mapped form; everything else, private ranges
  included, passes.
\<close>

theorem guard_blocks_exactly:
  "isBlockedAddress ip \<longleftrightarrow>
     (case addr_bits (strip_mapped ip) of None \<Rightarrow> False | Some w \<Rightarrow> sensitive (uint w))"
  by (auto simp: isBlockedAddress_def bl_check_def Let_def blockList_sensitive isIP_def addr_bits_def
      split: option.splits)

section \<open>Probe configuration\<close>

text \<open>\<^verbatim>\<open>Number\<close>, \<^verbatim>\<open>str\<close>, \<^verbatim>\<open>num\<close> and \<^verbatim>\<open>bool\<close>.\<close>

definition num_of_string :: "string \<Rightarrow> int option" where
  "num_of_string s =
     (case trim s of
        [] \<Rightarrow> Some 0
      | c # cs \<Rightarrow>
          if c = CHR ''-'' then (if all_digits cs then Some (- int (read_nat cs)) else None)
          else if c = CHR ''+'' then (if all_digits cs then Some (int (read_nat cs)) else None)
          else if all_digits (c # cs) then Some (int (read_nat (c # cs))) else None)"

lemma digit_plain: "is_digit c \<Longrightarrow> \<not> is_space c \<and> c \<notin> {CHR ''/'', CHR ''-'', CHR '','', CHR ''*'', CHR ''+''}"
  by (auto simp: is_digit_def is_space_def code_of_def)

lemma show_nat_plain: "c \<in> {CHR ''/'', CHR ''-'', CHR '','', CHR ''*'', CHR ''+''} \<Longrightarrow> c \<notin> set (show_nat n)"
  using show_nat_chars digit_plain by blast

lemma show_nat_nonempty: "show_nat n \<noteq> []"
  by (subst show_nat.simps) simp

lemma num_show_nat: "num_of_string (show_nat n) = Some (int n)"
proof -
  have "trim (show_nat n) = show_nat n"
    by (rule trim_id) (use show_nat_chars digit_plain in blast)
  moreover obtain c cs where c: "show_nat n = c # cs" using show_nat_nonempty by (cases "show_nat n") auto
  moreover have "c \<notin> {CHR ''-'', CHR ''+''}" using show_nat_plain [of c n] c by auto
  ultimately show ?thesis using show_nat_digits [of n] read_show_nat [of n] by (simp add: num_of_string_def)
qed

definition num_of :: "json \<Rightarrow> int option" where
  "num_of v =
     (case v of
        JUndef \<Rightarrow> None
      | JNull \<Rightarrow> Some 0
      | JBool b \<Rightarrow> Some (if b then 1 else 0)
      | JNum i \<Rightarrow> Some i
      | JObj _ \<Rightarrow> None
      | _ \<Rightarrow> num_of_string (js_string v))"

type_synonym probe_config = "(string \<times> json) list"

definition cfg_str :: "probe_config \<Rightarrow> string \<Rightarrow> string" where
  "cfg_str c k = (case obj_get c k of JUndef \<Rightarrow> [] | JNull \<Rightarrow> [] | v \<Rightarrow> trim (js_string v))"

definition cfg_num :: "probe_config \<Rightarrow> string \<Rightarrow> int \<Rightarrow> int" where
  "cfg_num c k fallback = (case num_of (obj_get c k) of None \<Rightarrow> fallback | Some i \<Rightarrow> i)"

definition cfg_bool :: "probe_config \<Rightarrow> string \<Rightarrow> bool" where
  "cfg_bool c k \<longleftrightarrow> obj_get c k = JBool True \<or> obj_get c k = JStr ''true''"

definition or_default :: "string \<Rightarrow> string \<Rightarrow> string" where
  "or_default s d = (if s = [] then d else s)"

section \<open>Accepted status codes and headers\<close>

text \<open>One part of the list: \<^verbatim>\<open>/^\s*(\d{3})\s*(?:-\s*(\d{3}))?\s*$/\<close>.\<close>

definition accepted_part :: "string \<Rightarrow> (int \<times> int) option" where
  "accepted_part part =
     (let s = trim part; a = take 3 s; rest = trim_start (drop 3 s)
      in if \<not> (length a = 3 \<and> list_all is_digit a) then None
         else if rest = [] then Some (int (read_nat a), int (read_nat a))
         else if hd rest \<noteq> CHR ''-'' then None
         else (let b = trim_start (tl rest)
               in if length b = 3 \<and> list_all is_digit b then Some (int (read_nat a), int (read_nat b)) else None))"

definition parseAccepted :: "string \<Rightarrow> (int \<times> int) list" where
  "parseAccepted spec =
     filter (\<lambda>(lo, hi). lo \<le> hi) (List.map_filter accepted_part (split_on CHR '','' spec))"

definition parse_header :: "string \<Rightarrow> (string \<times> string) option" where
  "parse_header line =
     (let name = takeWhile (\<lambda>c. c \<noteq> CHR '':'') line; rest = dropWhile (\<lambda>c. c \<noteq> CHR '':'') line
      in if rest = [] \<or> name = [] \<or> trim name = [] then None
         else Some (to_lower (trim name), trim (tl rest)))"

definition parseHeaders :: "string \<Rightarrow> (string, string) jsmap" where
  "parseHeaders text =
     foldl (\<lambda>out (k, v). map_set out k v) [] (List.map_filter parse_header (split_on CHR ''\<newline>'' text))"

section \<open>The probe\<close>

record probe_cert =
  pc_validTo :: time
  pc_daysLeft :: int
  pc_issuer :: "string option"
  pc_subject :: "string option"

record probe_result =
  pr_ok :: bool
  pr_latencyMs :: "int option"
  pr_message :: string
  pr_cert :: "probe_cert option"

record fetch_result =
  fe_status :: int
  fe_statusMessage :: string
  fe_location :: "string option"
  fe_body :: string
  fe_cert :: "probe_cert option"

record fetch_opts =
  fo_method :: string
  fo_headers :: "(string, string) jsmap"
  fo_body :: string
  fo_ignoreTls :: bool
  fo_wantBody :: bool
  fo_timeoutMs :: int

text \<open>
  \<open>wb_parse\<close>: protocol and host name of a URL (\<open>None\<close>: it does not parse); \<open>wb_resolve\<close>: a location against
  a base; \<open>wb_dns\<close>, \<open>wb_answer\<close> (of the server at one of these addresses), \<open>wb_before\<close> and \<open>wb_after\<close>
  (the clock before and after the request): by hop.
\<close>

record web =
  wb_parse :: "string \<Rightarrow> (string \<times> string) option"
  wb_resolve :: "string \<Rightarrow> string \<Rightarrow> string option"
  wb_dns :: "nat \<Rightarrow> string \<Rightarrow> string + string list"
  wb_answer :: "nat \<Rightarrow> string \<Rightarrow> string list \<Rightarrow> fetch_opts \<Rightarrow> string + fetch_result"
  wb_before :: "nat \<Rightarrow> time"
  wb_after :: "nat \<Rightarrow> time"

text \<open>The addresses Node may connect to for a host name.\<close>

definition connect :: "bool \<Rightarrow> web \<Rightarrow> nat \<Rightarrow> string \<Rightarrow> string + string list" where
  "connect allow w hop host =
     (let h = strip_brackets host
      in if isIP h \<noteq> 0 then Inr [h] else guardedLookup allow (wb_dns w hop host))"

text \<open>The outcome, and the addresses that were open to the connection.\<close>

definition fetchOnce :: "bool \<Rightarrow> web \<Rightarrow> nat \<Rightarrow> string \<Rightarrow> fetch_opts \<Rightarrow> (string + fetch_result) \<times> string list" where
  "fetchOnce allow w hop url o' =
     (case wb_parse w url of
        None \<Rightarrow> (Inl ''ERR_INVALID_URL'', [])
      | Some (protocol, hostname) \<Rightarrow>
          (case hostBlockedReason allow hostname of
             Some _ \<Rightarrow> (Inl ''EBLOCKED'', [])
           | None \<Rightarrow>
               (case connect allow w hop hostname of
                  Inl code \<Rightarrow> (Inl code, [])
                | Inr addrs \<Rightarrow>
                    (case wb_answer w hop url addrs o' of
                       Inl code \<Rightarrow> (Inl code, addrs)
                     | Inr res \<Rightarrow>
                         (Inr (if fo_wantBody o' then res else res\<lparr>fe_body := []\<rparr>), addrs)))))"

record probe_request =
  rq_method :: string
  rq_accepted :: "(int \<times> int) list"
  rq_keyword :: string
  rq_invert :: bool
  rq_ignoreTls :: bool
  rq_maxRedirects :: int
  rq_headers :: "(string, string) jsmap"
  rq_body :: string
  rq_started :: time
  rq_deadline :: time

definition failed :: "string \<Rightarrow> int option \<Rightarrow> probe_cert option \<Rightarrow> probe_result" where
  "failed msg latency cert = \<lparr>pr_ok = False, pr_latencyMs = latency, pr_message = msg, pr_cert = cert\<rparr>"

text \<open>The verdict on an answer that is not a redirect.\<close>

definition judge :: "probe_request \<Rightarrow> fetch_result \<Rightarrow> int \<Rightarrow> probe_cert option \<Rightarrow> probe_result" where
  "judge rq res latency cert =
     (let statusText = trim (show_int (fe_status res) @ '' '' @ fe_statusMessage res);
          found = str_includes (fe_body res) (rq_keyword rq)
      in if \<not> list_ex (\<lambda>(lo, hi). lo \<le> fe_status res \<and> fe_status res \<le> hi) (rq_accepted rq)
         then failed (''Unexpected status '' @ statusText) (Some latency) cert
         else if rq_keyword rq \<noteq> [] \<and> found = rq_invert rq
         then failed (''Keyword '' @ CHR 0x22 # rq_keyword rq @ CHR 0x22 # (if rq_invert rq then '' present'' else '' not found'')) (Some latency) cert
         else \<lparr>pr_ok = True, pr_latencyMs = Some latency,
               pr_message = statusText @ '' in '' @ show_int latency @ '' ms'', pr_cert = cert\<rparr>)"

text \<open>The hops of a check, and all addresses open to its connections.\<close>

function hops :: "bool \<Rightarrow> web \<Rightarrow> probe_request \<Rightarrow> nat \<Rightarrow> string \<Rightarrow> probe_cert option \<Rightarrow> probe_result \<times> string list list" where
  "hops allow w rq hop url cert =
     (let remaining = rq_deadline rq - wb_before w hop
      in if remaining \<le> 0 then (failed ''Timed out'' None cert, [])
         else
           (case fetchOnce allow w hop url
                   \<lparr>fo_method = rq_method rq, fo_headers = rq_headers rq, fo_body = rq_body rq,
                    fo_ignoreTls = rq_ignoreTls rq, fo_wantBody = rq_keyword rq \<noteq> [], fo_timeoutMs = remaining\<rparr> of
              (Inl code, addrs) \<Rightarrow> (failed code (Some (wb_after w hop - rq_started rq)) cert, [addrs])
            | (Inr res, addrs) \<Rightarrow>
                (let cert1 = (case fe_cert res of None \<Rightarrow> cert | Some c \<Rightarrow> Some c);
                     latency = wb_after w hop - rq_started rq
                 in if 300 \<le> fe_status res \<and> fe_status res < 400 \<and> fe_location res \<notin> {None, Some []}
                    then (if int hop \<ge> rq_maxRedirects rq
                          then (failed (''Too many redirects ('' @ show_nat (Suc hop) @ '')'') (Some latency) cert1, [addrs])
                          else (case wb_resolve w url (the (fe_location res)) of
                                  None \<Rightarrow> (failed ''ERR_INVALID_URL'' (Some latency) cert1, [addrs])
                                | Some url1 \<Rightarrow>
                                    (case hops allow w rq (Suc hop) url1 cert1 of (r, as) \<Rightarrow> (r, addrs # as))))
                    else (judge rq res latency cert1, [addrs]))))"
  by pat_completeness auto
termination
  by (relation "measure (\<lambda>(allow, w, rq, hop, url, cert). nat (rq_maxRedirects rq + 1 - int hop))") auto

declare hops.simps [simp del]

definition http_run :: "bool \<Rightarrow> web \<Rightarrow> probe_config \<Rightarrow> int \<Rightarrow> time \<Rightarrow> probe_result \<times> string list list" where
  "http_run allow w config timeoutMs now =
     (let method = or_default (cfg_str config ''method'') ''GET'';
          rq = \<lparr>rq_method = method,
                rq_accepted = parseAccepted (or_default (cfg_str config ''acceptedStatus'') ''200-299''),
                rq_keyword = cfg_str config ''keyword'', rq_invert = cfg_bool config ''keywordInvert'',
                rq_ignoreTls = cfg_bool config ''ignoreTls'',
                rq_maxRedirects = max 0 (cfg_num config ''maxRedirects'' 10),
                rq_headers = parseHeaders (cfg_str config ''headers''),
                rq_body = (if method \<in> {''POST'', ''PUT'', ''PATCH''} then cfg_str config ''body'' else []),
                rq_started = now, rq_deadline = now + timeoutMs\<rparr>
      in hops allow w rq 0 (cfg_str config ''url'') None)"

definition METHODS :: "string list" where
  "METHODS = [''GET'', ''HEAD'', ''POST'', ''PUT'', ''PATCH'', ''DELETE'', ''OPTIONS'']"

definition http_validate :: "web \<Rightarrow> probe_config \<Rightarrow> string option" where
  "http_validate w config =
     (let url = cfg_str config ''url''
      in if url = [] then Some ''URL is required.''
         else case wb_parse w url of
                None \<Rightarrow> Some ''URL is not valid.''
              | Some (protocol, _) \<Rightarrow>
                  if protocol \<noteq> ''http:'' \<and> protocol \<noteq> ''https:'' then Some ''URL must start with http:// or https://.''
                  else if parseAccepted (or_default (cfg_str config ''acceptedStatus'') ''200-299'') = []
                  then Some ''Accepted status codes are not valid.''
                  else if or_default (cfg_str config ''method'') ''GET'' \<notin> set METHODS then Some ''Unsupported HTTP method.''
                  else None)"

section \<open>No probe reaches the host itself\<close>



definition hop_opts :: "web \<Rightarrow> probe_request \<Rightarrow> nat \<Rightarrow> fetch_opts" where
  "hop_opts w rq hop =
     \<lparr>fo_method = rq_method rq, fo_headers = rq_headers rq, fo_body = rq_body rq,
      fo_ignoreTls = rq_ignoreTls rq, fo_wantBody = rq_keyword rq \<noteq> [], fo_timeoutMs = rq_deadline rq - wb_before w hop\<rparr>"

text \<open>A check ends at a hop, or goes on with one more.\<close>

lemma hops_cases:
  assumes "hops allow w rq hop url cert = (r, trail)"
  obtains (over) "trail = []"
  | (last) f addrs where "fetchOnce allow w hop url (hop_opts w rq hop) = (f, addrs)" "trail = [addrs]"
  | (more) f addrs url1 cert1 trail1 where "fetchOnce allow w hop url (hop_opts w rq hop) = (f, addrs)"
      "int hop < rq_maxRedirects rq" "hops allow w rq (Suc hop) url1 cert1 = (r, trail1)" "trail = addrs # trail1"
proof -
  obtain f addrs where f: "fetchOnce allow w hop url (hop_opts w rq hop) = (f, addrs)" by (metis prod.exhaust)
  show ?thesis
  proof (cases "rq_deadline rq - wb_before w hop \<le> 0")
    case True
    then show ?thesis using assms over by (simp add: hops.simps)
  next
    case False
    note body = assms [unfolded hops.simps [of allow w rq hop url cert] hop_opts_def [symmetric] Let_def if_not_P [OF False] f prod.case]
    show ?thesis
    proof (cases f)
      case (Inl code)
      then show ?thesis using body last [OF f] by simp
    next
      case (Inr res)
      obtain l where l: "fe_location res = l" by simp
      let ?cert = "case fe_cert res of None \<Rightarrow> cert | Some c \<Rightarrow> Some c"
      show ?thesis
      proof (cases "300 \<le> fe_status res \<and> fe_status res < 400 \<and> fe_location res \<notin> {None, Some []} \<and>
          int hop < rq_maxRedirects rq \<and> wb_resolve w url (the (fe_location res)) \<noteq> None")
        case True
        then obtain url1 where u: "wb_resolve w url (the (fe_location res)) = Some url1" by blast
        obtain r1 trail1 where rec: "hops allow w rq (Suc hop) url1 ?cert = (r1, trail1)" by (metis prod.exhaust)
        have "r = r1" "trail = addrs # trail1" using body True u rec unfolding Inr by simp_all
        then show ?thesis using more [OF f] True rec by blast
      next
        case False
        then show ?thesis using body last [OF f] unfolding Inr by (auto split: if_splits option.splits)
      qed
    qed
  qed
qed


lemma hops_length: "hops allow w rq hop url cert = (r, trail) \<Longrightarrow> int (length trail) \<le> max 0 (rq_maxRedirects rq - int hop) + 1"
proof (induction trail arbitrary: hop url cert)
  case Nil
  then show ?case by simp
next
  case (Cons x trail)
  from Cons.prems show ?case
  proof (cases rule: hops_cases)
    case (more f addrs url1 cert1 trail1)
    then show ?thesis using Cons.IH [of "Suc hop" url1 cert1] by simp
  qed simp_all
qed

text \<open>
  C39: A check ends: however servers redirect, it makes at most one request more than the redirects
  it may follow, and the first only when time is left.
\<close>

theorem check_requests_bounded:
  "int (length (snd (http_run allow w config timeoutMs now))) \<le> max 0 (cfg_num config ''maxRedirects'' 10) + 1"
proof -
  obtain rq r trail where "http_run allow w config timeoutMs now = (r, trail)"
    "hops allow w rq 0 (cfg_str config ''url'') None = (r, trail)" "rq_maxRedirects rq = max 0 (cfg_num config ''maxRedirects'' 10)"
    by (metis (no_types, lifting) http_run_def prod.exhaust probe_request.simps(6))
  then show ?thesis using hops_length by fastforce
qed




end
