(* ===== verification/Automations.thy ===== *)
theory Automations
  imports Http_Probe Users Timeline
begin

text \<open>
  The automations engine, \<^verbatim>\<open>automations/automations.service.ts\<close> with the types of
  \<^verbatim>\<open>shared/automations.ts\<close>: matching events and schedules, conditions, debounce, cooldown, actions and
  the rule table with its cache. What an action calls is a field of \<open>action_env\<close>, with the outcome
  of the call (\<open>Inl\<close>: it throws); what an engine did to the outside is the list of \<open>effect\<close>s in
  the state. Local time is given as its calendar fields. An event is handled before the next one.
  \<^verbatim>\<open>slice\<close> cuts at characters of the model, and a template token is one of the six the code
  defines or none.
\<close>

section \<open>Rules\<close>

record event_trigger =
  et_kinds :: "string list"
  et_severities :: "string list"
  et_source :: string
  et_textContains :: string
  et_occurrences :: "(int \<times> int) option"

datatype rule_trigger = On_event event_trigger | On_schedule string

datatype threshold_op = Gt | Ge | Lt | Le | Eq | Ne

datatype rule_condition =
    Time_window string string
  | Severity_at_least string
  | Meta_threshold string threshold_op json
  | Monitor_state string string

datatype rule_action =
    Notify string "string option"
  | Connector_action string string string string
  | Connector_operation string string "string option"
  | Pause_monitor string
  | Resume_monitor string
  | Webhook string "string option" "string option"
  | Ask_computer string "string option" "string option"

record rule =
  ru_id :: string
  ru_name :: string
  ru_enabled :: bool
  ru_trigger :: rule_trigger
  ru_conditions :: "rule_condition list"
  ru_actions :: "rule_action list"
  ru_cooldownSec :: int
  ru_lastFiredAt :: "time option"
  ru_createdAt :: time

record rule_run =
  rr_ruleId :: string
  rr_ruleName :: string
  rr_trigger :: string
  rr_status :: string
  rr_message :: string
  rr_createdAt :: time

text \<open>Local time: minute, hour, day of the month, month from 1, day of the week from Sunday = 0.\<close>

record local_time =
  lt_minute :: int
  lt_hour :: int
  lt_date :: int
  lt_month :: int
  lt_day :: int

section \<open>Pure helpers\<close>

definition sev_rank :: "string \<Rightarrow> int" where
  "sev_rank s = (if s = ''warning'' then 1 else if s = ''critical'' then 2 else 0)"

definition matchesEvent :: "event_trigger \<Rightarrow> tl_event \<Rightarrow> bool" where
  "matchesEvent t e \<longleftrightarrow>
     (et_kinds t \<noteq> [] \<longrightarrow> te_kind e \<in> set (et_kinds t)) \<and>
     (et_severities t \<noteq> [] \<longrightarrow> te_severity e \<in> set (et_severities t)) \<and>
     (et_source t \<noteq> [] \<longrightarrow> str_includes (to_lower (case te_source e of None \<Rightarrow> [] | Some s \<Rightarrow> s)) (to_lower (et_source t))) \<and>
     (et_textContains t \<noteq> [] \<longrightarrow>
        str_includes (to_lower (te_title e @ '' '' @ (case te_detail e of None \<Rightarrow> [] | Some d \<Rightarrow> d)))
          (to_lower (et_textContains t)))"

definition syntheticEvent :: "time \<Rightarrow> tl_event" where
  "syntheticEvent now = \<lparr>te_id = ''schedule'', te_ts = now, te_kind = ''audit'', te_severity = ''info'', te_title = ''schedule'',
     te_detail = None, te_actorId = None, te_actorEmail = None, te_source = None, te_meta = JObj []\<rparr>"

text \<open>\<^verbatim>\<open>acc && typeof acc === 'object' ? acc[key] : undefined\<close>; arrays have their indices and length as keys.\<close>

definition js_prop :: "json \<Rightarrow> string \<Rightarrow> json" where
  "js_prop v key =
     (case v of
        JObj ob \<Rightarrow> obj_get ob key
      | JArr vs \<Rightarrow>
          if key = ''length'' then JNum (int (length vs))
          else if all_digits key \<and> show_nat (read_nat key) = key \<and> read_nat key < length vs then vs ! read_nat key
          else JUndef
      | _ \<Rightarrow> JUndef)"

definition getPath :: "json \<Rightarrow> string \<Rightarrow> json" where
  "getPath v path = foldl js_prop v (split_on CHR ''.'' path)"

definition cmp :: "threshold_op \<Rightarrow> int \<Rightarrow> int \<Rightarrow> bool" where
  "cmp q a b = (case q of Gt \<Rightarrow> a > b | Ge \<Rightarrow> a \<ge> b | Lt \<Rightarrow> a < b | Le \<Rightarrow> a \<le> b | Eq \<Rightarrow> a = b | Ne \<Rightarrow> a \<noteq> b)"

definition metaThresholdHolds :: "string \<Rightarrow> threshold_op \<Rightarrow> json \<Rightarrow> json \<Rightarrow> bool" where
  "metaThresholdHolds path q value meta =
     (let raw = getPath (if meta = JNull \<or> meta = JUndef then JObj [] else meta) path
      in if raw = JUndef \<or> raw = JNull then False
         else case (num_of raw, num_of value) of
                (Some a, Some b) \<Rightarrow> cmp q a b
              | _ \<Rightarrow> (case q of
                        Eq \<Rightarrow> js_string raw = js_string value
                      | Ne \<Rightarrow> js_string raw \<noteq> js_string value
                      | _ \<Rightarrow> False))"

text \<open>\<^verbatim>\<open>/^(\d{1,2}):(\d{2})$/\<close>.\<close>

definition toMinutes :: "string \<Rightarrow> int option" where
  "toMinutes s =
     (case split_on CHR '':'' (trim s) of
        [h, m] \<Rightarrow>
          if all_digits h \<and> length h \<le> 2 \<and> all_digits m \<and> length m = 2
          then Some (int (read_nat h) * 60 + int (read_nat m)) else None
      | _ \<Rightarrow> None)"

definition inTimeWindow :: "local_time \<Rightarrow> string \<Rightarrow> string \<Rightarrow> bool" where
  "inTimeWindow now start fin =
     (let cur = lt_hour now * 60 + lt_minute now
      in case (toMinutes start, toMinutes fin) of
           (Some s, Some e) \<Rightarrow> if s \<le> e then s \<le> cur \<and> cur \<le> e else s \<le> cur \<or> cur \<le> e
         | _ \<Rightarrow> True)"

text \<open>JavaScript's remainder has the sign of the dividend; here the dividend is not negative.\<close>

definition cron_part :: "string \<Rightarrow> int \<Rightarrow> bool" where
  "cron_part part value =
     (let ps = split_on CHR ''/'' part;
          step = (if length ps > 1 then num_of_string (ps ! 1) else Some 1);
          range = hd ps
      in if range = ''*'' then (case step of Some n \<Rightarrow> n > 0 \<and> value mod n = 0 | None \<Rightarrow> False)
         else if CHR ''-'' \<in> set range then
           (case (num_of_string (split_on CHR ''-'' range ! 0), num_of_string (split_on CHR ''-'' range ! 1)) of
              (Some a, Some b) \<Rightarrow>
                a \<le> value \<and> value \<le> b \<and>
                (value - a) mod \<bar>case step of Some n \<Rightarrow> if n = 0 then 1 else n | None \<Rightarrow> 1\<bar> = 0
            | _ \<Rightarrow> False)
         else num_of_string range = Some value)"

definition matchCronField :: "string \<Rightarrow> int \<Rightarrow> bool" where
  "matchCronField spec value \<longleftrightarrow> spec = ''*'' \<or> list_ex (\<lambda>part. cron_part part value) (split_on CHR '','' spec)"

text \<open>\<^verbatim>\<open>s.trim().split(/\s+/)\<close>: the words of \<open>s\<close>, or one empty word.\<close>

definition split_spaces :: "string \<Rightarrow> string list" where
  "split_spaces s = (case words s of [] \<Rightarrow> [[]] | ws \<Rightarrow> ws)"

definition cron_fields :: "local_time \<Rightarrow> int list" where
  "cron_fields d = [lt_minute d, lt_hour d, lt_date d, lt_month d, lt_day d]"

definition matchCron :: "string \<Rightarrow> local_time \<Rightarrow> bool" where
  "matchCron cron date =
     (let parts = split_spaces cron
      in length parts = 5 \<and> list_all2 matchCronField parts (cron_fields date))"

definition describeEvent :: "tl_event \<Rightarrow> string" where
  "describeEvent e = take 200 (te_kind e @ ''/'' @ te_severity e @ '': '' @ te_title e)"

definition clampCooldown :: "json \<Rightarrow> int" where
  "clampCooldown v = (case num_of v of None \<Rightarrow> 60 | Some n \<Rightarrow> max 0 (min 86400 n))"

section \<open>Templates\<close>

definition word_char :: "char \<Rightarrow> bool" where
  "word_char c \<longleftrightarrow> is_alpha c \<or> is_digit c \<or> c = CHR ''_''"

text \<open>A match of \<^verbatim>\<open>/\{\{\s*(\w+)\s*\}\}/\<close> at the start: the name, and the rest after it.\<close>

definition token_at :: "string \<Rightarrow> (string \<times> string) option" where
  "token_at s =
     (if \<not> starts_with s ''{{'' then None
      else let t = trim_start (drop 2 s); name = takeWhile word_char t; u = trim_start (dropWhile word_char t)
           in if name \<noteq> [] \<and> starts_with u ''}}'' then Some (name, drop 2 u) else None)"

lemma length_trim_start: "length (trim_start s) \<le> length s"
  by (simp add: trim_start_def length_dropWhile_le)

lemma token_at_shorter: "token_at s = Some (name, rest) \<Longrightarrow> length rest < length s"
proof -
  assume t: "token_at s = Some (name, rest)"
  let ?t = "trim_start (drop 2 s)"
  have s: "starts_with s ''{{''" and rest: "rest = drop 2 (trim_start (dropWhile word_char ?t))"
    using t by (auto simp: token_at_def Let_def split: if_splits)
  have "length s \<noteq> 0" using s by (auto simp: starts_with_def)
  moreover have "length rest \<le> length s - 2"
    using length_trim_start [of "drop 2 s"] length_trim_start [of "dropWhile word_char ?t"]
      length_dropWhile_le [of word_char ?t] unfolding rest by simp
  moreover have "length s \<ge> 2" using s by (cases s; cases "tl s") (auto simp: starts_with_def)
  ultimately show ?thesis by simp
qed

function replace_tokens :: "(string \<Rightarrow> string) \<Rightarrow> string \<Rightarrow> string" where
  "replace_tokens tokens [] = []"
| "replace_tokens tokens (c # s) =
     (case token_at (c # s) of
        Some (name, rest) \<Rightarrow> tokens name @ replace_tokens tokens rest
      | None \<Rightarrow> c # replace_tokens tokens s)"
  by pat_completeness auto
termination
  by (relation "measure (\<lambda>(_, s). length s)") (use token_at_shorter in \<open>fastforce+\<close>)

definition opt_or :: "string option \<Rightarrow> string" where
  "opt_or v = (case v of None \<Rightarrow> [] | Some s \<Rightarrow> s)"

definition renderTemplate :: "string \<Rightarrow> rule \<Rightarrow> tl_event option \<Rightarrow> string" where
  "renderTemplate tpl r e =
     replace_tokens (\<lambda>k.
       if k = ''ruleName'' then ru_name r
       else case e of
              None \<Rightarrow> []
            | Some e \<Rightarrow>
                if k = ''title'' then te_title e
                else if k = ''detail'' then opt_or (te_detail e)
                else if k = ''severity'' then te_severity e
                else if k = ''source'' then opt_or (te_source e)
                else if k = ''kind'' then te_kind e
                else []) tpl"

section \<open>The engine\<close>

datatype effect =
    Alerted string string string string
  | Performed string string string string
  | Started string string "string option"
  | Monitor_set string bool
  | Http_request string string "string option"
  | Asked string "string option" "string option"

text \<open>
  \<open>av_perform\<close> and \<open>av_fetch\<close> return whether the call was successful, with its message or status;
  \<open>av_computer\<close> is \<open>None\<close> when the assistant module is absent. \<open>av_url\<close> gives protocol and host name.
\<close>

record action_env =
  av_dispatch :: "string \<Rightarrow> string \<Rightarrow> string \<Rightarrow> string \<Rightarrow> string + unit"
  av_perform :: "string \<Rightarrow> string \<Rightarrow> string \<Rightarrow> string \<Rightarrow> string + (bool \<times> string)"
  av_start :: "string \<Rightarrow> string \<Rightarrow> string option \<Rightarrow> string + string"
  av_setEnabled :: "string \<Rightarrow> bool \<Rightarrow> string + string"
  av_url :: "string \<Rightarrow> (string \<times> string) option"
  av_dns :: "string \<Rightarrow> string list"
  av_fetch :: "string \<Rightarrow> string \<Rightarrow> string option \<Rightarrow> string + (bool \<times> int)"
  av_computer :: "(string \<Rightarrow> string option \<Rightarrow> string option \<Rightarrow> string + string) option"
  av_monitor_status :: "string \<Rightarrow> string option"
  av_allowLocal :: bool

record engine =
  en_rules :: "rule list"
  en_cache :: "rule list"
  en_lastFired :: "(string, time) jsmap"
  en_recent :: "(string, time list) jsmap"
  en_runs :: "rule_run list"
  en_audit :: "(string \<times> string \<times> bool) list"
  en_effects :: "effect list"

definition assertWebhookAllowed :: "action_env \<Rightarrow> string \<Rightarrow> string + unit" where
  "assertWebhookAllowed env rawUrl =
     (if av_allowLocal env then Inr ()
      else case av_url env rawUrl of
             None \<Rightarrow> Inl ''webhook URL is invalid''
           | Some (protocol, hostname) \<Rightarrow>
               if protocol \<noteq> ''http:'' \<and> protocol \<noteq> ''https:'' then Inl ''webhook URL must be http(s)''
               else
                 (let host = strip_brackets hostname
                  in case hostBlockedReason False host of
                       Some msg \<Rightarrow> Inl msg
                     | None \<Rightarrow>
                         if isIP host \<noteq> 0 then Inr ()
                         else case List.find isBlockedAddress (av_dns env host) of
                                None \<Rightarrow> Inr ()
                              | Some a \<Rightarrow> Inl (''Blocked webhook target '' @ a @ '' (loopback/link-local/metadata).'')))"

definition event_context :: "tl_event option \<Rightarrow> string option" where
  "event_context e =
     map_option (\<lambda>e. ''kind='' @ te_kind e @ ''; severity='' @ te_severity e @ ''; title='' @ te_title e @ ''; '' @
       ''source='' @ opt_or (te_source e) @ ''; detail='' @ opt_or (te_detail e)) e"

text \<open>The outcome of an action, and the calls it made.\<close>

definition runAction :: "action_env \<Rightarrow> rule_action \<Rightarrow> rule \<Rightarrow> tl_event option \<Rightarrow> (string + string) \<times> effect list" where
  "runAction env a r e =
     (case a of
        Notify title body \<Rightarrow>
          (let key = ''automation.notify:'' @ title
           in (case av_dispatch env ''automation.notify'' title (opt_or body) key of
                 Inl m \<Rightarrow> Inl m | Inr _ \<Rightarrow> Inr (''notified: '' @ title),
               [Alerted ''automation.notify'' title (opt_or body) key]))
      | Connector_action inst kind res act \<Rightarrow>
          (case av_perform env inst kind res act of
             Inl m \<Rightarrow> Inl m
           | Inr (ok, m) \<Rightarrow> if ok then Inr (act @ '' '' @ res) else Inl (''action '' @ act @ '': '' @ m),
           [Performed inst kind res act])
      | Connector_operation inst op res \<Rightarrow>
          (case av_start env inst op res of
             Inl m \<Rightarrow> Inl m | Inr job \<Rightarrow> Inr (''operation '' @ op @ '' (job '' @ take 8 job @ '')''),
           [Started inst op res])
      | Pause_monitor m \<Rightarrow>
          (case av_setEnabled env m False of Inl x \<Rightarrow> Inl x | Inr n \<Rightarrow> Inr (''paused monitor '' @ n), [Monitor_set m False])
      | Resume_monitor m \<Rightarrow>
          (case av_setEnabled env m True of Inl x \<Rightarrow> Inl x | Inr n \<Rightarrow> Inr (''resumed monitor '' @ n), [Monitor_set m True])
      | Webhook url meth body \<Rightarrow>
          (case assertWebhookAllowed env url of
             Inl m \<Rightarrow> (Inl m, [])
           | Inr _ \<Rightarrow>
               (let m = (case meth of None \<Rightarrow> ''POST'' | Some m \<Rightarrow> m);
                    b = (if m = ''POST'' then Some (renderTemplate (opt_or body) r e) else None)
                in (case av_fetch env url m b of
                      Inl x \<Rightarrow> Inl x
                    | Inr (ok, status) \<Rightarrow>
                        if ok then Inr (''webhook '' @ m @ '' '' @ show_int status) else Inl (''webhook '' @ show_int status),
                    [Http_request url m b])))
      | Ask_computer prompt title agent \<Rightarrow>
          (case av_computer env of
             None \<Rightarrow> (Inl ''the Computer is not available'', [])
           | Some ask \<Rightarrow>
               (let context = event_context e;
                    agentId = (if nonempty agent then agent else None)
                in case ask prompt context agentId of
                     Inl x \<Rightarrow> (Inl x, [Asked prompt context agentId])
                   | Inr answer \<Rightarrow>
                       (let t = (case title of None \<Rightarrow> ''Computer'' | Some t \<Rightarrow> t);
                            b = (if answer = [] then ''(no answer)'' else answer);
                            key = ''automation.ask_computer:'' @ ru_id r
                        in (case av_dispatch env ''automation.ask_computer'' t b key of
                              Inl m \<Rightarrow> Inl m
                            | Inr _ \<Rightarrow> Inr (''computer replied ('' @ show_nat (length answer) @ '' chars)''),
                            [Asked prompt context agentId, Alerted ''automation.ask_computer'' t b key])))))"

text \<open>The check mark, the cross and the middle dot, in UTF-8.\<close>

definition tick_mark :: string where "tick_mark = map char_of [226, 156, 147 :: nat]"
definition cross_mark :: string where "cross_mark = map char_of [226, 156, 151 :: nat]"
definition middle_dot :: string where "middle_dot = map char_of [194, 183 :: nat]"

definition result_msg :: "string + string \<Rightarrow> string" where
  "result_msg r = (case r of Inr m \<Rightarrow> tick_mark @ '' '' @ m | Inl m \<Rightarrow> cross_mark @ '' '' @ m)"

definition run_status :: "(string + string) list \<Rightarrow> string" where
  "run_status results =
     (let okCount = length (filter (\<lambda>r. \<not> isl r) results)
      in if results = [] then ''skipped'' else if okCount = length results then ''success''
         else if okCount = 0 then ''error'' else ''partial'')"

definition run_message :: "(string + string) list \<Rightarrow> string" where
  "run_message results =
     (let m = join_with ('' '' @ middle_dot @ '' '') (map result_msg results) in if m = [] then ''no actions'' else m)"

definition fire_rule ::
    "action_env \<Rightarrow> engine \<Rightarrow> rule \<Rightarrow> string \<Rightarrow> bool \<Rightarrow> tl_event option \<Rightarrow> time \<Rightarrow> (string \<times> string) \<times> engine" where
  "fire_rule env st r desc forced e now =
     (let last = (case map_get (en_lastFired st) (ru_id r) of None \<Rightarrow> 0 | Some t \<Rightarrow> t)
      in if \<not> forced \<and> now - last < ru_cooldownSec r * 1000 then ((''skipped'', ''cooldown''), st)
         else
           (let outs = map (\<lambda>a. runAction env a r e) (ru_actions r);
                results = map fst outs;
                status = run_status results;
                message = run_message results
            in ((status, message),
                st\<lparr>en_lastFired := map_set (en_lastFired st) (ru_id r) now,
                   en_effects := en_effects st @ concat (map snd outs),
                   en_runs := en_runs st @ [\<lparr>rr_ruleId = ru_id r, rr_ruleName = ru_name r, rr_trigger = take 300 desc,
                       rr_status = status, rr_message = take 1000 message, rr_createdAt = now\<rparr>],
                   en_rules := rows_update (\<lambda>x. ru_id x = ru_id r) (\<lambda>x. x\<lparr>ru_lastFiredAt := Some now\<rparr>) (en_rules st),
                   en_audit := en_audit st @ [(''automation.'' @ status, ru_name r, True)]\<rparr>)))"

definition occurrencesReached :: "engine \<Rightarrow> string \<Rightarrow> (int \<times> int) option \<Rightarrow> time \<Rightarrow> bool \<times> engine" where
  "occurrencesReached st i occ now =
     (case occ of
        None \<Rightarrow> (True, st)
      | Some (needed, windowSec) \<Rightarrow>
          if needed \<le> 1 \<or> windowSec \<le> 0 then (True, st)
          else
            (let cutoff = now - windowSec * 1000;
                 hits = filter (\<lambda>t. t \<ge> cutoff) (case map_get (en_recent st) i of None \<Rightarrow> [] | Some ts \<Rightarrow> ts) @ [now]
             in if int (length hits) < needed then (False, st\<lparr>en_recent := map_set (en_recent st) i hits\<rparr>)
                else (True, st\<lparr>en_recent := map_set (en_recent st) i []\<rparr>)))"

definition condition_holds :: "action_env \<Rightarrow> local_time \<Rightarrow> tl_event \<Rightarrow> rule_condition \<Rightarrow> bool" where
  "condition_holds env lt e c =
     (case c of
        Severity_at_least s \<Rightarrow> sev_rank s \<le> sev_rank (te_severity e)
      | Time_window start fin \<Rightarrow> inTimeWindow lt start fin
      | Meta_threshold path q value \<Rightarrow> metaThresholdHolds path q value (te_meta e)
      | Monitor_state m state \<Rightarrow>
          (case av_monitor_status env m of
             None \<Rightarrow> False
           | Some s \<Rightarrow> s \<in> {''paused'', ''up'', ''down''} \<and> s = state))"

definition holds :: "action_env \<Rightarrow> local_time \<Rightarrow> tl_event \<Rightarrow> rule_condition list \<Rightarrow> bool" where
  "holds env lt e cs \<longleftrightarrow> list_all (condition_holds env lt e) cs"

definition truthy :: "json \<Rightarrow> bool" where
  "truthy v = (case v of JUndef \<Rightarrow> False | JNull \<Rightarrow> False | JBool b \<Rightarrow> b | JNum i \<Rightarrow> i \<noteq> 0 | JStr s \<Rightarrow> s \<noteq> [] | _ \<Rightarrow> True)"

definition by_automation :: "tl_event \<Rightarrow> bool" where
  "by_automation e \<longleftrightarrow> truthy (js_prop (te_meta e) ''automation'')"

definition event_rule :: "action_env \<Rightarrow> local_time \<Rightarrow> time \<Rightarrow> tl_event \<Rightarrow> engine \<Rightarrow> rule \<Rightarrow> engine" where
  "event_rule env lt now e st r =
     (case ru_trigger r of
        On_schedule _ \<Rightarrow> st
      | On_event t \<Rightarrow>
          if \<not> matchesEvent t e \<or> \<not> holds env lt e (ru_conditions r) then st
          else case occurrencesReached st (ru_id r) (et_occurrences t) now of
                 (False, st1) \<Rightarrow> st1
               | (True, st1) \<Rightarrow> snd (fire_rule env st1 r (describeEvent e) False (Some e) now))"

definition onEvent :: "action_env \<Rightarrow> engine \<Rightarrow> tl_event \<Rightarrow> local_time \<Rightarrow> time \<Rightarrow> engine" where
  "onEvent env st e lt now =
     (if by_automation e then st else foldl (event_rule env lt now e) st (en_cache st))"

definition schedule_rule :: "action_env \<Rightarrow> local_time \<Rightarrow> time \<Rightarrow> engine \<Rightarrow> rule \<Rightarrow> engine" where
  "schedule_rule env lt now st r =
     (case ru_trigger r of
        On_event _ \<Rightarrow> st
      | On_schedule cron \<Rightarrow>
          if \<not> holds env lt (syntheticEvent now) (ru_conditions r) then st
          else if matchCron cron lt then snd (fire_rule env st r (''Schedule '' @ cron) False None now)
          else st)"

definition scheduleTick :: "action_env \<Rightarrow> engine \<Rightarrow> local_time \<Rightarrow> time \<Rightarrow> engine" where
  "scheduleTick env st lt now = foldl (schedule_rule env lt now) st (en_cache st)"

section \<open>The rule table\<close>

definition rule_list :: "engine \<Rightarrow> rule list" where
  "rule_list st = sort_key ru_createdAt (en_rules st)"

definition refresh :: "engine \<Rightarrow> engine" where
  "refresh st = st\<lparr>en_cache := filter ru_enabled (rule_list st)\<rparr>"

definition rule_get :: "engine \<Rightarrow> string \<Rightarrow> rule option" where
  "rule_get st i = List.find (\<lambda>r. ru_id r = i) (en_rules st)"

record rule_input =
  ri_name :: "string option"
  ri_enabled :: "bool option"
  ri_trigger :: "rule_trigger option"
  ri_conditions :: "rule_condition list option"
  ri_actions :: "rule_action list option"
  ri_cooldownSec :: json

record actor_ctx =
  ax_actorId :: string
  ax_actorEmail :: string

definition record_change :: "engine \<Rightarrow> actor_ctx option \<Rightarrow> string \<Rightarrow> string \<Rightarrow> engine" where
  "record_change st ctx action target =
     (case ctx of
        None \<Rightarrow> st
      | Some c \<Rightarrow>
          if ax_actorId c = [] \<and> ax_actorEmail c = [] then st
          else st\<lparr>en_audit := en_audit st @ [(action, target, False)]\<rparr>)"

text \<open>A name is required on creation; an insert with an id in use would be refused.\<close>

definition rule_create :: "engine \<Rightarrow> string \<Rightarrow> rule_trigger \<Rightarrow> rule_input \<Rightarrow> actor_ctx option \<Rightarrow> string \<Rightarrow> time \<Rightarrow> (http_error + rule) \<times> engine" where
  "rule_create st name trigger inp ctx i now =
     (if rule_get st i \<noteq> None then (Inl (InternalError ''Unique constraint failed.''), st)
      else
        (let r = \<lparr>ru_id = i, ru_name = trim name, ru_enabled = (case ri_enabled inp of None \<Rightarrow> True | Some b \<Rightarrow> b),
                  ru_trigger = trigger, ru_conditions = (case ri_conditions inp of None \<Rightarrow> [] | Some cs \<Rightarrow> cs),
                  ru_actions = (case ri_actions inp of None \<Rightarrow> [] | Some as \<Rightarrow> as),
                  ru_cooldownSec = clampCooldown (ri_cooldownSec inp), ru_lastFiredAt = None, ru_createdAt = now\<rparr>;
             st1 = refresh (st\<lparr>en_rules := en_rules st @ [r]\<rparr>)
         in (Inr r, record_change st1 ctx ''automation.rule_created'' (ru_name r))))"

definition apply_input :: "rule_input \<Rightarrow> rule \<Rightarrow> rule" where
  "apply_input inp r =
     r\<lparr>ru_name := (case ri_name inp of None \<Rightarrow> ru_name r | Some n \<Rightarrow> trim n),
       ru_enabled := (case ri_enabled inp of None \<Rightarrow> ru_enabled r | Some b \<Rightarrow> b),
       ru_trigger := (case ri_trigger inp of None \<Rightarrow> ru_trigger r | Some t \<Rightarrow> t),
       ru_conditions := (case ri_conditions inp of None \<Rightarrow> ru_conditions r | Some cs \<Rightarrow> cs),
       ru_actions := (case ri_actions inp of None \<Rightarrow> ru_actions r | Some as \<Rightarrow> as),
       ru_cooldownSec := (if ri_cooldownSec inp = JUndef then ru_cooldownSec r else clampCooldown (ri_cooldownSec inp))\<rparr>"

definition rule_update :: "engine \<Rightarrow> string \<Rightarrow> rule_input \<Rightarrow> actor_ctx option \<Rightarrow> (http_error + rule) \<times> engine" where
  "rule_update st i inp ctx =
     (case rule_get st i of
        None \<Rightarrow> (Inl (InternalError ''Record to update not found.''), st)
      | Some r \<Rightarrow>
          (let st1 = refresh (st\<lparr>en_rules := rows_update (\<lambda>x. ru_id x = i) (apply_input inp) (en_rules st)\<rparr>)
           in (Inr (apply_input inp r), record_change st1 ctx ''automation.rule_updated'' (ru_name (apply_input inp r)))))"

definition rule_remove :: "engine \<Rightarrow> string \<Rightarrow> actor_ctx option \<Rightarrow> (http_error + unit) \<times> engine" where
  "rule_remove st i ctx =
     (case rule_get st i of
        None \<Rightarrow> (Inl (InternalError ''Record to delete does not exist.''), st)
      | Some r \<Rightarrow>
          (let st1 = refresh (st\<lparr>en_rules := filter (\<lambda>x. ru_id x \<noteq> i) (en_rules st), en_lastFired := map_del (en_lastFired st) i\<rparr>)
           in (Inr (), record_change st1 ctx ''automation.rule_deleted'' (ru_name r))))"

definition list_runs :: "engine \<Rightarrow> string option \<Rightarrow> nat \<Rightarrow> rule_run list" where
  "list_runs st ruleId limit =
     take (min limit 500)
       (sort_key (\<lambda>r. - rr_createdAt r)
         (filter (\<lambda>r. case ruleId of None \<Rightarrow> True | Some i \<Rightarrow> i = [] \<or> rr_ruleId r = i) (en_runs st)))"

definition rule_test :: "action_env \<Rightarrow> engine \<Rightarrow> string \<Rightarrow> time \<Rightarrow> (http_error + (string \<times> string)) \<times> engine" where
  "rule_test env st i now =
     (case rule_get st i of
        None \<Rightarrow> (Inl (InternalError ''Rule not found.''), st)
      | Some r \<Rightarrow> (case fire_rule env st r ''Manual test'' True None now of (res, st1) \<Rightarrow> (Inr res, st1)))"

section \<open>The controller\<close>

text \<open>What a new rule is refused for; the type of a trigger is one of the two by construction.\<close>

definition validateTrigger :: "rule_trigger \<Rightarrow> string option" where
  "validateTrigger tr =
     (case tr of
        On_schedule cron \<Rightarrow> if trim cron = [] then Some ''A schedule trigger needs a cron expression.'' else None
      | On_event _ \<Rightarrow> None)"

definition http_url :: "string \<Rightarrow> bool" where
  "http_url u \<longleftrightarrow> starts_with (to_lower u) ''http://'' \<or> starts_with (to_lower u) ''https://''"

definition invalid_action :: "rule_action \<Rightarrow> string option" where
  "invalid_action a =
     (case a of
        Pause_monitor m \<Rightarrow> if m = [] then Some ''Select a monitor for the pause/resume action.'' else None
      | Resume_monitor m \<Rightarrow> if m = [] then Some ''Select a monitor for the pause/resume action.'' else None
      | Webhook u _ _ \<Rightarrow> if \<not> http_url u then Some ''The webhook action needs an http(s) URL.'' else None
      | Connector_action i k _ act \<Rightarrow>
          if i = [] \<or> k = [] \<or> act = [] then Some ''The connector action needs a connector, kind and action.'' else None
      | Connector_operation i op _ \<Rightarrow>
          if i = [] \<or> op = [] then Some ''The connector operation needs a connector and operation.'' else None
      | _ \<Rightarrow> None)"

definition validate_rule :: "string \<Rightarrow> rule_trigger \<Rightarrow> rule_action list \<Rightarrow> string option" where
  "validate_rule name tr actions =
     (if trim name = [] then Some ''A name is required.''
      else case validateTrigger tr of
             Some m \<Rightarrow> Some m
           | None \<Rightarrow>
               if actions = [] then Some ''At least one action is required.''
               else (case List.find (\<lambda>a. invalid_action a \<noteq> None) actions of
                       None \<Rightarrow> None | Some a \<Rightarrow> invalid_action a))"

section \<open>Schedules against a reference\<close>

text \<open>What a cron field is meant to say, and how it is written.\<close>

datatype cron_item = Every | Every_nth nat | Exactly nat | Between nat nat "nat option"

type_synonym cron_field = "cron_item list"

primrec show_item :: "cron_item \<Rightarrow> string" where
  "show_item Every = ''*''"
| "show_item (Every_nth n) = ''*/'' @ show_nat n"
| "show_item (Exactly n) = show_nat n"
| "show_item (Between a b s) = show_nat a @ ''-'' @ show_nat b @ (case s of None \<Rightarrow> [] | Some n \<Rightarrow> ''/'' @ show_nat n)"

definition show_field :: "cron_field \<Rightarrow> string" where
  "show_field f = join_with '','' (map show_item f)"

primrec item_means :: "cron_item \<Rightarrow> nat \<Rightarrow> bool" where
  "item_means Every v \<longleftrightarrow> True"
| "item_means (Every_nth n) v \<longleftrightarrow> n > 0 \<and> v mod n = 0"
| "item_means (Exactly n) v \<longleftrightarrow> v = n"
| "item_means (Between a b s) v \<longleftrightarrow>
     a \<le> v \<and> v \<le> b \<and> (case s of None \<Rightarrow> True | Some n \<Rightarrow> n = 0 \<or> (v - a) mod n = 0)"

definition field_means :: "cron_field \<Rightarrow> nat \<Rightarrow> bool" where
  "field_means f v \<longleftrightarrow> list_ex (\<lambda>i. item_means i v) f"

lemma cron_part_show: "cron_part (show_item i) (int v) = item_means i v"
proof (cases i)
  case Every
  then show ?thesis by (simp add: cron_part_def)
next
  case (Every_nth n)
  have "split_on CHR ''/'' (''*/'' @ show_nat n) = [''*'', show_nat n]"
    using split_on_append [of "CHR ''/''" "''*''" "show_nat n"] split_on_none [OF show_nat_plain, of "CHR ''/''" n] by simp
  then show ?thesis unfolding Every_nth
    by (simp add: cron_part_def num_show_nat zmod_int [symmetric])
next
  case (Exactly n)
  have "split_on CHR ''/'' (show_nat n) = [show_nat n]" by (rule split_on_none) (simp add: show_nat_plain)
  moreover have "show_nat n \<noteq> ''*''" using show_nat_plain [of "CHR ''*''" n] by auto
  ultimately show ?thesis unfolding Exactly
    by (auto simp: cron_part_def num_show_nat show_nat_plain)
next
  case (Between a b s)
  let ?r = "show_nat a @ CHR ''-'' # show_nat b"
  have r: "split_on CHR ''-'' ?r = [show_nat a, show_nat b]"
    by (subst split_on_append) (simp_all add: split_on_none show_nat_plain)
  have slash: "CHR ''/'' \<notin> set ?r" by (simp add: show_nat_plain)
  have star: "?r \<noteq> ''*''" using show_nat_nonempty [of a] by (cases "show_nat a") auto
  have parts: "split_on CHR ''/'' (show_item i) = ?r # (case s of None \<Rightarrow> [] | Some n \<Rightarrow> [show_nat n])"
  proof (cases s)
    case None
    then show ?thesis using split_on_none [OF slash] unfolding Between by simp
  next
    case (Some n)
    have "split_on CHR ''/'' (?r @ CHR ''/'' # show_nat n) = ?r # split_on CHR ''/'' (show_nat n)"
      by (rule split_on_append [OF slash])
    then show ?thesis using Some split_on_none [OF show_nat_plain, of "CHR ''/''" n] unfolding Between by simp
  qed
  have mod: "(int v - int a) mod int n = int ((v - a) mod n)" if "a \<le> v" for n
    using that by (simp add: zmod_int of_nat_diff)
  show ?thesis
  proof (cases "a \<le> v")
    case True
    then show ?thesis using r star mod [OF True] unfolding cron_part_def parts
      by (cases s) (auto simp: num_show_nat Between Let_def)
  next
    case False
    then show ?thesis using r star unfolding cron_part_def parts
      by (cases s) (auto simp: num_show_nat Between Let_def)
  qed
qed

lemma show_item_comma: "CHR '','' \<notin> set (show_item i)"
  by (cases i) (auto simp: show_nat_plain split: option.split)

lemma show_item_space: "c \<in> set (show_item i) \<Longrightarrow> \<not> is_space c"
  using digit_plain show_nat_chars
  by (cases i) (auto simp: is_space_def code_of_def split: option.splits)

lemma matchCronField_show:
  assumes "f \<noteq> []"
  shows "matchCronField (show_field f) (int v) = field_means f v"
proof -
  have split: "split_on CHR '','' (show_field f) = map show_item f"
    unfolding show_field_def using assms show_item_comma by (intro split_join) auto
  have "list_ex (\<lambda>part. cron_part part (int v)) (map show_item f) = field_means f v"
    by (simp add: field_means_def list_ex_iff cron_part_show)
  moreover have "field_means f v" if "show_field f = ''*''"
  proof -
    have "map show_item f = [''*'']" using split that by simp
    then obtain i where "f = [i]" "show_item i = ''*''" by (cases f) auto
    moreover have "show_nat n \<noteq> ''*''" for n using show_nat_plain [of "CHR ''*''" n] by auto
    moreover have "i = Every" using calculation(2,3) show_nat_nonempty
      by (cases i) (auto simp: Cons_eq_append_conv append_eq_Cons_conv)
    ultimately show ?thesis by (simp add: field_means_def)
  qed
  ultimately show ?thesis unfolding matchCronField_def split by blast
qed

lemma words_acc_word: "(\<And>c. c \<in> set w \<Longrightarrow> \<not> is_space c) \<Longrightarrow> words_acc (w @ s) v = words_acc s (rev w @ v)"
  by (induction w arbitrary: v) auto

lemma words_join:
  assumes "\<And>x. x \<in> set xs \<Longrightarrow> x \<noteq> [] \<and> (\<forall>c \<in> set x. \<not> is_space c)"
  shows "words (join_with '' '' xs) = xs"
  using assms
proof (induction "'' ''" xs rule: join_with.induct)
  case (2 x)
  then show ?case using words_acc_word [of x "[]" "[]"] by (auto simp: words_def)
next
  case (3 x y ys)
  have "words_acc (x @ '' '' @ join_with '' '' (y # ys)) [] = x # words_acc (join_with '' '' (y # ys)) []"
    using words_acc_word [of x "'' '' @ join_with '' '' (y # ys)" "[]"] 3(2) by (auto simp: is_space_def code_of_def)
  moreover have "words (join_with '' '' (y # ys)) = y # ys"
    by (rule 3(1)) (use 3(2) in auto)
  ultimately show ?case by (simp add: words_def)
qed (simp add: words_def)

lemma join_chars: "c \<in> set (join_with sep xs) \<Longrightarrow> c \<in> set sep \<or> (\<exists>x \<in> set xs. c \<in> set x)"
  by (induction sep xs rule: join_with.induct) auto

text \<open>
  A schedule means what it says: written out, five lists of wildcards, steps, values and ranges
  match exactly the minutes whose minute, hour, day, month and weekday each satisfy one item of
  their list.
\<close>

theorem cron_means:
  assumes "\<forall>f \<in> set fs. f \<noteq> []" and "length fs = 5" and "cron_fields d = map int vs"
  shows "matchCron (join_with '' '' (map show_field fs)) d \<longleftrightarrow> list_all2 field_means fs vs"
proof -
  have ne: "show_field f \<noteq> [] \<and> (\<forall>c \<in> set (show_field f). \<not> is_space c)" if "f \<in> set fs" for f
  proof -
    have f: "f \<noteq> []" using that assms(1) by blast
    then have "split_on CHR '','' (show_field f) = map show_item f"
      unfolding show_field_def using show_item_comma by (intro split_join) auto
    moreover have "show_item i \<noteq> []" for i by (cases i) (simp_all add: show_nat_nonempty)
    ultimately have "show_field f \<noteq> []" using f
    proof (intro notI)
      assume "split_on CHR '','' (show_field f) = map show_item f" "\<And>i. show_item i \<noteq> []" "show_field f = []"
      then have "[] \<in> set (map show_item f)" by (metis list.set_intros(1) split_on.simps(1))
      then obtain i where "show_item i = []" by (metis imageE list.set_map)
      then show False using \<open>\<And>i. show_item i \<noteq> []\<close> by simp
    qed
    moreover have "\<not> is_space c" if "c \<in> set (show_field f)" for c
      using join_chars [OF that [unfolded show_field_def]] show_item_space
      by (auto simp: is_space_def code_of_def)
    ultimately show ?thesis by blast
  qed
  have "words (join_with '' '' (map show_field fs)) = map show_field fs"
    using ne by (intro words_join) auto
  then have "split_spaces (join_with '' '' (map show_field fs)) = map show_field fs"
    using assms(2) by (cases fs) (auto simp: split_spaces_def)
  moreover have "list_all2 matchCronField (map show_field fs) (map int vs) = list_all2 field_means fs vs"
    using assms(1) matchCronField_show by (induction fs arbitrary: vs) (auto simp: list_all2_Cons1 Cons_eq_map_conv)
  ultimately show ?thesis using assms(2,3) by (simp add: matchCron_def)
qed


lemma cron_example:
  "join_with '' '' (map show_field [[Every_nth 15], [Between 9 17 None], [Every], [Exactly 1, Exactly 7], [Between 1 5 (Some 2)]])
     = ''*/15 9-17 * 1,7 1-5/2''"
  by code_simp

theorem cron_means_witness:
  "matchCron (join_with '' '' (map show_field [[Every_nth 15], [Between 9 17 None], [Every], [Exactly 1, Exactly 7], [Between 1 5 (Some 2)]]))
     \<lparr>lt_minute = 45, lt_hour = 10, lt_date = 3, lt_month = 7, lt_day = 3\<rparr>"
  using cron_means [of "[[Every_nth 15], [Between 9 17 None], [Every], [Exactly 1, Exactly 7], [Between 1 5 (Some 2)]]"
      "\<lparr>lt_minute = 45, lt_hour = 10, lt_date = 3, lt_month = 7, lt_day = 3\<rparr>" "[45, 10, 3, 7, 3]"]
  by (simp add: cron_fields_def field_means_def)

text \<open>
  A time window is an arc of the clock: for times of day \<open>s\<close> and \<open>e\<close>, the current minute lies in
  the window exactly when it comes no later than \<open>e\<close> going round the clock from \<open>s\<close>.
\<close>

theorem time_window_is_arc:
  assumes "toMinutes start = Some s" and "toMinutes fin = Some e" and "s < 1440" and "e < 1440"
    and "0 \<le> lt_hour now" and "lt_hour now < 24" and "0 \<le> lt_minute now" and "lt_minute now < 60"
  shows "inTimeWindow now start fin \<longleftrightarrow>
    (lt_hour now * 60 + lt_minute now - s) mod 1440 \<le> (e - s) mod 1440"
proof -
  let ?c = "lt_hour now * 60 + lt_minute now"
  have nonneg: "0 \<le> s" "0 \<le> e" using assms(1,2)
    by (auto simp: toMinutes_def split: list.splits if_splits)
  have c: "0 \<le> ?c" "?c < 1440" using assms(5-8) by linarith+
  have arc: "(x - s) mod 1440 = (if s \<le> x then x - s else x - s + 1440)" if "0 \<le> x" "x < 1440" for x
  proof (cases "s \<le> x")
    case True
    then show ?thesis using that nonneg by (simp add: mod_pos_pos_trivial)
  next
    case False
    then have "(x - s + 1440) mod 1440 = x - s + 1440" using that assms(3) by (intro mod_pos_pos_trivial) simp_all
    then show ?thesis using False by simp
  qed
  show ?thesis using arc [OF c] arc [OF nonneg(2) assms(4)] c nonneg assms(3,4)
    unfolding inTimeWindow_def assms(1,2) Let_def option.case prod.case by (simp split: if_splits) linarith?
qed

theorem time_window_is_arc_witness:
  "inTimeWindow \<lparr>lt_minute = 30, lt_hour = 1, lt_date = 3, lt_month = 7, lt_day = 3\<rparr> ''22:00'' ''06:00''"
proof -
  have "toMinutes ''22:00'' = Some 1320" "toMinutes ''06:00'' = Some 360" by code_simp+
  from time_window_is_arc [OF this] show ?thesis by simp
qed

section \<open>Webhooks\<close>

definition target_checked :: "action_env \<Rightarrow> string \<Rightarrow> bool" where
  "target_checked env url \<longleftrightarrow>
     (case av_url env url of
        None \<Rightarrow> False
      | Some (protocol, hostname) \<Rightarrow>
          protocol \<in> {''http:'', ''https:''} \<and>
          (if isIP (strip_brackets hostname) \<noteq> 0 then \<not> isBlockedAddress (strip_brackets hostname)
           else \<forall>x \<in> set (av_dns env (strip_brackets hostname)). \<not> isBlockedAddress x))"

lemma strip_brackets_ip: "isIP (strip_brackets h) \<noteq> 0 \<Longrightarrow> strip_brackets (strip_brackets h) = strip_brackets h"
proof -
  assume ip: "isIP (strip_brackets h) \<noteq> 0"
  have no: "CHR ''['' \<notin> set (strip_brackets h)" "CHR '']'' \<notin> set (strip_brackets h)"
    using isIP_chars [OF ip, of "CHR ''[''"] isIP_chars [OF ip, of "CHR '']''"]
    by (auto simp: ip_char_def zone_char_def str_simps)
  have "\<not> starts_with s ''[''" if "CHR ''['' \<notin> set s" for s using that by (cases s) (auto simp: starts_with_def)
  moreover have "last s \<noteq> CHR '']''" if "CHR '']'' \<notin> set s" "s \<noteq> []" for s using that last_in_set by metis
  ultimately have "strip_brackets s = s" if "CHR ''['' \<notin> set s" "CHR '']'' \<notin> set s" for s
    using that by (auto simp: strip_brackets_def Let_def)
  then show ?thesis using no by blast
qed

lemma assertWebhookAllowed_target:
  assumes "assertWebhookAllowed env url = Inr ()" and "\<not> av_allowLocal env"
  shows "target_checked env url"
proof -
  obtain p h where u: "av_url env url = Some (p, h)" "p \<in> {''http:'', ''https:''}"
    using assms by (auto simp: assertWebhookAllowed_def split: option.splits if_splits)
  have lit: "hostBlockedReason False (strip_brackets h) = None"
    and dns: "isIP (strip_brackets h) = 0 \<Longrightarrow> List.find isBlockedAddress (av_dns env (strip_brackets h)) = None"
    using assms u by (auto simp: assertWebhookAllowed_def Let_def split: option.splits if_splits)
  show ?thesis
  proof (cases "isIP (strip_brackets h) = 0")
    case True
    then show ?thesis using u dns by (auto simp: target_checked_def find_None_iff)
  next
    case False
    then have "\<not> isBlockedAddress (strip_brackets h)"
      using lit strip_brackets_ip by (auto simp: hostBlockedReason_def Let_def split: if_splits)
    then show ?thesis using False u by (auto simp: target_checked_def)
  qed
qed

text \<open>
  A webhook request is made only to a target that passed the guard: an http(s) URL whose literal
  address, or whose every address in the answer of the lookup, is not loopback, this-host or
  link-local.
\<close>

theorem webhook_target_checked:
  assumes "runAction env a r e = (res, effects)" and "Http_request url meth body \<in> set effects" and "\<not> av_allowLocal env"
  shows "target_checked env url"
proof -
  have "assertWebhookAllowed env url = Inr ()"
    using assms(1,2) by (cases a) (auto simp: runAction_def Let_def split: sum.splits option.splits prod.splits if_splits)
  then show ?thesis using assms(3) by (rule assertWebhookAllowed_target)
qed

definition demo_action_env :: action_env where
  "demo_action_env =
     \<lparr>av_dispatch = (\<lambda>k t b d. Inr ()), av_perform = (\<lambda>i k r a. Inr (True, ''ok'')), av_start = (\<lambda>i op r. Inr ''job1''),
      av_setEnabled = (\<lambda>m b. Inr m), av_url = (\<lambda>u. Some (''http:'', ''hook.lan'')), av_dns = (\<lambda>h. [''10.0.0.9'']),
      av_fetch = (\<lambda>u m b. Inr (True, 200)), av_computer = None, av_monitor_status = (\<lambda>m. Some ''up''), av_allowLocal = False\<rparr>"

definition demo_rule :: rule where
  "demo_rule = \<lparr>ru_id = ''r1'', ru_name = ''hook'', ru_enabled = True,
     ru_trigger = On_event \<lparr>et_kinds = [''monitor''], et_severities = [], et_source = [], et_textContains = [], et_occurrences = None\<rparr>,
     ru_conditions = [], ru_actions = [Webhook ''http://hook.lan/x'' None (Some ''{{ title }}!'')], ru_cooldownSec = 60,
     ru_lastFiredAt = None, ru_createdAt = 0\<rparr>"

definition demo_event :: tl_event where
  "demo_event = \<lparr>te_id = ''monitor:1'', te_ts = 0, te_kind = ''monitor'', te_severity = ''critical'', te_title = ''db down'', te_detail = None,
     te_actorId = None, te_actorEmail = None, te_source = None, te_meta = JNull\<rparr>"

lemma demo_webhook:
  "runAction demo_action_env (Webhook ''http://hook.lan/x'' None (Some ''{{ title }}!'')) demo_rule (Some demo_event) =
     (Inr ''webhook POST 200'', [Http_request ''http://hook.lan/x'' ''POST'' (Some ''db down!'')])"
  by code_simp

theorem webhook_target_checked_witness: "target_checked demo_action_env ''http://hook.lan/x''"
  by (rule webhook_target_checked [OF demo_webhook]) (simp_all add: demo_action_env_def)

section \<open>Runs of the engine\<close>

datatype engine_event =
    En_event action_env tl_event local_time time
  | En_tick action_env local_time time
  | En_test action_env string time
  | En_create string rule_trigger rule_input "actor_ctx option" string time
  | En_update string rule_input "actor_ctx option"
  | En_remove string "actor_ctx option"

primrec engine_step :: "engine \<Rightarrow> engine_event \<Rightarrow> engine" where
  "engine_step st (En_event env e lt now) = onEvent env st e lt now"
| "engine_step st (En_tick env lt now) = scheduleTick env st lt now"
| "engine_step st (En_test env i now) = snd (rule_test env st i now)"
| "engine_step st (En_create name trigger inp ctx i now) = snd (rule_create st name trigger inp ctx i now)"
| "engine_step st (En_update i inp ctx) = snd (rule_update st i inp ctx)"
| "engine_step st (En_remove i ctx) = snd (rule_remove st i ctx)"

text \<open>A fact that firing and counting keep survives the handling of an event and a tick.\<close>

lemma foldl_keeps: "P st \<Longrightarrow> (\<And>s x. x \<in> set xs \<Longrightarrow> P s \<Longrightarrow> P (f s x)) \<Longrightarrow> P (foldl f st xs)"
  by (induction xs arbitrary: st) auto

lemma event_keeps:
  assumes "P st"
    and fire: "\<And>s r d forced e. r \<in> set (en_cache st) \<Longrightarrow> P s \<Longrightarrow> P (snd (fire_rule env s r d forced e now))"
    and count: "\<And>s m. P s \<Longrightarrow> P (s\<lparr>en_recent := m\<rparr>)"
  shows "P (onEvent env st e lt now)" and "P (scheduleTick env st lt now)"
proof -
  have occ: "P (snd (occurrencesReached s i c now))" if "P s" for s i c
    using that count by (simp add: occurrencesReached_def Let_def split: option.split prod.split)
  have "P (event_rule env lt now e s r)" if r: "r \<in> set (en_cache st)" "P s" for s r
  proof (cases "ru_trigger r")
    case (On_event t)
    obtain b s1 where o: "occurrencesReached s (ru_id r) (et_occurrences t) now = (b, s1)" by (metis prod.exhaust)
    have "P s1" using occ [OF r(2), of "ru_id r" "et_occurrences t"] o by simp
    then show ?thesis using r fire On_event o by (cases b) (simp_all add: event_rule_def)
  qed (use r in \<open>simp add: event_rule_def\<close>)
  then show "P (onEvent env st e lt now)" using assms(1) by (simp add: onEvent_def foldl_keeps)
  have "P (schedule_rule env lt now s r)" if "r \<in> set (en_cache st)" "P s" for s r
    using that fire by (simp add: schedule_rule_def split: rule_trigger.split)
  then show "P (scheduleTick env st lt now)" using assms(1) by (simp add: scheduleTick_def foldl_keeps)
qed

lemma fire_rule_fields:
  "en_cache (snd (fire_rule env st r d forced e now)) = en_cache st"
  "en_recent (snd (fire_rule env st r d forced e now)) = en_recent st"
  by (simp_all add: fire_rule_def Let_def)

lemma record_change_fields [simp]:
  "en_cache (record_change st ctx a x) = en_cache st" "en_rules (record_change st ctx a x) = en_rules st"
  "en_lastFired (record_change st ctx a x) = en_lastFired st" "en_runs (record_change st ctx a x) = en_runs st"
  by (simp_all add: record_change_def split: option.split)

subsection \<open>The cooldown\<close>

definition fired_since :: "time \<Rightarrow> string \<Rightarrow> engine \<Rightarrow> bool" where
  "fired_since t i st = (case map_get (en_lastFired st) i of None \<Rightarrow> False | Some u \<Rightarrow> t \<le> u)"

definition not_before :: "time \<Rightarrow> string \<Rightarrow> engine_event \<Rightarrow> bool" where
  "not_before t i e =
     (case e of
        En_event _ _ _ now \<Rightarrow> t \<le> now
      | En_tick _ _ now \<Rightarrow> t \<le> now
      | En_test _ _ now \<Rightarrow> t \<le> now
      | En_remove j _ \<Rightarrow> j \<noteq> i
      | _ \<Rightarrow> True)"

lemma fired_since_fire: "t \<le> now \<Longrightarrow> fired_since t i st \<Longrightarrow> fired_since t i (snd (fire_rule env st r d forced e now))"
  by (simp add: fired_since_def fire_rule_def store_simps Let_def split: option.splits)

lemma fired_since_recent: "fired_since t i (st\<lparr>en_recent := m\<rparr>) = fired_since t i st"
  by (simp add: fired_since_def)

lemma fired_since_step:
  assumes "fired_since t i st" and "not_before t i e"
  shows "fired_since t i (engine_step st e)"
proof (cases e)
  case (En_event env ev lt now)
  then have "t \<le> now" using assms(2) by (simp add: not_before_def)
  then have "fired_since t i (onEvent env st ev lt now)"
    by (intro event_keeps(1) [where P = "fired_since t i", OF assms(1)] fired_since_fire) (simp_all add: fired_since_recent)
  then show ?thesis by (simp add: En_event)
next
  case (En_tick env lt now)
  then have "t \<le> now" using assms(2) by (simp add: not_before_def)
  then have "fired_since t i (scheduleTick env st lt now)"
    by (intro event_keeps(2) [where P = "fired_since t i", OF assms(1)] fired_since_fire) (simp_all add: fired_since_recent)
  then show ?thesis by (simp add: En_tick)
next
  case (En_test env j now)
  then show ?thesis using assms fired_since_fire
    by (simp add: not_before_def rule_test_def split: option.split prod.split) (metis snd_conv)
next
  case (En_create name trigger inp ctx j now)
  then show ?thesis using assms by (simp add: rule_create_def refresh_def fired_since_def Let_def)
next
  case (En_update j inp ctx)
  then show ?thesis using assms by (auto simp: rule_update_def refresh_def fired_since_def Let_def split: option.splits)
next
  case (En_remove j ctx)
  then show ?thesis using assms
    by (auto simp: rule_remove_def refresh_def fired_since_def not_before_def store_simps Let_def split: option.splits)
qed

lemma fired_since_run:
  "fired_since t i st \<Longrightarrow> list_all (not_before t i) es \<Longrightarrow> fired_since t i (foldl engine_step st es)"
  by (induction es arbitrary: st) (auto intro: fired_since_step)

lemma fire_rule_ran:
  assumes "en_runs (snd (fire_rule env st r d forced e now)) \<noteq> en_runs st"
  shows "fired_since now (ru_id r) (snd (fire_rule env st r d forced e now))"
    and "\<not> forced \<Longrightarrow> fired_since t (ru_id r) st \<Longrightarrow> t + ru_cooldownSec r * 1000 \<le> now"
  using assms by (auto simp: fire_rule_def fired_since_def store_simps Let_def split: if_splits option.splits)

text \<open>
  C26: The cooldown holds: between two runs of a rule, whatever the second is triggered by and
  whatever events, ticks, tests and changes to the rules come in between, at least its cooldown passes, unless
  the rule was removed (or the second run is a manual test).
\<close>

theorem cooldown_respected:
  assumes "en_runs (snd (fire_rule env st r d forced e t1)) \<noteq> en_runs st"
    and "list_all (not_before t1 (ru_id r)) es"
    and "st2 = foldl engine_step (snd (fire_rule env st r d forced e t1)) es"
    and "ru_id r2 = ru_id r" and "en_runs (snd (fire_rule env2 st2 r2 d2 False e2 t2)) \<noteq> en_runs st2"
  shows "t1 + ru_cooldownSec r2 * 1000 \<le> t2"
proof -
  have "fired_since t1 (ru_id r) st2"
    unfolding assms(3) by (rule fired_since_run [OF fire_rule_ran(1) [OF assms(1)] assms(2)])
  then show ?thesis using fire_rule_ran(2) [OF assms(5)] assms(4) by simp
qed

subsection \<open>The cache\<close>

text \<open>Every cached rule is enabled, and so is its row.\<close>

definition engine_ok :: "engine \<Rightarrow> bool" where
  "engine_ok st \<longleftrightarrow> (\<forall>c \<in> set (en_cache st). \<exists>r \<in> set (en_rules st). ru_id r = ru_id c \<and> ru_enabled r)"

lemma fire_engine_ok: "engine_ok st \<Longrightarrow> engine_ok (snd (fire_rule env st r d forced e now))"
proof -
  assume ok: "engine_ok st"
  have "\<exists>x \<in> set (rows_update (\<lambda>x. ru_id x = ru_id r) (\<lambda>x. x\<lparr>ru_lastFiredAt := Some now\<rparr>) (en_rules st)). ru_id x = i \<and> ru_enabled x"
    if ex: "\<exists>x \<in> set (en_rules st). ru_id x = i \<and> ru_enabled x" for i
  proof -
    obtain x where "x \<in> set (en_rules st)" "ru_id x = i" "ru_enabled x" using ex by blast
    then show ?thesis
      by (intro bexI [of _ "if ru_id x = ru_id r then x\<lparr>ru_lastFiredAt := Some now\<rparr> else x"])
        (auto simp: in_rows_update)
  qed
  then show ?thesis using ok by (simp add: engine_ok_def fire_rule_def Let_def)
qed

lemma refresh_engine_ok: "engine_ok (refresh st)"
  by (auto simp: engine_ok_def refresh_def rule_list_def)

lemma engine_ok_change: "engine_ok (record_change st ctx a x) = engine_ok st"
  by (simp add: engine_ok_def)

lemma engine_step_ok: "engine_ok st \<Longrightarrow> engine_ok (engine_step st e)"
proof (cases e)
  case (En_event env ev lt now)
  assume ok: "engine_ok st"
  have "engine_ok (onEvent env st ev lt now)"
    by (intro event_keeps(1) [where P = engine_ok, OF ok] fire_engine_ok) (simp_all add: engine_ok_def)
  then show ?thesis by (simp add: En_event)
next
  case (En_tick env lt now)
  assume ok: "engine_ok st"
  have "engine_ok (scheduleTick env st lt now)"
    by (intro event_keeps(2) [where P = engine_ok, OF ok] fire_engine_ok) (simp_all add: engine_ok_def)
  then show ?thesis by (simp add: En_tick)
next
  case (En_test env j now)
  assume "engine_ok st"
  then show ?thesis using En_test fire_engine_ok
    by (simp add: rule_test_def split: option.split prod.split) (metis snd_conv)
qed (simp_all add: rule_create_def rule_update_def rule_remove_def engine_ok_change refresh_engine_ok Let_def split: option.split)

interpretation engines: event_machine engine_step engine_ok
  by unfold_locales (rule engine_step_ok)

definition runs_of :: "string \<Rightarrow> engine \<Rightarrow> rule_run list" where
  "runs_of i st = filter (\<lambda>r. rr_ruleId r = i) (en_runs st)"

text \<open>
  A rule that is disabled or gone does not run: from any state the engine reaches, an event or a
  tick adds no run of a rule whose row is not enabled.
\<close>

theorem disabled_rule_never_runs:
  assumes "engine_ok st0" and "st = foldl engine_step st0 es"
    and "\<not> (\<exists>r \<in> set (en_rules st). ru_id r = i \<and> ru_enabled r)"
  shows "runs_of i (onEvent env st ev lt now) = runs_of i st \<and> runs_of i (scheduleTick env st lt now) = runs_of i st"
proof -
  have "engine_ok st" using engines.inv_run [OF assms(1)] assms(2) by simp
  then have other: "ru_id c \<noteq> i" if "c \<in> set (en_cache st)" for c using that assms(3) by (auto simp: engine_ok_def)
  have fire: "runs_of i (snd (fire_rule env s r d forced e now)) = runs_of i s" if "r \<in> set (en_cache st)" for s r d forced e
    using other [OF that] by (simp add: runs_of_def fire_rule_def Let_def)
  have count: "runs_of i (s\<lparr>en_recent := m\<rparr>) = runs_of i s" for s m by (simp add: runs_of_def)
  show ?thesis
    using event_keeps [where P = "\<lambda>s. runs_of i s = runs_of i st" and st = st and now = now] fire count by simp
qed

definition no_rules :: engine where
  "no_rules = \<lparr>en_rules = [], en_cache = [], en_lastFired = [], en_recent = [], en_runs = [], en_audit = [], en_effects = []\<rparr>"

definition no_input :: rule_input where
  "no_input = \<lparr>ri_name = None, ri_enabled = None, ri_trigger = None, ri_conditions = None, ri_actions = None, ri_cooldownSec = JUndef\<rparr>"

definition demo_engine :: engine where
  "demo_engine = foldl engine_step no_rules
     [En_create ''hook'' (ru_trigger demo_rule) (no_input\<lparr>ri_actions := Some (ru_actions demo_rule)\<rparr>) None ''r1'' 0,
      En_event demo_action_env demo_event \<lparr>lt_minute = 0, lt_hour = 0, lt_date = 1, lt_month = 1, lt_day = 0\<rparr> 100000]"

theorem disabled_rule_never_runs_witness:
  "runs_of ''r1'' (onEvent demo_action_env
       (foldl engine_step demo_engine [En_update ''r1'' (no_input\<lparr>ri_enabled := Some False\<rparr>) None]) demo_event
       \<lparr>lt_minute = 0, lt_hour = 0, lt_date = 1, lt_month = 1, lt_day = 0\<rparr> 900000) =
   runs_of ''r1'' (foldl engine_step demo_engine [En_update ''r1'' (no_input\<lparr>ri_enabled := Some False\<rparr>) None])"
proof -
  let ?st = "foldl engine_step demo_engine [En_update ''r1'' (no_input\<lparr>ri_enabled := Some False\<rparr>) None]"
  have "engine_ok demo_engine"
    unfolding demo_engine_def by (rule engines.inv_run) (simp add: engine_ok_def no_rules_def)
  moreover have "\<not> (\<exists>r \<in> set (en_rules ?st). ru_id r = ''r1'' \<and> ru_enabled r)" by code_simp
  ultimately show ?thesis using disabled_rule_never_runs [OF _ refl] by blast
qed

theorem cooldown_respected_witness:
  "100000 + ru_cooldownSec demo_rule * 1000 \<le> (160000 :: time)"
proof (rule cooldown_respected)
  show "en_runs (snd (fire_rule demo_action_env no_rules demo_rule [] False None 100000)) \<noteq> en_runs no_rules"
    by (simp add: fire_rule_def no_rules_def demo_rule_def Let_def)
  show "list_all (not_before 100000 (ru_id demo_rule)) [En_event demo_action_env demo_event
      \<lparr>lt_minute = 0, lt_hour = 0, lt_date = 1, lt_month = 1, lt_day = 0\<rparr> 130000]"
    by (simp add: not_before_def)
  show "snd (fire_rule demo_action_env no_rules demo_rule [] False None 100000) =
    foldl engine_step (snd (fire_rule demo_action_env no_rules demo_rule [] False None 100000))
      [En_event demo_action_env demo_event \<lparr>lt_minute = 0, lt_hour = 0, lt_date = 1, lt_month = 1, lt_day = 0\<rparr> 130000]"
    by (simp add: onEvent_def by_automation_def demo_event_def js_prop_def truthy_def fire_rule_fields) (simp add: no_rules_def)
  show "en_runs (snd (fire_rule demo_action_env (snd (fire_rule demo_action_env no_rules demo_rule [] False None 100000))
      demo_rule [] False None 160000)) \<noteq> en_runs (snd (fire_rule demo_action_env no_rules demo_rule [] False None 100000))"
    by (simp add: fire_rule_def no_rules_def demo_rule_def store_simps Let_def)
qed simp_all

text \<open>
  The loop guard knows an event of the engine by a field of its extras that the event of a
  delivered notification never has: what the engine's own notification publishes is reacted to.
\<close>

lemma own_notification_not_recognised: "\<not> by_automation (mapNotificationRow r)"
  by (simp add: by_automation_def mapNotificationRow_def js_prop_def truthy_def obj_get_def)

end
