(* ===== verification/Alert_Catalog.thy ===== *)
theory Alert_Catalog
  imports Cerebro_Prelude
begin

text \<open>
  The alert catalog: \<^verbatim>\<open>notifications/alerts/alert-registry.ts\<close>, \<^verbatim>\<open>metric-thresholds.ts\<close> and the types
  of \<^verbatim>\<open>shared/notifications.ts\<close>. The two tables are the source's, entry by entry; characters beyond
  ASCII are their UTF-8 bytes. Severities form a linear order, the one \<^verbatim>\<open>severityRank\<close> compares by.
\<close>

datatype severity = Info | Warning | Critical

definition severityRank :: "severity \<Rightarrow> int" where
  "severityRank s = (case s of Info \<Rightarrow> 0 | Warning \<Rightarrow> 1 | Critical \<Rightarrow> 2)"

instantiation severity :: linorder
begin

definition less_eq_severity :: "severity \<Rightarrow> severity \<Rightarrow> bool" where
  "less_eq_severity a b \<longleftrightarrow> severityRank a \<le> severityRank b"

definition less_severity :: "severity \<Rightarrow> severity \<Rightarrow> bool" where
  "less_severity a b \<longleftrightarrow> severityRank a < severityRank b"

instance
proof
  fix a b :: severity
  show "a \<le> b \<Longrightarrow> b \<le> a \<Longrightarrow> a = b"
    by (cases a; cases b) (simp_all add: less_eq_severity_def severityRank_def)
qed (auto simp: less_eq_severity_def less_severity_def)

end

datatype channel = Email | Textbelt | Signal

record alert_type =
  at_key :: string
  at_label :: string
  at_description :: string
  at_category :: string
  at_defaultSeverity :: severity
  at_defaultEnabled :: bool
  at_defaultChannels :: "channel list"
  at_connectorScoped :: bool
  at_monitorScoped :: bool

record metric_threshold =
  mt_id :: string
  mt_metricKey :: string
  mt_alertKey :: string
  mt_label :: string

section \<open>The tables\<close>

definition backup_alerts :: "alert_type list" where
  "backup_alerts = [
     \<lparr>at_key = ''backup.failure'', at_label = ''Backup failed'',
      at_description = ''A scheduled or manual backup finished with an error.'',
      at_category = ''Backups'', at_defaultSeverity = Critical, at_defaultEnabled = True,
      at_defaultChannels = [Email], at_connectorScoped = True, at_monitorScoped = False\<rparr>,
     \<lparr>at_key = ''backup.success'', at_label = ''Backup succeeded'',
      at_description = ''A scheduled or manual backup completed successfully.'',
      at_category = ''Backups'', at_defaultSeverity = Info, at_defaultEnabled = False,
      at_defaultChannels = [Email], at_connectorScoped = True, at_monitorScoped = False\<rparr>,
     \<lparr>at_key = ''restore.failure'', at_label = ''Restore failed'',
      at_description = ''A restore from backup finished with an error.'',
      at_category = ''Backups'', at_defaultSeverity = Critical, at_defaultEnabled = True,
      at_defaultChannels = [Email], at_connectorScoped = True, at_monitorScoped = False\<rparr>,
     \<lparr>at_key = ''restore.success'', at_label = ''Restore completed'',
      at_description = ''A restore from backup completed successfully.'',
      at_category = ''Backups'', at_defaultSeverity = Info, at_defaultEnabled = False,
      at_defaultChannels = [Email], at_connectorScoped = True, at_monitorScoped = False\<rparr>,
     \<lparr>at_key = ''backup.stale'', at_label = ''Backup overdue'',
      at_description = ''A scheduled backup has not succeeded for well past its own interval '' @ em_dash @ '' it may have silently stopped running.'',
      at_category = ''Backups'', at_defaultSeverity = Warning, at_defaultEnabled = True,
      at_defaultChannels = [Email], at_connectorScoped = True, at_monitorScoped = False\<rparr>,
     \<lparr>at_key = ''retention.failure'', at_label = ''Retention prune failed'',
      at_description = ''Applying backup retention (pruning old snapshots) failed.'',
      at_category = ''Backups'', at_defaultSeverity = Warning, at_defaultEnabled = True,
      at_defaultChannels = [Email], at_connectorScoped = True, at_monitorScoped = False\<rparr>]"

definition connection_alerts :: "alert_type list" where
  "connection_alerts = [
     \<lparr>at_key = ''connection.down'', at_label = ''Connector unreachable'',
      at_description = ''A connector failed its connection check (was previously reachable).'',
      at_category = ''Connections'', at_defaultSeverity = Warning, at_defaultEnabled = True,
      at_defaultChannels = [Email], at_connectorScoped = True, at_monitorScoped = False\<rparr>,
     \<lparr>at_key = ''connection.recovered'', at_label = ''Connector recovered'',
      at_description = ''A previously-unreachable connector is responding again.'',
      at_category = ''Connections'', at_defaultSeverity = Info, at_defaultEnabled = True,
      at_defaultChannels = [Email], at_connectorScoped = True, at_monitorScoped = False\<rparr>]"

definition resource_alerts :: "alert_type list" where
  "resource_alerts = [
     \<lparr>at_key = ''resource.stopped'', at_label = ''Resource stopped'',
      at_description = ''A VM, container, or instance changed to a stopped state.'',
      at_category = ''Resources'', at_defaultSeverity = Warning, at_defaultEnabled = True,
      at_defaultChannels = [Email], at_connectorScoped = True, at_monitorScoped = False\<rparr>,
     \<lparr>at_key = ''resource.started'', at_label = ''Resource started'',
      at_description = ''A VM, container, or instance changed to a running state.'',
      at_category = ''Resources'', at_defaultSeverity = Info, at_defaultEnabled = False,
      at_defaultChannels = [Email], at_connectorScoped = True, at_monitorScoped = False\<rparr>]"

definition cost_alerts :: "alert_type list" where
  "cost_alerts = [
     \<lparr>at_key = ''cost.threshold'', at_label = ''Monthly cost over threshold'',
      at_description = ''A connector's month-to-date spend crossed the limit set on its page.'',
      at_category = ''Cost'', at_defaultSeverity = Warning, at_defaultEnabled = True,
      at_defaultChannels = [Email], at_connectorScoped = True, at_monitorScoped = False\<rparr>]"

definition storage_alerts :: "alert_type list" where
  "storage_alerts = [
     \<lparr>at_key = ''storage.threshold'', at_label = ''Storage over threshold'',
      at_description = ''A connector's storage size crossed the limit set on its page.'',
      at_category = ''Storage'', at_defaultSeverity = Warning, at_defaultEnabled = True,
      at_defaultChannels = [Email], at_connectorScoped = True, at_monitorScoped = False\<rparr>]"

definition ha_alerts :: "alert_type list" where
  "ha_alerts = [
     \<lparr>at_key = ''ha.unavailable'', at_label = ''Unavailable entities over threshold'',
      at_description = ''The number of unavailable/unknown Home Assistant entities crossed the limit set on its page.'',
      at_category = ''Home Assistant'', at_defaultSeverity = Warning, at_defaultEnabled = True,
      at_defaultChannels = [Email], at_connectorScoped = True, at_monitorScoped = False\<rparr>,
     \<lparr>at_key = ''ha.batteries_low'', at_label = ''Low batteries over threshold'',
      at_description = ''The number of low-battery Home Assistant entities crossed the limit set on its page.'',
      at_category = ''Home Assistant'', at_defaultSeverity = Warning, at_defaultEnabled = True,
      at_defaultChannels = [Email], at_connectorScoped = True, at_monitorScoped = False\<rparr>,
     \<lparr>at_key = ''ha.updates'', at_label = ''Updates available over threshold'',
      at_description = ''The number of available Home Assistant updates crossed the limit set on its page.'',
      at_category = ''Home Assistant'', at_defaultSeverity = Info, at_defaultEnabled = True,
      at_defaultChannels = [Email], at_connectorScoped = True, at_monitorScoped = False\<rparr>,
     \<lparr>at_key = ''ha.automations_off'', at_label = ''Automations off over threshold'',
      at_description = ''The number of disabled Home Assistant automations crossed the limit set on its page.'',
      at_category = ''Home Assistant'', at_defaultSeverity = Warning, at_defaultEnabled = True,
      at_defaultChannels = [Email], at_connectorScoped = True, at_monitorScoped = False\<rparr>,
     \<lparr>at_key = ''ha.integrations'', at_label = ''Degraded integrations over threshold'',
      at_description = ''The number of Home Assistant integrations that failed to set up crossed the limit set on its page.'',
      at_category = ''Home Assistant'', at_defaultSeverity = Warning, at_defaultEnabled = True,
      at_defaultChannels = [Email], at_connectorScoped = True, at_monitorScoped = False\<rparr>]"

definition cloudflare_alerts :: "alert_type list" where
  "cloudflare_alerts = [
     \<lparr>at_key = ''cloudflare.tunnels_down'', at_label = ''Tunnels down over threshold'',
      at_description = ''The number of Cloudflare Tunnels that are down/degraded/inactive crossed the limit set on its page.'',
      at_category = ''Cloudflare'', at_defaultSeverity = Warning, at_defaultEnabled = True,
      at_defaultChannels = [Email], at_connectorScoped = True, at_monitorScoped = False\<rparr>,
     \<lparr>at_key = ''cloudflare.zones_paused'', at_label = ''Zones paused over threshold'',
      at_description = ''The number of paused/deactivated Cloudflare zones crossed the limit set on its page.'',
      at_category = ''Cloudflare'', at_defaultSeverity = Warning, at_defaultEnabled = True,
      at_defaultChannels = [Email], at_connectorScoped = True, at_monitorScoped = False\<rparr>,
     \<lparr>at_key = ''cloudflare.certs_expiring'', at_label = ''Certificates expiring over threshold'',
      at_description = ''The number of Cloudflare SSL certificates expiring soon (within ~30 days) crossed the limit set on its page.'',
      at_category = ''Cloudflare'', at_defaultSeverity = Warning, at_defaultEnabled = True,
      at_defaultChannels = [Email], at_connectorScoped = True, at_monitorScoped = False\<rparr>,
     \<lparr>at_key = ''cloudflare.tokens_expiring'', at_label = ''Service tokens expiring over threshold'',
      at_description = ''The number of Cloudflare Zero Trust service tokens expiring soon (within ~14 days) crossed the limit set on its page.'',
      at_category = ''Cloudflare'', at_defaultSeverity = Warning, at_defaultEnabled = True,
      at_defaultChannels = [Email], at_connectorScoped = True, at_monitorScoped = False\<rparr>,
     \<lparr>at_key = ''cloudflare.threats'', at_label = ''Threats over threshold'',
      at_description = ''The number of threats Cloudflare mitigated in the last 24h crossed the limit set on its page.'',
      at_category = ''Cloudflare'', at_defaultSeverity = Info, at_defaultEnabled = True,
      at_defaultChannels = [Email], at_connectorScoped = True, at_monitorScoped = False\<rparr>]"

definition technitium_alerts :: "alert_type list" where
  "technitium_alerts = [
     \<lparr>at_key = ''technitium.zones_expired'', at_label = ''Zones expired over threshold'',
      at_description = ''The number of Technitium DNS zones that have expired (e.g. a secondary zone that failed to transfer) crossed the limit set on its page.'',
      at_category = ''Technitium DNS'', at_defaultSeverity = Warning, at_defaultEnabled = True,
      at_defaultChannels = [Email], at_connectorScoped = True, at_monitorScoped = False\<rparr>,
     \<lparr>at_key = ''technitium.server_failures'', at_label = ''Server failures over threshold'',
      at_description = ''The number of SERVFAIL responses Technitium returned in the last hour crossed the limit set on its page '' @ em_dash @ '' often an upstream/forwarder or DNSSEC problem.'',
      at_category = ''Technitium DNS'', at_defaultSeverity = Warning, at_defaultEnabled = True,
      at_defaultChannels = [Email], at_connectorScoped = True, at_monitorScoped = False\<rparr>,
     \<lparr>at_key = ''technitium.block_rate'', at_label = ''Block rate over threshold'',
      at_description = ''The share of DNS queries Technitium blocked in the last hour crossed the percentage set on its page '' @ em_dash @ '' a sudden spike can mean a device flooding blocked (ad/tracker/malware) domains.'',
      at_category = ''Technitium DNS'', at_defaultSeverity = Info, at_defaultEnabled = True,
      at_defaultChannels = [Email], at_connectorScoped = True, at_monitorScoped = False\<rparr>]"

definition unifi_alerts :: "alert_type list" where
  "unifi_alerts = [
     \<lparr>at_key = ''unifi.new_device'', at_label = ''New device on the network'',
      at_description = ''A client Cerebro has never seen before joined the network (by MAC address). Review it on the Architecture Map: mark it as known or block it. Devices using a private (randomized) MAC only alert if that is turned on for the UniFi connector.'',
      at_category = ''UniFi Network'', at_defaultSeverity = Warning, at_defaultEnabled = True,
      at_defaultChannels = [Email], at_connectorScoped = True, at_monitorScoped = False\<rparr>,
     \<lparr>at_key = ''unifi.devices_offline'', at_label = ''Devices offline over threshold'',
      at_description = ''The number of UniFi devices (APs, switches, gateway) that are offline or missing heartbeats crossed the limit set on its page.'',
      at_category = ''UniFi Network'', at_defaultSeverity = Warning, at_defaultEnabled = True,
      at_defaultChannels = [Email], at_connectorScoped = True, at_monitorScoped = False\<rparr>,
     \<lparr>at_key = ''unifi.wan_down'', at_label = ''WAN link down'',
      at_description = ''A UniFi gateway WAN link went down (set the limit to 1 to alert on any down link; on a dual-WAN setup this usually means failover kicked in).'',
      at_category = ''UniFi Network'', at_defaultSeverity = Critical, at_defaultEnabled = True,
      at_defaultChannels = [Email], at_connectorScoped = True, at_monitorScoped = False\<rparr>,
     \<lparr>at_key = ''unifi.wan_latency'', at_label = ''Internet latency over threshold'',
      at_description = ''The UniFi gateway'' @ map char_of [226, 128, 153 :: nat] @ ''s measured internet latency crossed the milliseconds set on its page.'',
      at_category = ''UniFi Network'', at_defaultSeverity = Warning, at_defaultEnabled = True,
      at_defaultChannels = [Email], at_connectorScoped = True, at_monitorScoped = False\<rparr>,
     \<lparr>at_key = ''unifi.gateway_cpu'', at_label = ''Gateway CPU over threshold'',
      at_description = ''The UniFi gateway'' @ map char_of [226, 128, 153 :: nat] @ ''s CPU use crossed the percentage set on its page.'',
      at_category = ''UniFi Network'', at_defaultSeverity = Warning, at_defaultEnabled = True,
      at_defaultChannels = [Email], at_connectorScoped = True, at_monitorScoped = False\<rparr>,
     \<lparr>at_key = ''unifi.gateway_mem'', at_label = ''Gateway memory over threshold'',
      at_description = ''The UniFi gateway'' @ map char_of [226, 128, 153 :: nat] @ ''s memory use crossed the percentage set on its page.'',
      at_category = ''UniFi Network'', at_defaultSeverity = Warning, at_defaultEnabled = True,
      at_defaultChannels = [Email], at_connectorScoped = True, at_monitorScoped = False\<rparr>,
     \<lparr>at_key = ''unifi.gateway_temp'', at_label = ''Gateway temperature over threshold'',
      at_description = ''The UniFi gateway'' @ map char_of [226, 128, 153 :: nat] @ ''s hottest temperature sensor crossed the '' @ map char_of [194, 176 :: nat] @ ''C set on its page.'',
      at_category = ''UniFi Network'', at_defaultSeverity = Warning, at_defaultEnabled = True,
      at_defaultChannels = [Email], at_connectorScoped = True, at_monitorScoped = False\<rparr>,
     \<lparr>at_key = ''unifi.storage'', at_label = ''Console storage over threshold'',
      at_description = ''The UniFi console'' @ map char_of [226, 128, 153 :: nat] @ ''s built-in storage use crossed the percentage set on its page.'',
      at_category = ''UniFi Network'', at_defaultSeverity = Warning, at_defaultEnabled = True,
      at_defaultChannels = [Email], at_connectorScoped = True, at_monitorScoped = False\<rparr>,
     \<lparr>at_key = ''unifi.alarms'', at_label = ''Active alarms over threshold'',
      at_description = ''The number of un-archived UniFi alarms crossed the limit set on its page.'',
      at_category = ''UniFi Network'', at_defaultSeverity = Info, at_defaultEnabled = True,
      at_defaultChannels = [Email], at_connectorScoped = True, at_monitorScoped = False\<rparr>,
     \<lparr>at_key = ''unifi.firmware_updates'', at_label = ''Firmware updates available'',
      at_description = ''The number of UniFi devices with a firmware upgrade available crossed the limit set on its page.'',
      at_category = ''UniFi Network'', at_defaultSeverity = Info, at_defaultEnabled = True,
      at_defaultChannels = [Email], at_connectorScoped = True, at_monitorScoped = False\<rparr>,
     \<lparr>at_key = ''unifi.high_events'', at_label = ''High-severity events (24h) over threshold'',
      at_description = ''The number of high/critical entries in the UniFi system log over the last 24h crossed the limit set on its page.'',
      at_category = ''UniFi Network'', at_defaultSeverity = Warning, at_defaultEnabled = True,
      at_defaultChannels = [Email], at_connectorScoped = True, at_monitorScoped = False\<rparr>,
     \<lparr>at_key = ''unifi.threats'', at_label = ''Threats blocked (24h) over threshold'',
      at_description = ''The number of threats UniFi intrusion prevention blocked in the last 24h crossed the limit set on its page.'',
      at_category = ''UniFi Network'', at_defaultSeverity = Info, at_defaultEnabled = True,
      at_defaultChannels = [Email], at_connectorScoped = True, at_monitorScoped = False\<rparr>]"

definition monitor_alerts :: "alert_type list" where
  "monitor_alerts = [
     \<lparr>at_key = ''monitor.down'', at_label = ''Monitor down'',
      at_description = ''An uptime monitor failed its checks (after retries) and is now down.'',
      at_category = ''Monitors'', at_defaultSeverity = Critical, at_defaultEnabled = True,
      at_defaultChannels = [Email], at_connectorScoped = False, at_monitorScoped = True\<rparr>,
     \<lparr>at_key = ''monitor.up'', at_label = ''Monitor recovered'',
      at_description = ''A previously-down uptime monitor is passing again.'',
      at_category = ''Monitors'', at_defaultSeverity = Info, at_defaultEnabled = True,
      at_defaultChannels = [Email], at_connectorScoped = False, at_monitorScoped = True\<rparr>,
     \<lparr>at_key = ''monitor.cert_expiring'', at_label = ''Certificate expiring'',
      at_description = ''An HTTPS monitor's TLS certificate expires within its warning window.'',
      at_category = ''Monitors'', at_defaultSeverity = Warning, at_defaultEnabled = True,
      at_defaultChannels = [Email], at_connectorScoped = False, at_monitorScoped = True\<rparr>]"

definition docker_alerts :: "alert_type list" where
  "docker_alerts = [
     \<lparr>at_key = ''docker.unhealthy'', at_label = ''Unhealthy containers over threshold'',
      at_description = ''The number of containers reporting an unhealthy healthcheck crossed the limit set on its page.'',
      at_category = ''Docker'', at_defaultSeverity = Warning, at_defaultEnabled = True,
      at_defaultChannels = [Email], at_connectorScoped = True, at_monitorScoped = False\<rparr>,
     \<lparr>at_key = ''docker.stopped'', at_label = ''Stopped containers over threshold'',
      at_description = ''The number of stopped containers crossed the limit set on its page.'',
      at_category = ''Docker'', at_defaultSeverity = Warning, at_defaultEnabled = False,
      at_defaultChannels = [Email], at_connectorScoped = True, at_monitorScoped = False\<rparr>,
     \<lparr>at_key = ''docker.disk_high'', at_label = ''Docker disk usage over threshold'',
      at_description = ''Docker's disk usage (images + containers + volumes + build cache) crossed the GB limit set on its page.'',
      at_category = ''Docker'', at_defaultSeverity = Warning, at_defaultEnabled = True,
      at_defaultChannels = [Email], at_connectorScoped = True, at_monitorScoped = False\<rparr>,
     \<lparr>at_key = ''docker.restart_loop'', at_label = ''Restarting containers over threshold'',
      at_description = ''The number of containers stuck restarting (a crash loop) crossed the limit set on its page.'',
      at_category = ''Docker'', at_defaultSeverity = Warning, at_defaultEnabled = True,
      at_defaultChannels = [Email], at_connectorScoped = True, at_monitorScoped = False\<rparr>,
     \<lparr>at_key = ''docker.updates_available'', at_label = ''Image updates available over threshold'',
      at_description = ''The number of running images with a newer version in their registry crossed the limit set on its page.'',
      at_category = ''Docker'', at_defaultSeverity = Info, at_defaultEnabled = False,
      at_defaultChannels = [Email], at_connectorScoped = True, at_monitorScoped = False\<rparr>,
     \<lparr>at_key = ''docker.host_disk'', at_label = ''Host root disk usage over threshold'',
      at_description = ''The host root filesystem (/) usage percentage crossed the limit set on its page. Requires SSH configured.'',
      at_category = ''Docker'', at_defaultSeverity = Warning, at_defaultEnabled = True,
      at_defaultChannels = [Email], at_connectorScoped = True, at_monitorScoped = False\<rparr>,
     \<lparr>at_key = ''docker.host_mem'', at_label = ''Host memory usage over threshold'',
      at_description = ''The host memory usage percentage crossed the limit set on its page. Requires SSH configured.'',
      at_category = ''Docker'', at_defaultSeverity = Warning, at_defaultEnabled = False,
      at_defaultChannels = [Email], at_connectorScoped = True, at_monitorScoped = False\<rparr>,
     \<lparr>at_key = ''docker.host_load'', at_label = ''Host CPU load over threshold'',
      at_description = ''The host CPU load (1-min load average as a percent of cores) crossed the limit set on its page. Requires SSH configured.'',
      at_category = ''Docker'', at_defaultSeverity = Warning, at_defaultEnabled = False,
      at_defaultChannels = [Email], at_connectorScoped = True, at_monitorScoped = False\<rparr>,
     \<lparr>at_key = ''jellyfin.transcodes_high'', at_label = ''Transcoding sessions over threshold'',
      at_description = ''The number of active transcoding streams on Jellyfin crossed the limit set on its page (server strain).'',
      at_category = ''Jellyfin'', at_defaultSeverity = Warning, at_defaultEnabled = True,
      at_defaultChannels = [Email], at_connectorScoped = True, at_monitorScoped = False\<rparr>,
     \<lparr>at_key = ''jellyfin.active_streams'', at_label = ''Active streams over threshold'',
      at_description = ''The number of active Jellyfin streams crossed the limit set on its page.'',
      at_category = ''Jellyfin'', at_defaultSeverity = Info, at_defaultEnabled = False,
      at_defaultChannels = [Email], at_connectorScoped = True, at_monitorScoped = False\<rparr>,
     \<lparr>at_key = ''jellyfin.tasks_failed'', at_label = ''Failed scheduled tasks over threshold'',
      at_description = ''The number of Jellyfin scheduled tasks whose last run failed crossed the limit set on its page.'',
      at_category = ''Jellyfin'', at_defaultSeverity = Warning, at_defaultEnabled = True,
      at_defaultChannels = [Email], at_connectorScoped = True, at_monitorScoped = False\<rparr>]"

definition npm_alerts :: "alert_type list" where
  "npm_alerts = [
     \<lparr>at_key = ''npm.certs_expiring'', at_label = ''Certificates expiring over threshold'',
      at_description = ''The number of Nginx Proxy Manager SSL certificates expiring soon (within ~14 days) or already expired crossed the limit set on its page.'',
      at_category = ''Nginx Proxy Manager'', at_defaultSeverity = Warning, at_defaultEnabled = True,
      at_defaultChannels = [Email], at_connectorScoped = True, at_monitorScoped = False\<rparr>,
     \<lparr>at_key = ''npm.hosts_errored'', at_label = ''Hosts offline over threshold'',
      at_description = ''The number of proxy hosts Nginx Proxy Manager failed to bring online (bad config or certificate) crossed the limit set on its page.'',
      at_category = ''Nginx Proxy Manager'', at_defaultSeverity = Warning, at_defaultEnabled = True,
      at_defaultChannels = [Email], at_connectorScoped = True, at_monitorScoped = False\<rparr>,
     \<lparr>at_key = ''npm.hosts_disabled'', at_label = ''Disabled hosts over threshold'',
      at_description = ''The number of disabled proxy hosts crossed the limit set on its page.'',
      at_category = ''Nginx Proxy Manager'', at_defaultSeverity = Info, at_defaultEnabled = False,
      at_defaultChannels = [Email], at_connectorScoped = True, at_monitorScoped = False\<rparr>]"

definition automation_alerts :: "alert_type list" where
  "automation_alerts = [
     \<lparr>at_key = ''automation.notify'', at_label = ''Automation notification'',
      at_description = ''A notification sent by an automation rule's '' @ [CHR 0x22] @ ''notify'' @ [CHR 0x22] @ '' action.'',
      at_category = ''Automations'', at_defaultSeverity = Info, at_defaultEnabled = True,
      at_defaultChannels = [Email], at_connectorScoped = False, at_monitorScoped = False\<rparr>]"

definition secret_alerts :: "alert_type list" where
  "secret_alerts = [
     \<lparr>at_key = ''secret.rotation_due'', at_label = ''Secret rotation due'',
      at_description = ''A stored credential has passed its rotation-policy age and should be rotated.'',
      at_category = ''Secrets'', at_defaultSeverity = Warning, at_defaultEnabled = True,
      at_defaultChannels = [Email], at_connectorScoped = False, at_monitorScoped = False\<rparr>,
     \<lparr>at_key = ''secret.expired'', at_label = ''Secret expired'',
      at_description = ''A stored credential has passed its expiry date.'',
      at_category = ''Secrets'', at_defaultSeverity = Critical, at_defaultEnabled = True,
      at_defaultChannels = [Email], at_connectorScoped = False, at_monitorScoped = False\<rparr>]"

definition fabric_alerts :: "alert_type list" where
  "fabric_alerts = [
     \<lparr>at_key = ''fabric.agent_offline'', at_label = ''Fabric agent offline'',
      at_description = ''A remote-access agent stopped checking in (missed its heartbeats or disconnected).'',
      at_category = ''Fabric'', at_defaultSeverity = Warning, at_defaultEnabled = True,
      at_defaultChannels = [Email], at_connectorScoped = False, at_monitorScoped = False\<rparr>,
     \<lparr>at_key = ''fabric.agent_online'', at_label = ''Fabric agent back online'',
      at_description = ''A remote-access agent reconnected after being offline.'',
      at_category = ''Fabric'', at_defaultSeverity = Info, at_defaultEnabled = False,
      at_defaultChannels = [Email], at_connectorScoped = False, at_monitorScoped = False\<rparr>,
     \<lparr>at_key = ''fabric.approval_requested'', at_label = ''Fabric session approval requested'',
      at_description = ''An operator requested a session through an agent that requires approval (four-eyes).'',
      at_category = ''Fabric'', at_defaultSeverity = Warning, at_defaultEnabled = True,
      at_defaultChannels = [Email], at_connectorScoped = False, at_monitorScoped = False\<rparr>]"

definition ALERT_TYPES :: "alert_type list" where
  "ALERT_TYPES = backup_alerts @ connection_alerts @ resource_alerts @ cost_alerts @ storage_alerts @ 
     ha_alerts @ cloudflare_alerts @ technitium_alerts @ unifi_alerts @ monitor_alerts @ 
     docker_alerts @ npm_alerts @ automation_alerts @ secret_alerts @ fabric_alerts"

definition METRIC_THRESHOLDS :: "metric_threshold list" where
  "METRIC_THRESHOLDS = [
     \<lparr>mt_id = ''cost'', mt_metricKey = ''costMtd'', mt_alertKey = ''cost.threshold'', mt_label = ''Monthly cost''\<rparr>,
     \<lparr>mt_id = ''storage'', mt_metricKey = ''repoSizeGb'', mt_alertKey = ''storage.threshold'', mt_label = ''Repository size''\<rparr>,
     \<lparr>mt_id = ''haUnavailable'', mt_metricKey = ''entitiesUnavailable'', mt_alertKey = ''ha.unavailable'', mt_label = ''Unavailable entities''\<rparr>,
     \<lparr>mt_id = ''haBatteries'', mt_metricKey = ''batteriesLow'', mt_alertKey = ''ha.batteries_low'', mt_label = ''Low batteries''\<rparr>,
     \<lparr>mt_id = ''haUpdates'', mt_metricKey = ''updatesAvailable'', mt_alertKey = ''ha.updates'', mt_label = ''Updates available''\<rparr>,
     \<lparr>mt_id = ''haAutomationsOff'', mt_metricKey = ''automationsOff'', mt_alertKey = ''ha.automations_off'', mt_label = ''Automations off''\<rparr>,
     \<lparr>mt_id = ''haIntegrations'', mt_metricKey = ''integrationsDegraded'', mt_alertKey = ''ha.integrations'', mt_label = ''Degraded integrations''\<rparr>,
     \<lparr>mt_id = ''cfTunnelsDown'', mt_metricKey = ''tunnelsDown'', mt_alertKey = ''cloudflare.tunnels_down'', mt_label = ''Tunnels down''\<rparr>,
     \<lparr>mt_id = ''cfZonesPaused'', mt_metricKey = ''zonesPaused'', mt_alertKey = ''cloudflare.zones_paused'', mt_label = ''Zones paused''\<rparr>,
     \<lparr>mt_id = ''cfCertsExpiring'', mt_metricKey = ''certsExpiringSoon'', mt_alertKey = ''cloudflare.certs_expiring'', mt_label = ''Certificates expiring''\<rparr>,
     \<lparr>mt_id = ''cfTokensExpiring'', mt_metricKey = ''tokensExpiringSoon'', mt_alertKey = ''cloudflare.tokens_expiring'', mt_label = ''Service tokens expiring''\<rparr>,
     \<lparr>mt_id = ''cfThreats'', mt_metricKey = ''threats24h'', mt_alertKey = ''cloudflare.threats'', mt_label = ''Threats (24h)''\<rparr>,
     \<lparr>mt_id = ''dockerUnhealthy'', mt_metricKey = ''containersUnhealthy'', mt_alertKey = ''docker.unhealthy'', mt_label = ''Unhealthy containers''\<rparr>,
     \<lparr>mt_id = ''dockerStopped'', mt_metricKey = ''containersStopped'', mt_alertKey = ''docker.stopped'', mt_label = ''Stopped containers''\<rparr>,
     \<lparr>mt_id = ''dockerDisk'', mt_metricKey = ''diskUsedGb'', mt_alertKey = ''docker.disk_high'', mt_label = ''Docker disk used''\<rparr>,
     \<lparr>mt_id = ''dockerRestarting'', mt_metricKey = ''containersRestarting'', mt_alertKey = ''docker.restart_loop'', mt_label = ''Restarting containers''\<rparr>,
     \<lparr>mt_id = ''dockerUpdates'', mt_metricKey = ''updatesAvailable'', mt_alertKey = ''docker.updates_available'', mt_label = ''Image updates available''\<rparr>,
     \<lparr>mt_id = ''dockerHostDisk'', mt_metricKey = ''hostRootDiskPct'', mt_alertKey = ''docker.host_disk'', mt_label = ''Host root disk used''\<rparr>,
     \<lparr>mt_id = ''dockerHostMem'', mt_metricKey = ''hostMemUsedPct'', mt_alertKey = ''docker.host_mem'', mt_label = ''Host memory used''\<rparr>,
     \<lparr>mt_id = ''dockerHostLoad'', mt_metricKey = ''hostLoadPct'', mt_alertKey = ''docker.host_load'', mt_label = ''Host CPU load''\<rparr>,
     \<lparr>mt_id = ''jellyfinTranscodes'', mt_metricKey = ''transcodes'', mt_alertKey = ''jellyfin.transcodes_high'', mt_label = ''Transcoding sessions''\<rparr>,
     \<lparr>mt_id = ''jellyfinStreams'', mt_metricKey = ''activeStreams'', mt_alertKey = ''jellyfin.active_streams'', mt_label = ''Active streams''\<rparr>,
     \<lparr>mt_id = ''jellyfinTasksFailed'', mt_metricKey = ''tasksFailed'', mt_alertKey = ''jellyfin.tasks_failed'', mt_label = ''Failed tasks''\<rparr>,
     \<lparr>mt_id = ''npmCertsExpiring'', mt_metricKey = ''certsExpiring'', mt_alertKey = ''npm.certs_expiring'', mt_label = ''Certificates expiring''\<rparr>,
     \<lparr>mt_id = ''npmHostsErrored'', mt_metricKey = ''erroredHosts'', mt_alertKey = ''npm.hosts_errored'', mt_label = ''Hosts offline''\<rparr>,
     \<lparr>mt_id = ''npmHostsDisabled'', mt_metricKey = ''disabledHosts'', mt_alertKey = ''npm.hosts_disabled'', mt_label = ''Disabled hosts''\<rparr>,
     \<lparr>mt_id = ''technitiumZonesExpired'', mt_metricKey = ''zonesExpired'', mt_alertKey = ''technitium.zones_expired'', mt_label = ''Zones expired''\<rparr>,
     \<lparr>mt_id = ''technitiumServerFailures'', mt_metricKey = ''serverFailures1h'', mt_alertKey = ''technitium.server_failures'', mt_label = ''Server failures (1h)''\<rparr>,
     \<lparr>mt_id = ''technitiumBlockRate'', mt_metricKey = ''blockedPct'', mt_alertKey = ''technitium.block_rate'', mt_label = ''Block rate (%)''\<rparr>,
     \<lparr>mt_id = ''unifiDevicesOffline'', mt_metricKey = ''unifiDevicesOffline'', mt_alertKey = ''unifi.devices_offline'', mt_label = ''Devices offline''\<rparr>,
     \<lparr>mt_id = ''unifiWanDown'', mt_metricKey = ''unifiWanDown'', mt_alertKey = ''unifi.wan_down'', mt_label = ''WAN links down''\<rparr>,
     \<lparr>mt_id = ''unifiWanLatency'', mt_metricKey = ''unifiWanLatencyMs'', mt_alertKey = ''unifi.wan_latency'', mt_label = ''Internet latency (ms)''\<rparr>,
     \<lparr>mt_id = ''unifiGatewayCpu'', mt_metricKey = ''unifiGatewayCpuPct'', mt_alertKey = ''unifi.gateway_cpu'', mt_label = ''Gateway CPU (%)''\<rparr>,
     \<lparr>mt_id = ''unifiGatewayMem'', mt_metricKey = ''unifiGatewayMemPct'', mt_alertKey = ''unifi.gateway_mem'', mt_label = ''Gateway memory (%)''\<rparr>,
     \<lparr>mt_id = ''unifiGatewayTemp'', mt_metricKey = ''unifiGatewayTempC'', mt_alertKey = ''unifi.gateway_temp'', mt_label = ''Gateway temperature ('' @ map char_of [194, 176 :: nat] @ ''C)''\<rparr>,
     \<lparr>mt_id = ''unifiStorage'', mt_metricKey = ''unifiStoragePct'', mt_alertKey = ''unifi.storage'', mt_label = ''Console storage used (%)''\<rparr>,
     \<lparr>mt_id = ''unifiAlarms'', mt_metricKey = ''unifiAlarms'', mt_alertKey = ''unifi.alarms'', mt_label = ''Active alarms''\<rparr>,
     \<lparr>mt_id = ''unifiFirmware'', mt_metricKey = ''unifiFirmwareUpdates'', mt_alertKey = ''unifi.firmware_updates'', mt_label = ''Firmware updates''\<rparr>,
     \<lparr>mt_id = ''unifiHighEvents'', mt_metricKey = ''unifiHighEvents24h'', mt_alertKey = ''unifi.high_events'', mt_label = ''High-severity events (24h)''\<rparr>,
     \<lparr>mt_id = ''unifiThreats'', mt_metricKey = ''unifiThreats24h'', mt_alertKey = ''unifi.threats'', mt_label = ''Threats blocked (24h)''\<rparr>]"

definition getAlertType :: "string \<Rightarrow> alert_type option" where
  "getAlertType key = List.find (\<lambda>t. at_key t = key) ALERT_TYPES"

definition thresholdByAlertKey :: "string \<Rightarrow> metric_threshold option" where
  "thresholdByAlertKey key = List.find (\<lambda>t. mt_alertKey t = key) METRIC_THRESHOLDS"

section \<open>The tables fit each other\<close>

definition threshold_registered :: "metric_threshold \<Rightarrow> bool" where
  "threshold_registered t =
     (case getAlertType (mt_alertKey t) of None \<Rightarrow> False | Some d \<Rightarrow> at_connectorScoped d \<and> \<not> at_monitorScoped d)"

lemmas alert_tables = backup_alerts_def connection_alerts_def resource_alerts_def cost_alerts_def storage_alerts_def
  ha_alerts_def cloudflare_alerts_def technitium_alerts_def unifi_alerts_def monitor_alerts_def docker_alerts_def
  npm_alerts_def automation_alerts_def secret_alerts_def fabric_alerts_def

lemma alert_keys: "map at_key ALERT_TYPES = [''backup.failure'', ''backup.success'', ''restore.failure'', ''restore.success'',
  ''backup.stale'', ''retention.failure'', ''connection.down'', ''connection.recovered'',
  ''resource.stopped'', ''resource.started'', ''cost.threshold'', ''storage.threshold'',
  ''ha.unavailable'', ''ha.batteries_low'', ''ha.updates'', ''ha.automations_off'',
  ''ha.integrations'', ''cloudflare.tunnels_down'', ''cloudflare.zones_paused'', ''cloudflare.certs_expiring'',
  ''cloudflare.tokens_expiring'', ''cloudflare.threats'', ''technitium.zones_expired'', ''technitium.server_failures'',
  ''technitium.block_rate'', ''unifi.new_device'', ''unifi.devices_offline'', ''unifi.wan_down'',
  ''unifi.wan_latency'', ''unifi.gateway_cpu'', ''unifi.gateway_mem'', ''unifi.gateway_temp'',
  ''unifi.storage'', ''unifi.alarms'', ''unifi.firmware_updates'', ''unifi.high_events'',
  ''unifi.threats'', ''monitor.down'', ''monitor.up'', ''monitor.cert_expiring'',
  ''docker.unhealthy'', ''docker.stopped'', ''docker.disk_high'', ''docker.restart_loop'',
  ''docker.updates_available'', ''docker.host_disk'', ''docker.host_mem'', ''docker.host_load'',
  ''jellyfin.transcodes_high'', ''jellyfin.active_streams'', ''jellyfin.tasks_failed'', ''npm.certs_expiring'',
  ''npm.hosts_errored'', ''npm.hosts_disabled'', ''automation.notify'', ''secret.rotation_due'',
  ''secret.expired'', ''fabric.agent_offline'', ''fabric.agent_online'', ''fabric.approval_requested'']"
  by (simp add: ALERT_TYPES_def alert_tables)

lemma keys_distinct: "distinct (map at_key ALERT_TYPES)"
  unfolding alert_keys by simp

lemma scoped_keys:
  "map at_key (filter (\<lambda>d. at_connectorScoped d \<and> \<not> at_monitorScoped d) ALERT_TYPES) = [''backup.failure'', ''backup.success'', ''restore.failure'', ''restore.success'',
  ''backup.stale'', ''retention.failure'', ''connection.down'', ''connection.recovered'',
  ''resource.stopped'', ''resource.started'', ''cost.threshold'', ''storage.threshold'',
  ''ha.unavailable'', ''ha.batteries_low'', ''ha.updates'', ''ha.automations_off'',
  ''ha.integrations'', ''cloudflare.tunnels_down'', ''cloudflare.zones_paused'', ''cloudflare.certs_expiring'',
  ''cloudflare.tokens_expiring'', ''cloudflare.threats'', ''technitium.zones_expired'', ''technitium.server_failures'',
  ''technitium.block_rate'', ''unifi.new_device'', ''unifi.devices_offline'', ''unifi.wan_down'',
  ''unifi.wan_latency'', ''unifi.gateway_cpu'', ''unifi.gateway_mem'', ''unifi.gateway_temp'',
  ''unifi.storage'', ''unifi.alarms'', ''unifi.firmware_updates'', ''unifi.high_events'',
  ''unifi.threats'', ''docker.unhealthy'', ''docker.stopped'', ''docker.disk_high'',
  ''docker.restart_loop'', ''docker.updates_available'', ''docker.host_disk'', ''docker.host_mem'',
  ''docker.host_load'', ''jellyfin.transcodes_high'', ''jellyfin.active_streams'', ''jellyfin.tasks_failed'',
  ''npm.certs_expiring'', ''npm.hosts_errored'', ''npm.hosts_disabled'']"
  by (simp add: ALERT_TYPES_def alert_tables)

lemma threshold_keys: "map mt_alertKey METRIC_THRESHOLDS = [''cost.threshold'', ''storage.threshold'', ''ha.unavailable'', ''ha.batteries_low'',
  ''ha.updates'', ''ha.automations_off'', ''ha.integrations'', ''cloudflare.tunnels_down'',
  ''cloudflare.zones_paused'', ''cloudflare.certs_expiring'', ''cloudflare.tokens_expiring'', ''cloudflare.threats'',
  ''docker.unhealthy'', ''docker.stopped'', ''docker.disk_high'', ''docker.restart_loop'',
  ''docker.updates_available'', ''docker.host_disk'', ''docker.host_mem'', ''docker.host_load'',
  ''jellyfin.transcodes_high'', ''jellyfin.active_streams'', ''jellyfin.tasks_failed'', ''npm.certs_expiring'',
  ''npm.hosts_errored'', ''npm.hosts_disabled'', ''technitium.zones_expired'', ''technitium.server_failures'',
  ''technitium.block_rate'', ''unifi.devices_offline'', ''unifi.wan_down'', ''unifi.wan_latency'',
  ''unifi.gateway_cpu'', ''unifi.gateway_mem'', ''unifi.gateway_temp'', ''unifi.storage'',
  ''unifi.alarms'', ''unifi.firmware_updates'', ''unifi.high_events'', ''unifi.threats'']"
  by (simp add: METRIC_THRESHOLDS_def)

lemma threshold_keys_scoped:
  "set (map mt_alertKey METRIC_THRESHOLDS) \<subseteq>
     set (map at_key (filter (\<lambda>d. at_connectorScoped d \<and> \<not> at_monitorScoped d) ALERT_TYPES))"
  unfolding scoped_keys threshold_keys by simp

lemma getAlertType_in: "d \<in> set ALERT_TYPES \<Longrightarrow> getAlertType (at_key d) = Some d"
proof -
  have "distinct (map at_key xs) \<Longrightarrow> d \<in> set xs \<Longrightarrow> List.find (\<lambda>t. at_key t = at_key d) xs = Some d" for xs
    by (induction xs) (auto simp: rev_image_eqI)
  then show "d \<in> set ALERT_TYPES \<Longrightarrow> getAlertType (at_key d) = Some d"
    using keys_distinct by (simp add: getAlertType_def)
qed

lemma thresholds_registered: "list_all threshold_registered METRIC_THRESHOLDS"
  unfolding list_all_iff
proof
  fix t assume "t \<in> set METRIC_THRESHOLDS"
  then have "mt_alertKey t \<in> set (map at_key (filter (\<lambda>d. at_connectorScoped d \<and> \<not> at_monitorScoped d) ALERT_TYPES))"
    using threshold_keys_scoped by auto
  then obtain d where "d \<in> set ALERT_TYPES" "at_connectorScoped d \<and> \<not> at_monitorScoped d" "at_key d = mt_alertKey t"
    by auto
  then show "threshold_registered t" using getAlertType_in [of d] by (simp add: threshold_registered_def)
qed

lemma thresholds_distinct: "distinct (map mt_id METRIC_THRESHOLDS)" "distinct (map mt_alertKey METRIC_THRESHOLDS)"
  unfolding threshold_keys by (simp_all add: METRIC_THRESHOLDS_def)

text \<open>
  The two tables fit: alert keys are unique, threshold ids and the alerts they raise are unique,
  and every threshold raises an alert of the catalog that can be muted per connector.
\<close>

theorem catalog_consistent:
  "distinct (map at_key ALERT_TYPES) \<and> distinct (map mt_id METRIC_THRESHOLDS) \<and>
   distinct (map mt_alertKey METRIC_THRESHOLDS) \<and> list_all threshold_registered METRIC_THRESHOLDS"
  using keys_distinct thresholds_distinct thresholds_registered by blast

lemma ask_computer_unregistered: "getAlertType ''automation.ask_computer'' = None"
proof -
  have "''automation.ask_computer'' \<notin> set (map at_key ALERT_TYPES)" unfolding alert_keys by simp
  then show ?thesis unfolding getAlertType_def find_None_iff by (metis imageI list.set_map)
qed

end
