(* ===== verification/Notifications.thy ===== *)
theory Notifications
  imports Alert_Catalog Http_Probe Users Timeline
begin

text \<open>
  The dispatcher of alerts, \<^verbatim>\<open>notifications/notifications.service.ts\<close>, over the catalog of
  \<open>Alert_Catalog\<close>. Settings are a map from keys to typed values (a key is written with one type
  only); the transports of the channels are a parameter, and what they were given is \<open>nf_sends\<close>.
  Debug and error lines are left out. Local time is given in minutes of the day.
\<close>

section \<open>Settings and configuration\<close>

datatype setting =
    Set_bool bool
  | Set_int int
  | Set_str string
  | Set_strs "string list"
  | Set_severity severity
  | Set_channels "channel list"

type_synonym settings = "(string, setting) jsmap"

definition get_bool :: "settings \<Rightarrow> string \<Rightarrow> bool \<Rightarrow> bool" where
  "get_bool st k d = (case map_get st k of Some (Set_bool b) \<Rightarrow> b | _ \<Rightarrow> d)"
definition get_int :: "settings \<Rightarrow> string \<Rightarrow> int \<Rightarrow> int" where
  "get_int st k d = (case map_get st k of Some (Set_int i) \<Rightarrow> i | _ \<Rightarrow> d)"
definition get_str :: "settings \<Rightarrow> string \<Rightarrow> string \<Rightarrow> string" where
  "get_str st k d = (case map_get st k of Some (Set_str s) \<Rightarrow> s | _ \<Rightarrow> d)"
definition get_strs :: "settings \<Rightarrow> string \<Rightarrow> string list" where
  "get_strs st k = (case map_get st k of Some (Set_strs s) \<Rightarrow> s | _ \<Rightarrow> [])"
definition get_severity :: "settings \<Rightarrow> string \<Rightarrow> severity \<Rightarrow> severity" where
  "get_severity st k d = (case map_get st k of Some (Set_severity s) \<Rightarrow> s | _ \<Rightarrow> d)"
definition get_channels :: "settings \<Rightarrow> string \<Rightarrow> channel list \<Rightarrow> channel list" where
  "get_channels st k d = (case map_get st k of Some (Set_channels s) \<Rightarrow> s | _ \<Rightarrow> d)"

primrec channel_str :: "channel \<Rightarrow> string" where
  "channel_str Email = ''email''"
| "channel_str Textbelt = ''textbelt''"
| "channel_str Signal = ''signal''"

definition ROUTABLE_CHANNELS :: "channel list" where "ROUTABLE_CHANNELS = [Email, Textbelt, Signal]"
definition DEFAULT_THROTTLE_SEC :: int where "DEFAULT_THROTTLE_SEC = 300"

record channel_config =
  ch_enabled :: bool
  ch_recipients :: "string list"

record quiet_config =
  qu_enabled :: bool
  qu_start :: string
  qu_end :: string
  qu_floor :: severity
  qu_channels :: "channel list"

record alert_rule =
  al_enabled :: bool
  al_severity :: severity
  al_channels :: "channel list"

record notification =
  no_title :: string
  no_body :: string
  no_severity :: severity
  no_source :: string
  no_dedupeKey :: "string option"

definition DEFAULT_QUIET :: quiet_config where
  "DEFAULT_QUIET = \<lparr>qu_enabled = False, qu_start = ''22:00'', qu_end = ''07:00'', qu_floor = Critical,
     qu_channels = [Textbelt, Signal]\<rparr>"

definition hmToMinutes :: "string \<Rightarrow> int" where
  "hmToMinutes s =
     (let ps = split_on CHR '':'' s;
          part = (\<lambda>i. if i < length ps then (case parse_int (ps ! i) of None \<Rightarrow> 0 | Some n \<Rightarrow> n) else 0)
      in part 0 * 60 + part 1)"

definition inQuietWindow :: "int \<Rightarrow> string \<Rightarrow> string \<Rightarrow> bool" where
  "inQuietWindow cur start fin =
     (let s = hmToMinutes start; e = hmToMinutes fin
      in if s = e then False else if s < e then s \<le> cur \<and> cur < e else s \<le> cur \<or> cur < e)"

definition newline :: char where "newline = char_of (10 :: nat)"

definition parseRecipients :: "string \<Rightarrow> string list" where
  "parseRecipients raw =
     filter (\<lambda>s. s \<noteq> []) (map trim (concat (map (split_on CHR '','') (split_on newline raw))))"

definition channelConfig :: "settings \<Rightarrow> channel \<Rightarrow> channel_config" where
  "channelConfig st c =
     \<lparr>ch_enabled = get_bool st (''notify.'' @ channel_str c @ ''.enabled'') False,
      ch_recipients = get_strs st (''notify.'' @ channel_str c @ ''.recipients'')\<rparr>"

definition quietConfig :: "settings \<Rightarrow> quiet_config" where
  "quietConfig st =
     \<lparr>qu_enabled = get_bool st ''notify.quiet.enabled'' (qu_enabled DEFAULT_QUIET),
      qu_start = get_str st ''notify.quiet.start'' (qu_start DEFAULT_QUIET),
      qu_end = get_str st ''notify.quiet.end'' (qu_end DEFAULT_QUIET),
      qu_floor = get_severity st ''notify.quiet.floor'' (qu_floor DEFAULT_QUIET),
      qu_channels = get_channels st ''notify.quiet.channels'' (qu_channels DEFAULT_QUIET)\<rparr>"

definition throttle_window :: "settings \<Rightarrow> int" where
  "throttle_window st = get_int st ''notify.throttle.windowSec'' DEFAULT_THROTTLE_SEC"

record channel_view =
  cv_enabled :: bool
  cv_recipients :: string

record config_view =
  vc_email :: channel_view
  vc_textbelt :: channel_view
  vc_endpoint :: string
  vc_keySet :: bool
  vc_signal :: channel_view
  vc_throttleWindowSec :: int
  vc_quiet :: quiet_config

definition view :: "channel_config \<Rightarrow> channel_view" where
  "view cfg = \<lparr>cv_enabled = ch_enabled cfg, cv_recipients = join_with '', '' (ch_recipients cfg)\<rparr>"

definition getConfig :: "settings \<Rightarrow> config_view" where
  "getConfig st =
     \<lparr>vc_email = view (channelConfig st Email), vc_textbelt = view (channelConfig st Textbelt),
      vc_endpoint = get_str st ''notify.textbelt.endpoint'' [], vc_keySet = map_has st ''notify.textbelt.key'',
      vc_signal = view (channelConfig st Signal), vc_throttleWindowSec = throttle_window st, vc_quiet = quietConfig st\<rparr>"

record channel_input =
  ci_enabled :: bool
  ci_recipients :: string

record save_config =
  sc_email :: channel_input
  sc_textbelt :: channel_input
  sc_endpoint :: "string option"
  sc_key :: "string option"
  sc_signal :: channel_input
  sc_throttleWindowSec :: int
  sc_quiet :: quiet_config

definition set_channel :: "settings \<Rightarrow> channel \<Rightarrow> channel_input \<Rightarrow> settings" where
  "set_channel st c inp =
     map_set (map_set st (''notify.'' @ channel_str c @ ''.enabled'') (Set_bool (ci_enabled inp)))
       (''notify.'' @ channel_str c @ ''.recipients'') (Set_strs (parseRecipients (ci_recipients inp)))"

text \<open>A secret is stored as a string setting here; its encryption is that of the settings service.\<close>

definition saveConfig :: "settings \<Rightarrow> save_config \<Rightarrow> settings" where
  "saveConfig st cfg =
     (let st1 = set_channel st Email (sc_email cfg);
          st2 = set_channel st1 Textbelt (sc_textbelt cfg);
          st3 = map_set st2 ''notify.textbelt.endpoint'' (Set_str (case sc_endpoint cfg of None \<Rightarrow> [] | Some e \<Rightarrow> trim e));
          st4 = (case sc_key cfg of
                   Some k \<Rightarrow> if k \<noteq> [] then map_set st3 ''notify.textbelt.key'' (Set_str (trim k)) else st3
                 | None \<Rightarrow> st3);
          st5 = set_channel st4 Signal (sc_signal cfg);
          st6 = map_set st5 ''notify.throttle.windowSec'' (Set_int (max 0 (sc_throttleWindowSec cfg)));
          q = sc_quiet cfg;
          st7 = map_set st6 ''notify.quiet.enabled'' (Set_bool (qu_enabled q));
          st8 = map_set st7 ''notify.quiet.start'' (Set_str (qu_start q));
          st9 = map_set st8 ''notify.quiet.end'' (Set_str (qu_end q));
          st10 = map_set st9 ''notify.quiet.floor'' (Set_severity (qu_floor q))
      in map_set st10 ''notify.quiet.channels'' (Set_channels (filter (\<lambda>c. c \<in> set ROUTABLE_CHANNELS) (qu_channels q))))"

definition alertKey :: "string \<Rightarrow> string \<Rightarrow> string" where
  "alertKey key field = ''notify.alert.'' @ key @ ''.'' @ field"

definition alertRule :: "settings \<Rightarrow> alert_type \<Rightarrow> alert_rule" where
  "alertRule st def =
     \<lparr>al_enabled = get_bool st (alertKey (at_key def) ''enabled'') (at_defaultEnabled def),
      al_severity = get_severity st (alertKey (at_key def) ''severity'') (at_defaultSeverity def),
      al_channels = get_channels st (alertKey (at_key def) ''channels'') (at_defaultChannels def)\<rparr>"

definition save_alert :: "settings \<Rightarrow> string \<times> alert_rule \<Rightarrow> settings" where
  "save_alert st kr =
     (case kr of (key, r) \<Rightarrow>
        if getAlertType key = None then st
        else map_set (map_set (map_set st (alertKey key ''enabled'') (Set_bool (al_enabled r)))
               (alertKey key ''severity'') (Set_severity (al_severity r)))
               (alertKey key ''channels'') (Set_channels (filter (\<lambda>c. c \<in> set ROUTABLE_CHANNELS) (al_channels r))))"

definition saveAlerts :: "settings \<Rightarrow> (string \<times> alert_rule) list \<Rightarrow> settings" where
  "saveAlerts st rs = foldl save_alert st rs"

record channel_info =
  cf_id :: channel
  cf_enabled :: bool
  cf_ready :: bool

definition getAlerts :: "settings \<Rightarrow> channel_info list \<times> (alert_type \<times> alert_rule) list" where
  "getAlerts st =
     (map (\<lambda>c. \<lparr>cf_id = c, cf_enabled = ch_enabled (channelConfig st c), cf_ready = ch_recipients (channelConfig st c) \<noteq> []\<rparr>)
        ROUTABLE_CHANNELS,
      map (\<lambda>def. (def, alertRule st def)) ALERT_TYPES)"

definition muted_key :: "string \<Rightarrow> string \<Rightarrow> string" where
  "muted_key scope i = ''notify.'' @ scope @ ''.'' @ i @ ''.mutedAlerts''"

definition mutedAlerts :: "settings \<Rightarrow> string \<Rightarrow> string list" where
  "mutedAlerts st connectorId = get_strs st (muted_key ''connector'' connectorId)"

definition monitorMutedAlerts :: "settings \<Rightarrow> string \<Rightarrow> string list" where
  "monitorMutedAlerts st monitorId = get_strs st (muted_key ''monitor'' monitorId)"

definition thresholdKey :: "string \<Rightarrow> string \<Rightarrow> string" where
  "thresholdKey connectorId defId = ''notify.connector.'' @ connectorId @ ''.threshold.'' @ defId"

definition connectorThreshold :: "settings \<Rightarrow> string \<Rightarrow> string \<Rightarrow> int" where
  "connectorThreshold st connectorId defId =
     (case map_get st (thresholdKey connectorId defId) of
        Some (Set_int v) \<Rightarrow> v
      | _ \<Rightarrow> if defId = ''cost'' then get_int st (''notify.connector.'' @ connectorId @ ''.costThreshold'') 0 else 0)"

definition is_scoped :: "(alert_type \<Rightarrow> bool) \<Rightarrow> string \<Rightarrow> bool" where
  "is_scoped scope k = (case getAlertType k of None \<Rightarrow> False | Some d \<Rightarrow> scope d)"

definition save_threshold :: "string \<Rightarrow> (string, json) jsmap \<Rightarrow> settings \<Rightarrow> metric_threshold \<Rightarrow> settings" where
  "save_threshold connectorId ths st t =
     (case map_get ths (mt_id t) of
        None \<Rightarrow> st
      | Some v \<Rightarrow> map_set st (thresholdKey connectorId (mt_id t))
                    (Set_int (max 0 (case num_of v of None \<Rightarrow> 0 | Some n \<Rightarrow> n))))"

definition saveConnectorAlertConfig ::
    "settings \<Rightarrow> string \<Rightarrow> string list \<Rightarrow> (string, json) jsmap option \<Rightarrow> settings" where
  "saveConnectorAlertConfig st connectorId muted thresholds =
     (let st1 = map_set st (muted_key ''connector'' connectorId) (Set_strs (uniq (filter (is_scoped at_connectorScoped) muted)))
      in case thresholds of
           None \<Rightarrow> st1
         | Some ths \<Rightarrow> foldl (save_threshold connectorId ths) st1 METRIC_THRESHOLDS)"

definition saveMonitorMutes :: "settings \<Rightarrow> string \<Rightarrow> string list \<Rightarrow> settings" where
  "saveMonitorMutes st monitorId muted =
     map_set st (muted_key ''monitor'' monitorId) (Set_strs (uniq (filter (is_scoped at_monitorScoped) muted)))"

record alert_view =
  vw_key :: string
  vw_rule :: alert_rule
  vw_muted :: bool

definition view_alert :: "settings \<Rightarrow> string list \<Rightarrow> alert_type \<Rightarrow> alert_view" where
  "view_alert st muted def = \<lparr>vw_key = at_key def, vw_rule = alertRule st def, vw_muted = at_key def \<in> set muted\<rparr>"

definition getConnectorAlerts :: "settings \<Rightarrow> string \<Rightarrow> alert_view list \<times> (string \<times> int) list" where
  "getConnectorAlerts st connectorId =
     (map (view_alert st (mutedAlerts st connectorId)) (filter at_connectorScoped ALERT_TYPES),
      map (\<lambda>t. (mt_id t, connectorThreshold st connectorId (mt_id t))) METRIC_THRESHOLDS)"

definition getMonitorAlerts :: "settings \<Rightarrow> string \<Rightarrow> alert_view list" where
  "getMonitorAlerts st monitorId =
     map (view_alert st (monitorMutedAlerts st monitorId)) (filter at_monitorScoped ALERT_TYPES)"

section \<open>Dispatch\<close>

datatype delivery_status = Sent | Failed_status | Held | Throttled

record history_row =
  hi_channel :: channel
  hi_status :: delivery_status
  hi_message :: notification
  hi_alertKey :: "string option"
  hi_connectorId :: "string option"
  hi_recipients :: nat
  hi_detail :: "string option"
  hi_createdAt :: time

record notifier =
  nf_settings :: settings
  nf_lastSent :: "(string, time) jsmap"
  nf_history :: "history_row list"
  nf_sends :: "(channel \<times> notification \<times> string list \<times> time) list"

type_synonym transport = "channel \<Rightarrow> notification \<Rightarrow> string list \<Rightarrow> string + unit"

definition recordHistory ::
    "notifier \<Rightarrow> channel \<Rightarrow> delivery_status \<Rightarrow> notification \<Rightarrow> string option \<times> string option \<Rightarrow> nat \<Rightarrow> string option \<Rightarrow>
     time \<Rightarrow> notifier" where
  "recordHistory nf c status msg info recipients detail now =
     nf\<lparr>nf_history := nf_history nf @
       [\<lparr>hi_channel = c, hi_status = status, hi_message = msg, hi_alertKey = fst info, hi_connectorId = snd info,
         hi_recipients = recipients, hi_detail = detail, hi_createdAt = now\<rparr>]\<rparr>"

definition throttleKey :: "channel \<Rightarrow> notification \<Rightarrow> string" where
  "throttleKey c msg = channel_str c @ '':'' @ (case no_dedupeKey msg of None \<Rightarrow> no_title msg | Some k \<Rightarrow> k)"

definition isThrottled :: "notifier \<Rightarrow> channel \<Rightarrow> notification \<Rightarrow> int \<Rightarrow> time \<Rightarrow> bool" where
  "isThrottled nf c msg windowSec now =
     (if windowSec \<le> 0 then False
      else case map_get (nf_lastSent nf) (throttleKey c msg) of
             None \<Rightarrow> False | Some t \<Rightarrow> now - t < windowSec * 1000)"

definition markSent :: "notifier \<Rightarrow> channel \<Rightarrow> notification \<Rightarrow> time \<Rightarrow> notifier" where
  "markSent nf c msg now = nf\<lparr>nf_lastSent := map_set (nf_lastSent nf) (throttleKey c msg) now\<rparr>"

definition quiet_now :: "settings \<Rightarrow> int \<Rightarrow> bool" where
  "quiet_now st minute =
     (let q = quietConfig st in qu_enabled q \<and> inQuietWindow minute (qu_start q) (qu_end q))"

definition send_channel ::
    "transport \<Rightarrow> notification \<Rightarrow> string option \<times> string option \<Rightarrow> int \<Rightarrow> time \<Rightarrow> notifier \<Rightarrow> channel \<Rightarrow> notifier" where
  "send_channel tr msg info minute now nf c =
     (let st = nf_settings nf; cfg = channelConfig st c; q = quietConfig st; n = length (ch_recipients cfg)
      in if c \<notin> set ROUTABLE_CHANNELS then nf
         else if \<not> ch_enabled cfg \<or> ch_recipients cfg = [] then nf
         else if quiet_now st minute \<and> c \<in> set (qu_channels q) \<and> severityRank (no_severity msg) < severityRank (qu_floor q)
         then recordHistory nf c Held msg info n (Some ''Held by quiet hours'') now
         else if isThrottled nf c msg (throttle_window st) now
         then recordHistory nf c Throttled msg info n (Some ''Suppressed by dedupe window'') now
         else
           (let nf1 = nf\<lparr>nf_sends := nf_sends nf @ [(c, msg, ch_recipients cfg, now)]\<rparr>
            in case tr c msg (ch_recipients cfg) of
                 Inr _ \<Rightarrow> recordHistory (markSent nf1 c msg now) c Sent msg info n None now
               | Inl m \<Rightarrow> recordHistory nf1 c Failed_status msg info n (Some m) now))"

definition sendToChannels ::
    "transport \<Rightarrow> notifier \<Rightarrow> notification \<Rightarrow> channel list \<Rightarrow> string option \<times> string option \<Rightarrow> int \<Rightarrow> time \<Rightarrow> notifier" where
  "sendToChannels tr nf msg cs info minute now = foldl (send_channel tr msg info minute now) nf cs"

record alert_payload =
  pl_title :: string
  pl_body :: string
  pl_dedupeKey :: "string option"
  pl_connectorId :: "string option"
  pl_monitorId :: "string option"

definition muted_by :: "(settings \<Rightarrow> string \<Rightarrow> string list) \<Rightarrow> settings \<Rightarrow> string \<Rightarrow> string option \<Rightarrow> bool \<Rightarrow> bool" where
  "muted_by mutes st key i scoped = (scoped \<and> nonempty i \<and> key \<in> set (mutes st (the i)))"

definition dispatchAlert :: "transport \<Rightarrow> notifier \<Rightarrow> string \<Rightarrow> alert_payload \<Rightarrow> int \<Rightarrow> time \<Rightarrow> notifier" where
  "dispatchAlert tr nf key p minute now =
     (case getAlertType key of
        None \<Rightarrow> nf
      | Some def \<Rightarrow>
          (let st = nf_settings nf; r = alertRule st def
           in if \<not> al_enabled r then nf
              else if muted_by mutedAlerts st key (pl_connectorId p) (at_connectorScoped def) then nf
              else if muted_by monitorMutedAlerts st key (pl_monitorId p) (at_monitorScoped def) then nf
              else sendToChannels tr nf
                     \<lparr>no_title = pl_title p, no_body = pl_body p, no_severity = al_severity r, no_source = at_category def,
                      no_dedupeKey = Some (case pl_dedupeKey p of None \<Rightarrow> key | Some k \<Rightarrow> k)\<rparr>
                     (al_channels r) (Some (at_key def), pl_connectorId p) minute now))"

definition sendMessage ::
    "transport \<Rightarrow> notifier \<Rightarrow> string \<Rightarrow> string \<Rightarrow> severity option \<Rightarrow> channel list \<Rightarrow> int \<Rightarrow> time \<Rightarrow> channel list \<times> notifier" where
  "sendMessage tr nf title body sev channels minute now =
     (let requested = (if channels = [] then ROUTABLE_CHANNELS else channels);
          targets = filter (\<lambda>c. c \<in> set ROUTABLE_CHANNELS) requested;
          msg = \<lparr>no_title = (if trim title = [] then ''Cerebro notification'' else trim title), no_body = body,
                 no_severity = (case sev of None \<Rightarrow> Info | Some s \<Rightarrow> s), no_source = ''assistant'',
                 no_dedupeKey = Some (''adhoc:'' @ title)\<rparr>
      in (targets, sendToChannels tr nf msg targets (Some ''adhoc'', None) minute now))"

definition test_channel :: "transport \<Rightarrow> notifier \<Rightarrow> channel \<Rightarrow> string \<Rightarrow> time \<Rightarrow> (bool \<times> string) \<times> notifier" where
  "test_channel tr nf c to now =
     (let recipients = (if to \<noteq> [] then parseRecipients to else ch_recipients (channelConfig (nf_settings nf) c));
          msg = \<lparr>no_title = ''Cerebro test notification'',
                 no_body = ''If you received this, your Cerebro alert channel is configured correctly.'',
                 no_severity = Info, no_source = ''test'', no_dedupeKey = None\<rparr>;
          nf1 = nf\<lparr>nf_sends := nf_sends nf @ [(c, msg, recipients, now)]\<rparr>
      in if recipients = [] then ((False, ''No recipients configured for this channel.''), nf)
         else case tr c msg recipients of
                Inr _ \<Rightarrow> ((True, ''Test sent via '' @ channel_str c @ '' to '' @ join_with '', '' recipients @ ''.''),
                          recordHistory nf1 c Sent msg (None, None) (length recipients) None now)
              | Inl m \<Rightarrow> ((False, m), recordHistory nf1 c Failed_status msg (None, None) (length recipients) (Some m) now))"

definition getHistory ::
    "notifier \<Rightarrow> nat option \<Rightarrow> channel option \<Rightarrow> delivery_status option \<Rightarrow> time option \<Rightarrow> history_row list" where
  "getHistory nf limit c status before =
     take (min (case limit of None \<Rightarrow> 100 | Some n \<Rightarrow> n) 500)
       (sort_key (\<lambda>h. - hi_createdAt h)
         (filter (\<lambda>h. (case c of None \<Rightarrow> True | Some x \<Rightarrow> hi_channel h = x) \<and>
                      (case status of None \<Rightarrow> True | Some s \<Rightarrow> hi_status h = s) \<and>
                      (case before of None \<Rightarrow> True | Some t \<Rightarrow> hi_createdAt h < t)) (nf_history nf)))"

section \<open>The dispatcher over time\<close>

text \<open>
  What changes the dispatcher: alerts, ad-hoc messages, tests and saved settings. An event comes some
  milliseconds after the one before it; the state carries the clock.
\<close>

datatype nf_event =
    Nf_alert string alert_payload int
  | Nf_message string string "severity option" "channel list" int
  | Nf_test channel string
  | Nf_save save_config
  | Nf_alerts "(string \<times> alert_rule) list"
  | Nf_connector string "string list" "(string, json) jsmap option"
  | Nf_monitor string "string list"

primrec nf_apply :: "transport \<Rightarrow> notifier \<Rightarrow> time \<Rightarrow> nf_event \<Rightarrow> notifier" where
  "nf_apply tr nf now (Nf_alert key p minute) = dispatchAlert tr nf key p minute now"
| "nf_apply tr nf now (Nf_message title body sev cs minute) = snd (sendMessage tr nf title body sev cs minute now)"
| "nf_apply tr nf now (Nf_test c to) = snd (test_channel tr nf c to now)"
| "nf_apply tr nf now (Nf_save cfg) = nf\<lparr>nf_settings := saveConfig (nf_settings nf) cfg\<rparr>"
| "nf_apply tr nf now (Nf_alerts rs) = nf\<lparr>nf_settings := saveAlerts (nf_settings nf) rs\<rparr>"
| "nf_apply tr nf now (Nf_connector i muted ths) = nf\<lparr>nf_settings := saveConnectorAlertConfig (nf_settings nf) i muted ths\<rparr>"
| "nf_apply tr nf now (Nf_monitor i muted) = nf\<lparr>nf_settings := saveMonitorMutes (nf_settings nf) i muted\<rparr>"

definition nf_step :: "notifier \<times> time \<Rightarrow> transport \<times> int \<times> nf_event \<Rightarrow> notifier \<times> time" where
  "nf_step s e = (case e of (tr, delay, ev) \<Rightarrow> (nf_apply tr (fst s) (snd s + max 0 delay) ev, snd s + max 0 delay))"

text \<open>The delivered messages that take part in deduplication, in the order of delivery.\<close>

definition counted :: "history_row \<Rightarrow> bool" where
  "counted h \<longleftrightarrow> hi_status h = Sent \<and> hi_alertKey h \<noteq> None"

definition row_key :: "history_row \<Rightarrow> string" where
  "row_key h = throttleKey (hi_channel h) (hi_message h)"

abbreviation deliveries :: "notifier \<Rightarrow> history_row list" where
  "deliveries nf \<equiv> filter counted (nf_history nf)"

definition apart :: "int \<Rightarrow> history_row \<Rightarrow> history_row \<Rightarrow> bool" where
  "apart w a b \<longleftrightarrow> (row_key a = row_key b \<longrightarrow> hi_createdAt b - hi_createdAt a \<ge> w * 1000)"

definition spaced :: "int \<Rightarrow> notifier \<times> time \<Rightarrow> bool" where
  "spaced w s \<longleftrightarrow>
     sorted_wrt (apart w) (deliveries (fst s)) \<and>
     (\<forall>h \<in> set (deliveries (fst s)). \<exists>t. map_get (nf_lastSent (fst s)) (row_key h) = Some t \<and> hi_createdAt h \<le> t) \<and>
     (\<forall>k t. map_get (nf_lastSent (fst s)) k = Some t \<longrightarrow> t \<le> snd s)"

lemma nf_settings_send: "nf_settings (send_channel tr msg info minute now nf c) = nf_settings nf"
  by (simp add: send_channel_def Let_def recordHistory_def markSent_def split: sum.split)




lemma spaced_fields:
  "nf_history nf' = nf_history nf \<Longrightarrow> nf_lastSent nf' = nf_lastSent nf \<Longrightarrow> spaced w (nf', t) = spaced w (nf, t)"
  by (simp add: spaced_def)






section \<open>Settings\<close>





text \<open>What is saved is what the dispatcher works with.\<close>

lemma quiet_saveConfig:
  "quietConfig (saveConfig st cfg) = (sc_quiet cfg)\<lparr>qu_channels := filter (\<lambda>c. c \<in> set ROUTABLE_CHANNELS) (qu_channels (sc_quiet cfg))\<rparr>"
  by (simp add: saveConfig_def Let_def quietConfig_def get_bool_def get_str_def get_severity_def get_channels_def store_simps)










definition reachable :: transport where
  "reachable c msg rs = Inr ()"

definition demo_notifier :: notifier where
  "demo_notifier = \<lparr>nf_settings = [(''notify.email.enabled'', Set_bool True), (''notify.email.recipients'', Set_strs [''ops@x''])],
     nf_lastSent = [], nf_history = [], nf_sends = []\<rparr>"

definition demo_messages :: "(transport \<times> int \<times> nf_event) list" where
  "demo_messages = [(reachable, 1, Nf_message ''hi'' [] None [Email] 0), (reachable, 1, Nf_message ''hi'' [] None [Email] 0),
     (reachable, 300000, Nf_message ''hi'' [] None [Email] 0)]"

lemma demo_messages_run:
  "map hi_status (nf_history (fst (foldl nf_step (demo_notifier, 0) demo_messages))) = [Sent, Throttled, Sent] \<and>
   map hi_createdAt (nf_history (fst (foldl nf_step (demo_notifier, 0) demo_messages))) = [1, 2, 300002]"
  by code_simp


section \<open>What is delivered\<close>

definition channel_open :: "settings \<Rightarrow> notification \<Rightarrow> int \<Rightarrow> channel \<Rightarrow> bool" where
  "channel_open st msg minute c \<longleftrightarrow>
     ch_enabled (channelConfig st c) \<and> ch_recipients (channelConfig st c) \<noteq> [] \<and>
     \<not> (quiet_now st minute \<and> c \<in> set (qu_channels (quietConfig st)) \<and> no_severity msg < qu_floor (quietConfig st))"

lemma send_channel_sends:
  "set (nf_sends (send_channel tr msg info minute now nf c)) \<subseteq>
     set (nf_sends nf) \<union> {x. x = (c, msg, ch_recipients (channelConfig (nf_settings nf) c), now) \<and>
       channel_open (nf_settings nf) msg minute c}"
  by (auto simp: send_channel_def Let_def channel_open_def recordHistory_def markSent_def less_severity_def
      split: sum.split if_splits)

lemma sendToChannels_sends:
  "set (nf_sends (sendToChannels tr nf msg cs info minute now)) \<subseteq>
     set (nf_sends nf) \<union> {x. \<exists>c \<in> set cs. x = (c, msg, ch_recipients (channelConfig (nf_settings nf) c), now) \<and>
       channel_open (nf_settings nf) msg minute c}"
  unfolding sendToChannels_def
proof (induction cs arbitrary: nf)
  case (Cons c cs)
  have "set (nf_sends (foldl (send_channel tr msg info minute now) (send_channel tr msg info minute now nf c) cs)) \<subseteq>
      set (nf_sends (send_channel tr msg info minute now nf c)) \<union>
      {x. \<exists>c \<in> set cs. x = (c, msg, ch_recipients (channelConfig (nf_settings nf) c), now) \<and> channel_open (nf_settings nf) msg minute c}"
    using Cons [of "send_channel tr msg info minute now nf c"] by (simp only: nf_settings_send)
  then show ?case using send_channel_sends [of tr msg info minute now nf c] by fastforce
qed simp

text \<open>
  An alert reaches only the channels its rule names. Whatever a dispatched alert hands to a
  channel is of a registered and enabled type, to a channel of the rule that is enabled and has
  recipients, is not muted for its connector or monitor, and is not below the floor of the quiet hours.
\<close>

theorem alert_delivery_conditions:
  assumes "x \<in> set (nf_sends (dispatchAlert tr nf key p minute now))" and "x \<notin> set (nf_sends nf)"
  shows "\<exists>def c msg. getAlertType key = Some def \<and> al_enabled (alertRule (nf_settings nf) def) \<and>
    x = (c, msg, ch_recipients (channelConfig (nf_settings nf) c), now) \<and>
    c \<in> set (al_channels (alertRule (nf_settings nf) def)) \<and>
    no_severity msg = al_severity (alertRule (nf_settings nf) def) \<and> channel_open (nf_settings nf) msg minute c \<and>
    \<not> (at_connectorScoped def \<and> (\<exists>i. pl_connectorId p = Some i \<and> i \<noteq> [] \<and> key \<in> set (mutedAlerts (nf_settings nf) i))) \<and>
    \<not> (at_monitorScoped def \<and> (\<exists>i. pl_monitorId p = Some i \<and> i \<noteq> [] \<and> key \<in> set (monitorMutedAlerts (nf_settings nf) i)))"
proof -
  obtain def where d: "getAlertType key = Some def"
    using assms by (cases "getAlertType key") (auto simp: dispatchAlert_def)
  let ?r = "alertRule (nf_settings nf) def"
  let ?msg = "\<lparr>no_title = pl_title p, no_body = pl_body p, no_severity = al_severity ?r, no_source = at_category def,
      no_dedupeKey = Some (case pl_dedupeKey p of None \<Rightarrow> key | Some k \<Rightarrow> k)\<rparr>"
  have on: "al_enabled ?r" "\<not> muted_by mutedAlerts (nf_settings nf) key (pl_connectorId p) (at_connectorScoped def)"
    "\<not> muted_by monitorMutedAlerts (nf_settings nf) key (pl_monitorId p) (at_monitorScoped def)"
    and "x \<in> set (nf_sends (sendToChannels tr nf ?msg (al_channels ?r) (Some (at_key def), pl_connectorId p) minute now))"
    using assms d by (auto simp: dispatchAlert_def Let_def split: if_splits)
  then obtain c where "c \<in> set (al_channels ?r)" "x = (c, ?msg, ch_recipients (channelConfig (nf_settings nf) c), now)"
      "channel_open (nf_settings nf) ?msg minute c"
    using assms(2) sendToChannels_sends [of tr nf ?msg "al_channels ?r"] by blast
  then show ?thesis
    using d on by (intro exI [of _ def] exI [of _ c] exI [of _ ?msg]) (auto simp: muted_by_def nonempty_def)
qed

lemma backup_failure_registered: "getAlertType ''backup.failure'' = Some (hd backup_alerts)"
  by (simp add: getAlertType_def ALERT_TYPES_def backup_alerts_def)

definition demo_payload :: alert_payload where
  "demo_payload = \<lparr>pl_title = ''t'', pl_body = [], pl_dedupeKey = None, pl_connectorId = Some ''c1'', pl_monitorId = None\<rparr>"

theorem alert_delivery_conditions_witness:
  "\<exists>def c msg. getAlertType ''backup.failure'' = Some def \<and>
     (Email, msg, [''ops@x''], 7) \<in> set (nf_sends (dispatchAlert reachable demo_notifier ''backup.failure'' demo_payload 0 7)) \<and>
     c = Email \<and> c \<in> set (al_channels (alertRule (nf_settings demo_notifier) def))"
proof -
  let ?nf = "dispatchAlert reachable demo_notifier ''backup.failure'' demo_payload 0 7"
  have "map (\<lambda>x. (fst x, fst (snd (snd x)), snd (snd (snd x)))) (nf_sends
      (sendToChannels reachable demo_notifier msg [Email] (Some k, Some ''c1'') 0 7)) = [(Email, [''ops@x''], 7)]" for msg k
    by (simp add: sendToChannels_def send_channel_def Let_def demo_notifier_def ROUTABLE_CHANNELS_def channelConfig_def get_bool_def
        get_strs_def map_get_def reachable_def quiet_now_def quietConfig_def DEFAULT_QUIET_def isThrottled_def recordHistory_def
        markSent_def)
  moreover have "alertRule (nf_settings demo_notifier) (hd backup_alerts) = \<lparr>al_enabled = True, al_severity = Critical, al_channels = [Email]\<rparr>"
    by (simp add: alertRule_def demo_notifier_def backup_alerts_def get_bool_def get_severity_def get_channels_def map_get_def alertKey_def)
  moreover have "mutedAlerts (nf_settings demo_notifier) i = []" for i
    by (simp add: mutedAlerts_def get_strs_def demo_notifier_def map_get_def muted_key_def)
  ultimately have "map (\<lambda>x. (fst x, fst (snd (snd x)), snd (snd (snd x)))) (nf_sends ?nf) = [(Email, [''ops@x''], 7)]"
    by (simp add: dispatchAlert_def backup_failure_registered Let_def muted_by_def nonempty_def demo_payload_def)
  then obtain msg where m: "(Email, msg, [''ops@x''], 7) \<in> set (nf_sends ?nf)"
    by (cases "nf_sends ?nf") auto
  have "(Email, msg, [''ops@x''], 7) \<notin> set (nf_sends demo_notifier)" by (simp add: demo_notifier_def)
  from alert_delivery_conditions [OF m this] show ?thesis using m by auto
qed

text \<open>
  The alert type the automations engine raises with an answer of the assistant is not registered:
  nothing is delivered and nothing is recorded, and the action still counts as done.
\<close>

lemma assistant_answer_not_delivered:
  "dispatchAlert tr nf ''automation.ask_computer'' p minute now = nf"
  by (simp add: dispatchAlert_def ask_computer_unregistered)

end
