(* ===== verification/Monitors.thy ===== *)
theory Monitors
  imports Notifications
begin

text \<open>
  Uptime monitoring: the scheduler \<^verbatim>\<open>monitors/monitor-scheduler.service.ts\<close>, the writes of
  \<^verbatim>\<open>monitors/monitors.service.ts\<close> and the retention of \<^verbatim>\<open>monitors/monitor-retention.service.ts\<close>.
  The scheduler caches row objects: \<open>sd_objs\<close> is the store of these objects and \<open>sd_cache\<close> names those of
  the current cache, so that a check under way can hold an object a reload has replaced. A check is
  two steps, the start and, when the probe has answered, the rest. The probe, its target text and
  the formatting of dates are parameters.
\<close>

section \<open>Rows\<close>

datatype mon_status = Up | Down | Pending | Paused

primrec mon_str :: "mon_status \<Rightarrow> string" where
  "mon_str Up = ''up''"
| "mon_str Down = ''down''"
| "mon_str Pending = ''pending''"
| "mon_str Paused = ''paused''"

record monitor =
  mo_id :: string
  mo_name :: string
  mo_type :: string
  mo_config :: probe_config
  mo_enabled :: bool
  mo_intervalSec :: int
  mo_retryIntervalSec :: int
  mo_timeoutSec :: int
  mo_retries :: int
  mo_resendEveryN :: int
  mo_upsideDown :: bool
  mo_description :: "string option"
  mo_tags :: "string list"
  mo_status :: mon_status
  mo_lastCheckAt :: "time option"
  mo_lastChangeAt :: "time option"
  mo_lastLatencyMs :: "int option"
  mo_lastMessage :: "string option"
  mo_certExpiresAt :: "time option"

record beat =
  be_monitorId :: string
  be_status :: mon_status
  be_latencyMs :: "int option"
  be_message :: string
  be_important :: bool
  be_at :: time

record rollup =
  ro_monitorId :: string
  ro_bucket :: time
  ro_total :: nat
  ro_up :: nat
  ro_down :: nat

record scheduler =
  sd_rows :: "monitor list"
  sd_beats :: "beat list"
  sd_rollups :: "rollup list"
  sd_objs :: "monitor list"
  sd_cache :: "nat list"
  sd_cacheAt :: time
  sd_dirty :: bool
  sd_firstLoad :: bool
  sd_nextDue :: "(string, time) jsmap"
  sd_inFlight :: "string list"
  sd_retriesLeft :: "(string, int) jsmap"
  sd_downCount :: "(string, int) jsmap"
  sd_certAlerted :: "(string, time) jsmap"
  sd_alerts :: "(string \<times> alert_payload) list"

text \<open>The target a probe shows for its configuration (\<open>None\<close>: no such probe), and two date formats.\<close>

record probe_env =
  pe_target :: "string \<Rightarrow> probe_config \<Rightarrow> string option"
  pe_iso :: "time \<Rightarrow> string"
  pe_utc :: "time \<Rightarrow> string"

definition CACHE_TTL_MS :: int where "CACHE_TTL_MS = 60000"

section \<open>The tick\<close>

definition invalidate :: "string option \<Rightarrow> scheduler \<Rightarrow> scheduler" where
  "invalidate i st =
     (let st1 = st\<lparr>sd_dirty := True\<rparr>
      in if nonempty i
         then st1\<lparr>sd_nextDue := map_set (sd_nextDue st1) (the i) 0, sd_retriesLeft := map_del (sd_retriesLeft st1) (the i),
                  sd_downCount := map_del (sd_downCount st1) (the i)\<rparr>
         else st1)"

text \<open>The bookkeeping of a monitor that no longer exists.\<close>

definition forget_id :: "string \<Rightarrow> scheduler \<Rightarrow> scheduler" where
  "forget_id i st =
     st\<lparr>sd_nextDue := map_del (sd_nextDue st) i, sd_retriesLeft := map_del (sd_retriesLeft st) i,
        sd_downCount := map_del (sd_downCount st) i, sd_certAlerted := map_del (sd_certAlerted st) i\<rparr>"

text \<open>\<open>loads\<close>: whether the query succeeds. The rows become new objects.\<close>

definition reload :: "bool \<Rightarrow> time \<Rightarrow> scheduler \<Rightarrow> scheduler" where
  "reload loads now st =
     (if \<not> sd_dirty st \<and> now - sd_cacheAt st < CACHE_TTL_MS then st
      else if \<not> loads then st
      else
        (let n = length (sd_objs st);
             st1 = st\<lparr>sd_objs := sd_objs st @ sd_rows st, sd_cache := [n ..< n + length (sd_rows st)], sd_cacheAt := now,
                      sd_dirty := False\<rparr>;
             live = map mo_id (sd_rows st)
         in fold forget_id (filter (\<lambda>i. i \<notin> set live) (map_keys (sd_nextDue st1))) st1))"

abbreviation obj :: "scheduler \<Rightarrow> nat \<Rightarrow> monitor" where
  "obj st r \<equiv> sd_objs st ! r"

text \<open>One monitor of the cache: its due time is set when it has none; the names of the due ones are collected.\<close>

definition look :: "(string \<Rightarrow> int) \<Rightarrow> time \<Rightarrow> scheduler \<times> nat list \<Rightarrow> nat \<Rightarrow> scheduler \<times> nat list" where
  "look jitter now acc r =
     (case acc of (st, due) \<Rightarrow>
        let m = obj st r
        in if \<not> mo_enabled m then (st, due)
           else
             (let at = (case map_get (sd_nextDue st) (mo_id m) of
                          Some t \<Rightarrow> t | None \<Rightarrow> now + (if sd_firstLoad st then jitter (mo_id m) else 0));
                  st1 = (if map_get (sd_nextDue st) (mo_id m) = None
                         then st\<lparr>sd_nextDue := map_set (sd_nextDue st) (mo_id m) at\<rparr> else st)
              in (st1, if now \<ge> at \<and> mo_id m \<notin> set (sd_inFlight st) then due @ [r] else due)))"

definition begin_check :: "nat \<Rightarrow> scheduler \<Rightarrow> scheduler" where
  "begin_check r st = st\<lparr>sd_inFlight := sd_inFlight st @ [mo_id (obj st r)]\<rparr>"

text \<open>A tick ends with the checks it starts; \<open>jitter\<close> stands for the random delay after boot.\<close>

definition monitor_tick :: "bool \<Rightarrow> (string \<Rightarrow> int) \<Rightarrow> time \<Rightarrow> scheduler \<Rightarrow> nat list \<times> scheduler" where
  "monitor_tick loads jitter now st =
     (case foldl (look jitter now) (reload loads now st, []) (sd_cache (reload loads now st)) of
        (st1, due) \<Rightarrow> (due, fold begin_check due (st1\<lparr>sd_firstLoad := False\<rparr>)))"



section \<open>The outcome of a check\<close>

text \<open>The new status and the retries left, from the ones before.\<close>

definition next_status :: "int \<Rightarrow> mon_status \<Rightarrow> int option \<Rightarrow> bool \<Rightarrow> mon_status \<times> int option" where
  "next_status retries prev left ok =
     (if ok then (Up, Some retries)
      else
        (let l = (case left of None \<Rightarrow> retries | Some l \<Rightarrow> l)
         in if prev \<noteq> Down \<and> l > 0 then (Pending, Some (l - 1)) else (Down, left)))"

text \<open>\<^verbatim>\<open>"3m", "2h 5m", "1d 4h"\<close>.\<close>

definition duration :: "int \<Rightarrow> string" where
  "duration ms =
     (let s = max 0 (ms div 1000); d = s div 86400; h = s mod 86400 div 3600; m = s mod 3600 div 60
      in if d > 0 then show_int d @ ''d '' @ show_int h @ ''h''
         else if h > 0 then show_int h @ ''h '' @ show_int m @ ''m''
         else if m > 0 then show_int m @ ''m''
         else show_int s @ ''s'')"

definition raise_alert :: "string \<Rightarrow> string \<Rightarrow> string \<Rightarrow> string \<Rightarrow> string \<Rightarrow> scheduler \<Rightarrow> scheduler" where
  "raise_alert key title body dedupe i st =
     st\<lparr>sd_alerts := sd_alerts st @ [(key, \<lparr>pl_title = title, pl_body = body, pl_dedupeKey = Some dedupe,
        pl_connectorId = None, pl_monitorId = Some i\<rparr>)]\<rparr>"

text \<open>The texts of the alerts on a change of status, and of the one that is sent again.\<close>

definition down_alert :: "monitor \<Rightarrow> string \<Rightarrow> scheduler \<Rightarrow> scheduler" where
  "down_alert m body st =
     raise_alert ''monitor.down'' (''Monitor down: '' @ mo_name m) body (''monitor:'' @ mo_id m @ '':down'') (mo_id m) st"

definition still_down_alert :: "monitor \<Rightarrow> string \<Rightarrow> int \<Rightarrow> time \<Rightarrow> scheduler \<Rightarrow> scheduler" where
  "still_down_alert m body n now st =
     raise_alert ''monitor.down''
       (''Still down: '' @ mo_name m @ (case mo_lastChangeAt m of None \<Rightarrow> [] | Some t \<Rightarrow> '' (down for '' @ duration (now - t) @ '')''))
       body (''monitor:'' @ mo_id m @ '':down:'' @ show_int n) (mo_id m) st"

definition up_alert :: "monitor \<Rightarrow> string \<Rightarrow> time \<Rightarrow> scheduler \<Rightarrow> scheduler" where
  "up_alert m body now st =
     raise_alert ''monitor.up'' (''Monitor recovered: '' @ mo_name m)
       (body @ newline # ''Back up'' @ (case mo_lastChangeAt m of None \<Rightarrow> [] | Some t \<Rightarrow> '' after '' @ duration (now - t)) @ ''.'')
       (''monitor:'' @ mo_id m @ '':up'') (mo_id m) st"

definition down_count :: "monitor \<Rightarrow> mon_status \<Rightarrow> scheduler \<Rightarrow> int" where
  "down_count m prev st =
     (if prev = Down then (case map_get (sd_downCount st) (mo_id m) of None \<Rightarrow> 1 | Some c \<Rightarrow> c) + 1 else 1)"

definition status_alerts ::
    "monitor \<Rightarrow> mon_status \<Rightarrow> mon_status \<Rightarrow> string \<Rightarrow> time \<Rightarrow> scheduler \<Rightarrow> scheduler" where
  "status_alerts m prev status body now st =
     (if status = Down then
        (let n = down_count m prev st; st1 = st\<lparr>sd_downCount := map_set (sd_downCount st) (mo_id m) n\<rparr>
         in if prev \<noteq> Down then down_alert m body st1
            else if mo_resendEveryN m > 0 \<and> n mod mo_resendEveryN m = 0 then still_down_alert m body n now st1
            else st1)
      else if status = Up \<and> prev = Down then up_alert m body now (st\<lparr>sd_downCount := map_del (sd_downCount st) (mo_id m)\<rparr>)
      else st)"

text \<open>A certificate alerts once, when it comes within the days the monitor asks for.\<close>

definition cert_texts :: "probe_env \<Rightarrow> monitor \<Rightarrow> string \<Rightarrow> probe_cert \<Rightarrow> string \<times> string \<times> string" where
  "cert_texts env m target c =
     (let gone = pc_daysLeft c < 0;
          whenText = (if gone then ''expired '' @ show_int (- pc_daysLeft c) @ '' day(s) ago''
                      else ''expires in '' @ show_int (pc_daysLeft c) @ '' day(s)'')
      in (''Certificate '' @ (if gone then ''expired'' else ''expiring'') @ '': '' @ mo_name m,
          target @ newline # ''Certificate for '' @ (case pc_subject c of None \<Rightarrow> target | Some s \<Rightarrow> s) @ '' '' @
            whenText @ '' ('' @ pe_utc env (pc_validTo c) @ '').'',
          ''monitor:'' @ mo_id m @ '':cert:'' @ pe_iso env (pc_validTo c)))"

definition warn_days :: "monitor \<Rightarrow> int option" where
  "warn_days m = (case obj_get (mo_config m) ''certExpiryDays'' of JUndef \<Rightarrow> Some 0 | JNull \<Rightarrow> Some 0 | v \<Rightarrow> num_of v)"

definition cert_alert :: "probe_env \<Rightarrow> monitor \<Rightarrow> string \<Rightarrow> probe_result \<Rightarrow> scheduler \<Rightarrow> scheduler" where
  "cert_alert env m target result st =
     (case (pr_cert result, warn_days m) of
        (Some c, Some w) \<Rightarrow>
          if w > 0 \<and> pc_daysLeft c \<le> w \<and> map_get (sd_certAlerted st) (mo_id m) \<noteq> Some (pc_validTo c)
          then (case cert_texts env m target c of (title, body, dedupe) \<Rightarrow>
                  raise_alert ''monitor.cert_expiring'' title body dedupe (mo_id m)
                    (st\<lparr>sd_certAlerted := map_set (sd_certAlerted st) (mo_id m) (pc_validTo c)\<rparr>))
          else st
      | _ \<Rightarrow> st)"

definition raiseAlerts ::
    "probe_env \<Rightarrow> monitor \<Rightarrow> mon_status \<Rightarrow> mon_status \<Rightarrow> string \<Rightarrow> probe_result \<Rightarrow> time \<Rightarrow> scheduler \<Rightarrow> scheduler" where
  "raiseAlerts env m prev status message result now st =
     (let target = (case pe_target env (mo_type m) (mo_config m) of None \<Rightarrow> [] | Some t \<Rightarrow> t)
      in cert_alert env m target result (status_alerts m prev status (target @ newline # message) now st))"

text \<open>The columns a check writes.\<close>

definition checked :: "mon_status \<Rightarrow> bool \<Rightarrow> string \<Rightarrow> probe_result \<Rightarrow> time option \<Rightarrow> time \<Rightarrow> monitor \<Rightarrow> monitor" where
  "checked status important message result cert now m =
     (let m1 = m\<lparr>mo_status := status, mo_lastCheckAt := Some now, mo_lastLatencyMs := pr_latencyMs result,
                 mo_lastMessage := Some message, mo_certExpiresAt := cert\<rparr>
      in if important then m1\<lparr>mo_lastChangeAt := Some now\<rparr> else m1)"

text \<open>
  The rest of a check when the probe has answered. The transaction fails when the row is gone; then
  only the next due time is set.
\<close>

definition check_ok :: "monitor \<Rightarrow> probe_result \<Rightarrow> bool" where
  "check_ok m result = (if mo_upsideDown m then \<not> pr_ok result else pr_ok result)"

definition check_message :: "monitor \<Rightarrow> probe_result \<Rightarrow> string" where
  "check_message m result =
     take 500 (if mo_upsideDown m \<and> \<not> pr_ok result then ''Unreachable (expected): '' @ pr_message result else pr_message result)"

definition check_cert :: "monitor \<Rightarrow> probe_result \<Rightarrow> time option" where
  "check_cert m result =
     (case pr_cert result of Some c \<Rightarrow> Some (pc_validTo c) | None \<Rightarrow> if mo_type m = ''http'' then mo_certExpiresAt m else None)"

definition keep_retries :: "string \<Rightarrow> int option \<Rightarrow> scheduler \<Rightarrow> scheduler" where
  "keep_retries i left st = (case left of None \<Rightarrow> st | Some l \<Rightarrow> st\<lparr>sd_retriesLeft := map_set (sd_retriesLeft st) i l\<rparr>)"

text \<open>The transaction, the alerts and the cached object.\<close>

definition record_check :: "probe_env \<Rightarrow> nat \<Rightarrow> mon_status \<Rightarrow> probe_result \<Rightarrow> time \<Rightarrow> scheduler \<Rightarrow> scheduler" where
  "record_check env r status result now st =
     (let m = obj st r; prev = mo_status m; important = status \<noteq> prev; message = check_message m result;
          new = checked status important message result (check_cert m result) now;
          st1 = st\<lparr>sd_beats := sd_beats st @ [\<lparr>be_monitorId = mo_id m, be_status = status, be_latencyMs = pr_latencyMs result,
                     be_message = message, be_important = important, be_at = now\<rparr>],
                   sd_rows := rows_update (\<lambda>x. mo_id x = mo_id m) new (sd_rows st)\<rparr>;
          st2 = raiseAlerts env m prev status message result now st1
      in st2\<lparr>sd_objs := (sd_objs st2)[r := new m],
             sd_nextDue := map_set (sd_nextDue st2) (mo_id m)
               (now + (if status = Pending then mo_retryIntervalSec m else mo_intervalSec m) * 1000)\<rparr>)"

definition finish_check :: "probe_env \<Rightarrow> nat \<Rightarrow> probe_result \<Rightarrow> time \<Rightarrow> scheduler \<Rightarrow> scheduler" where
  "finish_check env r result now st =
     (let m = obj st r; i = mo_id m;
          outcome = next_status (mo_retries m) (mo_status m) (map_get (sd_retriesLeft st) i) (check_ok m result);
          st1 = keep_retries i (snd outcome) st;
          st2 = (if list_ex (\<lambda>x. mo_id x = i) (sd_rows st1) then record_check env r (fst outcome) result now st1
                 else st1\<lparr>sd_nextDue := map_set (sd_nextDue st1) i (now + mo_intervalSec m * 1000)\<rparr>)
      in st2\<lparr>sd_inFlight := filter (\<lambda>x. x \<noteq> i) (sd_inFlight st2)\<rparr>)"

section \<open>Writes\<close>

record monitor_input =
  mi_name :: string
  mi_type :: string
  mi_config :: probe_config
  mi_enabled :: "bool option"
  mi_intervalSec :: json
  mi_retryIntervalSec :: json
  mi_timeoutSec :: json
  mi_retries :: json
  mi_resendEveryN :: json
  mi_upsideDown :: bool
  mi_description :: "string option"
  mi_tags :: "string list"

text \<open>A probe type: its fields (key, type, default) and its own validation.\<close>

record probe_type =
  pt_fields :: "(string \<times> string \<times> json option) list"
  pt_validate :: "probe_config \<Rightarrow> string option"

definition MONITOR_MIN_INTERVAL_SEC :: int where "MONITOR_MIN_INTERVAL_SEC = 20"

text \<open>\<^verbatim>\<open>Number(v)\<close> of text that is no number is \<^verbatim>\<open>NaN\<close>, written as null in a JSON column.\<close>

definition coerce_field :: "string \<Rightarrow> json \<Rightarrow> json" where
  "coerce_field ty v =
     (if ty = ''number'' then (case num_of v of None \<Rightarrow> JNull | Some n \<Rightarrow> JNum n)
      else if ty = ''boolean'' then JBool (v = JBool True \<or> v = JStr ''true'')
      else JStr (js_string v))"

definition config_of :: "probe_type \<Rightarrow> probe_config \<Rightarrow> probe_config" where
  "config_of pt inp =
     List.map_filter (\<lambda>(k, ty, dflt).
       let v = obj_get inp k
       in if v = JUndef \<or> v = JNull \<or> v = JStr [] then map_option (\<lambda>d. (k, d)) dflt
          else Some (k, coerce_field ty v)) (pt_fields pt)"

definition clampInt :: "json \<Rightarrow> int \<Rightarrow> int \<Rightarrow> int \<Rightarrow> int" where
  "clampInt v lo hi dflt = (case num_of v of None \<Rightarrow> dflt | Some n \<Rightarrow> min hi (max lo n))"

text \<open>The fields of the row that the input decides.\<close>

definition normalize :: "(string \<Rightarrow> probe_type option) \<Rightarrow> monitor_input \<Rightarrow> monitor \<Rightarrow> string + monitor" where
  "normalize probes inp m =
     (case probes (mi_type inp) of
        None \<Rightarrow> Inl (''Unknown monitor type '' @ CHR 0x22 # mi_type inp @ [CHR 0x22])
      | Some pt \<Rightarrow>
          if trim (mi_name inp) = [] then Inl ''Name is required.''
          else
            (let config = config_of pt (mi_config inp);
                 desc = (case mi_description inp of None \<Rightarrow> [] | Some d \<Rightarrow> trim d)
             in case pt_validate pt config of
                  Some problem \<Rightarrow> Inl problem
                | None \<Rightarrow>
                    Inr (m\<lparr>mo_name := trim (mi_name inp), mo_type := mi_type inp, mo_config := config,
                           mo_enabled := (case mi_enabled inp of None \<Rightarrow> True | Some b \<Rightarrow> b),
                           mo_intervalSec := clampInt (mi_intervalSec inp) MONITOR_MIN_INTERVAL_SEC 86400 60,
                           mo_retryIntervalSec := clampInt (mi_retryIntervalSec inp) MONITOR_MIN_INTERVAL_SEC 86400 60,
                           mo_timeoutSec := clampInt (mi_timeoutSec inp) 1 300 10,
                           mo_retries := clampInt (mi_retries inp) 0 10 1,
                           mo_resendEveryN := clampInt (mi_resendEveryN inp) 0 1000 0,
                           mo_upsideDown := mi_upsideDown inp,
                           mo_description := (if desc = [] then None else Some desc),
                           mo_tags := take 20 (uniq (filter (\<lambda>t. t \<noteq> []) (map trim (mi_tags inp))))\<rparr>)))"

definition fresh_status :: "bool \<Rightarrow> mon_status" where
  "fresh_status enabled = (if enabled then Pending else Paused)"

definition blank_monitor :: "string \<Rightarrow> monitor" where
  "blank_monitor i = \<lparr>mo_id = i, mo_name = [], mo_type = [], mo_config = [], mo_enabled = True, mo_intervalSec = 60,
     mo_retryIntervalSec = 60, mo_timeoutSec = 10, mo_retries = 1, mo_resendEveryN = 0, mo_upsideDown = False,
     mo_description = None, mo_tags = [], mo_status = Pending, mo_lastCheckAt = None, mo_lastChangeAt = None,
     mo_lastLatencyMs = None, mo_lastMessage = None, mo_certExpiresAt = None\<rparr>"

definition monitor_create ::
    "(string \<Rightarrow> probe_type option) \<Rightarrow> string \<Rightarrow> monitor_input \<Rightarrow> scheduler \<Rightarrow> (string + monitor) \<times> scheduler" where
  "monitor_create probes i inp st =
     (case normalize probes inp (blank_monitor i) of
        Inl e \<Rightarrow> (Inl e, st)
      | Inr m \<Rightarrow>
          (let m1 = m\<lparr>mo_status := fresh_status (mo_enabled m)\<rparr>
           in (Inr m1, invalidate (Some i) (st\<lparr>sd_rows := sd_rows st @ [m1]\<rparr>))))"

definition find_monitor :: "scheduler \<Rightarrow> string \<Rightarrow> monitor option" where
  "find_monitor st i = List.find (\<lambda>m. mo_id m = i) (sd_rows st)"

definition monitor_update ::
    "(string \<Rightarrow> probe_type option) \<Rightarrow> string \<Rightarrow> monitor_input \<Rightarrow> scheduler \<Rightarrow> (string + unit) \<times> scheduler" where
  "monitor_update probes i inp st =
     (case find_monitor st i of
        None \<Rightarrow> (Inl ''Monitor not found'', st)
      | Some old \<Rightarrow>
          (case normalize probes inp old of
             Inl e \<Rightarrow> (Inl e, st)
           | Inr m \<Rightarrow>
               (let m1 = (if mo_enabled m \<noteq> mo_enabled old then m\<lparr>mo_status := fresh_status (mo_enabled m)\<rparr> else m)
                in (Inr (), invalidate (Some i) (st\<lparr>sd_rows := rows_update (\<lambda>x. mo_id x = i) (\<lambda>_. m1) (sd_rows st)\<rparr>)))))"

definition setEnabled :: "string \<Rightarrow> bool \<Rightarrow> time \<Rightarrow> scheduler \<Rightarrow> (string + unit) \<times> scheduler" where
  "setEnabled i enabled now st =
     (case find_monitor st i of
        None \<Rightarrow> (Inl ''Monitor not found'', st)
      | Some m \<Rightarrow>
          (Inr (),
           if mo_enabled m \<noteq> enabled
           then invalidate (Some i) (st\<lparr>sd_rows := rows_update (\<lambda>x. mo_id x = i)
                  (\<lambda>x. x\<lparr>mo_enabled := enabled, mo_status := fresh_status enabled, mo_lastChangeAt := Some now\<rparr>) (sd_rows st)\<rparr>)
           else st))"

definition monitor_remove :: "string \<Rightarrow> scheduler \<Rightarrow> (string + unit) \<times> scheduler" where
  "monitor_remove i st =
     (case find_monitor st i of
        None \<Rightarrow> (Inl ''Monitor not found'', st)
      | Some _ \<Rightarrow>
          (Inr (), invalidate None (st\<lparr>sd_rows := filter (\<lambda>m. mo_id m \<noteq> i) (sd_rows st),
             sd_beats := filter (\<lambda>b. be_monitorId b \<noteq> i) (sd_beats st),
             sd_rollups := filter (\<lambda>b. ro_monitorId b \<noteq> i) (sd_rollups st)\<rparr>)))"

section \<open>Retention\<close>

definition hour_of :: "time \<Rightarrow> time" where "hour_of t = t div 3600000 * 3600000"

definition count_status :: "mon_status \<Rightarrow> beat list \<Rightarrow> nat" where
  "count_status s bs = length (filter (\<lambda>b. be_status b = s) bs)"

definition rollup_of :: "string \<Rightarrow> time \<Rightarrow> beat list \<Rightarrow> rollup" where
  "rollup_of i bucket bs = \<lparr>ro_monitorId = i, ro_bucket = bucket, ro_total = length bs, ro_up = count_status Up bs,
     ro_down = count_status Down bs\<rparr>"

text \<open>One group of the query, and its insertion or update.\<close>

definition group_beats :: "string \<Rightarrow> time \<Rightarrow> beat list \<Rightarrow> beat list" where
  "group_beats i bucket bs = filter (\<lambda>b. be_monitorId b = i \<and> hour_of (be_at b) = bucket) bs"

definition upsert :: "rollup \<Rightarrow> rollup list \<Rightarrow> rollup list" where
  "upsert x rs =
     (if list_ex (\<lambda>r. ro_monitorId r = ro_monitorId x \<and> ro_bucket r = ro_bucket x) rs
      then rows_update (\<lambda>r. ro_monitorId r = ro_monitorId x \<and> ro_bucket r = ro_bucket x) (\<lambda>_. x) rs
      else rs @ [x])"

text \<open>The averages and extremes of the latency are left out of the rollup.\<close>

definition retention_run :: "int \<Rightarrow> int \<Rightarrow> time \<Rightarrow> beat list \<times> rollup list \<Rightarrow> beat list \<times> rollup list" where
  "retention_run rawDays rollupDays now tabs =
     (let rawSince = now - rawDays * 86400000;
          hourStart = hour_of now;
          inWindow = filter (\<lambda>b. rawSince \<le> be_at b \<and> be_at b < hourStart) (fst tabs);
          groups = uniq (map (\<lambda>b. (be_monitorId b, hour_of (be_at b))) inWindow);
          rolled = foldl (\<lambda>rs (i, h). upsert (rollup_of i h (group_beats i h inWindow)) rs) (snd tabs) groups
      in (filter (\<lambda>b. \<not> be_at b < rawSince) (fst tabs), filter (\<lambda>r. \<not> ro_bucket r < now - rollupDays * 86400000) rolled))"

definition retention :: "int \<Rightarrow> int \<Rightarrow> time \<Rightarrow> scheduler \<Rightarrow> scheduler" where
  "retention rawDays rollupDays now st =
     (case retention_run rawDays rollupDays now (sd_beats st, sd_rollups st) of
        (bs, rs) \<Rightarrow> st\<lparr>sd_beats := bs, sd_rollups := rs\<rparr>)"

section \<open>The reference automaton\<close>









text \<open>The alerts of a monitor that tell of a change of status.\<close>

definition is_edge :: "string \<Rightarrow> string \<times> alert_payload \<Rightarrow> bool" where
  "is_edge i a \<longleftrightarrow> pl_monitorId (snd a) = Some i \<and>
     (fst a = ''monitor.up'' \<or> fst a = ''monitor.down'' \<and> pl_dedupeKey (snd a) = Some (''monitor:'' @ i @ '':down''))"

definition edge_alerts :: "string \<Rightarrow> scheduler \<Rightarrow> string list" where
  "edge_alerts i st = map fst (filter (is_edge i) (sd_alerts st))"




lemma raise_fields [simp]:
  "sd_rows (raise_alert k a b d i st) = sd_rows st" "sd_objs (raise_alert k a b d i st) = sd_objs st"
  "sd_cache (raise_alert k a b d i st) = sd_cache st" "sd_retriesLeft (raise_alert k a b d i st) = sd_retriesLeft st"
  by (simp_all add: raise_alert_def)

lemma status_fields [simp]:
  "sd_rows (status_alerts m prev status body now st) = sd_rows st" "sd_objs (status_alerts m prev status body now st) = sd_objs st"
  "sd_cache (status_alerts m prev status body now st) = sd_cache st"
  "sd_retriesLeft (status_alerts m prev status body now st) = sd_retriesLeft st"
  by (simp_all add: status_alerts_def down_alert_def still_down_alert_def up_alert_def Let_def)

lemma cert_fields [simp]:
  "sd_rows (cert_alert env m target result st) = sd_rows st" "sd_objs (cert_alert env m target result st) = sd_objs st"
  "sd_cache (cert_alert env m target result st) = sd_cache st" "sd_retriesLeft (cert_alert env m target result st) = sd_retriesLeft st"
  by (simp_all add: cert_alert_def split: option.split prod.split)

lemma alert_fields [simp]:
  "sd_rows (raiseAlerts env m prev status message result now st) = sd_rows st"
  "sd_objs (raiseAlerts env m prev status message result now st) = sd_objs st"
  "sd_cache (raiseAlerts env m prev status message result now st) = sd_cache st"
  "sd_retriesLeft (raiseAlerts env m prev status message result now st) = sd_retriesLeft st"
  by (simp_all add: raiseAlerts_def Let_def)


lemma edge_of_same [simp]:
  "edge_alerts i (st\<lparr>sd_downCount := dc\<rparr>) = edge_alerts i st" "edge_alerts i (st\<lparr>sd_certAlerted := ca\<rparr>) = edge_alerts i st"
  by (simp_all add: edge_alerts_def)




lemma checked_fields [simp]:
  "mo_id (checked status imp message result cert now m) = mo_id m"
  "mo_retries (checked status imp message result cert now m) = mo_retries m"
  "mo_status (checked status imp message result cert now m) = status"
  "mo_upsideDown (checked status imp message result cert now m) = mo_upsideDown m"
  by (simp_all add: checked_def Let_def)

lemma keep_retries_fields [simp]:
  "sd_rows (keep_retries i left st) = sd_rows st" "sd_objs (keep_retries i left st) = sd_objs st"
  "sd_cache (keep_retries i left st) = sd_cache st" "sd_alerts (keep_retries i left st) = sd_alerts st"
  by (simp_all add: keep_retries_def split: option.splits)




section \<open>Runs of the scheduler\<close>




definition boot :: "monitor list \<Rightarrow> scheduler" where
  "boot rows = \<lparr>sd_rows = rows, sd_beats = [], sd_rollups = [], sd_objs = [], sd_cache = [], sd_cacheAt = 0, sd_dirty = True,
     sd_firstLoad = True, sd_nextDue = [], sd_inFlight = [], sd_retriesLeft = [], sd_downCount = [], sd_certAlerted = [],
     sd_alerts = []\<rparr>"












definition plain_env :: probe_env where
  "plain_env = \<lparr>pe_target = (\<lambda>_ _. Some ''t''), pe_iso = (\<lambda>_. []), pe_utc = (\<lambda>_. [])\<rparr>"

definition answer :: "bool \<Rightarrow> probe_result" where
  "answer ok = \<lparr>pr_ok = ok, pr_latencyMs = None, pr_message = ''x'', pr_cert = None\<rparr>"

definition demo_monitor :: monitor where
  "demo_monitor = (blank_monitor ''m'')\<lparr>mo_name := ''M'', mo_retries := 0, mo_intervalSec := 20\<rparr>"




text \<open>
  A save of any monitor makes the next tick load new objects. A check that was in flight then writes
  its outcome to the old object, and the next check of that monitor reports the same change again.
\<close>

lemma stale_check_repeats_the_alert:
  "let st0 = snd (monitor_tick True (\<lambda>_. 0) 1000 (reload True 0 (boot [demo_monitor])));
       st1 = snd (monitor_tick True (\<lambda>_. 0) 2000 (invalidate None st0));
       st2 = finish_check plain_env 0 (answer False) 3000 st1;
       (due, st3) = monitor_tick True (\<lambda>_. 0) 23000 st2;
       st4 = finish_check plain_env 1 (answer False) 24000 st3
   in due = [1] \<and> map mo_status (sd_rows st2) = [Down] \<and>
      map fst (sd_alerts st4) = [''monitor.down'', ''monitor.down''] \<and> map be_important (sd_beats st4) = [True, True]"
  by code_simp

text \<open>Pausing a monitor does not stop the check in flight, whose answer gives it a live status again.\<close>

lemma paused_monitor_comes_back:
  "let st0 = snd (monitor_tick True (\<lambda>_. 0) 1000 (reload True 0 (boot [demo_monitor])));
       st1 = snd (setEnabled ''m'' False 2000 st0);
       st2 = finish_check plain_env 0 (answer False) 3000 st1
   in map mo_status (sd_rows st1) = [Paused] \<and> map mo_enabled (sd_rows st2) = [False] \<and>
      map mo_status (sd_rows st2) = [Down] \<and> map fst (sd_alerts st2) = [''monitor.down'']"
  by code_simp

section \<open>Retention\<close>

definition rollup_at :: "string \<Rightarrow> time \<Rightarrow> rollup list \<Rightarrow> rollup option" where
  "rollup_at i h rs = List.find (\<lambda>r. ro_monitorId r = i \<and> ro_bucket r = h) rs"



















definition beat_at :: "mon_status \<Rightarrow> time \<Rightarrow> beat" where
  "beat_at s t = \<lparr>be_monitorId = ''m'', be_status = s, be_latencyMs = None, be_message = [], be_important = False, be_at = t\<rparr>"



text \<open>
  The run after a boot is not on the hour: it replaces the rollup of the oldest hour by one of the part
  still in the window, and then deletes the other beats of that hour.
\<close>

lemma boot_run_cuts_an_hour:
  "let hourly = retention_run 1 365 3600000 ([beat_at Down 1000, beat_at Up 3000000], []);
       booted = retention_run 1 365 (86400000 + 1800000) hourly
   in rollup_at ''m'' 0 (snd hourly) = Some \<lparr>ro_monitorId = ''m'', ro_bucket = 0, ro_total = 2, ro_up = 1, ro_down = 1\<rparr> \<and>
      rollup_at ''m'' 0 (snd booted) = Some \<lparr>ro_monitorId = ''m'', ro_bucket = 0, ro_total = 1, ro_up = 1, ro_down = 0\<rparr> \<and>
      map be_at (fst booted) = [3000000]"
  by code_simp

section \<open>Rows stay in bounds\<close>

definition monitor_ok :: "monitor \<Rightarrow> bool" where
  "monitor_ok m \<longleftrightarrow> mo_name m \<noteq> [] \<and>
     MONITOR_MIN_INTERVAL_SEC \<le> mo_intervalSec m \<and> mo_intervalSec m \<le> 86400 \<and>
     MONITOR_MIN_INTERVAL_SEC \<le> mo_retryIntervalSec m \<and> mo_retryIntervalSec m \<le> 86400 \<and>
     1 \<le> mo_timeoutSec m \<and> mo_timeoutSec m \<le> 300 \<and> 0 \<le> mo_retries m \<and> mo_retries m \<le> 10 \<and>
     0 \<le> mo_resendEveryN m \<and> mo_resendEveryN m \<le> 1000 \<and> length (mo_tags m) \<le> 20 \<and> distinct (mo_tags m) \<and>
     mo_description m \<noteq> Some [] \<and> [] \<notin> set (mo_tags m)"

definition rows_ok :: "scheduler \<Rightarrow> bool" where
  "rows_ok st \<longleftrightarrow> list_all monitor_ok (sd_rows st)"

lemma clampInt_bounds: "lo \<le> dflt \<Longrightarrow> dflt \<le> hi \<Longrightarrow> lo \<le> clampInt v lo hi dflt \<and> clampInt v lo hi dflt \<le> hi"
  by (simp add: clampInt_def split: option.split)

lemma tags_ok: "[] \<notin> set (take n (uniq (filter (\<lambda>t. t \<noteq> []) ts)))"
proof
  assume "[] \<in> set (take n (uniq (filter (\<lambda>t. t \<noteq> []) ts)))"
  from in_set_takeD [OF this] show False by simp
qed

lemma normalize_ok:
  assumes "normalize probes inp m = Inr m'"
  shows "monitor_ok m'" "mo_id m' = mo_id m" "mo_status m' = mo_status m"
proof -
  obtain pt where pt: "probes (mi_type inp) = Some pt" using assms by (auto simp: normalize_def split: option.splits)
  have name: "trim (mi_name inp) \<noteq> []" using assms by (auto simp: normalize_def pt split: if_splits)
  have "pt_validate pt (config_of pt (mi_config inp)) = None"
    using assms by (auto simp: normalize_def pt name Let_def split: option.splits)
  note m' = assms [unfolded normalize_def pt option.case if_not_P [OF name] Let_def this sum.inject, symmetric]
  note tags_ok [of 20 "map trim (mi_tags inp)"]
  moreover have "distinct (take 20 (uniq (filter (\<lambda>t. t \<noteq> []) (map trim (mi_tags inp)))))"
    by (intro distinct_take distinct_uniq)
  moreover have sel: "mo_name m' = trim (mi_name inp)" "mo_tags m' = take 20 (uniq (filter (\<lambda>t. t \<noteq> []) (map trim (mi_tags inp))))"
    "mo_intervalSec m' = clampInt (mi_intervalSec inp) MONITOR_MIN_INTERVAL_SEC 86400 60"
    "mo_retryIntervalSec m' = clampInt (mi_retryIntervalSec inp) MONITOR_MIN_INTERVAL_SEC 86400 60"
    "mo_timeoutSec m' = clampInt (mi_timeoutSec inp) 1 300 10" "mo_retries m' = clampInt (mi_retries inp) 0 10 1"
    "mo_resendEveryN m' = clampInt (mi_resendEveryN inp) 0 1000 0" "mo_description m' \<noteq> Some []"
    unfolding m' by simp_all
  moreover have "length (mo_tags m') \<le> 20" unfolding sel by simp
  ultimately show "monitor_ok m'"
    unfolding monitor_ok_def sel
    using name clampInt_bounds [of MONITOR_MIN_INTERVAL_SEC 60 86400 "mi_intervalSec inp"]
      clampInt_bounds [of MONITOR_MIN_INTERVAL_SEC 60 86400 "mi_retryIntervalSec inp"]
      clampInt_bounds [of 1 10 300 "mi_timeoutSec inp"] clampInt_bounds [of 0 1 10 "mi_retries inp"]
      clampInt_bounds [of 0 0 1000 "mi_resendEveryN inp"]
    by (intro conjI) (simp_all only: MONITOR_MIN_INTERVAL_SEC_def numeral_le_iff, simp_all)
  show "mo_id m' = mo_id m" "mo_status m' = mo_status m" by (simp_all add: m')
qed

lemma rows_ok_update:
  "rows_ok st \<Longrightarrow> (\<And>m. monitor_ok m \<Longrightarrow> monitor_ok (f m)) \<Longrightarrow> list_all monitor_ok (rows_update P f (sd_rows st))"
  by (auto simp: rows_ok_def list_all_iff in_rows_update)

lemma invalidate_rows [simp]: "sd_rows (invalidate i st) = sd_rows st"
  by (simp add: invalidate_def Let_def)

lemma monitor_ok_status [simp]:
  "monitor_ok (m\<lparr>mo_status := s\<rparr>) = monitor_ok m"
  "monitor_ok (m\<lparr>mo_enabled := e, mo_status := s, mo_lastChangeAt := t\<rparr>) = monitor_ok m"
  "monitor_ok (checked s imp msg result cert now m) = monitor_ok m"
  by (simp_all add: monitor_ok_def checked_def Let_def)

text \<open>The writes, and what a check does to the rows.\<close>

datatype mon_write =
    Create string monitor_input
  | Update string monitor_input
  | Set_enabled string bool time
  | Remove string
  | Check_answer nat probe_result time

fun mon_step :: "(string \<Rightarrow> probe_type option) \<Rightarrow> probe_env \<Rightarrow> mon_write \<Rightarrow> scheduler \<Rightarrow> scheduler" where
  "mon_step probes env (Create i inp) st = snd (monitor_create probes i inp st)"
| "mon_step probes env (Update i inp) st = snd (monitor_update probes i inp st)"
| "mon_step probes env (Set_enabled i b now) st = snd (setEnabled i b now st)"
| "mon_step probes env (Remove i) st = snd (monitor_remove i st)"
| "mon_step probes env (Check_answer r result now) st = finish_check env r result now st"

lemma finish_rows:
  "sd_rows (finish_check env r result now st) = sd_rows st \<or>
   (\<exists>P s imp msg cert. sd_rows (finish_check env r result now st) = rows_update P (checked s imp msg result cert now) (sd_rows st))"
proof (cases "list_ex (\<lambda>x. mo_id x = mo_id (obj st r)) (sd_rows st)")
  case True
  define out where "out = next_status (mo_retries (obj st r)) (mo_status (obj st r))
    (map_get (sd_retriesLeft st) (mo_id (obj st r))) (check_ok (obj st r) result)"
  have "sd_rows (finish_check env r result now st) =
      sd_rows (record_check env r (fst out) result now (keep_retries (mo_id (obj st r)) (snd out) st))"
    using True by (simp add: finish_check_def Let_def out_def)
  also have "\<dots> = rows_update (\<lambda>x. mo_id x = mo_id (obj st r)) (checked (fst out) (fst out \<noteq> mo_status (obj st r))
      (check_message (obj st r) result) result (check_cert (obj st r) result) now) (sd_rows st)"
    by (simp add: record_check_def Let_def keep_retries_def split: option.split)
  finally show ?thesis by blast
next
  case False
  then show ?thesis by (simp add: finish_check_def Let_def)
qed

lemma finish_rows_ok: "rows_ok st \<Longrightarrow> rows_ok (finish_check env r result now st)"
  using finish_rows [of env r result now st] rows_ok_update [of st] by (auto simp: rows_ok_def)

lemma mon_step_ok: "rows_ok st \<Longrightarrow> rows_ok (mon_step probes env w st)"
proof (cases w)
  case (Create i inp)
  assume "rows_ok st"
  then show ?thesis
    using Create normalize_ok(1) [of probes inp "blank_monitor i"]
    by (auto simp: monitor_create_def rows_ok_def Let_def split: sum.split)
next
  case (Update i inp)
  assume "rows_ok st"
  then show ?thesis
    using Update normalize_ok(1) [of probes inp]
    by (auto simp: monitor_update_def Let_def rows_ok_def list_all_iff in_rows_update split: sum.split option.split if_splits)
next
  case (Set_enabled i b now)
  assume "rows_ok st"
  then show ?thesis
    using Set_enabled rows_ok_update [of st] by (simp add: setEnabled_def rows_ok_def split: option.split)
next
  case (Remove i)
  assume "rows_ok st"
  then show ?thesis using Remove by (auto simp: monitor_remove_def rows_ok_def list_all_iff split: option.split)
next
  case (Check_answer r result now)
  assume "rows_ok st"
  then show ?thesis using Check_answer finish_rows_ok by simp
qed

text \<open>
  C30: Whatever the writes ask for and the checks answer, every monitor the table ever holds has a name, an
  interval and a retry interval of 20 seconds to a day, a time limit of 1 to 300 seconds, at most 10 retries,
  at most 20 distinct non-empty tags, and so on.
\<close>

theorem monitors_stay_in_bounds:
  "list_all monitor_ok (sd_rows (fold (mon_step probes env) ws (boot [])))"
proof -
  have "rows_ok (fold (mon_step probes env) ws st)" if "rows_ok st" for st
    using that by (induction ws arbitrary: st) (simp_all add: mon_step_ok)
  then show ?thesis by (simp add: rows_ok_def boot_def)
qed

end
