(* ===== verification/Stream_Mux.thy ===== *)
theory Stream_Mux
  imports Cerebro_Prelude "HOL-Library.Word"
begin

text \<open>
  The stream multiplexer of an agent connection, \<^verbatim>\<open>fabric/stream-mux.ts\<close>, with the inbound framing of
  \<^verbatim>\<open>AgentRegistryService.handleAgentData\<close>. A tunnel is an object that its consumer keeps after the
  multiplexer has forgotten it: objects and promises are the entries of lists, named by their index.
  What a consumer's handlers were called with is recorded; the calls the handlers make in turn are
  further events.
\<close>

section \<open>State\<close>

type_synonym bytes = "8 word list"

datatype frame =
    Open_stream int string int
  | Close_frame int
  | Binary bytes

record tunnel =
  tu_id :: int
  tu_closed :: bool
  tu_hasData :: bool
  tu_hasClose :: bool
  tu_closedBefore :: bool
  tu_pre :: "bytes list"
  tu_data :: "bytes list"
  tu_closes :: nat

datatype dial_outcome = Waiting | Resolved nat | Rejected string

record dial =
  op_id :: int
  op_timer :: bool
  op_outcome :: dial_outcome

record mux =
  mx_streams :: "(int, nat) jsmap"
  mx_pending :: "(int, nat) jsmap"
  mx_nextId :: int
  mx_disposed :: bool
  mx_tunnels :: "tunnel list"
  mx_openings :: "dial list"
  mx_sent :: "frame list"

record control =
  ct_t :: string
  ct_streamId :: "int option"
  ct_error :: "string option"

definition new_mux :: mux where
  "new_mux = \<lparr>mx_streams = [], mx_pending = [], mx_nextId = 1, mx_disposed = False, mx_tunnels = [], mx_openings = [],
     mx_sent = []\<rparr>"

text \<open>An update of the \<open>i\<close>-th entry, if there is one.\<close>

definition at_index :: "nat \<Rightarrow> ('a \<Rightarrow> 'a) \<Rightarrow> 'a list \<Rightarrow> 'a list" where
  "at_index i f xs = (if i < length xs then xs[i := f (xs ! i)] else xs)"

definition on_tunnel :: "nat \<Rightarrow> (tunnel \<Rightarrow> tunnel) \<Rightarrow> mux \<Rightarrow> mux" where
  "on_tunnel r f st = st\<lparr>mx_tunnels := at_index r f (mx_tunnels st)\<rparr>"

text \<open>A promise keeps its first outcome; settling clears the timer.\<close>

definition settle :: "nat \<Rightarrow> dial_outcome \<Rightarrow> mux \<Rightarrow> mux" where
  "settle p r st = st\<lparr>mx_openings := at_index p (\<lambda>o'. o'\<lparr>op_timer := False,
     op_outcome := (if op_outcome o' = Waiting then r else op_outcome o')\<rparr>) (mx_openings st)\<rparr>"

definition send :: "frame \<Rightarrow> mux \<Rightarrow> mux" where
  "send f st = st\<lparr>mx_sent := mx_sent st @ [f]\<rparr>"

section \<open>Tunnels\<close>

definition new_tunnel :: "int \<Rightarrow> tunnel" where
  "new_tunnel i = \<lparr>tu_id = i, tu_closed = False, tu_hasData = False, tu_hasClose = False, tu_closedBefore = False, tu_pre = [],
     tu_data = [], tu_closes = 0\<rparr>"

text \<open>\<^verbatim>\<open>set onData\<close>: bytes that came before are handed over in order.\<close>

definition set_onData :: "bool \<Rightarrow> tunnel \<Rightarrow> tunnel" where
  "set_onData fn t =
     (let t1 = t\<lparr>tu_hasData := fn\<rparr>
      in if fn \<and> tu_pre t1 \<noteq> [] then t1\<lparr>tu_pre := [], tu_data := tu_data t1 @ tu_pre t1\<rparr> else t1)"

definition set_onClose :: "bool \<Rightarrow> tunnel \<Rightarrow> tunnel" where
  "set_onClose fn t =
     (let t1 = t\<lparr>tu_hasClose := fn\<rparr>
      in if fn \<and> tu_closedBefore t1 then t1\<lparr>tu_closedBefore := False, tu_closes := Suc (tu_closes t1)\<rparr> else t1)"

definition peerClosed :: "tunnel \<Rightarrow> tunnel" where
  "peerClosed t =
     (if tu_closed t then t
      else let t1 = t\<lparr>tu_closed := True\<rparr>
           in if tu_hasClose t1 then t1\<lparr>tu_closes := Suc (tu_closes t1)\<rparr> else t1\<lparr>tu_closedBefore := True\<rparr>)"

definition deliver :: "bytes \<Rightarrow> tunnel \<Rightarrow> tunnel" where
  "deliver b t = (if tu_hasData t then t\<lparr>tu_data := tu_data t @ [b]\<rparr> else t\<lparr>tu_pre := tu_pre t @ [b]\<rparr>)"

section \<open>Frames\<close>

text \<open>\<^verbatim>\<open>writeUInt32BE(streamId >>> 0)\<close> before the payload.\<close>

definition header :: "int \<Rightarrow> bytes" where
  "header i = (let n = i mod 2 ^ 32
     in [word_of_int (n div 2 ^ 24), word_of_int (n div 2 ^ 16), word_of_int (n div 2 ^ 8), word_of_int n])"

definition readUInt32BE :: "bytes \<Rightarrow> int" where
  "readUInt32BE b = (if length b < 4 then 0
     else uint (b ! 0) * 2 ^ 24 + uint (b ! 1) * 2 ^ 16 + uint (b ! 2) * 2 ^ 8 + uint (b ! 3))"

definition sendData :: "int \<Rightarrow> bytes \<Rightarrow> mux \<Rightarrow> mux" where
  "sendData i payload st = send (Binary (header i @ payload)) st"

section \<open>The multiplexer\<close>

definition openStream :: "string \<Rightarrow> int \<Rightarrow> mux \<Rightarrow> mux" where
  "openStream host port st =
     (if mx_disposed st
      then st\<lparr>mx_openings := mx_openings st @ [\<lparr>op_id = 0, op_timer = False, op_outcome = Rejected ''agent disconnected''\<rparr>]\<rparr>
      else
        (let streamId = mx_nextId st;
             next1 = mx_nextId st + 1
         in send (Open_stream streamId host port)
              (st\<lparr>mx_nextId := (if next1 > 0xffffffff then 1 else next1),
                  mx_pending := map_set (mx_pending st) streamId (length (mx_openings st)),
                  mx_openings := mx_openings st @ [\<lparr>op_id = streamId, op_timer = True, op_outcome = Waiting\<rparr>]\<rparr>)))"

text \<open>The timer of the \<open>p\<close>-th opening.\<close>

definition open_timeout :: "nat \<Rightarrow> mux \<Rightarrow> mux" where
  "open_timeout p st =
     (if p < length (mx_openings st) \<and> op_timer (mx_openings st ! p)
      then (let i = op_id (mx_openings st ! p)
            in settle p (Rejected ''tunnel open timed out'')
                 (send (Close_frame i) (st\<lparr>mx_pending := map_del (mx_pending st) i\<rparr>)))
      else st)"

definition drop_stream :: "int \<Rightarrow> mux \<Rightarrow> mux" where
  "drop_stream i st =
     (case map_get (mx_streams st) i of
        None \<Rightarrow> st
      | Some r \<Rightarrow> on_tunnel r peerClosed (st\<lparr>mx_streams := map_del (mx_streams st) i\<rparr>))"

definition reject_pending :: "int \<Rightarrow> nat \<Rightarrow> string \<Rightarrow> mux \<Rightarrow> mux" where
  "reject_pending i p msg st = settle p (Rejected msg) (st\<lparr>mx_pending := map_del (mx_pending st) i\<rparr>)"

definition handleControl :: "control \<Rightarrow> mux \<Rightarrow> mux" where
  "handleControl frame st =
     (case ct_streamId frame of
        None \<Rightarrow> st
      | Some i \<Rightarrow>
          if ct_t frame = ''stream-opened'' then
            (case map_get (mx_pending st) i of
               None \<Rightarrow> st
             | Some p \<Rightarrow>
                 (let r = length (mx_tunnels st)
                  in settle p (Resolved r)
                       (st\<lparr>mx_pending := map_del (mx_pending st) i, mx_tunnels := mx_tunnels st @ [new_tunnel i],
                           mx_streams := map_set (mx_streams st) i r\<rparr>)))
          else if ct_t frame = ''stream-error'' then
            (case map_get (mx_pending st) i of
               Some p \<Rightarrow>
                 reject_pending i p (case ct_error frame of None \<Rightarrow> ''tunnel open failed'' | Some e \<Rightarrow>
                   if e = [] then ''tunnel open failed'' else e) st
             | None \<Rightarrow> drop_stream i st)
          else if ct_t frame = ''close-stream'' then
            drop_stream i
              (case map_get (mx_pending st) i of
                 Some p \<Rightarrow> reject_pending i p ''tunnel closed by agent'' st
               | None \<Rightarrow> st)
          else st)"

definition handleData :: "int \<Rightarrow> bytes \<Rightarrow> mux \<Rightarrow> mux" where
  "handleData i payload st = (case map_get (mx_streams st) i of None \<Rightarrow> st | Some r \<Rightarrow> on_tunnel r (deliver payload) st)"

definition handleAgentData :: "bytes \<Rightarrow> mux \<Rightarrow> mux" where
  "handleAgentData data st = (if length data < 4 then st else handleData (readUInt32BE data) (drop 4 data) st)"

definition closeLocal :: "int \<Rightarrow> bool \<Rightarrow> mux \<Rightarrow> mux" where
  "closeLocal i notifyPeer st =
     (let st1 = st\<lparr>mx_streams := map_del (mx_streams st) i\<rparr> in if notifyPeer then send (Close_frame i) st1 else st1)"

definition tunnel_write :: "nat \<Rightarrow> bytes \<Rightarrow> mux \<Rightarrow> mux" where
  "tunnel_write r b st =
     (if r < length (mx_tunnels st) \<and> \<not> tu_closed (mx_tunnels st ! r) then sendData (tu_id (mx_tunnels st ! r)) b st else st)"

definition tunnel_close :: "nat \<Rightarrow> mux \<Rightarrow> mux" where
  "tunnel_close r st =
     (if r < length (mx_tunnels st) \<and> \<not> tu_closed (mx_tunnels st ! r)
      then closeLocal (tu_id (mx_tunnels st ! r)) True (on_tunnel r (\<lambda>t. t\<lparr>tu_closed := True\<rparr>) st) else st)"

definition dispose :: "mux \<Rightarrow> mux" where
  "dispose st =
     (let st1 = fold (\<lambda>p s. settle p (Rejected ''agent disconnected'') s) (map_vals (mx_pending st)) (st\<lparr>mx_disposed := True\<rparr>);
          st2 = fold (\<lambda>r s. on_tunnel r peerClosed s) (map_vals (mx_streams st1)) (st1\<lparr>mx_pending := []\<rparr>)
      in st2\<lparr>mx_streams := []\<rparr>)"

datatype mux_event =
    Mx_open string int
  | Mx_timeout nat
  | Mx_control control
  | Mx_data bytes
  | Mx_onData nat bool
  | Mx_onClose nat bool
  | Mx_write nat bytes
  | Mx_close nat
  | Mx_dispose

primrec mux_step :: "mux \<Rightarrow> mux_event \<Rightarrow> mux" where
  "mux_step st (Mx_open host port) = openStream host port st"
| "mux_step st (Mx_timeout p) = open_timeout p st"
| "mux_step st (Mx_control f) = handleControl f st"
| "mux_step st (Mx_data b) = handleAgentData b st"
| "mux_step st (Mx_onData r fn) = on_tunnel r (set_onData fn) st"
| "mux_step st (Mx_onClose r fn) = on_tunnel r (set_onClose fn) st"
| "mux_step st (Mx_write r b) = tunnel_write r b st"
| "mux_step st (Mx_close r) = tunnel_close r st"
| "mux_step st Mx_dispose = dispose st"

section \<open>Framing\<close>

lemma header_bytes: "length (header i) = 4"
  by (simp add: header_def Let_def)

lemma uint_byte: "uint (word_of_int n :: 8 word) = n mod 256"
  by (simp add: uint_word_of_int)

lemma read_header: "readUInt32BE (header i @ payload) = i mod 2 ^ 32"
proof -
  define n :: int where "n = i mod 4294967296"
  define a b c where "a = n div 256" and "b = a div 256" and "c = b div 256"
  have n: "0 \<le> n" "n < 4294967296" by (simp_all add: n_def)
  have divs: "n div 65536 = b" "n div 16777216 = c"
    by (simp_all add: a_def b_def c_def div_mult2_eq [symmetric] zdiv_zmult2_eq [symmetric])
  have "n = 256 * a + n mod 256" "a = 256 * b + a mod 256" "b = 256 * c + b mod 256" by (simp_all add: a_def b_def c_def)
  moreover have "0 \<le> c" "c < 256" using n by (simp_all add: divs(2) [symmetric])
  then have "c mod 256 = c" by simp
  ultimately have "c mod 256 * 16777216 + b mod 256 * 65536 + a mod 256 * 256 + n mod 256 = n" by linarith
  then show ?thesis
    by (simp add: readUInt32BE_def header_def Let_def uint_byte n_def [symmetric] divs a_def [symmetric])
qed

section \<open>No byte is lost\<close>

definition bytes_of :: "nat \<Rightarrow> mux \<Rightarrow> bytes list" where
  "bytes_of r st = (if r < length (mx_tunnels st) then tu_data (mx_tunnels st ! r) @ tu_pre (mx_tunnels st ! r) else [])"

text \<open>The payloads an event brings for a tunnel that is open at that time.\<close>

definition payload :: "nat \<Rightarrow> mux \<Rightarrow> mux_event \<Rightarrow> bytes list" where
  "payload r st e =
     (case e of
        Mx_data b \<Rightarrow> if 4 \<le> length b \<and> map_get (mx_streams st) (readUInt32BE b) = Some r then [drop 4 b] else []
      | _ \<Rightarrow> [])"

fun received :: "nat \<Rightarrow> mux \<Rightarrow> mux_event list \<Rightarrow> bytes list" where
  "received r st [] = []"
| "received r st (e # es) = payload r st e @ received r (mux_step st e) es"

definition flushed :: "tunnel \<Rightarrow> bool" where
  "flushed t \<longleftrightarrow> (tu_hasData t \<longrightarrow> tu_pre t = [])"

definition refs_ok :: "mux \<Rightarrow> bool" where
  "refs_ok st \<longleftrightarrow> (\<forall>(i, r) \<in> set (mx_streams st). r < length (mx_tunnels st)) \<and> list_all flushed (mx_tunnels st)"

lemma length_at_index [simp]: "length (at_index i f xs) = length xs"
  by (simp add: at_index_def)

lemma nth_at_index: "j < length xs \<Longrightarrow> at_index i f xs ! j = (if j = i then f (xs ! j) else xs ! j)"
  by (simp add: at_index_def)

lemma list_all_at_index: "list_all P xs \<Longrightarrow> (\<And>x. P x \<Longrightarrow> P (f x)) \<Longrightarrow> list_all P (at_index i f xs)"
  by (auto simp: list_all_length nth_at_index)

lemma set_map_set: "set (map_set m k v) \<subseteq> insert (k, v) (set m)"
  unfolding map_set_def by (induction m) (auto split: if_splits)

lemma set_map_del: "set (map_del m k) \<subseteq> set m"
  by (auto simp: map_del_def AList.delete_eq)

lemma flushed_tunnel_ops:
  "flushed (new_tunnel i)" "flushed t \<Longrightarrow> flushed (set_onData fn t)" "flushed t \<Longrightarrow> flushed (set_onClose fn t)"
  "flushed t \<Longrightarrow> flushed (peerClosed t)" "flushed t \<Longrightarrow> flushed (deliver b t)" "flushed t \<Longrightarrow> flushed (t\<lparr>tu_closed := c\<rparr>)"
  by (auto simp: flushed_def new_tunnel_def set_onData_def set_onClose_def peerClosed_def deliver_def Let_def)

text \<open>What a tunnel holds, as its operations change it.\<close>

definition held :: "tunnel \<Rightarrow> bytes list" where "held t = tu_data t @ tu_pre t"

lemma held_tunnel_ops:
  "held (new_tunnel i) = []" "held (set_onData fn t) = held t" "held (set_onClose fn t) = held t"
  "held (peerClosed t) = held t" "held (t\<lparr>tu_closed := c\<rparr>) = held t" "flushed t \<Longrightarrow> held (deliver b t) = held t @ [b]"
  by (auto simp: held_def flushed_def new_tunnel_def set_onData_def set_onClose_def peerClosed_def deliver_def Let_def)

text \<open>An operation that leaves the bytes of every tunnel alone.\<close>

definition same_bytes :: "mux \<Rightarrow> mux \<Rightarrow> bool" where
  "same_bytes st st' \<longleftrightarrow> refs_ok st' \<and> (\<forall>r. bytes_of r st' = bytes_of r st)"

lemma same_bytes_trans: "same_bytes a b \<Longrightarrow> same_bytes b c \<Longrightarrow> same_bytes a c"
  by (simp add: same_bytes_def)

lemma same_bytes_refl: "refs_ok st \<Longrightarrow> same_bytes st st"
  by (simp add: same_bytes_def)

lemma same_bytes_tunnel:
  assumes "refs_ok st" and "\<And>t. flushed t \<Longrightarrow> flushed (f t)" and "\<And>t. held (f t) = held t"
  shows "same_bytes st (on_tunnel r f st)"
proof -
  have "refs_ok (on_tunnel r f st)"
    using assms(1,2) by (auto simp: refs_ok_def on_tunnel_def intro!: list_all_at_index)
  moreover have "bytes_of r' (on_tunnel r f st) = bytes_of r' st" for r'
    using assms(3) by (simp add: bytes_of_def on_tunnel_def nth_at_index held_def)
  ultimately show ?thesis by (simp add: same_bytes_def)
qed

lemma same_bytes_fields:
  assumes "refs_ok st" and "mx_tunnels st' = mx_tunnels st" and "set (mx_streams st') \<subseteq> set (mx_streams st)"
  shows "same_bytes st st'"
  using assms by (auto simp: same_bytes_def refs_ok_def bytes_of_def)

lemma same_bytes_drop: "refs_ok st \<Longrightarrow> same_bytes st (drop_stream i st)"
proof (cases "map_get (mx_streams st) i")
  case (Some r)
  assume ok: "refs_ok st"
  have "same_bytes st (st\<lparr>mx_streams := map_del (mx_streams st) i\<rparr>)"
    using ok set_map_del [of "mx_streams st" i] by (intro same_bytes_fields) auto
  moreover from this have "same_bytes (st\<lparr>mx_streams := map_del (mx_streams st) i\<rparr>)
      (on_tunnel r peerClosed (st\<lparr>mx_streams := map_del (mx_streams st) i\<rparr>))"
    by (intro same_bytes_tunnel) (auto simp: same_bytes_def flushed_tunnel_ops held_tunnel_ops)
  ultimately show ?thesis using Some by (simp add: drop_stream_def) (rule same_bytes_trans)
qed (simp add: drop_stream_def same_bytes_refl)

lemma settle_fields [simp]:
  "mx_tunnels (settle p r st) = mx_tunnels st" "mx_streams (settle p r st) = mx_streams st"
  "mx_pending (settle p r st) = mx_pending st" "mx_sent (settle p r st) = mx_sent st"
  "mx_nextId (settle p r st) = mx_nextId st" "mx_disposed (settle p r st) = mx_disposed st"
  by (simp_all add: settle_def)

lemma send_fields [simp]:
  "mx_tunnels (send f st) = mx_tunnels st" "mx_streams (send f st) = mx_streams st"
  "mx_pending (send f st) = mx_pending st" "mx_openings (send f st) = mx_openings st"
  "mx_nextId (send f st) = mx_nextId st" "mx_disposed (send f st) = mx_disposed st"
  by (simp_all add: send_def)

lemma fold_settle_fields [simp]:
  "mx_tunnels (fold (\<lambda>p s. settle p r s) ps st) = mx_tunnels st"
  "mx_streams (fold (\<lambda>p s. settle p r s) ps st) = mx_streams st"
  by (induction ps arbitrary: st) simp_all

lemma same_bytes_reject: "refs_ok st \<Longrightarrow> same_bytes st (reject_pending i p msg st)"
  by (rule same_bytes_fields) (simp_all add: reject_pending_def)

lemma same_bytes_opened:
  assumes "refs_ok st"
  shows "same_bytes st (settle p (Resolved (length (mx_tunnels st)))
    (st\<lparr>mx_pending := pend, mx_tunnels := mx_tunnels st @ [new_tunnel i],
        mx_streams := map_set (mx_streams st) i (length (mx_tunnels st))\<rparr>))"
proof -
  have "refs_ok (st\<lparr>mx_pending := pend, mx_tunnels := mx_tunnels st @ [new_tunnel i],
        mx_streams := map_set (mx_streams st) i (length (mx_tunnels st))\<rparr>)"
    using assms set_map_set [of "mx_streams st" i "length (mx_tunnels st)"]
    by (fastforce simp: refs_ok_def flushed_tunnel_ops)
  then show ?thesis
    by (auto simp: same_bytes_def bytes_of_def refs_ok_def nth_append new_tunnel_def)
qed

lemma same_bytes_control: "refs_ok st \<Longrightarrow> same_bytes st (handleControl f st)"
proof -
  assume ok: "refs_ok st"
  have rej: "same_bytes st (drop_stream i (reject_pending i p msg st))" for i p msg
    using same_bytes_reject [OF ok] same_bytes_drop same_bytes_trans by (meson same_bytes_def)
  show ?thesis
    using ok same_bytes_refl [OF ok] same_bytes_reject [OF ok] same_bytes_drop [OF ok] same_bytes_opened [OF ok] rej
    by (auto simp: handleControl_def Let_def split: option.splits)
qed

lemma same_bytes_dispose: "refs_ok st \<Longrightarrow> same_bytes st (dispose st)"
proof -
  assume ok: "refs_ok st"
  have closes: "same_bytes s (fold (\<lambda>r s. on_tunnel r peerClosed s) rs s)" if "refs_ok s" for rs s
    using that
  proof (induction rs arbitrary: s)
    case (Cons r rs)
    have "same_bytes s (on_tunnel r peerClosed s)"
      using Cons.prems by (intro same_bytes_tunnel) (auto simp: flushed_tunnel_ops held_tunnel_ops)
    then show ?case using Cons.IH same_bytes_trans by (auto simp: same_bytes_def)
  qed (simp add: same_bytes_refl)
  let ?st1 = "fold (\<lambda>p s. settle p (Rejected ''agent disconnected'') s) (map_vals (mx_pending st)) (st\<lparr>mx_disposed := True\<rparr>)"
  have "same_bytes st (?st1\<lparr>mx_pending := []\<rparr>)" using ok by (intro same_bytes_fields) simp_all
  then have "same_bytes st (fold (\<lambda>r s. on_tunnel r peerClosed s) (map_vals (mx_streams ?st1)) (?st1\<lparr>mx_pending := []\<rparr>))" (is "same_bytes st ?st2")
    using closes same_bytes_trans by (meson same_bytes_def)
  moreover from this have "same_bytes ?st2 (?st2\<lparr>mx_streams := []\<rparr>)"
    by (intro same_bytes_fields) (auto simp: same_bytes_def)
  ultimately show ?thesis unfolding dispose_def Let_def by (rule same_bytes_trans)
qed

lemma step_bytes:
  assumes ok: "refs_ok st"
  shows "refs_ok (mux_step st e) \<and> bytes_of r (mux_step st e) = bytes_of r st @ payload r st e"
proof -
  have same: "refs_ok (mux_step st e) \<and> bytes_of r (mux_step st e) = bytes_of r st @ payload r st e"
    if "same_bytes st (mux_step st e)" and "\<not> (\<exists>b. e = Mx_data b)"
    using that by (cases e) (auto simp: same_bytes_def payload_def)
  show ?thesis
  proof (cases e)
    case (Mx_data b)
    show ?thesis
    proof (cases "4 \<le> length b \<and> map_get (mx_streams st) (readUInt32BE b) \<noteq> None")
      case True
      then obtain q where q: "map_get (mx_streams st) (readUInt32BE b) = Some q" "4 \<le> length b" by auto
      have lt: "q < length (mx_tunnels st)" using ok map_get_in_set [OF q(1)] by (auto simp: refs_ok_def)
      have fl: "flushed (mx_tunnels st ! q)" using ok lt by (simp add: refs_ok_def list_all_length)
      have "refs_ok (on_tunnel q (deliver (drop 4 b)) st)"
        using ok by (auto simp: refs_ok_def on_tunnel_def flushed_tunnel_ops intro!: list_all_at_index)
      then show ?thesis
        using q lt held_tunnel_ops(6) [OF fl, of "drop 4 b"]
        by (cases "q = r")
          (simp_all add: Mx_data handleAgentData_def handleData_def payload_def bytes_of_def on_tunnel_def nth_at_index held_def not_less)
    next
      case False
      then show ?thesis
        using ok by (auto simp: Mx_data handleAgentData_def handleData_def payload_def split: option.splits)
    qed
  next
    case (Mx_open host port)
    show ?thesis
      by (rule same) (use ok in \<open>auto simp: Mx_open openStream_def Let_def intro!: same_bytes_fields\<close>)
  next
    case (Mx_timeout p)
    show ?thesis
      by (rule same) (use ok same_bytes_refl [OF ok] in \<open>auto simp: Mx_timeout open_timeout_def Let_def intro!: same_bytes_fields\<close>)
  next
    case (Mx_control f)
    show ?thesis by (rule same) (use ok in \<open>auto simp: Mx_control same_bytes_control\<close>)
  next
    case (Mx_onData q fn)
    show ?thesis
      by (rule same) (use ok in \<open>auto simp: Mx_onData flushed_tunnel_ops held_tunnel_ops intro!: same_bytes_tunnel\<close>)
  next
    case (Mx_onClose q fn)
    show ?thesis
      by (rule same) (use ok in \<open>auto simp: Mx_onClose flushed_tunnel_ops held_tunnel_ops intro!: same_bytes_tunnel\<close>)
  next
    case (Mx_write q b)
    show ?thesis
      by (rule same) (use ok same_bytes_refl [OF ok] in
        \<open>auto simp: Mx_write tunnel_write_def sendData_def intro!: same_bytes_fields\<close>)
  next
    case (Mx_close q)
    have one: "same_bytes st (on_tunnel q (\<lambda>t. t\<lparr>tu_closed := True\<rparr>) st)"
      using ok by (intro same_bytes_tunnel) (auto simp: flushed_tunnel_ops held_tunnel_ops)
    have "same_bytes st (closeLocal i True (on_tunnel q (\<lambda>t. t\<lparr>tu_closed := True\<rparr>) st))" for i
      by (rule same_bytes_trans [OF one], rule same_bytes_fields)
        (use one in \<open>auto simp: same_bytes_def closeLocal_def Let_def dest: set_map_del [THEN subsetD]\<close>)
    then show ?thesis
      by (intro same) (use same_bytes_refl [OF ok] in \<open>auto simp: Mx_close tunnel_close_def\<close>)
  next
    case Mx_dispose
    show ?thesis by (rule same) (use ok in \<open>auto simp: Mx_dispose same_bytes_dispose\<close>)
  qed
qed

lemma run_bytes: "refs_ok st \<Longrightarrow> bytes_of r (foldl mux_step st es) = bytes_of r st @ received r st es"
  by (induction es arbitrary: st) (auto simp: step_bytes)

interpretation wires: event_machine mux_step refs_ok
  by unfold_locales (simp add: step_bytes)

lemma new_mux_refs: "refs_ok new_mux"
  by (simp add: refs_ok_def new_mux_def)

text \<open>
  C16: No byte is lost or reordered. For every tunnel of a connection, what its consumer was given
  followed by what waits for a consumer is exactly the sequence of payloads that arrived for it while
  it was open, whatever else happened; and nothing waits once a consumer is attached.
\<close>

theorem tunnel_bytes_in_order:
  assumes "r < length (mx_tunnels (foldl mux_step new_mux es))"
  shows "tu_data (mx_tunnels (foldl mux_step new_mux es) ! r) @ tu_pre (mx_tunnels (foldl mux_step new_mux es) ! r) =
      received r new_mux es \<and>
    (tu_hasData (mx_tunnels (foldl mux_step new_mux es) ! r) \<longrightarrow> tu_pre (mx_tunnels (foldl mux_step new_mux es) ! r) = [])"
proof -
  have "bytes_of r new_mux = []" by (simp add: bytes_of_def new_mux_def)
  then have "bytes_of r (foldl mux_step new_mux es) = received r new_mux es"
    using run_bytes [OF new_mux_refs, of r es] by simp
  moreover have "flushed (mx_tunnels (foldl mux_step new_mux es) ! r)"
    using wires.inv_run [OF new_mux_refs, of es] assms by (simp add: refs_ok_def list_all_length)
  ultimately show ?thesis using assms by (simp add: bytes_of_def flushed_def)
qed

definition opened_frame :: control where
  "opened_frame = \<lparr>ct_t = ''stream-opened'', ct_streamId = Some 1, ct_error = None\<rparr>"

definition demo_wire :: "mux_event list" where
  "demo_wire = [Mx_open ''db'' 5432, Mx_control opened_frame, Mx_data [0, 0, 0, 1, 7], Mx_data [0, 0, 0, 1, 8], Mx_onData 0 True,
     Mx_data [0, 0, 0, 1, 9]]"

lemma demo_wire_run:
  "mx_tunnels (foldl mux_step new_mux demo_wire) =
     [\<lparr>tu_id = 1, tu_closed = False, tu_hasData = True, tu_hasClose = False, tu_closedBefore = False, tu_pre = [],
       tu_data = [[7], [8], [9]], tu_closes = 0\<rparr>]"
  by code_simp

lemma tunnel_bytes_in_order_witness: "received 0 new_mux demo_wire = [[7], [8], [9]]"
  using tunnel_bytes_in_order [of 0 demo_wire] by (simp add: demo_wire_run)

section \<open>A closed stream stays silent\<close>

fun uses :: "int \<Rightarrow> frame \<Rightarrow> bool" where
  "uses i (Open_stream j host port) \<longleftrightarrow> j = i"
| "uses i (Close_frame j) \<longleftrightarrow> j = i"
| "uses i (Binary b) \<longleftrightarrow> readUInt32BE b = i"

definition after_close :: "frame \<Rightarrow> frame \<Rightarrow> bool" where
  "after_close a b \<longleftrightarrow> (\<forall>i. a = Close_frame i \<longrightarrow> \<not> uses i b)"

abbreviation live_stream :: "mux \<Rightarrow> int \<Rightarrow> nat option" where
  "live_stream st \<equiv> map_get (mx_streams st)"

abbreviation dialing :: "mux \<Rightarrow> int \<Rightarrow> nat option" where
  "dialing st \<equiv> map_get (mx_pending st)"

text \<open>The streams of the multiplexer are the open tunnels, its pending requests the unanswered dials.\<close>

definition streams_ok :: "mux \<Rightarrow> bool" where
  "streams_ok st \<longleftrightarrow>
     (\<forall>i r. live_stream st i = Some r \<longrightarrow> r < length (mx_tunnels st) \<and> tu_id (mx_tunnels st ! r) = i \<and> \<not> tu_closed (mx_tunnels st ! r)) \<and>
     (\<forall>r < length (mx_tunnels st). \<not> tu_closed (mx_tunnels st ! r) \<longrightarrow> live_stream st (tu_id (mx_tunnels st ! r)) = Some r) \<and>
     (\<forall>r < length (mx_tunnels st). 1 \<le> tu_id (mx_tunnels st ! r) \<and> tu_id (mx_tunnels st ! r) < mx_nextId st)"

definition dials_ok :: "mux \<Rightarrow> bool" where
  "dials_ok st \<longleftrightarrow>
     (\<forall>i p. dialing st i = Some p \<longrightarrow> p < length (mx_openings st) \<and> op_id (mx_openings st ! p) = i \<and> op_timer (mx_openings st ! p) \<and>
        1 \<le> i \<and> i < mx_nextId st \<and> live_stream st i = None) \<and>
     (\<forall>p < length (mx_openings st). op_timer (mx_openings st ! p) \<longrightarrow> dialing st (op_id (mx_openings st ! p)) = Some p) \<and>
     (\<forall>p < length (mx_openings st). op_outcome (mx_openings st ! p) = Waiting \<longleftrightarrow> op_timer (mx_openings st ! p))"

definition wire_ok :: "mux \<Rightarrow> bool" where
  "wire_ok st \<longleftrightarrow>
     sorted_wrt after_close (mx_sent st) \<and>
     (\<forall>i. Close_frame i \<in> set (mx_sent st) \<longrightarrow> i < mx_nextId st \<and> live_stream st i = None \<and> dialing st i = None) \<and>
     1 \<le> mx_nextId st \<and> mx_nextId st \<le> 0xffffffff"

definition mux_ok :: "mux \<Rightarrow> bool" where
  "mux_ok st \<longleftrightarrow> streams_ok st \<and> dials_ok st \<and> wire_ok st"

text \<open>An event that does not use up the last stream id.\<close>

definition id_left :: "mux \<Rightarrow> mux_event \<Rightarrow> bool" where
  "id_left st e \<longleftrightarrow> ((\<exists>host port. e = Mx_open host port) \<longrightarrow> mx_nextId st < 0xffffffff)"

lemma sent_append:
  "wire_ok st \<Longrightarrow> (\<And>i. Close_frame i \<in> set (mx_sent st) \<Longrightarrow> \<not> uses i f) \<Longrightarrow> sorted_wrt after_close (mx_sent st @ [f])"
  by (auto simp: wire_ok_def sorted_wrt_append after_close_def)

lemma liveD:
  assumes "mux_ok st" and "live_stream st i = Some r"
  shows "r < length (mx_tunnels st)" "tu_id (mx_tunnels st ! r) = i" "\<not> tu_closed (mx_tunnels st ! r)" "1 \<le> i" "i < mx_nextId st"
  using assms unfolding mux_ok_def streams_ok_def by blast+

lemma dialingD:
  assumes "mux_ok st" and "dialing st i = Some p"
  shows "p < length (mx_openings st)" "op_id (mx_openings st ! p) = i" "op_timer (mx_openings st ! p)" "1 \<le> i" "i < mx_nextId st"
    "live_stream st i = None"
  using assms unfolding mux_ok_def dials_ok_def by blast+

lemma closedD:
  assumes "mux_ok st" and "Close_frame i \<in> set (mx_sent st)"
  shows "i < mx_nextId st" "live_stream st i = None" "dialing st i = None"
  using assms unfolding mux_ok_def wire_ok_def by blast+

lemma openD:
  assumes "mux_ok st" and "r < length (mx_tunnels st)" and "\<not> tu_closed (mx_tunnels st ! r)"
  shows "live_stream st (tu_id (mx_tunnels st ! r)) = Some r"
  using assms unfolding mux_ok_def streams_ok_def by blast

lemma tunnel_idD:
  assumes "mux_ok st" and "r < length (mx_tunnels st)"
  shows "1 \<le> tu_id (mx_tunnels st ! r)" "tu_id (mx_tunnels st ! r) < mx_nextId st"
  using assms unfolding mux_ok_def streams_ok_def by blast+

lemma timerD:
  assumes "mux_ok st" and "p < length (mx_openings st)"
  shows "op_timer (mx_openings st ! p) \<Longrightarrow> dialing st (op_id (mx_openings st ! p)) = Some p"
    and "op_outcome (mx_openings st ! p) = Waiting \<longleftrightarrow> op_timer (mx_openings st ! p)"
  using assms unfolding mux_ok_def dials_ok_def by blast+

lemma id_range: "mux_ok st \<Longrightarrow> 1 \<le> mx_nextId st \<and> mx_nextId st \<le> 0xffffffff"
  by (simp add: mux_ok_def wire_ok_def)

lemma mux_okI:
  assumes "\<And>i r. live_stream st i = Some r \<Longrightarrow> r < length (mx_tunnels st) \<and> tu_id (mx_tunnels st ! r) = i \<and> \<not> tu_closed (mx_tunnels st ! r)"
    and "\<And>r. r < length (mx_tunnels st) \<Longrightarrow> \<not> tu_closed (mx_tunnels st ! r) \<Longrightarrow> live_stream st (tu_id (mx_tunnels st ! r)) = Some r"
    and "\<And>r. r < length (mx_tunnels st) \<Longrightarrow> 1 \<le> tu_id (mx_tunnels st ! r) \<and> tu_id (mx_tunnels st ! r) < mx_nextId st"
    and "\<And>i p. dialing st i = Some p \<Longrightarrow> p < length (mx_openings st) \<and> op_id (mx_openings st ! p) = i \<and> op_timer (mx_openings st ! p) \<and>
        1 \<le> i \<and> i < mx_nextId st \<and> live_stream st i = None"
    and "\<And>p. p < length (mx_openings st) \<Longrightarrow> op_timer (mx_openings st ! p) \<Longrightarrow> dialing st (op_id (mx_openings st ! p)) = Some p"
    and "\<And>p. p < length (mx_openings st) \<Longrightarrow> op_outcome (mx_openings st ! p) = Waiting \<longleftrightarrow> op_timer (mx_openings st ! p)"
    and "sorted_wrt after_close (mx_sent st)"
    and "\<And>i. Close_frame i \<in> set (mx_sent st) \<Longrightarrow> i < mx_nextId st \<and> live_stream st i = None \<and> dialing st i = None"
    and "1 \<le> mx_nextId st \<and> mx_nextId st \<le> 0xffffffff"
  shows "mux_ok st"
  using assms unfolding mux_ok_def streams_ok_def dials_ok_def wire_ok_def by blast

text \<open>Steps that touch neither the maps nor the wire, and keep every tunnel's id and state.\<close>

lemma tunnel_op_ok:
  assumes ok: "mux_ok st" and "\<And>t. tu_id (f t) = tu_id t" "\<And>t. tu_closed (f t) = tu_closed t"
  shows "mux_ok (on_tunnel r f st)"
  using ok assms(2,3) unfolding mux_ok_def streams_ok_def dials_ok_def wire_ok_def on_tunnel_def
  by (simp add: nth_at_index)

lemma open_ok:
  assumes ok: "mux_ok st" and lt: "mx_nextId st < 0xffffffff"
  shows "mux_ok (openStream host port st)"
proof (cases "mx_disposed st")
  case True
  let ?st = "openStream host port st"
  have f: "mx_streams ?st = mx_streams st" "mx_pending ?st = mx_pending st" "mx_tunnels ?st = mx_tunnels st" "mx_nextId ?st = mx_nextId st"
    "mx_sent ?st = mx_sent st"
    "mx_openings ?st = mx_openings st @ [\<lparr>op_id = 0, op_timer = False, op_outcome = Rejected ''agent disconnected''\<rparr>]"
    using True by (simp_all add: openStream_def)
  show ?thesis
  proof (rule mux_okI, goal_cases)
    case (1 i r) then show ?case using liveD [OF ok, of i r] by (simp add: f)
  next
    case (2 r) then show ?case using openD [OF ok, of r] by (simp add: f)
  next
    case (3 r) then show ?case using tunnel_idD [OF ok, of r] by (simp add: f)
  next
    case (4 i p) then show ?case using dialingD [OF ok, of i p] by (simp add: f nth_append)
  next
    case (5 p) then show ?case using timerD(1) [OF ok, of p] by (auto simp: f nth_append less_Suc_eq)
  next
    case (6 p) then show ?case using timerD(2) [OF ok, of p] by (auto simp: f nth_append less_Suc_eq)
  next
    case 7 show ?case using ok by (simp add: f mux_ok_def wire_ok_def)
  next
    case (8 i) then show ?case using closedD [OF ok, of i] by (simp add: f)
  next
    case 9 show ?case using id_range [OF ok] by (simp add: f)
  qed
next
  case False
  let ?st = "openStream host port st" and ?n = "mx_nextId st"
  have f: "mx_streams ?st = mx_streams st" "mx_pending ?st = map_set (mx_pending st) ?n (length (mx_openings st))"
    "mx_tunnels ?st = mx_tunnels st" "mx_nextId ?st = ?n + 1" "mx_sent ?st = mx_sent st @ [Open_stream ?n host port]"
    "mx_openings ?st = mx_openings st @ [\<lparr>op_id = ?n, op_timer = True, op_outcome = Waiting\<rparr>]"
    using False lt by (simp_all add: openStream_def Let_def send_def)
  have none: "live_stream st ?n = None" using liveD(5) [OF ok] by (cases "live_stream st ?n") fastforce+
  show ?thesis
  proof (rule mux_okI, goal_cases)
    case (1 i r) then show ?case using liveD [OF ok, of i r] by (simp add: f)
  next
    case (2 r) then show ?case using openD [OF ok, of r] by (simp add: f)
  next
    case (3 r) then show ?case using tunnel_idD [OF ok, of r] by (simp add: f)
  next
    case (4 i p) then show ?case
      using dialingD [OF ok, of i p] none id_range [OF ok] by (cases "i = ?n") (auto simp: f nth_append store_simps)
  next
    case (5 p) then show ?case
      using timerD(1) [OF ok, of p] dialingD(5) [OF ok, of "op_id (mx_openings st ! p)" p]
      by (cases "p = length (mx_openings st)") (auto simp: f nth_append less_Suc_eq store_simps)
  next
    case (6 p) then show ?case using timerD(2) [OF ok, of p] by (auto simp: f nth_append less_Suc_eq)
  next
    case 7 show ?case
      unfolding f using ok closedD(1) [OF ok] by (intro sent_append) (auto simp: mux_ok_def)
  next
    case (8 i) then show ?case using closedD [OF ok, of i] by (auto simp: f store_simps)
  next
    case 9 show ?case using id_range [OF ok] lt by (simp add: f)
  qed
qed

text \<open>Settling a dial that is taken off the pending ones.\<close>

lemma settle_dial:
  assumes ok: "mux_ok st" and p: "dialing st i = Some p" and r: "r \<noteq> Waiting"
  shows "mux_ok (settle p r (st\<lparr>mx_pending := map_del (mx_pending st) i\<rparr>))" (is "mux_ok ?st")
proof (rule mux_okI, goal_cases)
  have op: "mx_openings ?st = at_index p (\<lambda>o'. o'\<lparr>op_timer := False,
     op_outcome := (if op_outcome o' = Waiting then r else op_outcome o')\<rparr>) (mx_openings st)" by (simp add: settle_def)
  {
    case (1 i' q) then show ?case using liveD [OF ok, of i' q] by simp
  next
    case (2 q) then show ?case using openD [OF ok, of q] by simp
  next
    case (3 q) then show ?case using tunnel_idD [OF ok, of q] by simp
  next
    case (4 i' q) then show ?case
      using dialingD [OF ok, of i' q] dialingD(2) [OF ok p] by (auto simp: op nth_at_index store_simps split: if_splits)
  next
    case (5 q) then show ?case
      using timerD(1) [OF ok, of q] p by (auto simp: op nth_at_index store_simps split: if_splits)
  next
    case (6 q) then show ?case
      using timerD(2) [OF ok, of q] r by (auto simp: op nth_at_index split: if_splits)
  next
    case 7 show ?case using ok by (simp add: mux_ok_def wire_ok_def)
  next
    case (8 j) then show ?case using closedD [OF ok, of j] by (auto simp: store_simps)
  next
    case 9 show ?case using id_range [OF ok] by simp
  }
qed

lemma send_ok:
  assumes ok: "mux_ok st" and new: "\<And>i. Close_frame i \<in> set (mx_sent st) \<Longrightarrow> \<not> uses i f"
    and closes: "\<And>i. f = Close_frame i \<Longrightarrow> i < mx_nextId st \<and> live_stream st i = None \<and> dialing st i = None"
  shows "mux_ok (send f st)"
proof (rule mux_okI, goal_cases)
  case (1 i r) then show ?case using liveD [OF ok, of i r] by simp
next
  case (2 r) then show ?case using openD [OF ok, of r] by simp
next
  case (3 r) then show ?case using tunnel_idD [OF ok, of r] by simp
next
  case (4 i p) then show ?case using dialingD [OF ok, of i p] by simp
next
  case (5 p) then show ?case using timerD(1) [OF ok, of p] by simp
next
  case (6 p) then show ?case using timerD(2) [OF ok, of p] by simp
next
  case 7 show ?case using ok new sent_append [of st f] by (simp add: send_def mux_ok_def)
next
  case (8 i)
  then have "Close_frame i \<in> set (mx_sent st) \<or> f = Close_frame i" by (auto simp: send_def)
  then show ?case using closedD [OF ok, of i] closes [of i] by auto
next
  case 9 show ?case using id_range [OF ok] by simp
qed

text \<open>A tunnel that is closed leaves the map of streams.\<close>

lemma unlink_ok:
  assumes ok: "mux_ok st" and i: "live_stream st i = Some r"
    and f: "\<And>t. tu_id (f t) = tu_id t" "\<And>t. \<not> tu_closed t \<Longrightarrow> tu_closed (f t)"
  shows "mux_ok (on_tunnel r f (st\<lparr>mx_streams := map_del (mx_streams st) i\<rparr>))" (is "mux_ok ?st")
proof (rule mux_okI, goal_cases)
  have t: "mx_tunnels ?st = at_index r f (mx_tunnels st)" by (simp add: on_tunnel_def)
  have m: "mx_streams ?st = map_del (mx_streams st) i" "mx_pending ?st = mx_pending st" "mx_openings ?st = mx_openings st"
    "mx_nextId ?st = mx_nextId st" "mx_sent ?st = mx_sent st" by (simp_all add: on_tunnel_def)
  {
    case (1 j q) then show ?case
      using liveD [OF ok, of j q] liveD(2) [OF ok i] by (auto simp: t m nth_at_index store_simps split: if_splits)
  next
    case (2 q) then show ?case
      using openD [OF ok, of q] liveD [OF ok i] i f by (auto simp: t m nth_at_index store_simps split: if_splits)
  next
    case (3 q) then show ?case using tunnel_idD [OF ok, of q] f(1) by (auto simp: t m nth_at_index)
  next
    case (4 j p) then show ?case using dialingD [OF ok, of j p] by (simp add: m store_simps)
  next
    case (5 p) then show ?case using timerD(1) [OF ok, of p] by (simp add: m)
  next
    case (6 p) then show ?case using timerD(2) [OF ok, of p] by (simp add: m)
  next
    case 7 show ?case using ok by (simp add: m mux_ok_def wire_ok_def)
  next
    case (8 j) then show ?case using closedD [OF ok, of j] by (simp add: m store_simps)
  next
    case 9 show ?case using id_range [OF ok] by (simp add: m)
  }
qed

text \<open>A tunnel that is added under an unused id.\<close>

lemma link_ok:
  assumes ok: "mux_ok st" and i: "live_stream st i = None" "dialing st i = None" "1 \<le> i" "i < mx_nextId st" "Close_frame i \<notin> set (mx_sent st)"
  shows "mux_ok (st\<lparr>mx_tunnels := mx_tunnels st @ [new_tunnel i], mx_streams := map_set (mx_streams st) i (length (mx_tunnels st))\<rparr>)"
    (is "mux_ok ?st")
proof (rule mux_okI, goal_cases)
  {
    case (1 j q) then show ?case
      using liveD [OF ok, of j q] by (cases "j = i") (auto simp: nth_append new_tunnel_def store_simps)
  next
    case (2 q) then show ?case
      using openD [OF ok, of q] i(1) by (cases "q = length (mx_tunnels st)") (auto simp: nth_append new_tunnel_def store_simps)
  next
    case (3 q) then show ?case
      using tunnel_idD [OF ok, of q] i(3,4) by (cases "q = length (mx_tunnels st)") (auto simp: nth_append new_tunnel_def)
  next
    case (4 j p) then show ?case using dialingD [OF ok, of j p] i(2) by (auto simp: store_simps)
  next
    case (5 p) then show ?case using timerD(1) [OF ok, of p] by simp
  next
    case (6 p) then show ?case using timerD(2) [OF ok, of p] by simp
  next
    case 7 show ?case using ok by (simp add: mux_ok_def wire_ok_def)
  next
    case (8 j) then show ?case using closedD [OF ok, of j] i(5) by (auto simp: store_simps)
  next
    case 9 show ?case using id_range [OF ok] by simp
  }
qed

lemma not_closed: "mux_ok st \<Longrightarrow> dialing st i = Some p \<Longrightarrow> Close_frame i \<notin> set (mx_sent st)"
  using closedD(3) by fastforce

lemma timeout_ok:
  assumes ok: "mux_ok st"
  shows "mux_ok (open_timeout p st)"
proof (cases "p < length (mx_openings st) \<and> op_timer (mx_openings st ! p)")
  case True
  define i where "i = op_id (mx_openings st ! p)"
  have d: "dialing st i = Some p" using timerD(1) [OF ok, of p] True by (simp add: i_def)
  let ?st = "settle p (Rejected ''tunnel open timed out'') (st\<lparr>mx_pending := map_del (mx_pending st) i\<rparr>)"
  have eq: "open_timeout p st = send (Close_frame i) ?st"
    using True by (simp add: open_timeout_def Let_def i_def settle_def send_def)
  have nc: "Close_frame i \<notin> set (mx_sent st)" using not_closed [OF ok d] .
  show ?thesis
    unfolding eq
  proof (rule send_ok)
    show "mux_ok ?st" using settle_dial [OF ok d] by simp
    show "\<not> uses j (Close_frame i)" if "Close_frame j \<in> set (mx_sent ?st)" for j
      using that nc by auto
    show "j < mx_nextId ?st \<and> live_stream ?st j = None \<and> dialing ?st j = None" if "Close_frame i = Close_frame j" for j
      using that dialingD(5,6) [OF ok d] by (simp add: store_simps)
  qed
next
  case False
  then show ?thesis using ok by (auto simp: open_timeout_def)
qed

lemma peerClosed_state: "tu_id (peerClosed t) = tu_id t" "tu_closed (peerClosed t)"
  by (simp_all add: peerClosed_def Let_def)

lemma drop_ok: "mux_ok st \<Longrightarrow> mux_ok (drop_stream i st)"
  by (cases "live_stream st i") (auto simp: drop_stream_def peerClosed_state intro!: unlink_ok)

lemma reject_ok: "mux_ok st \<Longrightarrow> dialing st i = Some p \<Longrightarrow> mux_ok (reject_pending i p msg st)"
  unfolding reject_pending_def by (rule settle_dial) simp_all

lemma opened_ok:
  assumes ok: "mux_ok st" and d: "dialing st i = Some p"
  shows "mux_ok (settle p (Resolved (length (mx_tunnels st)))
    (st\<lparr>mx_pending := map_del (mx_pending st) i, mx_tunnels := mx_tunnels st @ [new_tunnel i],
        mx_streams := map_set (mx_streams st) i (length (mx_tunnels st))\<rparr>))" (is "mux_ok ?new")
proof -
  let ?st = "settle p (Resolved (length (mx_tunnels st))) (st\<lparr>mx_pending := map_del (mx_pending st) i\<rparr>)"
  have "mux_ok ?st" using settle_dial [OF ok d] by simp
  then have "mux_ok (?st\<lparr>mx_tunnels := mx_tunnels ?st @ [new_tunnel i],
      mx_streams := map_set (mx_streams ?st) i (length (mx_tunnels ?st))\<rparr>)"
    using dialingD(4-6) [OF ok d] not_closed [OF ok d] by (intro link_ok) (simp_all add: store_simps)
  moreover have "?new = ?st\<lparr>mx_tunnels := mx_tunnels ?st @ [new_tunnel i],
      mx_streams := map_set (mx_streams ?st) i (length (mx_tunnels ?st))\<rparr>"
    by (rule mux.equality) (simp_all add: settle_def)
  ultimately show ?thesis by simp
qed

lemma control_ok:
  assumes ok: "mux_ok st"
  shows "mux_ok (handleControl f st)"
proof (cases "ct_streamId f")
  case (Some i)
  show ?thesis
  proof (cases "dialing st i")
    case None
    then show ?thesis using ok drop_ok [OF ok, of i] Some by (simp add: handleControl_def)
  next
    case d: (Some p)
    have "mux_ok (drop_stream i (reject_pending i p msg st))" for msg by (rule drop_ok [OF reject_ok [OF ok d]])
    then show ?thesis
      using ok Some d opened_ok [OF ok d] reject_ok [OF ok d] drop_ok [OF ok] by (simp add: handleControl_def Let_def)
  qed
qed (simp add: handleControl_def ok)

lemma write_ok:
  assumes ok: "mux_ok st"
  shows "mux_ok (tunnel_write r b st)"
proof (cases "r < length (mx_tunnels st) \<and> \<not> tu_closed (mx_tunnels st ! r)")
  case True
  define i where "i = tu_id (mx_tunnels st ! r)"
  have l: "live_stream st i = Some r" using openD [OF ok, of r] True by (simp add: i_def)
  have range: "i mod 2 ^ 32 = i" using liveD(4,5) [OF ok l] id_range [OF ok] by (intro mod_pos_pos_trivial) simp_all
  have "mux_ok (send (Binary (header i @ b)) st)"
  proof (rule send_ok [OF ok])
    show "\<not> uses j (Binary (header i @ b))" if "Close_frame j \<in> set (mx_sent st)" for j
      using closedD(2) [OF ok that] l range by (auto simp: read_header)
  qed simp
  then show ?thesis using True by (simp add: tunnel_write_def sendData_def i_def)
qed (auto simp: tunnel_write_def ok)

lemma close_ok:
  assumes ok: "mux_ok st"
  shows "mux_ok (tunnel_close r st)"
proof (cases "r < length (mx_tunnels st) \<and> \<not> tu_closed (mx_tunnels st ! r)")
  case True
  define i where "i = tu_id (mx_tunnels st ! r)"
  have l: "live_stream st i = Some r" using openD [OF ok, of r] True by (simp add: i_def)
  let ?st = "on_tunnel r (\<lambda>t. t\<lparr>tu_closed := True\<rparr>) (st\<lparr>mx_streams := map_del (mx_streams st) i\<rparr>)"
  have eq: "tunnel_close r st = send (Close_frame i) ?st"
    using True by (intro mux.equality) (simp_all add: tunnel_close_def closeLocal_def Let_def i_def on_tunnel_def send_def)
  have d: "dialing st i = None" using dialingD(6) [OF ok, of i] l by (cases "dialing st i") auto
  show ?thesis
    unfolding eq
  proof (rule send_ok)
    show "mux_ok ?st" by (rule unlink_ok [OF ok l]) simp_all
    show "\<not> uses j (Close_frame i)" if "Close_frame j \<in> set (mx_sent ?st)" for j
      using that closedD(2) [OF ok, of j] l by (auto simp: on_tunnel_def)
    show "j < mx_nextId ?st \<and> live_stream ?st j = None \<and> dialing ?st j = None" if "Close_frame i = Close_frame j" for j
      using that d liveD(5) [OF ok l] by (simp add: on_tunnel_def store_simps)
  qed
qed (auto simp: tunnel_close_def ok)


text \<open>After \<open>dispose\<close> no tunnel is open and no dial waits.\<close>

lemma fold_settle_openings:
  assumes "q < length (mx_openings st)"
  shows "mx_openings (fold (\<lambda>p s. settle p (Rejected m) s) ps st) ! q =
      (if q \<in> set ps then (mx_openings st ! q)\<lparr>op_timer := False,
         op_outcome := (if op_outcome (mx_openings st ! q) = Waiting then Rejected m else op_outcome (mx_openings st ! q))\<rparr>
       else mx_openings st ! q)"
  using assms by (induction ps arbitrary: st) (auto simp: settle_def nth_at_index)

lemma fold_settle_rest [simp]:
  "length (mx_openings (fold (\<lambda>p s. settle p r s) ps st)) = length (mx_openings st)"
  "mx_sent (fold (\<lambda>p s. settle p r s) ps st) = mx_sent st" "mx_nextId (fold (\<lambda>p s. settle p r s) ps st) = mx_nextId st"
  by (induction ps arbitrary: st) (simp_all add: settle_def)

lemma fold_close_rest [simp]:
  "mx_openings (fold (\<lambda>r s. on_tunnel r f s) rs st) = mx_openings st"
  "mx_pending (fold (\<lambda>r s. on_tunnel r f s) rs st) = mx_pending st"
  "length (mx_tunnels (fold (\<lambda>r s. on_tunnel r f s) rs st)) = length (mx_tunnels st)"
  "mx_sent (fold (\<lambda>r s. on_tunnel r f s) rs st) = mx_sent st" "mx_nextId (fold (\<lambda>r s. on_tunnel r f s) rs st) = mx_nextId st"
  by (induction rs arbitrary: st) (simp_all add: on_tunnel_def)

lemma fold_close_tunnels:
  assumes "q < length (mx_tunnels st)"
  shows "tu_id (mx_tunnels (fold (\<lambda>r s. on_tunnel r peerClosed s) rs st) ! q) = tu_id (mx_tunnels st ! q) \<and>
    (tu_closed (mx_tunnels (fold (\<lambda>r s. on_tunnel r peerClosed s) rs st) ! q) \<longleftrightarrow> q \<in> set rs \<or> tu_closed (mx_tunnels st ! q))"
  using assms
proof (induction rs arbitrary: st)
  case (Cons r rs)
  then show ?case
    using Cons.IH [of "on_tunnel r peerClosed st"] by (auto simp: on_tunnel_def nth_at_index peerClosed_state)
qed simp

lemma vals_of_get: "map_get m k = Some v \<Longrightarrow> v \<in> set (map_vals m)"
  by (auto simp: map_vals_def dest!: map_get_in_set intro: rev_image_eqI)

lemma dispose_ok:
  assumes ok: "mux_ok st"
  shows "mux_ok (dispose st)"
proof -
  have closed: "tu_id (mx_tunnels (dispose st) ! q) = tu_id (mx_tunnels st ! q) \<and> tu_closed (mx_tunnels (dispose st) ! q)"
    if "q < length (mx_tunnels st)" for q
    using that openD [OF ok that] vals_of_get by (auto simp: dispose_def Let_def fold_close_tunnels)
  have settled: "\<not> op_timer (mx_openings (dispose st) ! p) \<and> op_outcome (mx_openings (dispose st) ! p) \<noteq> Waiting"
    if "p < length (mx_openings st)" for p
    using that timerD [OF ok that] vals_of_get by (auto simp: dispose_def Let_def fold_settle_openings)
  have maps: "mx_streams (dispose st) = []" "mx_pending (dispose st) = []" "mx_sent (dispose st) = mx_sent st"
    "mx_nextId (dispose st) = mx_nextId st" "length (mx_tunnels (dispose st)) = length (mx_tunnels st)"
    "length (mx_openings (dispose st)) = length (mx_openings st)"
    by (simp_all add: dispose_def Let_def)
  have empty: "map_get [] k = None" for k :: int by (simp add: map_get_def)
  show ?thesis
  proof (rule mux_okI, goal_cases)
    case (3 r) then show ?case using closed [of r] tunnel_idD [OF ok, of r] by (simp add: maps)
  next
    case (8 i) then show ?case using closedD [OF ok, of i] by (simp add: maps empty)
  next
    case 7 show ?case using ok by (simp add: maps mux_ok_def wire_ok_def)
  qed (use closed settled id_range [OF ok] in \<open>auto simp: maps empty\<close>)
qed

lemma onDataClose_ok:
  assumes "mux_ok st"
  shows "mux_ok (on_tunnel r (set_onData fn) st)" "mux_ok (on_tunnel r (set_onClose fn) st)" "mux_ok (handleAgentData b st)"
  using assms
  by (auto simp: set_onData_def set_onClose_def Let_def handleAgentData_def handleData_def deliver_def split: option.splits if_splits
    intro!: tunnel_op_ok)

lemma mux_step_ok:
  assumes "mux_ok st" and "id_left st e"
  shows "mux_ok (mux_step st e)"
  using assms
  by (cases e)
    (simp_all add: id_left_def open_ok timeout_ok control_ok onDataClose_ok write_ok close_ok dispose_ok)

definition opens :: "mux_event list \<Rightarrow> nat" where
  "opens es = length (filter (\<lambda>e. case e of Mx_open host port \<Rightarrow> True | _ \<Rightarrow> False) es)"

lemma on_tunnel_nextId: "mx_nextId (on_tunnel r f st) = mx_nextId st"
  by (simp add: on_tunnel_def)

lemma step_id:
  "mx_nextId (mux_step st e) \<le> mx_nextId st + (case e of Mx_open host port \<Rightarrow> 1 | _ \<Rightarrow> 0) \<or> mx_nextId (mux_step st e) = 1"
  by (cases e)
    (auto simp: openStream_def open_timeout_def handleControl_def handleAgentData_def handleData_def tunnel_write_def sendData_def
      tunnel_close_def closeLocal_def dispose_def drop_stream_def reject_pending_def on_tunnel_nextId Let_def
      split: option.splits)

lemma run_ok:
  "mux_ok st \<Longrightarrow> mx_nextId st + int (opens es) \<le> 0xffffffff \<Longrightarrow> mux_ok (foldl mux_step st es)"
proof (induction es arbitrary: st)
  case (Cons e es)
  have pos: "1 \<le> mx_nextId st" using id_range [OF Cons.prems(1)] by simp
  have "mx_nextId (mux_step st e) + int (opens es) \<le> mx_nextId st + int (opens (e # es))"
    using step_id [of st e] pos by (auto simp: opens_def split: mux_event.splits)
  moreover have "id_left st e" using Cons.prems(2) by (auto simp: id_left_def opens_def)
  ultimately show ?case using Cons.IH [OF mux_step_ok [OF Cons.prems(1)]] Cons.prems(2) by simp
qed simp

lemma new_mux_ok: "mux_ok new_mux"
  by (rule mux_okI) (simp_all add: new_mux_def map_get_def)

text \<open>
  Within the first 4294967294 dials of a connection, a stream that was closed towards the agent is
  never heard of again: no later frame opens, writes to or closes its id. Every open tunnel is reachable
  under its id, every dial still waiting has its timer armed and its request on file, and no id belongs to both.
\<close>

theorem closed_stream_silent:
  assumes "opens es \<le> 4294967294"
  shows "sorted_wrt after_close (mx_sent (foldl mux_step new_mux es)) \<and> streams_ok (foldl mux_step new_mux es) \<and>
    dials_ok (foldl mux_step new_mux es)"
proof -
  have "mux_ok (foldl mux_step new_mux es)"
    using assms by (intro run_ok new_mux_ok) (simp add: new_mux_def)
  then show ?thesis by (simp add: mux_ok_def wire_ok_def)
qed

lemma closed_stream_silent_witness:
  "sorted_wrt after_close (mx_sent (foldl mux_step new_mux (demo_wire @ [Mx_write 0 [1], Mx_close 0, Mx_write 0 [2]])))"
  using closed_stream_silent [of "demo_wire @ [Mx_write 0 [1], Mx_close 0, Mx_write 0 [2]]"] by (simp add: opens_def demo_wire_def)

text \<open>After the last id the counter starts over and does not ask whether the first stream is still open.\<close>

lemma id_reused:
  "mx_sent (openStream ''b'' 2 (openStream ''a'' 1 (new_mux\<lparr>mx_nextId := 4294967295,
     mx_tunnels := [new_tunnel 1], mx_streams := [(1, 0)]\<rparr>))) = [Open_stream 4294967295 ''a'' 1, Open_stream 1 ''b'' 2]"
  by code_simp

end
