(* ===== verification/Backup_Schedule.thy ===== *)
theory Backup_Schedule
  imports Cerebro_Prelude
begin

text \<open>
  Structured backup schedules, \<^verbatim>\<open>common/backup-schedule.ts\<close>. A time is local time in milliseconds since
  1970, without a change of the offset; the calendar of the \<^verbatim>\<open>Date\<close> object is written out.
\<close>

section \<open>The calendar\<close>

definition DAY :: int where "DAY = 86400000"

definition leap :: "int \<Rightarrow> bool" where
  "leap y \<longleftrightarrow> y mod 4 = 0 \<and> (y mod 100 \<noteq> 0 \<or> y mod 400 = 0)"

text \<open>Leap years before \<open>y\<close>, days before a month of its year, and the first day of the \<open>k\<close>-th month since 1970.\<close>

definition leaps :: "int \<Rightarrow> int" where
  "leaps y = (y - 1) div 4 - (y - 1) div 100 + (y - 1) div 400"

definition days_before :: "int \<Rightarrow> int" where
  "days_before m = (if m = 0 then 0 else if m = 1 then 31 else if m = 2 then 59 else if m = 3 then 90 else if m = 4 then 120
     else if m = 5 then 151 else if m = 6 then 181 else if m = 7 then 212 else if m = 8 then 243 else if m = 9 then 273
     else if m = 10 then 304 else 334)"

definition first_day :: "int \<Rightarrow> int" where
  "first_day k =
     (let y = 1970 + k div 12; m = k mod 12
      in 365 * (y - 1970) + leaps y - leaps 1970 + days_before m + (if leap y \<and> m \<ge> 2 then 1 else 0))"

lemma div_pred: "0 < n \<Longrightarrow> y div n = (y - 1) div n + (if y mod n = 0 then 1 else 0)" for n y :: int
proof -
  assume n: "0 < n"
  have y: "y = n * (y div n) + y mod n" by simp
  show ?thesis
  proof (cases "y mod n = 0")
    case True
    moreover have "n * (y div n - 1) = n * (y div n) - n" by (simp add: right_diff_distrib)
    ultimately have "y - 1 = n * (y div n - 1) + (n - 1)" using y by linarith
    then have "(y - 1) div n = y div n - 1" by (rule int_div_pos_eq) (use n in simp_all)
    then show ?thesis using True by simp
  next
    case False
    have "y - 1 = n * (y div n) + (y mod n - 1)" using y by simp
    moreover have "0 \<le> y mod n - 1" "y mod n - 1 < n" using False n pos_mod_bound [OF n, of y] pos_mod_sign [OF n, of y] by linarith+
    ultimately have "(y - 1) div n = y div n" by (rule int_div_pos_eq)
    then show ?thesis using False by simp
  qed
qed

lemma leaps_Suc: "leaps (y + 1) = leaps y + (if leap y then 1 else 0)"
proof -
  define p4 p100 p400 where "p4 = (y - 1) div 4" and "p100 = (y - 1) div 100" and "p400 = (y - 1) div 400"
  have q: "y div 4 = p4 + (if y mod 4 = 0 then 1 else 0)" "y div 100 = p100 + (if y mod 100 = 0 then 1 else 0)"
    "y div 400 = p400 + (if y mod 400 = 0 then 1 else 0)"
    unfolding p4_def p100_def p400_def by (rule div_pred, simp)+
  have d: "y mod 400 = 0 \<Longrightarrow> y mod 100 = 0" "y mod 100 = 0 \<Longrightarrow> y mod 4 = 0"
    using dvd_trans [of 100 400 y] dvd_trans [of 4 100 y] by (simp_all add: mod_eq_0_iff_dvd)
  have "leaps (y + 1) = y div 4 - y div 100 + y div 400" by (simp add: leaps_def)
  moreover have "leaps y = p4 - p100 + p400" by (simp add: leaps_def p4_def p100_def p400_def)
  ultimately show ?thesis
    unfolding leap_def q using d by (cases "y mod 4 = 0"; cases "y mod 100 = 0"; cases "y mod 400 = 0") simp_all
qed

lemma first_day_parts:
  "0 \<le> m \<Longrightarrow> m < 12 \<Longrightarrow> first_day (12 * q + m) =
     365 * q + leaps (1970 + q) - leaps 1970 + days_before m + (if leap (1970 + q) \<and> m \<ge> 2 then 1 else 0)"
  by (simp add: first_day_def Let_def)

lemma month_length: "28 \<le> first_day (k + 1) - first_day k \<and> first_day (k + 1) - first_day k \<le> 31"
proof -
  define q m where "q = k div 12" and "m = k mod 12"
  have k: "k = 12 * q + m" and m: "0 \<le> m" "m < 12" by (simp_all add: q_def m_def)
  show ?thesis
  proof (cases "m = 11")
    case True
    have "first_day (k + 1) = first_day (12 * (q + 1) + 0)" by (simp add: k True algebra_simps)
    moreover have "first_day k = first_day (12 * q + 11)" by (simp add: k True)
    ultimately show ?thesis
      using leaps_Suc [of "1970 + q"] first_day_parts [of 0 "q + 1"] first_day_parts [of 11 q]
      by (simp add: days_before_def algebra_simps)
  next
    case False
    have "first_day (k + 1) = first_day (12 * q + (m + 1))" by (simp add: k add.assoc)
    then have diff: "first_day (k + 1) - first_day k = days_before (m + 1) - days_before m + (if leap (1970 + q) \<and> m = 1 then 1 else 0)"
      using first_day_parts [of m q] first_day_parts [of "m + 1" q] m False by (auto simp: k)
    have "m \<in> set [0 .. 10]" using m False by simp
    then have "m \<in> {0, 1, 2, 3, 4, 5, 6, 7, 8, 9, 10}" by (simp add: upto_rec1 del: set_upto)
    then show ?thesis unfolding diff by (auto simp: days_before_def)
  qed
qed

text \<open>The month of a day, by search upwards.\<close>

function month_from :: "int \<Rightarrow> int \<Rightarrow> int" where
  "month_from n k = (if n < first_day (k + 1) then k else month_from n (k + 1))"
  by pat_completeness auto
termination
proof (relation "measure (\<lambda>(n, k). nat (n - first_day k))")
  show "\<not> n < first_day (k + 1) \<Longrightarrow> ((n, k + 1), (n, k)) \<in> measure (\<lambda>(n, k). nat (n - first_day k))" for n k
    using month_length [of k] by auto
qed simp

declare month_from.simps [simp del]

definition month_of :: "int \<Rightarrow> int" where
  "month_of n = month_from n (n div 31)"

definition getDate :: "int \<Rightarrow> int" where
  "getDate n = n - first_day (month_of n) + 1"

text \<open>The first of January 1970 was a Thursday.\<close>

definition getDay :: "int \<Rightarrow> int" where
  "getDay n = (n + 4) mod 7"

lemma first_day_mono: "j \<le> k \<Longrightarrow> first_day j \<le> first_day k"
proof (induction k rule: int_ge_induct)
  case (step i)
  then show ?case using month_length [of i, THEN conjunct1] by linarith
qed simp

lemma month_from_spec: "first_day k \<le> n \<Longrightarrow> first_day (month_from n k) \<le> n \<and> n < first_day (month_from n k + 1)"
proof (induction n k rule: month_from.induct)
  case (1 n k)
  then show ?case by (subst (1 2) month_from.simps) auto
qed

lemma first_day_bound: "0 \<le> k \<Longrightarrow> first_day k \<le> 31 * k"
proof (induction k rule: int_ge_induct)
  case base
  show ?case by (simp add: first_day_def Let_def days_before_def leaps_def)
next
  case (step i)
  have "31 * (i + 1) = 31 * i + 31" by simp
  then show ?case using step.IH step.hyps month_length [of i, THEN conjunct2] by linarith
qed

lemma month_of_spec: "0 \<le> n \<Longrightarrow> first_day (month_of n) \<le> n \<and> n < first_day (month_of n + 1)"
  unfolding month_of_def
proof (rule month_from_spec)
  assume n: "0 \<le> n"
  then have "first_day (n div 31) \<le> 31 * (n div 31)" by (intro first_day_bound) (simp add: pos_imp_zdiv_nonneg_iff)
  then show "first_day (n div 31) \<le> n" by linarith
qed

lemma month_of_unique:
  assumes "0 \<le> n" and "first_day k \<le> n" and "n < first_day (k + 1)"
  shows "month_of n = k"
proof (rule ccontr)
  assume "month_of n \<noteq> k"
  then consider "month_of n + 1 \<le> k" | "k + 1 \<le> month_of n" by linarith
  then show False
    using first_day_mono [of "month_of n + 1" k] first_day_mono [of "k + 1" "month_of n"] month_of_spec [OF assms(1)] assms(2,3)
    by cases linarith+
qed

section \<open>Schedules\<close>

text \<open>The column is a string; \<open>Other\<close> is a value that is none of the four.\<close>

datatype frequency = Off | Daily | Weekly | Monthly | Other string

record schedule =
  sc_frequency :: frequency
  sc_dayOfWeek :: int
  sc_dayOfMonth :: int
  sc_hour :: int
  sc_minute :: int

definition getHours :: "time \<Rightarrow> int" where "getHours t = t mod DAY div 3600000"
definition getMinutes :: "time \<Rightarrow> int" where "getMinutes t = t mod 3600000 div 60000"

definition isDue :: "schedule \<Rightarrow> time \<Rightarrow> bool" where
  "isDue s now \<longleftrightarrow>
     (if sc_frequency s = Off then False
      else if getHours now \<noteq> sc_hour s \<or> getMinutes now \<noteq> sc_minute s then False
      else case sc_frequency s of
             Daily \<Rightarrow> True
           | Weekly \<Rightarrow> getDay (now div DAY) = sc_dayOfWeek s
           | Monthly \<Rightarrow> getDate (now div DAY) = sc_dayOfMonth s
           | _ \<Rightarrow> False)"

definition pad2 :: "int \<Rightarrow> string" where
  "pad2 n = (let s = show_int n in if length s < 2 then CHR ''0'' # s else s)"

definition DAY_NAMES :: "string list" where
  "DAY_NAMES = [''Sunday'', ''Monday'', ''Tuesday'', ''Wednesday'', ''Thursday'', ''Friday'', ''Saturday'']"

definition describeSchedule :: "schedule \<Rightarrow> string" where
  "describeSchedule s =
     (let at = pad2 (sc_hour s) @ '':'' @ pad2 (sc_minute s)
      in case sc_frequency s of
           Off \<Rightarrow> ''off (manual backups only)''
         | Daily \<Rightarrow> ''Daily at '' @ at @ '' (server time)''
         | Weekly \<Rightarrow> ''Weekly on '' @
             (if 0 \<le> sc_dayOfWeek s \<and> sc_dayOfWeek s < 7 then DAY_NAMES ! nat (sc_dayOfWeek s) else ''undefined'') @
             '' at '' @ at @ '' (server time)''
         | _ \<Rightarrow> ''Monthly on day '' @ show_int (sc_dayOfMonth s) @ '' at '' @ at @ '' (server time)'')"

text \<open>The time of the schedule on a day.\<close>

definition at_time :: "schedule \<Rightarrow> int \<Rightarrow> time" where
  "at_time s day = day * DAY + sc_hour s * 3600000 + sc_minute s * 60000"

definition nextRunAt :: "schedule \<Rightarrow> time \<Rightarrow> time option" where
  "nextRunAt s from =
     (case sc_frequency s of
        Off \<Rightarrow> None
      | Daily \<Rightarrow>
          (let today = at_time s (from div DAY)
           in Some (if today > from then today else at_time s ((from + DAY) div DAY)))
      | Weekly \<Rightarrow>
          map_option (\<lambda>i. at_time s ((from + int i * DAY) div DAY))
            (List.find (\<lambda>i. getDay ((from + int i * DAY) div DAY) = sc_dayOfWeek s \<and> at_time s ((from + int i * DAY) div DAY) > from)
               [0 ..< 8])
      | _ \<Rightarrow>
          (let k = month_of (from div DAY); thisMonth = at_time s (first_day k + sc_dayOfMonth s - 1)
           in Some (if thisMonth > from then thisMonth else at_time s (first_day (k + 1) + sc_dayOfMonth s - 1))))"

definition intervalMs :: "schedule \<Rightarrow> int" where
  "intervalMs s = (case sc_frequency s of Daily \<Rightarrow> DAY | Weekly \<Rightarrow> 7 * DAY | Monthly \<Rightarrow> 31 * DAY | _ \<Rightarrow> 0)"

text \<open>The bounds of the columns.\<close>

definition schedule_ok :: "schedule \<Rightarrow> bool" where
  "schedule_ok s \<longleftrightarrow> 0 \<le> sc_hour s \<and> sc_hour s < 24 \<and> 0 \<le> sc_minute s \<and> sc_minute s < 60 \<and>
     0 \<le> sc_dayOfWeek s \<and> sc_dayOfWeek s < 7 \<and> 1 \<le> sc_dayOfMonth s \<and> sc_dayOfMonth s \<le> 28"

section \<open>The next run is the first due time\<close>

definition day_ok :: "schedule \<Rightarrow> int \<Rightarrow> bool" where
  "day_ok s d \<longleftrightarrow>
     (case sc_frequency s of Daily \<Rightarrow> True | Weekly \<Rightarrow> getDay d = sc_dayOfWeek s | Monthly \<Rightarrow> getDate d = sc_dayOfMonth s
      | _ \<Rightarrow> False)"

definition offset :: "schedule \<Rightarrow> int" where
  "offset s = sc_hour s * 3600000 + sc_minute s * 60000"

lemma offset_bounds: "schedule_ok s \<Longrightarrow> 0 \<le> offset s \<and> offset s + 60000 \<le> DAY"
  by (simp add: schedule_ok_def offset_def DAY_def)

lemma clock_reads:
  fixes h m r :: int
  assumes "0 \<le> m" "m < 60" "0 \<le> r"
  shows "r div 3600000 = h \<and> r mod 3600000 div 60000 = m \<longleftrightarrow> h * 3600000 + m * 60000 \<le> r \<and> r < h * 3600000 + m * 60000 + 60000"
proof -
  define q p k x where "q = r div 3600000" and "p = r mod 3600000" and "k = p div 60000" and "x = p mod 60000"
  have r: "r = 3600000 * q + p" by (simp add: q_def p_def)
  have p: "p = 60000 * k + x" by (simp add: k_def x_def)
  have x: "0 \<le> x" "x < 60000" by (simp_all add: x_def)
  have p_range: "0 \<le> p" "p < 3600000" by (simp_all add: p_def)
  have "q = h" if b: "h * 3600000 + m * 60000 \<le> r \<and> r < h * 3600000 + m * 60000 + 60000"
  proof -
    have "q < h + 1" "h < q + 1" using b r p_range assms(1,2) by linarith+
    then show ?thesis by simp
  qed
  moreover have "k = m" if b: "60000 * m \<le> p \<and> p < 60000 * m + 60000"
  proof -
    have "k < m + 1" "m < k + 1" using b p x by linarith+
    then show ?thesis by simp
  qed
  moreover have "60000 * k \<le> p" "p < 60000 * k + 60000" using p x by linarith+
  ultimately have "q = h \<and> k = m \<longleftrightarrow> h * 3600000 + m * 60000 \<le> r \<and> r < h * 3600000 + m * 60000 + 60000"
    using r by auto
  then show ?thesis by (simp add: q_def p_def k_def)
qed

lemma isDue_iff:
  assumes "schedule_ok s"
  shows "isDue s t \<longleftrightarrow> day_ok s (t div DAY) \<and> offset s \<le> t mod DAY \<and> t mod DAY < offset s + 60000"
proof -
  have "t mod DAY mod 3600000 = t mod 3600000" unfolding DAY_def by (rule mod_mod_cancel) simp
  moreover have "0 \<le> t mod DAY" "t mod DAY < 86400000" by (simp_all add: DAY_def)
  ultimately have "getHours t = sc_hour s \<and> getMinutes t = sc_minute s \<longleftrightarrow> offset s \<le> t mod DAY \<and> t mod DAY < offset s + 60000"
    using assms clock_reads [of "sc_minute s" "t mod DAY" "sc_hour s"]
    by (simp add: schedule_ok_def getHours_def getMinutes_def offset_def)
  then show ?thesis by (auto simp: isDue_def day_ok_def split: frequency.splits)
qed

text \<open>The earliest day after the start gives the earliest due minute.\<close>

lemma first_due_day:
  assumes ok: "schedule_ok s" and d: "day_ok s d" and late: "from < at_time s d"
    and least: "\<And>e. day_ok s e \<Longrightarrow> from < at_time s e \<Longrightarrow> d \<le> e"
  shows "isDue s (at_time s d) \<and> (\<forall>u. from < u \<and> u < at_time s d \<and> isDue s u \<longrightarrow> u div 60000 = from div 60000)"
proof
  have at: "at_time s e = e * DAY + offset s" for e by (simp add: at_time_def offset_def)
  have parts: "at_time s e div DAY = e" "at_time s e mod DAY = offset s" for e
    using offset_bounds [OF ok] by (simp_all add: at DAY_def)
  show "isDue s (at_time s d)" using d offset_bounds [OF ok] by (simp add: isDue_iff [OF ok] parts)
  show "\<forall>u. from < u \<and> u < at_time s d \<and> isDue s u \<longrightarrow> u div 60000 = from div 60000"
  proof (intro allI impI)
    fix u assume u: "from < u \<and> u < at_time s d \<and> isDue s u"
    let ?e = "u div DAY"
    have due: "day_ok s ?e" "offset s \<le> u mod DAY" "u mod DAY < offset s + 60000" using u by (simp_all add: isDue_iff [OF ok])
    have ueq: "u = ?e * DAY + u mod DAY" by simp
    have le: "at_time s ?e \<le> u" "u < at_time s ?e + 60000" using due ueq unfolding at by linarith+
    have "\<not> from < at_time s ?e"
    proof
      assume "from < at_time s ?e"
      then have "d \<le> ?e" using least due(1) by blast
      then have "at_time s d \<le> at_time s ?e" by (simp add: at DAY_def)
      then show False using le u by linarith
    qed
    have "60000 dvd at_time s ?e" by (simp add: at_time_def DAY_def)
    then obtain q where "at_time s ?e = 60000 * q" by blast
    then have q: "60000 * q \<le> u" "u < 60000 * q + 60000" "60000 * q \<le> from" "from < 60000 * q + 60000"
      using le u \<open>\<not> from < at_time s ?e\<close> by linarith+
    have "u div 60000 = q" by (rule int_div_pos_eq [of u 60000 q "u - 60000 * q"]) (use q in simp_all)
    moreover have "from div 60000 = q" by (rule int_div_pos_eq [of "from" 60000 q "from - 60000 * q"]) (use q in simp_all)
    ultimately show "u div 60000 = from div 60000" by simp
  qed
qed

lemma at_day: "at_time s e = e * DAY + offset s"
  by (simp add: at_time_def offset_def)

lemma at_later: "d \<le> e \<Longrightarrow> at_time s d \<le> at_time s e"
  by (simp add: at_day DAY_def)

lemma day_bounds: "t div DAY * DAY \<le> t \<and> t < (t div DAY + 1) * DAY"
proof -
  have "t = 86400000 * (t div 86400000) + t mod 86400000" "0 \<le> t mod 86400000" "t mod 86400000 < 86400000" by simp_all
  then show ?thesis unfolding DAY_def distrib_right by (intro conjI) linarith+
qed

lemma at_next_day: "schedule_ok s \<Longrightarrow> from < at_time s (from div DAY + 1)"
  using day_bounds [of "from"] offset_bounds [of s] by (simp add: at_day)

lemma at_not_before:
  assumes "schedule_ok s" and "from < at_time s e"
  shows "from div DAY \<le> e"
proof (rule ccontr)
  assume "\<not> from div DAY \<le> e"
  then have "at_time s e \<le> at_time s (from div DAY - 1)" by (intro at_later) simp
  moreover have "at_time s (from div DAY - 1) < from div DAY * DAY"
    using offset_bounds [OF assms(1)] by (simp add: at_day DAY_def algebra_simps)
  ultimately show False using day_bounds [of "from"] assms(2) by linarith
qed

lemma day_plus: "(from + i * DAY) div DAY = from div DAY + i"
  by (simp add: DAY_def)

lemma getDay_hits:
  assumes "0 \<le> w" "w < 7"
  shows "\<exists>i \<in> {1 .. 7 :: nat}. getDay (D + int i) = w"
proof -
  define i where "i = (w - D - 5) mod 7 + 1"
  have i: "1 \<le> i" "i \<le> 7" by (simp_all add: i_def)
  have "(D + i + 4) mod 7 = w mod 7"
  proof -
    have "D + i + 4 = (D + 5) + (w - D - 5) mod 7" by (simp add: i_def)
    then show ?thesis by (simp only: mod_add_right_eq) simp
  qed
  then have "getDay (D + int (nat i)) = w" using i assms by (simp add: getDay_def)
  then show ?thesis using i by (intro bexI [of _ "nat i"]) auto
qed

lemma date_day:
  assumes "0 \<le> first_day k" "1 \<le> n" "n \<le> 28"
  shows "month_of (first_day k + n - 1) = k" "getDate (first_day k + n - 1) = n"
proof -
  show m: "month_of (first_day k + n - 1) = k"
    using month_length [of k, THEN conjunct1] assms by (intro month_of_unique) linarith+
  show "getDate (first_day k + n - 1) = n" unfolding getDate_def m by simp
qed

text \<open>The day a frequency picks is the first one of its kind whose time is still ahead.\<close>

definition picks :: "schedule \<Rightarrow> time \<Rightarrow> int \<Rightarrow> bool" where
  "picks s from d \<longleftrightarrow> nextRunAt s from = Some (at_time s d) \<and> day_ok s d \<and> from < at_time s d \<and>
     (\<forall>e. day_ok s e \<longrightarrow> from < at_time s e \<longrightarrow> d \<le> e)"

lemma picks_daily:
  assumes ok: "schedule_ok s" and f: "sc_frequency s = Daily"
  shows "\<exists>d. picks s from d"
proof (cases "at_time s (from div DAY) > from")
  case True
  then have "picks s from (from div DAY)"
    using f at_not_before [OF ok] by (simp add: picks_def nextRunAt_def Let_def day_ok_def)
  then show ?thesis ..
next
  case False
  have "picks s from (from div DAY + 1)"
    unfolding picks_def
  proof (intro conjI allI impI)
    show "nextRunAt s from = Some (at_time s (from div DAY + 1))"
      using False f day_plus [of "from" 1] by (simp add: nextRunAt_def Let_def)
    show "day_ok s (from div DAY + 1)" using f by (simp add: day_ok_def)
    show "from < at_time s (from div DAY + 1)" by (rule at_next_day [OF ok])
    show "from div DAY + 1 \<le> e" if "from < at_time s e" for e
    proof (rule ccontr)
      assume "\<not> from div DAY + 1 \<le> e"
      then have "at_time s e \<le> at_time s (from div DAY)" by (intro at_later) simp
      then show False using that False by simp
    qed
  qed
  then show ?thesis ..
qed

lemma picks_weekly:
  assumes ok: "schedule_ok s" and f: "sc_frequency s = Weekly"
  shows "\<exists>d. picks s from d"
proof -
  let ?D = "from div DAY"
  let ?P = "\<lambda>i. getDay (?D + int i) = sc_dayOfWeek s \<and> at_time s (?D + int i) > from"
  have run: "nextRunAt s from = map_option (\<lambda>i. at_time s (?D + int i)) (List.find ?P [0 ..< 8])"
    using f by (simp add: nextRunAt_def day_plus)
  obtain j where j: "j \<in> {1 .. 7 :: nat}" "getDay (?D + int j) = sc_dayOfWeek s"
    using getDay_hits [of "sc_dayOfWeek s" ?D] ok by (auto simp: schedule_ok_def)
  have "at_time s (?D + 1) \<le> at_time s (?D + int j)" using j(1) by (intro at_later) simp
  then have "?P j" using j at_next_day [OF ok, of "from"] by simp
  then have "List.find ?P [0 ..< 8] \<noteq> None" using j(1) by (auto simp: find_None_iff)
  then obtain i where i: "List.find ?P [0 ..< 8] = Some i" by blast
  obtain n where n: "n < 8" "?P n" "i = n" "\<forall>m < n. \<not> ?P m"
    using i unfolding find_Some_iff by (auto simp: nth_upt)
  have "picks s from (?D + int i)"
    unfolding picks_def
  proof (intro conjI allI impI)
    show "nextRunAt s from = Some (at_time s (?D + int i))" by (simp add: run i)
    show "day_ok s (?D + int i)" using n f by (simp add: day_ok_def)
    show "from < at_time s (?D + int i)" using n by simp
    show "?D + int i \<le> e" if e: "day_ok s e" "from < at_time s e" for e
    proof (rule ccontr)
      assume less: "\<not> ?D + int i \<le> e"
      define m where "m = nat (e - ?D)"
      have m: "e = ?D + int m" using at_not_before [OF ok e(2)] by (simp add: m_def)
      then have "m < n" using less n(3) by simp
      then show False using n(4) e f m by (simp add: day_ok_def)
    qed
  qed
  then show ?thesis ..
qed

lemma picks_monthly:
  assumes ok: "schedule_ok s" and f: "sc_frequency s = Monthly" and pos: "0 \<le> from"
  shows "\<exists>d. picks s from d"
proof -
  define k where "k = month_of (from div DAY)"
  define day where "day j = first_day j + sc_dayOfMonth s - 1" for j
  have dom: "1 \<le> sc_dayOfMonth s" "sc_dayOfMonth s \<le> 28" using ok by (simp_all add: schedule_ok_def)
  have D: "0 \<le> from div DAY" using pos by (simp add: DAY_def pos_imp_zdiv_nonneg_iff)
  have spec: "first_day k \<le> from div DAY" "from div DAY < first_day (k + 1)" using month_of_spec [OF D] by (simp_all add: k_def)
  have k0: "0 \<le> k"
  proof (rule ccontr)
    assume "\<not> 0 \<le> k"
    then have "first_day (k + 1) \<le> first_day 0" by (intro first_day_mono) simp
    moreover have "first_day 0 = 0" by (simp add: first_day_def Let_def days_before_def leaps_def)
    ultimately show False using spec(2) D by simp
  qed
  have nonneg: "0 \<le> first_day j" if "k \<le> j" for j
  proof -
    have "first_day 0 \<le> first_day j" using that k0 by (intro first_day_mono) simp
    then show ?thesis by (simp add: first_day_def Let_def days_before_def leaps_def)
  qed
  have is_day: "day_ok s (day j)" if "k \<le> j" for j
    using f date_day(2) [OF nonneg [OF that] dom] by (simp add: day_ok_def day_def)
  have months: "k \<le> month_of e \<and> e = day (month_of e)" if e: "day_ok s e" "from < at_time s e" for e
  proof
    have "from div DAY \<le> e" using at_not_before [OF ok e(2)] .
    then have "first_day k \<le> e" "0 \<le> e" using spec(1) D by linarith+
    show "k \<le> month_of e"
    proof (rule ccontr)
      assume "\<not> k \<le> month_of e"
      then have "first_day (month_of e + 1) \<le> first_day k" by (intro first_day_mono) simp
      then show False using month_of_spec [OF \<open>0 \<le> e\<close>] \<open>first_day k \<le> e\<close> by linarith
    qed
    show "e = day (month_of e)" using e(1) f by (simp add: day_ok_def day_def getDate_def)
  qed
  have day_mono: "i \<le> j \<Longrightarrow> day i \<le> day j" for i j using first_day_mono [of i j] by (simp add: day_def)
  show ?thesis
  proof (cases "at_time s (day k) > from")
    case True
    have "picks s from (day k)"
      unfolding picks_def
    proof (intro conjI allI impI)
      show "nextRunAt s from = Some (at_time s (day k))"
        using True f by (simp add: nextRunAt_def Let_def k_def [symmetric] day_def [symmetric])
      show "day_ok s (day k)" by (rule is_day) simp
      show "day k \<le> e" if e: "day_ok s e" "from < at_time s e" for e
        using months [OF e] day_mono [of k "month_of e"] by simp
    qed (rule True)
    then show ?thesis ..
  next
    case False
    have "picks s from (day (k + 1))"
      unfolding picks_def
    proof (intro conjI allI impI)
      show "nextRunAt s from = Some (at_time s (day (k + 1)))"
        using False f by (simp add: nextRunAt_def Let_def k_def [symmetric] day_def [symmetric])
      show "day_ok s (day (k + 1))" by (rule is_day) simp
      have "from div DAY + 1 \<le> day (k + 1)" using spec(2) dom by (simp add: day_def)
      then have "at_time s (from div DAY + 1) \<le> at_time s (day (k + 1))" by (rule at_later)
      then show "from < at_time s (day (k + 1))" using at_next_day [OF ok, of "from"] by linarith
      show "day (k + 1) \<le> e" if e: "day_ok s e" "from < at_time s e" for e
      proof -
        have "month_of e \<noteq> k" using months [OF e] e(2) False by metis
        then show ?thesis using months [OF e] day_mono [of "k + 1" "month_of e"] by linarith
      qed
    qed
    then show ?thesis ..
  qed
qed

text \<open>
  The next run shown for a schedule is the first minute at which the scheduler will fire: it lies
  after the given time, the schedule is due there, and nothing is due in between (but for the rest of
  the minute that is running).
\<close>

theorem next_run_is_first_due:
  assumes "schedule_ok s" and "sc_frequency s \<in> {Daily, Weekly, Monthly}" and "0 \<le> from"
  shows "\<exists>t. nextRunAt s from = Some t \<and> from < t \<and> isDue s t \<and>
    (\<forall>u. from < u \<and> u < t \<and> isDue s u \<longrightarrow> u div 60000 = from div 60000)"
proof -
  obtain d where d: "picks s from d"
    using picks_daily [OF assms(1)] picks_weekly [OF assms(1)] picks_monthly [OF assms(1) _ assms(3)] assms(2)
    by auto
  then have "isDue s (at_time s d) \<and> (\<forall>u. from < u \<and> u < at_time s d \<and> isDue s u \<longrightarrow> u div 60000 = from div 60000)"
    by (intro first_due_day [OF assms(1)]) (simp_all add: picks_def)
  then show ?thesis using d by (auto simp: picks_def)
qed

definition demo_schedule :: schedule where
  "demo_schedule = \<lparr>sc_frequency = Monthly, sc_dayOfWeek = 0, sc_dayOfMonth = 15, sc_hour = 4, sc_minute = 30\<rparr>"

lemma next_run_is_first_due_witness:
  "\<exists>t. nextRunAt demo_schedule 1767225600000 = Some t \<and> 1767225600000 < t \<and> isDue demo_schedule t"
  using next_run_is_first_due [of demo_schedule 1767225600000] by (auto simp: demo_schedule_def schedule_ok_def)

text \<open>A frequency outside the four is shown with a next run, as if monthly, and is never due.\<close>

lemma unknown_frequency_never_due:
  "\<not> isDue (s\<lparr>sc_frequency := Other f\<rparr>) t" "nextRunAt (s\<lparr>sc_frequency := Other f\<rparr>) t = nextRunAt (s\<lparr>sc_frequency := Monthly\<rparr>) t"
  by (simp_all add: isDue_def nextRunAt_def at_time_def Let_def)

end
