(* ===== verification/Stack_Backup.thy ===== *)
theory Stack_Backup
  imports Backup_Schedule Notifications
begin

text \<open>
  Stack backups: the repositories (\<^verbatim>\<open>stack-backup/backup-target.service.ts\<close>), the policies and the start
  of a run (\<^verbatim>\<open>stack-backup.service.ts\<close>) and the scheduler (\<^verbatim>\<open>stack-backup-scheduler.service.ts\<close>). The start
  of a backup is two steps with a database call between them; a scheduled run holds its repository
  from the tick to the end of the run. Ids, the time and the answers of the repository tool come with the
  events. The vault is a map of keys to values; a credential pair is kept as a pair, not as JSON text.
\<close>

section \<open>Rows\<close>

datatype vault_value = Plain string | Credential string string

record hook =
  hk_service :: "string option"
  hk_container :: "string option"
  hk_cmd :: string
  hk_captureTo :: "string option"

record policy =
  po_id :: string
  po_connectorInstanceId :: string
  po_stackName :: string
  po_targetId :: string
  po_enabled :: bool
  po_schedule :: schedule
  po_quiesce :: string
  po_transfer :: string
  po_secretMode :: string
  po_includeBinds :: "string list"
  po_excludes :: "string list"
  po_preHooks :: "hook list"
  po_postHooks :: "hook list"
  po_lastRunAt :: "time option"
  po_lastStatus :: string
  po_lastMessage :: "string option"
  po_createdAt :: time

record target =
  bt_id :: string
  bt_name :: string
  bt_kind :: string
  bt_repository :: string
  bt_helperImage :: string
  bt_passwordKey :: string
  bt_credKey :: string
  bt_hostCredKey :: "string option"
  bt_keepLast :: "int option"
  bt_keepDaily :: "int option"
  bt_keepWeekly :: "int option"
  bt_keepMonthly :: "int option"
  bt_keepWithinDays :: "int option"

record run =
  rn_id :: string
  rn_policyId :: "string option"
  rn_targetId :: string
  rn_trigger :: string
  rn_status :: string
  rn_message :: "string option"
  rn_startedAt :: time
  rn_finishedAt :: "time option"

text \<open>A start of a backup between its two steps, and the phases of what the scheduler is doing on a repository.\<close>

record starting_run =
  ss_policy :: policy
  ss_passphrase :: "string option"
  ss_trigger :: string

datatype holder = Launch string | Creating starting_run | Awaiting string time | Pruning

record backup =
  bk_policies :: "policy list"
  bk_targets :: "target list"
  bk_runs :: "run list"
  bk_vault :: "(string, vault_value) jsmap"
  bk_hosts :: "string list"
  bk_active :: "string list"
  bk_starts :: "starting_run list"
  bk_busy :: "string list"
  bk_lastSlot :: "(string, int) jsmap"
  bk_jobs :: "(string \<times> holder) list"
  bk_alerts :: "(string \<times> alert_payload) list"
  bk_now :: time

section \<open>Repositories\<close>

definition passwordKeyFor :: "string \<Rightarrow> string" where "passwordKeyFor i = ''stack-backup:'' @ i @ '':password''"
definition credKeyFor :: "string \<Rightarrow> string" where "credKeyFor i = ''stack-backup:'' @ i @ '':provider''"
definition hostCredKeyFor :: "string \<Rightarrow> string" where "hostCredKeyFor i = ''stack-backup:'' @ i @ '':provider-host''"
definition sealKey :: "string \<Rightarrow> string" where "sealKey i = ''stack-backup:policy:'' @ i @ '':passphrase''"

record target_input =
  ti_name :: string
  ti_kind :: string
  ti_repository :: string
  ti_password :: string
  ti_accessKeyId :: string
  ti_secretAccessKey :: string
  ti_hostAccessKeyId :: string
  ti_hostSecretAccessKey :: string
  ti_helperImage :: string
  ti_keepLast :: "int option"
  ti_keepDaily :: "int option"
  ti_keepWeekly :: "int option"
  ti_keepMonthly :: "int option"
  ti_keepWithinDays :: "int option"

definition find_target :: "backup \<Rightarrow> string \<Rightarrow> target option" where
  "find_target st i = List.find (\<lambda>t. bt_id t = i) (bk_targets st)"

definition find_policy :: "backup \<Rightarrow> string \<Rightarrow> policy option" where
  "find_policy st i = List.find (\<lambda>p. po_id p = i) (bk_policies st)"

definition target_problem :: "target_input \<Rightarrow> string option" where
  "target_problem inp =
     (if trim (ti_name inp) = [] then Some ''A name is required.''
      else if trim (ti_repository inp) = [] then Some ''A restic repository string is required.''
      else if ti_kind inp \<noteq> ''b2'' \<and> ti_kind inp \<noteq> ''s3'' then Some ''Unsupported target kind.''
      else if \<not> starts_with (trim (ti_repository inp)) (ti_kind inp @ '':'') then
        Some (''A '' @ to_upper (ti_kind inp) @ '' repository string starts with '' @ [CHR 0x22] @ ti_kind inp @ '':'' @ [CHR 0x22] @
          '' (e.g. '' @ (if ti_kind inp = ''b2'' then ''b2:my-bucket:/stacks'' else ''s3:https://nas:9000/stacks'') @ '').'')
      else None)"

definition keep_count :: "int option \<Rightarrow> int option" where
  "keep_count v = (case v of None \<Rightarrow> None | Some n \<Rightarrow> if n > 0 then Some n else None)"

definition retention_columns :: "target_input \<Rightarrow> target \<Rightarrow> target" where
  "retention_columns inp t = t\<lparr>bt_keepLast := keep_count (ti_keepLast inp), bt_keepDaily := keep_count (ti_keepDaily inp),
     bt_keepWeekly := keep_count (ti_keepWeekly inp), bt_keepMonthly := keep_count (ti_keepMonthly inp),
     bt_keepWithinDays := keep_count (ti_keepWithinDays inp)\<rparr>"

definition writeCredentials :: "string \<Rightarrow> target_input \<Rightarrow> backup \<Rightarrow> backup" where
  "writeCredentials i inp st =
     (let v1 = (if ti_password inp \<noteq> [] then map_set (bk_vault st) (passwordKeyFor i) (Plain (ti_password inp)) else bk_vault st);
          v2 = (if ti_accessKeyId inp \<noteq> [] \<and> ti_secretAccessKey inp \<noteq> []
                then map_set v1 (credKeyFor i) (Credential (ti_accessKeyId inp) (ti_secretAccessKey inp)) else v1);
          v3 = (if ti_hostAccessKeyId inp \<noteq> [] \<and> ti_hostSecretAccessKey inp \<noteq> []
                then map_set v2 (hostCredKeyFor i) (Credential (ti_hostAccessKeyId inp) (ti_hostSecretAccessKey inp)) else v2)
      in st\<lparr>bk_vault := v3\<rparr>)"

definition target_create :: "string \<Rightarrow> target_input \<Rightarrow> backup \<Rightarrow> (http_error + target) \<times> backup" where
  "target_create i inp st =
     (case target_problem inp of
        Some e \<Rightarrow> (Inl (BadRequest e), st)
      | None \<Rightarrow>
          if ti_password inp = [] then (Inl (BadRequest ''A restic repository password is required.''), st)
          else if ti_accessKeyId inp = [] \<or> ti_secretAccessKey inp = [] then
            (Inl (BadRequest ''Storage credentials are required.''), st)
          else if find_target st i \<noteq> None then (Inl (InternalError ''duplicate id''), st)
          else
            (let image = trim (ti_helperImage inp);
                 t = retention_columns inp
                   \<lparr>bt_id = i, bt_name = trim (ti_name inp), bt_kind = ti_kind inp, bt_repository = trim (ti_repository inp),
                    bt_helperImage = (if image = [] then ''restic/restic:latest'' else image), bt_passwordKey = passwordKeyFor i,
                    bt_credKey = credKeyFor i,
                    bt_hostCredKey = (if ti_hostAccessKeyId inp \<noteq> [] \<and> ti_hostSecretAccessKey inp \<noteq> []
                      then Some (hostCredKeyFor i) else None),
                    bt_keepLast = None, bt_keepDaily = None, bt_keepWeekly = None, bt_keepMonthly = None, bt_keepWithinDays = None\<rparr>
             in (Inr t, writeCredentials i inp (st\<lparr>bk_targets := bk_targets st @ [t]\<rparr>))))"

definition target_update :: "string \<Rightarrow> target_input \<Rightarrow> backup \<Rightarrow> (http_error + unit) \<times> backup" where
  "target_update i inp st =
     (case target_problem inp of
        Some e \<Rightarrow> (Inl (BadRequest e), st)
      | None \<Rightarrow>
          (case find_target st i of
             None \<Rightarrow> (Inl (NotFound ''Backup target not found.''), st)
           | Some existing \<Rightarrow>
               (let image = trim (ti_helperImage inp)
                in (Inr (), (writeCredentials i inp st)\<lparr>bk_targets := rows_update (\<lambda>t. bt_id t = i)
                     (\<lambda>t. retention_columns inp
                        (t\<lparr>bt_name := trim (ti_name inp), bt_kind := ti_kind inp, bt_repository := trim (ti_repository inp),
                           bt_helperImage := (if image = [] then bt_helperImage existing else image),
                           bt_passwordKey := passwordKeyFor i, bt_credKey := credKeyFor i,
                           bt_hostCredKey := (if ti_hostAccessKeyId inp \<noteq> [] \<and> ti_hostSecretAccessKey inp \<noteq> []
                             then Some (hostCredKeyFor i) else bt_hostCredKey existing)\<rparr>))
                     (bk_targets st)\<rparr>))))"

definition target_remove :: "string \<Rightarrow> backup \<Rightarrow> (http_error + unit) \<times> backup" where
  "target_remove i st =
     (let n = length (filter (\<lambda>p. po_targetId p = i) (bk_policies st))
      in if n \<noteq> 0 then
           (Inl (BadRequest (show_int (int n) @ '' stack backup'' @ (if n = 1 then [] else ''s'') @
              '' still write to this target - remove them first.'')), st)
         else if find_target st i = None then (Inl (NotFound ''Backup target not found.''), st)
         else (Inr (), st\<lparr>bk_targets := filter (\<lambda>t. bt_id t \<noteq> i) (bk_targets st),
           bk_vault := fold (\<lambda>k m. map_del m k) [passwordKeyFor i, credKeyFor i, hostCredKeyFor i] (bk_vault st)\<rparr>))"

record repo_auth =
  ra_kind :: string
  ra_repository :: string
  ra_password :: string
  ra_accessKeyId :: string
  ra_secretAccessKey :: string

text \<open>The text of a value: what \<^verbatim>\<open>reveal\<close> returns where a plain secret is expected.\<close>

definition reveal_text :: "backup \<Rightarrow> string \<Rightarrow> string option" where
  "reveal_text st k = (case map_get (bk_vault st) k of Some (Plain s) \<Rightarrow> Some s | Some (Credential a b) \<Rightarrow> Some (a @ b) | None \<Rightarrow> None)"

definition buildAuth :: "string \<Rightarrow> bool \<Rightarrow> backup \<Rightarrow> http_error + repo_auth" where
  "buildAuth i preferHostCred st =
     (case find_target st i of
        None \<Rightarrow> Inl (NotFound ''Backup target not found.'')
      | Some t \<Rightarrow>
          (case reveal_text st (bt_passwordKey t) of
             None \<Rightarrow> Inl (BadRequest (''The repository password for '' @ bt_name t @ '' is missing from the vault.''))
           | Some password \<Rightarrow>
               if password = [] then Inl (BadRequest (''The repository password for '' @ bt_name t @ '' is missing from the vault.''))
               else
                 (let credKey = (if preferHostCred \<and> nonempty (bt_hostCredKey t) then the (bt_hostCredKey t) else bt_credKey t)
                  in case map_get (bk_vault st) credKey of
                       None \<Rightarrow> Inl (BadRequest (''The storage credentials for '' @ bt_name t @ '' are missing from the vault.''))
                     | Some (Plain s) \<Rightarrow>
                         Inl (BadRequest (''The stored credentials for '' @ bt_name t @ '' are not readable - re-enter them.''))
                     | Some (Credential a b) \<Rightarrow>
                         if a = [] \<or> b = [] then
                           Inl (BadRequest (''The stored credentials for '' @ bt_name t @ '' are incomplete - re-enter them.''))
                         else Inr \<lparr>ra_kind = bt_kind t, ra_repository = bt_repository t, ra_password = password,
                           ra_accessKeyId = a, ra_secretAccessKey = b\<rparr>)))"

definition authFor :: "string \<Rightarrow> backup \<Rightarrow> http_error + repo_auth" where "authFor i st = buildAuth i False st"
definition hostAuthFor :: "string \<Rightarrow> backup \<Rightarrow> http_error + repo_auth" where "hostAuthFor i st = buildAuth i True st"

section \<open>Policies\<close>

record policy_input =
  pi_connectorInstanceId :: string
  pi_stackName :: string
  pi_targetId :: string
  pi_enabled :: "bool option"
  pi_frequency :: "frequency option"
  pi_dayOfWeek :: json
  pi_dayOfMonth :: json
  pi_hour :: json
  pi_minute :: json
  pi_quiesce :: "string option"
  pi_transfer :: "string option"
  pi_secretMode :: "string option"
  pi_includeBinds :: "string list"
  pi_excludes :: "string list"
  pi_preHooks :: json
  pi_postHooks :: json
  pi_sealPassphrase :: "string option"

definition nullish :: "json \<Rightarrow> json \<Rightarrow> json" where
  "nullish v dflt = (if v = JUndef \<or> v = JNull then dflt else v)"

definition given :: "'a option \<Rightarrow> 'a \<Rightarrow> 'a" where
  "given v dflt = (case v of None \<Rightarrow> dflt | Some x \<Rightarrow> x)"

definition clamp_num :: "json \<Rightarrow> int \<Rightarrow> int \<Rightarrow> int" where
  "clamp_num v lo hi = min hi (max lo (case num_of v of None \<Rightarrow> 0 | Some n \<Rightarrow> n))"

definition text_or_none :: "json \<Rightarrow> string option" where
  "text_or_none v = (case v of JStr s \<Rightarrow> if s = [] then None else Some s | _ \<Rightarrow> None)"

definition hookList :: "json \<Rightarrow> hook list" where
  "hookList raw =
     (case raw of
        JArr vs \<Rightarrow> List.map_filter (\<lambda>v. case v of
            JObj ob \<Rightarrow> (case obj_get ob ''cmd'' of
                JStr c \<Rightarrow> Some \<lparr>hk_service = text_or_none (obj_get ob ''service''), hk_container = text_or_none (obj_get ob ''container''),
                            hk_cmd = c, hk_captureTo = text_or_none (obj_get ob ''captureTo'')\<rparr>
              | _ \<Rightarrow> None)
          | _ \<Rightarrow> None) vs
      | _ \<Rightarrow> [])"

definition plain_filename :: "string \<Rightarrow> bool" where
  "plain_filename s \<longleftrightarrow> s \<noteq> [] \<and> list_all (\<lambda>c. is_alpha c \<or> is_digit c \<or> c \<in> set ''._-'') s"

definition hook_problem :: "hook \<Rightarrow> string option" where
  "hook_problem h =
     (if hk_service h = None \<and> hk_container h = None then
        Some (''Hook '' @ [CHR 0x22] @ hk_cmd h @ [CHR 0x22] @ '' needs a service or container to run in.'')
      else case hk_captureTo h of
        None \<Rightarrow> None
      | Some f \<Rightarrow> if plain_filename f then None
          else Some (''Hook captureTo must be a plain filename, got '' @ [CHR 0x22] @ f @ [CHR 0x22] @ ''.''))"

definition validateHooks :: "json \<Rightarrow> string + hook list" where
  "validateHooks raw =
     (case List.find (\<lambda>h. hook_problem h \<noteq> None) (hookList raw) of
        Some h \<Rightarrow> Inl (the (hook_problem h)) | None \<Rightarrow> Inr (hookList raw))"

text \<open>The checks of the input that come before any write.\<close>

definition policy_problem :: "policy_input \<Rightarrow> backup \<Rightarrow> string option" where
  "policy_problem inp st =
     (if pi_connectorInstanceId inp = [] \<or> pi_stackName inp = [] then Some ''A host and stack are required.''
      else if pi_connectorInstanceId inp \<notin> set (bk_hosts st) then Some ''That Docker host no longer exists.''
      else if find_target st (pi_targetId inp) = None then Some ''Choose a backup target.''
      else if given (pi_quiesce inp) ''hot'' \<notin> {''hot'', ''pause'', ''stop''} then Some ''Unknown capture mode.''
      else if given (pi_transfer inp) ''direct'' \<notin> {''direct'', ''relay''} then Some ''Unknown transfer mode.''
      else if given (pi_secretMode inp) ''embed'' \<notin> {''embed'', ''raw'', ''reference''} then Some ''Unknown secret mode.''
      else case (validateHooks (pi_preHooks inp), validateHooks (pi_postHooks inp)) of
             (Inl e, _) \<Rightarrow> Some e
           | (Inr _, Inl e) \<Rightarrow> Some e
           | _ \<Rightarrow> None)"


definition hooks_of :: "json \<Rightarrow> hook list" where
  "hooks_of raw = (case validateHooks raw of Inl e \<Rightarrow> [] | Inr hs \<Rightarrow> hs)"

definition policy_columns :: "policy_input \<Rightarrow> policy \<Rightarrow> policy" where
  "policy_columns inp p =
     p\<lparr>po_targetId := pi_targetId inp, po_enabled := given (pi_enabled inp) True,
       po_schedule := \<lparr>sc_frequency = given (pi_frequency inp) Off, sc_dayOfWeek = clamp_num (nullish (pi_dayOfWeek inp) (JNum 0)) 0 6,
         sc_dayOfMonth = clamp_num (nullish (pi_dayOfMonth inp) (JNum 1)) 1 28, sc_hour = clamp_num (nullish (pi_hour inp) (JNum 3)) 0 23,
         sc_minute = clamp_num (nullish (pi_minute inp) (JNum 0)) 0 59\<rparr>,
       po_quiesce := given (pi_quiesce inp) ''hot'', po_transfer := given (pi_transfer inp) ''direct'',
       po_secretMode := given (pi_secretMode inp) ''embed'',
       po_includeBinds := filter (\<lambda>b. starts_with b ''/'') (pi_includeBinds inp), po_excludes := filter (\<lambda>e. e \<noteq> []) (pi_excludes inp),
       po_preHooks := hooks_of (pi_preHooks inp), po_postHooks := hooks_of (pi_postHooks inp)\<rparr>"

definition blank_policy :: "string \<Rightarrow> policy_input \<Rightarrow> time \<Rightarrow> policy" where
  "blank_policy i inp now =
     \<lparr>po_id = i, po_connectorInstanceId = pi_connectorInstanceId inp, po_stackName = pi_stackName inp, po_targetId = pi_targetId inp,
      po_enabled = True, po_schedule = \<lparr>sc_frequency = Off, sc_dayOfWeek = 0, sc_dayOfMonth = 1, sc_hour = 3, sc_minute = 0\<rparr>,
      po_quiesce = ''hot'', po_transfer = ''direct'', po_secretMode = ''embed'', po_includeBinds = [], po_excludes = [],
      po_preHooks = [], po_postHooks = [], po_lastRunAt = None, po_lastStatus = ''never'', po_lastMessage = None, po_createdAt = now\<rparr>"

definition same_stack :: "policy_input \<Rightarrow> policy \<Rightarrow> bool" where
  "same_stack inp p \<longleftrightarrow> po_connectorInstanceId p = pi_connectorInstanceId inp \<and> po_stackName p = pi_stackName inp"

text \<open>The row is written first, then the passphrase; a schedule that could not seal its secrets is disarmed.\<close>

definition upsert_policy :: "string \<Rightarrow> policy_input \<Rightarrow> backup \<Rightarrow> string \<times> backup" where
  "upsert_policy i inp st =
     (case List.find (same_stack inp) (bk_policies st) of
        Some p \<Rightarrow> (po_id p, st\<lparr>bk_policies := rows_update (same_stack inp) (policy_columns inp) (bk_policies st)\<rparr>)
      | None \<Rightarrow> (i, st\<lparr>bk_policies := bk_policies st @ [policy_columns inp (blank_policy i inp (bk_now st))]\<rparr>))"

definition store_seal :: "string \<Rightarrow> policy_input \<Rightarrow> backup \<Rightarrow> backup" where
  "store_seal k inp st =
     (case pi_sealPassphrase inp of
        None \<Rightarrow> st
      | Some s \<Rightarrow> st\<lparr>bk_vault := (if s \<noteq> [] then map_set (bk_vault st) (sealKey k) (Plain s) else map_del (bk_vault st) (sealKey k))\<rparr>)"

definition disarm :: "policy \<Rightarrow> policy" where
  "disarm p = p\<lparr>po_schedule := (po_schedule p)\<lparr>sc_frequency := Off\<rparr>\<rparr>"

definition savePolicy :: "string \<Rightarrow> policy_input \<Rightarrow> backup \<Rightarrow> (http_error + string) \<times> backup" where
  "savePolicy i inp st =
     (case policy_problem inp st of
        Some e \<Rightarrow> (Inl (BadRequest e), st)
      | None \<Rightarrow>
          if List.find (same_stack inp) (bk_policies st) = None \<and> find_policy st i \<noteq> None
          then (Inl (InternalError ''duplicate id''), st)
          else
            (case upsert_policy i inp st of (k, st1) \<Rightarrow>
               let st2 = store_seal k inp st1; hasSeal = map_has (bk_vault st2) (sealKey k)
               in if given (pi_frequency inp) Off \<noteq> Off \<and> given (pi_secretMode inp) ''embed'' = ''embed'' \<and> \<not> hasSeal
                  then (Inl (BadRequest (''A scheduled sealed backup needs a stored sealing passphrase - set one, '' @
                          ''or switch this stack to raw secrets.'')),
                        st2\<lparr>bk_policies := rows_update (\<lambda>p. po_id p = k) disarm (bk_policies st2)\<rparr>)
                  else (Inr k, st2)))"

definition removePolicy :: "string \<Rightarrow> backup \<Rightarrow> (http_error + unit) \<times> backup" where
  "removePolicy i st =
     (case find_policy st i of
        None \<Rightarrow> (Inl (NotFound ''Stack backup not found.''), st)
      | Some _ \<Rightarrow>
          (Inr (), st\<lparr>bk_policies := filter (\<lambda>p. po_id p \<noteq> i) (bk_policies st),
             bk_runs := rows_update (\<lambda>r. rn_policyId r = Some i) (\<lambda>r. r\<lparr>rn_policyId := None\<rparr>) (bk_runs st),
             bk_vault := map_del (bk_vault st) (sealKey i)\<rparr>))"

definition scheduleOf :: "policy \<Rightarrow> schedule" where "scheduleOf p = po_schedule p"

definition duePolicies :: "time \<Rightarrow> backup \<Rightarrow> policy list" where
  "duePolicies now st =
     filter (\<lambda>p. isDue (scheduleOf p) now) (filter (\<lambda>p. po_enabled p \<and> sc_frequency (po_schedule p) \<noteq> Off) (bk_policies st))"

text \<open>The schedule as the client is shown it.\<close>

definition shown_next_run :: "policy \<Rightarrow> time \<Rightarrow> time option" where
  "shown_next_run p now = (if po_enabled p then nextRunAt (scheduleOf p) now else None)"

section \<open>Starting a run\<close>

definition startBackup_check :: "string \<Rightarrow> string option \<Rightarrow> string \<Rightarrow> backup \<Rightarrow> http_error + starting_run" where
  "startBackup_check i passphrase trigger st =
     (case find_policy st i of
        None \<Rightarrow> Inl (NotFound ''Stack backup not found.'')
      | Some p \<Rightarrow>
          if i \<in> set (bk_active st) then Inl (BadRequest ''A backup for this stack is already running.'')
          else Inr \<lparr>ss_policy = p, ss_passphrase = passphrase, ss_trigger = trigger\<rparr>)"

definition startBackup_create :: "string \<Rightarrow> starting_run \<Rightarrow> backup \<Rightarrow> (http_error + run) \<times> backup" where
  "startBackup_create rid s st =
     (let p = ss_policy s;
          seal = (if po_secretMode p = ''embed'' \<and> \<not> nonempty (ss_passphrase s) then reveal_text st (sealKey (po_id p)) else ss_passphrase s)
      in if po_secretMode p = ''embed'' \<and> \<not> nonempty seal then
           (Inl (BadRequest (''This backup seals its secrets - supply the passphrase, or store one on the policy.'')), st)
         else if find_policy st (po_id p) = None then (Inl (InternalError ''foreign key''), st)
         else if list_ex (\<lambda>r. rn_id r = rid) (bk_runs st) then (Inl (InternalError ''duplicate id''), st)
         else
           (let r = \<lparr>rn_id = rid, rn_policyId = Some (po_id p), rn_targetId = po_targetId p, rn_trigger = ss_trigger s,
                     rn_status = ''running'', rn_message = None, rn_startedAt = bk_now st, rn_finishedAt = None\<rparr>
            in (Inr r, st\<lparr>bk_runs := bk_runs st @ [r],
                  bk_active := (if po_id p \<in> set (bk_active st) then bk_active st else bk_active st @ [po_id p])\<rparr>)))"

text \<open>The end of a run, with its status and message; the alert and the release of the policy.\<close>

definition finish_run :: "string \<Rightarrow> string \<Rightarrow> string \<Rightarrow> string \<Rightarrow> backup \<Rightarrow> backup" where
  "finish_run rid pid status message st =
     (let policy = find_policy st pid;
          name = (case policy of None \<Rightarrow> ''a stack'' | Some p \<Rightarrow> po_stackName p);
          ok = (status = ''success'')
      in st\<lparr>bk_runs := rows_update (\<lambda>r. rn_id r = rid)
              (\<lambda>r. r\<lparr>rn_status := status, rn_message := Some message, rn_finishedAt := Some (bk_now st)\<rparr>) (bk_runs st),
            bk_policies := rows_update (\<lambda>p. po_id p = pid)
              (\<lambda>p. p\<lparr>po_lastRunAt := Some (bk_now st), po_lastStatus := status, po_lastMessage := Some message\<rparr>) (bk_policies st),
            bk_active := filter (\<lambda>x. x \<noteq> pid) (bk_active st),
            bk_alerts := bk_alerts st @ [(if ok then ''backup.success'' else ''backup.failure'',
              \<lparr>pl_title = (if ok then ''Stack backup succeeded: '' else ''Stack backup FAILED: '') @ name, pl_body = message,
               pl_dedupeKey = Some (''stack-backup:'' @ pid @ '':'' @ status), pl_connectorId = map_option po_connectorInstanceId policy,
               pl_monitorId = None\<rparr>)]\<rparr>)"

section \<open>The scheduler\<close>

definition slot_of :: "time \<Rightarrow> int" where "slot_of t = t div 60000"

definition reserve :: "string \<Rightarrow> holder \<Rightarrow> backup \<Rightarrow> backup" where
  "reserve t h st = st\<lparr>bk_busy := (if t \<in> set (bk_busy st) then bk_busy st else bk_busy st @ [t]), bk_jobs := bk_jobs st @ [(t, h)]\<rparr>"

text \<open>The end of a job: \<^verbatim>\<open>finally { busyTargets.delete(targetId) }\<close>.\<close>

definition release :: "nat \<Rightarrow> backup \<Rightarrow> backup" where
  "release k st =
     st\<lparr>bk_busy := filter (\<lambda>x. x \<noteq> fst (bk_jobs st ! k)) (bk_busy st), bk_jobs := take k (bk_jobs st) @ drop (Suc k) (bk_jobs st)\<rparr>"

definition already_ran :: "policy \<Rightarrow> time \<Rightarrow> backup \<Rightarrow> bool" where
  "already_ran p now st \<longleftrightarrow> list_ex (\<lambda>r. rn_policyId r = Some (po_id p) \<and> slot_of now * 60000 \<le> rn_startedAt r) (bk_runs st)"

definition consider_policy :: "time \<Rightarrow> policy \<Rightarrow> backup \<Rightarrow> backup" where
  "consider_policy now p st =
     (if map_get (bk_lastSlot st) (po_id p) = Some (slot_of now) then st
      else
        (let st1 = st\<lparr>bk_lastSlot := map_set (bk_lastSlot st) (po_id p) (slot_of now)\<rparr>
         in if already_ran p now st1 then st1
            else if po_targetId p \<in> set (bk_busy st1) then st1
            else reserve (po_targetId p) (Launch (po_id p)) st1))"

definition tick :: "backup \<Rightarrow> backup" where
  "tick st = fold (consider_policy (bk_now st)) (duePolicies (bk_now st) st) st"

definition AWAIT_LIMIT :: int where "AWAIT_LIMIT = 28800000"

text \<open>The steps of \<^verbatim>\<open>runOne\<close>: the two halves of the start, then a look at the row every few seconds.\<close>

definition advance_job :: "nat \<Rightarrow> string \<Rightarrow> backup \<Rightarrow> backup" where
  "advance_job k rid st =
     (if k \<ge> length (bk_jobs st) then st
      else case bk_jobs st ! k of
        (t, Launch pid) \<Rightarrow>
          (case startBackup_check pid None ''schedule'' st of
             Inl e \<Rightarrow> release k st
           | Inr s \<Rightarrow> st\<lparr>bk_jobs := (bk_jobs st)[k := (t, Creating s)]\<rparr>)
      | (t, Creating s) \<Rightarrow>
          (case startBackup_create rid s st of
             (Inl e, st1) \<Rightarrow> release k st1
           | (Inr r, st1) \<Rightarrow> st1\<lparr>bk_jobs := (bk_jobs st1)[k := (t, Awaiting rid (bk_now st + AWAIT_LIMIT))]\<rparr>)
      | (t, Awaiting rid' deadline) \<Rightarrow>
          if \<not> list_ex (\<lambda>r. rn_id r = rid' \<and> rn_status r = ''running'') (bk_runs st) \<or> bk_now st > deadline then release k st else st
      | (t, Pruning) \<Rightarrow> st)"

definition retentionFlags :: "target \<Rightarrow> string list" where
  "retentionFlags t =
     (let flag = (\<lambda>name v f. case v of None \<Rightarrow> [] | Some n \<Rightarrow> if n = 0 then [] else [name, f (show_int n)])
      in flag ''--keep-last'' (bt_keepLast t) id @ flag ''--keep-daily'' (bt_keepDaily t) id @ flag ''--keep-weekly'' (bt_keepWeekly t) id @
         flag ''--keep-monthly'' (bt_keepMonthly t) id @ flag ''--keep-within'' (bt_keepWithinDays t) (\<lambda>s. s @ ''d''))"

text \<open>The nightly pass over one repository: its start and its end, with the failure if there was one.\<close>

definition maintenance_begin :: "target \<Rightarrow> backup \<Rightarrow> backup" where
  "maintenance_begin t st =
     (if retentionFlags t = [] then st else if bt_id t \<in> set (bk_busy st) then st else reserve (bt_id t) Pruning st)"

definition maintenance_end :: "nat \<Rightarrow> (string \<times> string) option \<Rightarrow> backup \<Rightarrow> backup" where
  "maintenance_end k failure st =
     (if k < length (bk_jobs st) \<and> snd (bk_jobs st ! k) = Pruning
      then release k
        (case failure of
           None \<Rightarrow> st
         | Some (name, message) \<Rightarrow>
             st\<lparr>bk_alerts := bk_alerts st @ [(''retention.failure'',
               \<lparr>pl_title = ''Backup retention failed: '' @ name, pl_body = message,
                pl_dedupeKey = Some (''stack-backup:retention:'' @ fst (bk_jobs st ! k)), pl_connectorId = None, pl_monitorId = None\<rparr>)]\<rparr>)
      else st)"

text \<open>Staleness: two and a half intervals without a success.\<close>

definition last_good :: "policy \<Rightarrow> backup \<Rightarrow> time option" where
  "last_good p st =
     (case map rn_startedAt (filter (\<lambda>r. rn_policyId r = Some (po_id p) \<and> rn_status r = ''success'') (bk_runs st)) of
        [] \<Rightarrow> None | t # ts \<Rightarrow> Some (fold max ts t))"

definition is_stale :: "policy \<Rightarrow> backup \<Rightarrow> bool" where
  "is_stale p st \<longleftrightarrow>
     (let window2 = 5 * intervalMs (scheduleOf p);
          since = bk_now st - (case last_good p st of None \<Rightarrow> po_createdAt p | Some t \<Rightarrow> t)
      in window2 \<noteq> 0 \<and> \<not> 2 * since < window2)"

definition stale_alert :: "(time \<Rightarrow> string) \<Rightarrow> policy \<Rightarrow> backup \<Rightarrow> string \<times> alert_payload" where
  "stale_alert isoDay p st =
     (let since = bk_now st - (case last_good p st of None \<Rightarrow> po_createdAt p | Some t \<Rightarrow> t);
          quoted = [CHR 0x22] @ po_stackName p @ [CHR 0x22];
          descr = to_lower (describeSchedule (scheduleOf p))
      in (''backup.stale'',
          \<lparr>pl_title = ''No recent backup: '' @ po_stackName p,
           pl_body = (if last_good p st \<noteq> None
             then ''The last successful backup of '' @ quoted @ '' was '' @ show_int (since div DAY) @
               '' day(s) ago, but it is scheduled '' @ descr @ ''.''
             else quoted @ '' is scheduled '' @ descr @ '' but has never completed a successful backup.''),
           pl_dedupeKey = Some (''stack-backup:stale:'' @ po_id p @ '':'' @ isoDay (bk_now st)),
           pl_connectorId = Some (po_connectorInstanceId p), pl_monitorId = None\<rparr>))"

definition staleness :: "(time \<Rightarrow> string) \<Rightarrow> backup \<Rightarrow> backup" where
  "staleness isoDay st =
     st\<lparr>bk_alerts := bk_alerts st @ map (\<lambda>p. stale_alert isoDay p st)
          (filter (\<lambda>p. po_enabled p \<and> sc_frequency (po_schedule p) \<noteq> Off \<and> is_stale p st) (bk_policies st))\<rparr>"

section \<open>Events\<close>

datatype backup_event =
    Bk_target_create string target_input
  | Bk_target_update string target_input
  | Bk_target_remove string
  | Bk_save string policy_input
  | Bk_remove string
  | Bk_ask string "string option"
  | Bk_start nat string
  | Bk_finish string string string string
  | Bk_tick
  | Bk_job nat string
  | Bk_prune target
  | Bk_pruned nat "(string \<times> string) option"
  | Bk_stale
  | Bk_pass int

primrec backup_step :: "(time \<Rightarrow> string) \<Rightarrow> backup \<Rightarrow> backup_event \<Rightarrow> backup" where
  "backup_step isoDay st (Bk_target_create i inp) = snd (target_create i inp st)"
| "backup_step isoDay st (Bk_target_update i inp) = snd (target_update i inp st)"
| "backup_step isoDay st (Bk_target_remove i) = snd (target_remove i st)"
| "backup_step isoDay st (Bk_save i inp) = snd (savePolicy i inp st)"
| "backup_step isoDay st (Bk_remove i) = snd (removePolicy i st)"
| "backup_step isoDay st (Bk_ask i pass) =
     (case startBackup_check i pass ''manual'' st of Inl e \<Rightarrow> st | Inr s \<Rightarrow> st\<lparr>bk_starts := bk_starts st @ [s]\<rparr>)"
| "backup_step isoDay st (Bk_start k rid) =
     (if k < length (bk_starts st)
      then snd (startBackup_create rid (bk_starts st ! k) (st\<lparr>bk_starts := take k (bk_starts st) @ drop (Suc k) (bk_starts st)\<rparr>)) else st)"
| "backup_step isoDay st (Bk_finish rid pid status message) =
     (if status \<noteq> ''running'' then finish_run rid pid status message st else st)"
| "backup_step isoDay st Bk_tick = tick st"
| "backup_step isoDay st (Bk_job k rid) = advance_job k rid st"
| "backup_step isoDay st (Bk_prune t) = maintenance_begin t st"
| "backup_step isoDay st (Bk_pruned k failure) = maintenance_end k failure st"
| "backup_step isoDay st Bk_stale = staleness isoDay st"
| "backup_step isoDay st (Bk_pass dt) = st\<lparr>bk_now := bk_now st + max 0 dt\<rparr>"

definition new_backup :: "string list \<Rightarrow> time \<Rightarrow> backup" where
  "new_backup hosts now = \<lparr>bk_policies = [], bk_targets = [], bk_runs = [], bk_vault = [], bk_hosts = hosts, bk_active = [], bk_starts = [],
     bk_busy = [], bk_lastSlot = [], bk_jobs = [], bk_alerts = [], bk_now = now\<rparr>"

section \<open>Stored rows are well formed\<close>

lemma key_ends [simp]:
  "last (passwordKeyFor i) = CHR ''d''" "last (credKeyFor i) = CHR ''r''" "last (hostCredKeyFor i) = CHR ''t''" "last (sealKey i) = CHR ''e''"
  by (simp_all add: passwordKeyFor_def credKeyFor_def hostCredKeyFor_def sealKey_def)

lemma key_eq [simp]:
  "passwordKeyFor i = passwordKeyFor j \<longleftrightarrow> i = j" "credKeyFor i = credKeyFor j \<longleftrightarrow> i = j"
  "hostCredKeyFor i = hostCredKeyFor j \<longleftrightarrow> i = j" "sealKey i = sealKey j \<longleftrightarrow> i = j"
  by (simp_all add: passwordKeyFor_def credKeyFor_def hostCredKeyFor_def sealKey_def)

lemma key_neq [simp]:
  "passwordKeyFor i \<noteq> credKeyFor j" "passwordKeyFor i \<noteq> hostCredKeyFor j" "passwordKeyFor i \<noteq> sealKey j"
  "credKeyFor i \<noteq> passwordKeyFor j" "credKeyFor i \<noteq> hostCredKeyFor j" "credKeyFor i \<noteq> sealKey j"
  "hostCredKeyFor i \<noteq> passwordKeyFor j" "hostCredKeyFor i \<noteq> credKeyFor j" "hostCredKeyFor i \<noteq> sealKey j"
  "sealKey i \<noteq> passwordKeyFor j" "sealKey i \<noteq> credKeyFor j" "sealKey i \<noteq> hostCredKeyFor j"
  by (rule notI, drule arg_cong [of _ _ last], simp)+

type_synonym vault = "string \<Rightarrow> vault_value option"

definition has_text :: "vault \<Rightarrow> string \<Rightarrow> bool" where
  "has_text V k \<longleftrightarrow> (\<exists>s. s \<noteq> [] \<and> V k = Some (Plain s))"

definition has_pair :: "vault \<Rightarrow> string \<Rightarrow> bool" where
  "has_pair V k \<longleftrightarrow> (\<exists>a b. a \<noteq> [] \<and> b \<noteq> [] \<and> V k = Some (Credential a b))"

definition target_ok :: "vault \<Rightarrow> target \<Rightarrow> bool" where
  "target_ok V t \<longleftrightarrow> bt_passwordKey t = passwordKeyFor (bt_id t) \<and> bt_credKey t = credKeyFor (bt_id t) \<and>
     (bt_hostCredKey t = None \<or> bt_hostCredKey t = Some (hostCredKeyFor (bt_id t)) \<and> has_pair V (hostCredKeyFor (bt_id t))) \<and>
     has_text V (passwordKeyFor (bt_id t)) \<and> has_pair V (credKeyFor (bt_id t))"

definition armed :: "policy \<Rightarrow> bool" where
  "armed p \<longleftrightarrow> sc_frequency (po_schedule p) \<noteq> Off"

definition policy_ok :: "string set \<Rightarrow> vault \<Rightarrow> policy \<Rightarrow> bool" where
  "policy_ok T V p \<longleftrightarrow> po_targetId p \<in> T \<and> schedule_ok (po_schedule p) \<and> po_quiesce p \<in> {''hot'', ''pause'', ''stop''} \<and>
     po_transfer p \<in> {''direct'', ''relay''} \<and> po_secretMode p \<in> {''embed'', ''raw'', ''reference''} \<and>
     (\<forall>b \<in> set (po_includeBinds p). starts_with b ''/'') \<and> [] \<notin> set (po_excludes p) \<and>
     (\<forall>h \<in> set (po_preHooks p @ po_postHooks p). hook_problem h = None) \<and>
     (armed p \<and> po_secretMode p = ''embed'' \<longrightarrow> has_text V (sealKey (po_id p)))"

abbreviation vault_of :: "backup \<Rightarrow> vault" where "vault_of st \<equiv> map_get (bk_vault st)"
abbreviation target_ids :: "backup \<Rightarrow> string set" where "target_ids st \<equiv> bt_id ` set (bk_targets st)"

definition policy_key :: "policy \<Rightarrow> string \<times> string" where
  "policy_key p = (po_connectorInstanceId p, po_stackName p)"

definition backup_ok :: "backup \<Rightarrow> bool" where
  "backup_ok st \<longleftrightarrow> distinct (map bt_id (bk_targets st)) \<and> distinct (map po_id (bk_policies st)) \<and>
     distinct (map policy_key (bk_policies st)) \<and> (\<forall>t \<in> set (bk_targets st). target_ok (vault_of st) t) \<and>
     (\<forall>p \<in> set (bk_policies st). policy_ok (target_ids st) (vault_of st) p) \<and>
     (\<forall>i v. vault_of st (sealKey i) = Some v \<longrightarrow> has_text (vault_of st) (sealKey i))"

lemma backup_okD:
  assumes "backup_ok st"
  shows "distinct (map bt_id (bk_targets st))" "distinct (map po_id (bk_policies st))" "distinct (map policy_key (bk_policies st))"
    "t \<in> set (bk_targets st) \<Longrightarrow> target_ok (vault_of st) t"
    "p \<in> set (bk_policies st) \<Longrightarrow> policy_ok (target_ids st) (vault_of st) p"
    "vault_of st (sealKey i) = Some v \<Longrightarrow> has_text (vault_of st) (sealKey i)"
  using assms by (auto simp: backup_ok_def)

lemma backup_ok_frame:
  "backup_ok st \<Longrightarrow> bk_policies st' = bk_policies st \<Longrightarrow> bk_targets st' = bk_targets st \<Longrightarrow> bk_vault st' = bk_vault st \<Longrightarrow> backup_ok st'"
  by (simp add: backup_ok_def)

text \<open>The parts of a row the invariant looks at.\<close>

definition kept :: "policy \<Rightarrow> policy \<Rightarrow> bool" where
  "kept p q \<longleftrightarrow> po_id q = po_id p \<and> po_connectorInstanceId q = po_connectorInstanceId p \<and> po_stackName q = po_stackName p"

lemma policy_ok_mono:
  assumes "policy_ok T V p" and "T \<subseteq> T'" and "has_text V (sealKey (po_id p)) \<Longrightarrow> has_text V' (sealKey (po_id p))"
  shows "policy_ok T' V' p"
  using assms unfolding policy_ok_def by blast

lemma clamp_bounds: "lo \<le> hi \<Longrightarrow> lo \<le> clamp_num v lo hi \<and> clamp_num v lo hi \<le> hi"
  by (simp add: clamp_num_def)

lemma hooks_of_ok: "h \<in> set (hooks_of raw) \<Longrightarrow> hook_problem h = None"
  by (auto simp: hooks_of_def validateHooks_def find_None_iff split: option.splits)

lemma columns_schedule_ok: "schedule_ok (po_schedule (policy_columns inp p))"
  using clamp_bounds [of 0 6] clamp_bounds [of 1 28] clamp_bounds [of 0 23] clamp_bounds [of 0 59]
  by (force simp: policy_columns_def schedule_ok_def intro: order_le_less_trans)

lemma policy_columns_ok:
  assumes "policy_problem inp st = None"
  shows "policy_ok (target_ids st) V (policy_columns inp p) \<longleftrightarrow>
    (given (pi_frequency inp) Off \<noteq> Off \<and> given (pi_secretMode inp) ''embed'' = ''embed'' \<longrightarrow> has_text V (sealKey (po_id p)))"
proof -
  have "find_target st (pi_targetId inp) \<noteq> None" using assms by (auto simp: policy_problem_def split: if_splits)
  then have "pi_targetId inp \<in> target_ids st"
    by (auto simp: find_target_def intro: rev_image_eqI dest!: find_SomeD)
  moreover have "given (pi_quiesce inp) ''hot'' \<in> {''hot'', ''pause'', ''stop''}" "given (pi_transfer inp) ''direct'' \<in> {''direct'', ''relay''}"
    "given (pi_secretMode inp) ''embed'' \<in> {''embed'', ''raw'', ''reference''}"
    using assms unfolding policy_problem_def by (metis option.distinct(1))+
  moreover have "\<forall>h \<in> set (hooks_of (pi_preHooks inp) @ hooks_of (pi_postHooks inp)). hook_problem h = None"
    using hooks_of_ok by auto
  ultimately show ?thesis
    using columns_schedule_ok [of inp p] by (simp add: policy_ok_def policy_columns_def armed_def)
qed

lemma columns_kept: "kept p (policy_columns inp p)" "kept p (disarm p)"
  by (simp_all add: kept_def policy_columns_def disarm_def)

lemma kept_maps:
  assumes "\<And>p. kept p (f p)"
  shows "map po_id (rows_update P f ps) = map po_id ps" "map policy_key (rows_update P f ps) = map policy_key ps"
  using assms by (auto simp: rows_update_def kept_def policy_key_def)

lemma store_seal_vault:
  "vault_of (store_seal k inp st) x =
     (if x = sealKey k then (case pi_sealPassphrase inp of None \<Rightarrow> vault_of st x | Some s \<Rightarrow> if s \<noteq> [] then Some (Plain s) else None)
      else vault_of st x)"
  by (simp add: store_seal_def store_simps split: option.splits)

lemma store_seal_fields [simp]:
  "bk_policies (store_seal k inp st) = bk_policies st" "bk_targets (store_seal k inp st) = bk_targets st"
  by (simp_all add: store_seal_def split: option.splits)

lemma seals_stored:
  assumes "\<And>i v. vault_of st (sealKey i) = Some v \<Longrightarrow> has_text (vault_of st) (sealKey i)"
    and "vault_of (store_seal k inp st) (sealKey i) = Some v"
  shows "has_text (vault_of (store_seal k inp st)) (sealKey i)"
  using assms(1) [of i] assms(2) by (auto simp: has_text_def store_seal_vault split: option.splits if_splits)

lemma target_ok_seal: "target_ok (vault_of (store_seal k inp st)) t \<longleftrightarrow> target_ok (vault_of st) t"
  by (simp add: target_ok_def has_text_def has_pair_def store_seal_vault)

lemma disarmed_ok: "policy_ok T V p \<Longrightarrow> policy_ok T V' (disarm p)"
  by (simp add: policy_ok_def disarm_def armed_def schedule_ok_def)

text \<open>The table after the write: the saved row, and the others as they were.\<close>

lemma upsert_rows:
  assumes ok: "backup_ok st" and fresh: "List.find (same_stack inp) (bk_policies st) = None \<longrightarrow> find_policy st i = None"
    and up: "upsert_policy i inp st = (k, st1)"
  shows "distinct (map po_id (bk_policies st1))" "distinct (map policy_key (bk_policies st1))"
    and "p \<in> set (bk_policies st1) \<Longrightarrow> po_id p = k \<Longrightarrow> \<exists>q. p = policy_columns inp q"
    and "p \<in> set (bk_policies st1) \<Longrightarrow> po_id p \<noteq> k \<Longrightarrow> p \<in> set (bk_policies st)"
proof -
  have inj: "p = q" if "p \<in> set (bk_policies st)" "q \<in> set (bk_policies st)" "po_id p = po_id q" for p q
    using backup_okD(2) [OF ok] that by (simp add: distinct_map inj_on_def)
  have inj_key: "p = q" if "p \<in> set (bk_policies st)" "q \<in> set (bk_policies st)" "same_stack inp p" "same_stack inp q" for p q
    using backup_okD(3) [OF ok] that by (auto simp: distinct_map inj_on_def policy_key_def same_stack_def)
  consider (new) "List.find (same_stack inp) (bk_policies st) = None" "k = i"
      "bk_policies st1 = bk_policies st @ [policy_columns inp (blank_policy i inp (bk_now st))]"
    | (old) q where "q \<in> set (bk_policies st)" "same_stack inp q" "k = po_id q"
      "bk_policies st1 = rows_update (same_stack inp) (policy_columns inp) (bk_policies st)"
    using up by (cases "List.find (same_stack inp) (bk_policies st)") (auto simp: upsert_policy_def dest: find_SomeD)
  note cases = this
  have blank: "po_id (policy_columns inp (blank_policy i inp t)) = i"
    "policy_key (policy_columns inp (blank_policy i inp t)) = (pi_connectorInstanceId inp, pi_stackName inp)" for t
    by (simp_all add: policy_columns_def blank_policy_def policy_key_def)
  show "distinct (map po_id (bk_policies st1))"
    using cases
  proof cases
    case new
    then show ?thesis using fresh backup_okD(2) [OF ok] by (auto simp: find_policy_def find_None_iff blank)
  next
    case old
    then show ?thesis using backup_okD(2) [OF ok] by (simp add: kept_maps columns_kept)
  qed
  show "distinct (map policy_key (bk_policies st1))"
    using cases
  proof cases
    case new
    then have "(pi_connectorInstanceId inp, pi_stackName inp) \<notin> policy_key ` set (bk_policies st)"
      by (auto simp: find_None_iff policy_key_def same_stack_def)
    then show ?thesis using new(3) backup_okD(3) [OF ok] by (simp add: blank)
  next
    case old
    then show ?thesis using backup_okD(3) [OF ok] by (simp add: kept_maps columns_kept)
  qed
  assume p: "p \<in> set (bk_policies st1)"
  have row: "\<exists>r \<in> set (bk_policies st). p = (if same_stack inp r then policy_columns inp r else r) \<and> po_id p = po_id r"
    if "bk_policies st1 = rows_update (same_stack inp) (policy_columns inp) (bk_policies st)"
    using p that by (auto simp: in_rows_update policy_columns_def)
  show "\<exists>q. p = policy_columns inp q" if k: "po_id p = k"
    using cases
  proof cases
    case new
    then show ?thesis using p k fresh by (auto simp: find_policy_def find_None_iff)
  next
    case (old q)
    then obtain r where r: "r \<in> set (bk_policies st)" "p = (if same_stack inp r then policy_columns inp r else r)" "po_id p = po_id r"
      using row by blast
    then have "r = q" using inj old(1,3) k by simp
    then show ?thesis using r(2) old(2) by auto
  qed
  show "p \<in> set (bk_policies st)" if k: "po_id p \<noteq> k"
    using cases
  proof cases
    case new
    then show ?thesis using p k by (auto simp: blank)
  next
    case (old q)
    then obtain r where r: "r \<in> set (bk_policies st)" "p = (if same_stack inp r then policy_columns inp r else r)" "po_id p = po_id r"
      using row by blast
    then have "\<not> same_stack inp r" using inj_key [of r q] old(1-3) k by auto
    then show ?thesis using r by simp
  qed
qed

lemma save_ok:
  assumes ok: "backup_ok st"
  shows "backup_ok (snd (savePolicy i inp st))"
proof (cases "policy_problem inp st = None \<and> \<not> (List.find (same_stack inp) (bk_policies st) = None \<and> find_policy st i \<noteq> None)")
  case False
  then show ?thesis using ok by (auto simp: savePolicy_def split: option.splits)
next
  case True
  obtain k st1 where up: "upsert_policy i inp st = (k, st1)" by fastforce
  define st2 where "st2 = store_seal k inp st1"
  have same1: "bk_targets st1 = bk_targets st" "bk_vault st1 = bk_vault st" using up by (auto simp: upsert_policy_def split: option.splits)
  have fresh: "List.find (same_stack inp) (bk_policies st) = None \<longrightarrow> find_policy st i = None" using True by auto
  note rows = upsert_rows [OF ok fresh up]
  have seals: "has_text (vault_of st2) (sealKey j)" if "vault_of st2 (sealKey j) = Some v" for j v
    using seals_stored [of st1 k inp j v] backup_okD(6) [OF ok] that by (simp add: st2_def same1)
  have targets: "target_ok (vault_of st2) t" if "t \<in> set (bk_targets st)" for t
    using backup_okD(4) [OF ok that] by (simp add: st2_def target_ok_seal same1)
  have other: "policy_ok (target_ids st) (vault_of st2) p" if "p \<in> set (bk_policies st1)" "po_id p \<noteq> k" for p
    by (rule policy_ok_mono [OF backup_okD(5) [OF ok rows(4) [OF that]] subset_refl])
      (use that(2) in \<open>simp add: has_text_def st2_def store_seal_vault same1\<close>)
  let ?need = "given (pi_frequency inp) Off \<noteq> Off \<and> given (pi_secretMode inp) ''embed'' = ''embed''"
  have saved: "policy_ok (target_ids st) V p \<longleftrightarrow> (?need \<longrightarrow> has_text V (sealKey k))" if p: "p \<in> set (bk_policies st1)" "po_id p = k" for p V
  proof -
    obtain q where "p = policy_columns inp q" using rows(3) [OF p] by blast
    then show ?thesis using policy_columns_ok [of inp st V q] True p(2) by (simp add: policy_columns_def)
  qed
  have policies2: "bk_policies st2 = bk_policies st1" "bk_targets st2 = bk_targets st" by (simp_all add: st2_def same1)
  show ?thesis
  proof (cases "?need \<and> \<not> map_has (bk_vault st2) (sealKey k)")
    case armed: True
    let ?st = "st2\<lparr>bk_policies := rows_update (\<lambda>p. po_id p = k) disarm (bk_policies st2)\<rparr>"
    have "policy_ok (target_ids st) (vault_of st2) q" if "q \<in> set (bk_policies ?st)" for q
    proof -
      obtain p where p: "p \<in> set (bk_policies st1)" "q = (if po_id p = k then disarm p else p)"
        using \<open>q \<in> _\<close> by (auto simp: in_rows_update policies2)
      show ?thesis
      proof (cases "po_id p = k")
        case True
        then have "policy_ok (target_ids st) (\<lambda>_. Some (Plain ''x'')) p" using saved [OF p(1)] by (simp add: has_text_def)
        then show ?thesis using p(2) True disarmed_ok by simp
      qed (use p other in auto)
    qed
    then have "backup_ok ?st"
      using rows(1,2) seals targets backup_okD(1) [OF ok] by (simp add: backup_ok_def kept_maps columns_kept policies2)
    moreover have "snd (savePolicy i inp st) = ?st"
      using True armed up by (auto simp: savePolicy_def st2_def Let_def)
    ultimately show ?thesis by simp
  next
    case False
    then have "?need \<longrightarrow> has_text (vault_of st2) (sealKey k)" using seals by (auto simp: map_has_def map_get_def)
    then have "policy_ok (target_ids st) (vault_of st2) p" if "p \<in> set (bk_policies st1)" for p
      using other [OF that] saved [OF that] by (cases "po_id p = k") auto
    then have "backup_ok st2"
      using rows(1,2) seals targets backup_okD(1) [OF ok] by (simp add: backup_ok_def policies2)
    moreover have "snd (savePolicy i inp st) = st2"
      using True False up by (auto simp: savePolicy_def st2_def Let_def)
    ultimately show ?thesis by simp
  qed
qed

lemma write_vault:
  "vault_of (writeCredentials i inp st) k =
     (if k = hostCredKeyFor i \<and> ti_hostAccessKeyId inp \<noteq> [] \<and> ti_hostSecretAccessKey inp \<noteq> []
      then Some (Credential (ti_hostAccessKeyId inp) (ti_hostSecretAccessKey inp))
      else if k = credKeyFor i \<and> ti_accessKeyId inp \<noteq> [] \<and> ti_secretAccessKey inp \<noteq> []
      then Some (Credential (ti_accessKeyId inp) (ti_secretAccessKey inp))
      else if k = passwordKeyFor i \<and> ti_password inp \<noteq> [] then Some (Plain (ti_password inp)) else vault_of st k)"
  by (simp add: writeCredentials_def Let_def store_simps)

lemma write_fields [simp]:
  "bk_policies (writeCredentials i inp st) = bk_policies st" "bk_targets (writeCredentials i inp st) = bk_targets st"
  by (simp_all add: writeCredentials_def Let_def)

lemma write_keeps:
  "has_text (vault_of st) (passwordKeyFor j) \<Longrightarrow> has_text (vault_of (writeCredentials i inp st)) (passwordKeyFor j)"
  "has_pair (vault_of st) (credKeyFor j) \<Longrightarrow> has_pair (vault_of (writeCredentials i inp st)) (credKeyFor j)"
  "has_pair (vault_of st) (hostCredKeyFor j) \<Longrightarrow> has_pair (vault_of (writeCredentials i inp st)) (hostCredKeyFor j)"
  "vault_of (writeCredentials i inp st) (sealKey j) = vault_of st (sealKey j)"
  by (auto simp: has_text_def has_pair_def write_vault)

lemma write_seal: "has_text (vault_of (writeCredentials i inp st)) (sealKey j) \<longleftrightarrow> has_text (vault_of st) (sealKey j)"
  by (simp add: has_text_def write_keeps(4))

lemma write_target: "target_ok (vault_of st) t \<Longrightarrow> target_ok (vault_of (writeCredentials i inp st)) t"
  unfolding target_ok_def using write_keeps(1-3) by blast

lemma retention_columns_fields [simp]:
  "bt_id (retention_columns inp t) = bt_id t" "bt_passwordKey (retention_columns inp t) = bt_passwordKey t"
  "bt_credKey (retention_columns inp t) = bt_credKey t" "bt_hostCredKey (retention_columns inp t) = bt_hostCredKey t"
  by (simp_all add: retention_columns_def)

lemma create_ok:
  assumes ok: "backup_ok st"
  shows "backup_ok (snd (target_create i inp st))"
proof (cases "target_problem inp = None \<and> ti_password inp \<noteq> [] \<and> ti_accessKeyId inp \<noteq> [] \<and> ti_secretAccessKey inp \<noteq> [] \<and>
    find_target st i = None")
  case False
  then show ?thesis using ok by (auto simp: target_create_def split: option.splits)
next
  case True
  let ?st = "snd (target_create i inp st)"
  obtain t where t: "bk_targets ?st = bk_targets st @ [t]" "bk_policies ?st = bk_policies st"
    "bk_vault ?st = bk_vault (writeCredentials i inp st)" "bt_id t = i" "bt_passwordKey t = passwordKeyFor i" "bt_credKey t = credKeyFor i"
    "bt_hostCredKey t = (if ti_hostAccessKeyId inp \<noteq> [] \<and> ti_hostSecretAccessKey inp \<noteq> [] then Some (hostCredKeyFor i) else None)"
    using True by (simp add: target_create_def Let_def writeCredentials_def)
  have new: "target_ok (vault_of (writeCredentials i inp st)) t"
    using True by (simp add: target_ok_def t has_text_def has_pair_def write_vault)
  have "i \<notin> target_ids st" using True by (auto simp: find_target_def find_None_iff)
  then have "distinct (map bt_id (bk_targets ?st))" using backup_okD(1) [OF ok] by (simp add: t)
  moreover have "target_ok (vault_of ?st) x" if "x \<in> set (bk_targets ?st)" for x
    using that new backup_okD(4) [OF ok] write_target by (auto simp: t)
  moreover have "policy_ok (target_ids ?st) (vault_of ?st) p" if "p \<in> set (bk_policies ?st)" for p
    using that backup_okD(5) [OF ok, of p] by (auto simp: t write_seal elim!: policy_ok_mono)
  ultimately show ?thesis
    using backup_okD(2,3,6) [OF ok] by (simp add: backup_ok_def t(2,3) write_keeps(4) write_seal)
qed

lemma update_ok:
  assumes ok: "backup_ok st"
  shows "backup_ok (snd (target_update i inp st))"
proof (cases "target_problem inp = None \<and> find_target st i \<noteq> None")
  case False
  then show ?thesis using ok by (auto simp: target_update_def split: option.splits)
next
  case True
  then obtain existing where e: "find_target st i = Some existing" by blast
  let ?st = "snd (target_update i inp st)"
  obtain f where f: "bk_targets ?st = rows_update (\<lambda>t. bt_id t = i) f (bk_targets st)" "bk_policies ?st = bk_policies st"
    "bk_vault ?st = bk_vault (writeCredentials i inp st)" "\<And>t. bt_id (f t) = bt_id t" "\<And>t. bt_passwordKey (f t) = passwordKeyFor i"
    "\<And>t. bt_credKey (f t) = credKeyFor i"
    "\<And>t. bt_hostCredKey (f t) = (if ti_hostAccessKeyId inp \<noteq> [] \<and> ti_hostSecretAccessKey inp \<noteq> [] then Some (hostCredKeyFor i)
       else bt_hostCredKey existing)"
    using True e by (simp add: target_update_def Let_def writeCredentials_def)
  have ids: "map bt_id (bk_targets ?st) = map bt_id (bk_targets st)" by (simp add: f rows_update_def)
  then have id_set: "target_ids ?st = target_ids st" by (metis ids set_map)
  have ex: "existing \<in> set (bk_targets st)" "bt_id existing = i" using e find_SomeD by (fastforce simp: find_target_def)+
  have "target_ok (vault_of ?st) x" if x: "x \<in> set (bk_targets ?st)" for x
  proof -
    obtain t where t: "t \<in> set (bk_targets st)" "x = (if bt_id t = i then f t else t)" using x unfolding f in_rows_update by blast
    have old: "target_ok (vault_of (writeCredentials i inp st)) existing" using write_target backup_okD(4) [OF ok ex(1)] .
    show ?thesis
    proof (cases "bt_id t = i")
      case True
      then show ?thesis
        using old t(2) ex(2) by (auto simp: target_ok_def f has_pair_def write_vault)
    qed (use t write_target backup_okD(4) [OF ok t(1)] in \<open>auto simp: f\<close>)
  qed
  moreover have "policy_ok (target_ids st) (vault_of ?st) p" if "p \<in> set (bk_policies st)" for p
    using backup_okD(5) [OF ok that] by (rule policy_ok_mono) (simp_all add: f write_seal)
  ultimately show ?thesis
    using backup_okD(1,2,3,6) [OF ok] unfolding backup_ok_def id_set by (simp add: ids f(2,3) write_keeps(4) write_seal)
qed

lemma remove_target_ok:
  assumes ok: "backup_ok st"
  shows "backup_ok (snd (target_remove i st))"
proof (cases "filter (\<lambda>p. po_targetId p = i) (bk_policies st) = [] \<and> find_target st i \<noteq> None")
  case False
  then show ?thesis using ok by (auto simp: target_remove_def Let_def)
next
  case True
  let ?st = "snd (target_remove i st)"
  have f: "bk_targets ?st = filter (\<lambda>t. bt_id t \<noteq> i) (bk_targets st)" "bk_policies ?st = bk_policies st"
    and v: "vault_of ?st k = (if k \<in> {passwordKeyFor i, credKeyFor i, hostCredKeyFor i} then None else vault_of st k)" for k
    using True by (auto simp: target_remove_def Let_def store_simps)
  have unused: "po_targetId p \<noteq> i" if "p \<in> set (bk_policies st)" for p using True that by (auto simp: filter_empty_conv)
  have "target_ok (vault_of ?st) t" if "t \<in> set (bk_targets ?st)" for t
    using that backup_okD(4) [OF ok, of t] by (auto simp: f target_ok_def has_text_def has_pair_def v)
  moreover have "policy_ok (target_ids ?st) (vault_of ?st) p" if p: "p \<in> set (bk_policies st)" for p
  proof -
    have "po_targetId p \<in> target_ids ?st"
      using backup_okD(5) [OF ok p] unused [OF p] by (auto simp: policy_ok_def f)
    then show ?thesis using backup_okD(5) [OF ok p] by (simp add: policy_ok_def has_text_def v)
  qed
  moreover have "distinct (map bt_id (bk_targets ?st))" using backup_okD(1) [OF ok] by (simp add: f distinct_map_filter)
  ultimately show ?thesis
    using backup_okD(2,3,6) [OF ok] by (simp add: backup_ok_def f(2) has_text_def v)
qed

lemma remove_policy_ok:
  assumes ok: "backup_ok st"
  shows "backup_ok (snd (removePolicy i st))"
proof (cases "find_policy st i")
  case None
  then show ?thesis using ok by (simp add: removePolicy_def)
next
  case (Some x)
  let ?st = "snd (removePolicy i st)"
  have f: "bk_targets ?st = bk_targets st" "bk_policies ?st = filter (\<lambda>p. po_id p \<noteq> i) (bk_policies st)"
    and v: "vault_of ?st k = (if k = sealKey i then None else vault_of st k)" for k
    using Some by (simp_all add: removePolicy_def store_simps)
  have "policy_ok (target_ids ?st) (vault_of ?st) p" if "p \<in> set (bk_policies ?st)" for p
    using that backup_okD(5) [OF ok, of p] by (auto simp: f has_text_def v elim!: policy_ok_mono)
  moreover have "target_ok (vault_of ?st) t" if "t \<in> set (bk_targets st)" for t
    using backup_okD(4) [OF ok that] by (simp add: target_ok_def has_text_def has_pair_def v)
  ultimately show ?thesis
    using backup_okD(1,2,3,6) [OF ok] by (simp add: backup_ok_def f distinct_map_filter has_text_def v split: if_splits)
qed

lemma finish_ok:
  assumes ok: "backup_ok st"
  shows "backup_ok (finish_run rid pid status message st)"
proof -
  have "policy_ok T V (p\<lparr>po_lastRunAt := a, po_lastStatus := b, po_lastMessage := c\<rparr>) \<longleftrightarrow> policy_ok T V p" for T V p a b c
    by (simp add: policy_ok_def armed_def)
  then show ?thesis
    using backup_okD [OF ok]
    by (auto simp: backup_ok_def finish_run_def Let_def kept_maps kept_def in_rows_update)
qed

lemma create_run_fields [simp]:
  "bk_policies (snd (startBackup_create rid s st)) = bk_policies st" "bk_targets (snd (startBackup_create rid s st)) = bk_targets st"
  "bk_vault (snd (startBackup_create rid s st)) = bk_vault st"
  by (simp_all add: startBackup_create_def Let_def)

lemma create_run_snd:
  "startBackup_create rid s st = (r, st1) \<Longrightarrow>
     bk_policies st1 = bk_policies st \<and> bk_targets st1 = bk_targets st \<and> bk_vault st1 = bk_vault st"
  using create_run_fields [of rid s st] by simp

lemma job_fields [simp]:
  "bk_policies (release k st) = bk_policies st" "bk_targets (release k st) = bk_targets st" "bk_vault (release k st) = bk_vault st"
  "bk_policies (reserve t h st) = bk_policies st" "bk_targets (reserve t h st) = bk_targets st" "bk_vault (reserve t h st) = bk_vault st"
  "bk_policies (consider_policy now p st) = bk_policies st" "bk_targets (consider_policy now p st) = bk_targets st"
  "bk_vault (consider_policy now p st) = bk_vault st"
  by (simp_all add: release_def reserve_def consider_policy_def Let_def)

lemma tick_fields [simp]:
  "bk_policies (tick st) = bk_policies st" "bk_targets (tick st) = bk_targets st" "bk_vault (tick st) = bk_vault st"
proof -
  have "bk_policies (fold (consider_policy now) ps s) = bk_policies s \<and> bk_targets (fold (consider_policy now) ps s) = bk_targets s \<and>
      bk_vault (fold (consider_policy now) ps s) = bk_vault s" for now ps s
    by (induction ps arbitrary: s) simp_all
  then show "bk_policies (tick st) = bk_policies st" "bk_targets (tick st) = bk_targets st" "bk_vault (tick st) = bk_vault st"
    by (simp_all add: tick_def)
qed

lemma advance_fields [simp]:
  "bk_policies (advance_job k rid st) = bk_policies st" "bk_targets (advance_job k rid st) = bk_targets st"
  "bk_vault (advance_job k rid st) = bk_vault st"
  by (auto simp: advance_job_def split: prod.splits holder.splits sum.splits dest: create_run_snd)

lemma backup_step_ok: "backup_ok st \<Longrightarrow> backup_ok (backup_step isoDay st e)"
proof (cases e)
  case (Bk_ask i pass)
  assume "backup_ok st"
  then show ?thesis by (auto simp: Bk_ask split: sum.splits elim: backup_ok_frame)
qed (auto simp: create_ok update_ok remove_target_ok save_ok remove_policy_ok finish_ok maintenance_begin_def maintenance_end_def
    staleness_def split: option.splits elim: backup_ok_frame)

interpretation backups: event_machine "backup_step isoDay" backup_ok for isoDay
  by unfold_locales (rule backup_step_ok)

lemma new_backup_ok: "backup_ok (new_backup hosts now)"
  by (simp add: backup_ok_def new_backup_def map_get_def)


text \<open>
  A stored repository opens: both credentials it names are in the vault and readable, and a Docker
  host is handed the host credential whenever one is configured, never the full one.
\<close>

theorem stored_target_opens:
  assumes "find_target (foldl (backup_step isoDay) (new_backup hosts now) es) i = Some t"
  shows "(\<exists>a. authFor i (foldl (backup_step isoDay) (new_backup hosts now) es) = Inr a) \<and>
    (\<exists>a. hostAuthFor i (foldl (backup_step isoDay) (new_backup hosts now) es) = Inr a \<and>
       (bt_hostCredKey t \<noteq> None \<longrightarrow> map_get (bk_vault (foldl (backup_step isoDay) (new_backup hosts now) es)) (hostCredKeyFor i) =
          Some (Credential (ra_accessKeyId a) (ra_secretAccessKey a))))"
proof -
  let ?st = "foldl (backup_step isoDay) (new_backup hosts now) es"
  have "t \<in> set (bk_targets ?st)" "bt_id t = i" using find_SomeD assms by (fastforce simp: find_target_def)+
  then have ok: "target_ok (vault_of ?st) t" "bt_id t = i"
    using backups.inv_run [OF new_backup_ok, of isoDay hosts now es] by (auto simp: backup_ok_def)
  have "hostCredKeyFor i \<noteq> []" by (simp add: hostCredKeyFor_def)
  then show ?thesis
    using assms ok
    by (auto simp: authFor_def hostAuthFor_def buildAuth_def target_ok_def has_text_def has_pair_def reveal_text_def nonempty_def)
qed

section \<open>One job at a time on a repository\<close>
















lemma scheduler_fields [simp]:
  "bk_jobs (snd (target_create i inp st)) = bk_jobs st" "bk_jobs (snd (target_update i inp st)) = bk_jobs st"
  "bk_jobs (snd (target_remove i st)) = bk_jobs st" "bk_jobs (snd (savePolicy i pinp st)) = bk_jobs st"
  "bk_busy (snd (target_create i inp st)) = bk_busy st" "bk_busy (snd (target_update i inp st)) = bk_busy st"
  "bk_busy (snd (target_remove i st)) = bk_busy st" "bk_busy (snd (savePolicy i pinp st)) = bk_busy st"
  "bk_runs (snd (target_create i inp st)) = bk_runs st" "bk_runs (snd (target_update i inp st)) = bk_runs st"
  "bk_runs (snd (target_remove i st)) = bk_runs st" "bk_runs (snd (savePolicy i pinp st)) = bk_runs st"
  "bk_starts (snd (target_create i inp st)) = bk_starts st" "bk_starts (snd (target_update i inp st)) = bk_starts st"
  "bk_starts (snd (target_remove i st)) = bk_starts st" "bk_starts (snd (savePolicy i pinp st)) = bk_starts st"
  "bk_now (snd (target_create i inp st)) = bk_now st" "bk_now (snd (target_update i inp st)) = bk_now st"
  "bk_now (snd (target_remove i st)) = bk_now st" "bk_now (snd (savePolicy i pinp st)) = bk_now st"
  by (auto simp: target_create_def target_update_def target_remove_def savePolicy_def writeCredentials_def upsert_policy_def store_seal_def
    Let_def split: option.splits)





text \<open>
  The next run a client is shown for a stored policy with a schedule is the next minute in which the
  tick finds the policy due.
\<close>

theorem shown_run_is_due:
  assumes p: "p \<in> set (bk_policies (foldl (backup_step isoDay) (new_backup hosts t0) es))"
    and on: "po_enabled p" "sc_frequency (po_schedule p) \<in> {Daily, Weekly, Monthly}" and now: "0 \<le> now"
  shows "\<exists>t. shown_next_run p now = Some t \<and> now < t \<and>
    p \<in> set (duePolicies t (foldl (backup_step isoDay) (new_backup hosts t0) es)) \<and>
    (\<forall>u. now < u \<and> u < t \<and> p \<in> set (duePolicies u (foldl (backup_step isoDay) (new_backup hosts t0) es)) \<longrightarrow>
       u div 60000 = now div 60000)"
proof -
  have "schedule_ok (po_schedule p)"
    using backups.inv_run [OF new_backup_ok, of isoDay hosts t0 es] p by (auto simp: backup_ok_def policy_ok_def)
  from next_run_is_first_due [OF this on(2) now] show ?thesis
    using p on by (auto simp: shown_next_run_def scheduleOf_def duePolicies_def)
qed

section \<open>An example\<close>

definition demo_target :: target_input where
  "demo_target = \<lparr>ti_name = ''nas'', ti_kind = ''b2'', ti_repository = ''b2:x'', ti_password = ''pw'', ti_accessKeyId = ''a'',
     ti_secretAccessKey = ''b'', ti_hostAccessKeyId = ''c'', ti_hostSecretAccessKey = ''d'', ti_helperImage = [],
     ti_keepLast = Some 7, ti_keepDaily = None, ti_keepWeekly = None, ti_keepMonthly = None, ti_keepWithinDays = None\<rparr>"

definition demo_policy :: "string \<Rightarrow> policy_input" where
  "demo_policy stack = \<lparr>pi_connectorInstanceId = ''h'', pi_stackName = stack, pi_targetId = ''t'', pi_enabled = None,
     pi_frequency = Some Daily, pi_dayOfWeek = JUndef, pi_dayOfMonth = JUndef, pi_hour = JUndef, pi_minute = JUndef, pi_quiesce = None,
     pi_transfer = None, pi_secretMode = Some ''raw'', pi_includeBinds = [], pi_excludes = [], pi_preHooks = JUndef, pi_postHooks = JUndef,
     pi_sealPassphrase = None\<rparr>"

definition demo_backup :: "backup_event list" where
  "demo_backup = [Bk_target_create ''t'' demo_target, Bk_save ''p'' (demo_policy ''web''), Bk_save ''q'' (demo_policy ''db'')]"

definition demo_day :: "time \<Rightarrow> string" where "demo_day t = ''2026-01-01''"

abbreviation demo_state :: backup where
  "demo_state \<equiv> foldl (backup_step demo_day) (new_backup [''h''] 10800000) demo_backup"

definition demo_row :: "string \<Rightarrow> string \<Rightarrow> policy" where
  "demo_row i stack = \<lparr>po_id = i, po_connectorInstanceId = ''h'', po_stackName = stack, po_targetId = ''t'', po_enabled = True,
     po_schedule = \<lparr>sc_frequency = Daily, sc_dayOfWeek = 0, sc_dayOfMonth = 1, sc_hour = 3, sc_minute = 0\<rparr>, po_quiesce = ''hot'',
     po_transfer = ''direct'', po_secretMode = ''raw'', po_includeBinds = [], po_excludes = [], po_preHooks = [], po_postHooks = [],
     po_lastRunAt = None, po_lastStatus = ''never'', po_lastMessage = None, po_createdAt = 10800000\<rparr>"

lemma demo_policies: "bk_policies demo_state = [demo_row ''p'' ''web'', demo_row ''q'' ''db'']"
  by code_simp

lemma demo_target_row: "map_option bt_hostCredKey (find_target demo_state ''t'') = Some (Some (hostCredKeyFor ''t''))"
  by code_simp


lemma stored_target_opens_witness: "\<exists>a. hostAuthFor ''t'' demo_state = Inr a"
proof -
  obtain t where "find_target demo_state ''t'' = Some t" using demo_target_row by (cases "find_target demo_state ''t''") auto
  then show ?thesis using stored_target_opens by blast
qed

lemma shown_run_is_due_witness: "\<exists>t. shown_next_run (demo_row ''p'' ''web'') 10900000 = Some t \<and> 10900000 < t"
proof -
  have "demo_row ''p'' ''web'' \<in> set (bk_policies demo_state)" by (simp add: demo_policies)
  from shown_run_is_due [OF this, of 10900000] show ?thesis by (auto simp: demo_row_def)
qed

text \<open>Both policies are due at three; the tick starts the first and defers the second.\<close>

definition demo_night :: "backup_event list" where
  "demo_night = demo_backup @ [Bk_tick, Bk_job 0 [], Bk_job 0 ''r'']"



text \<open>
  A deferred policy is not taken up again: its minute is marked as fired, and no other minute is due. After the
  first backup has ended the second has still no run and no job.
\<close>

lemma deferred_is_dropped:
  "map (\<lambda>r. rn_policyId r) (bk_runs (foldl (backup_step demo_day) (new_backup [''h''] 10800000)
      (demo_night @ [Bk_finish ''r'' ''p'' ''success'' ''ok'', Bk_job 0 [], Bk_pass 30000, Bk_tick, Bk_pass 30000, Bk_tick]))) = [Some ''p''] \<and>
   bk_jobs (foldl (backup_step demo_day) (new_backup [''h''] 10800000)
      (demo_night @ [Bk_finish ''r'' ''p'' ''success'' ''ok'', Bk_job 0 [], Bk_pass 30000, Bk_tick, Bk_pass 30000, Bk_tick])) = []"
  by code_simp

text \<open>Two requests that both pass the check before either has created its row run the same policy twice.\<close>

lemma double_start:
  "map rn_policyId (filter (\<lambda>r. rn_status r = ''running'') (bk_runs (foldl (backup_step demo_day) (new_backup [''h''] 10800000)
     (demo_backup @ [Bk_ask ''p'' None, Bk_ask ''p'' None, Bk_start 0 ''r1'', Bk_start 0 ''r2''])))) = [Some ''p'', Some ''p'']"
  by code_simp

text \<open>A frequency that is none of the four is saved, shown with a next run and never due.\<close>

lemma unknown_frequency_saved:
  "fst (savePolicy ''n'' (demo_policy ''new''\<lparr>pi_frequency := Some (Other ''hourly'')\<rparr>) demo_state) = Inr ''n''"
  by code_simp

end
