(* ===== verification/Backup_Run.thy ===== *)
theory Backup_Run
  imports Stack_Backup
begin

text \<open>
  The capture of a stack: quoting and the helper container (\<^verbatim>\<open>stack-backup/helper-runner.ts\<close>), freezing the
  stack and its dump hooks (\<^verbatim>\<open>quiesce.ts\<close>), the plan and the staging area of relay transfer
  (\<^verbatim>\<open>relay.ts\<close> and the relay branch of \<^verbatim>\<open>StackBackupService.execute\<close>), and the names of verify
  sandboxes (\<^verbatim>\<open>sandbox.ts\<close>, with \<^verbatim>\<open>teardown\<close> of \<^verbatim>\<open>stack-restore.service.ts\<close>). The Docker daemon
  and the remote shell are parameters: functions from what was asked of them so far to their answer.
\<close>

section \<open>Quoting for the shell\<close>

definition quote :: char where "quote = CHR 0x27"
definition backslash :: char where "backslash = CHR 0x5C"

text \<open>\<^verbatim>\<open>q\<close> of \<^verbatim>\<open>helper-runner.ts\<close> and \<^verbatim>\<open>quiesce.ts\<close>, \<^verbatim>\<open>shellQuote\<close> of \<^verbatim>\<open>docker-ssh.ts\<close>.\<close>

definition shell_quote :: "string \<Rightarrow> string" where
  "shell_quote v = quote # concat (map (\<lambda>c. if c = quote then [quote, backslash, quote, quote] else [c]) v) @ [quote]"

text \<open>
  How a POSIX shell splits a simple command into words: quotes, backslashes and blanks; \<open>None\<close> for an
  unquoted character that means anything else to it, and for a quote that is not closed.
\<close>

definition inert :: "char \<Rightarrow> bool" where
  "inert c \<longleftrightarrow> is_alpha c \<or> is_digit c \<or> c \<in> set ''-_./:=,@+%''"

datatype lexing = Gap | Word string | Quoted string

fun sh_words :: "lexing \<Rightarrow> string \<Rightarrow> string list option" where
  "sh_words Gap [] = Some []"
| "sh_words (Word w) [] = Some [w]"
| "sh_words (Quoted w) [] = None"
| "sh_words (Quoted w) (c # cs) = (if c = quote then sh_words (Word w) cs else sh_words (Quoted (w @ [c])) cs)"
| "sh_words (Word w) (c # cs) =
     (if c = CHR '' '' then map_option (Cons w) (sh_words Gap cs)
      else if c = quote then sh_words (Quoted w) cs
      else if c = backslash then (case cs of [] \<Rightarrow> None | d # ds \<Rightarrow> sh_words (Word (w @ [d])) ds)
      else if inert c then sh_words (Word (w @ [c])) cs
      else None)"
| "sh_words Gap (c # cs) =
     (if c = CHR '' '' then sh_words Gap cs
      else if c = quote then sh_words (Quoted []) cs
      else if c = backslash then (case cs of [] \<Rightarrow> None | d # ds \<Rightarrow> sh_words (Word [d]) ds)
      else if inert c then sh_words (Word [c]) cs
      else None)"



definition line_feed :: char where "line_feed = CHR 0x0A"


















section \<open>Quoted words come out as they went in\<close>



lemma sh_space: "sh_words (Word w) (CHR '' '' # rest) = map_option (Cons w) (sh_words Gap rest)"
  by simp









section \<open>Freezing the stack\<close>

datatype docker_call = Pause string | Unpause string | Stop string | Start string

record container =
  cn_id :: string
  cn_name :: string
  cn_service :: "string option"
  cn_state :: string
  cn_created :: "int option"

text \<open>The daemon, and what the run has asked of it and logged so far.\<close>

type_synonym daemon = "docker_call list \<Rightarrow> docker_call \<Rightarrow> string option"

record capture =
  ca_calls :: "docker_call list"
  ca_log :: "string list"

definition say :: "string \<Rightarrow> capture \<Rightarrow> capture" where "say l w = w\<lparr>ca_log := ca_log w @ [l]\<rparr>"

definition docker :: "daemon \<Rightarrow> docker_call \<Rightarrow> capture \<Rightarrow> string option \<times> capture" where
  "docker d c w = (d (ca_calls w) c, w\<lparr>ca_calls := ca_calls w @ [c]\<rparr>)"

datatype quiesce_mode = Hot | Pausing | Stopping

definition freeze :: "quiesce_mode \<Rightarrow> container \<Rightarrow> docker_call" where
  "freeze m c = (if m = Pausing then Pause (cn_id c) else Stop (cn_id c))"

definition thaw :: "quiesce_mode \<Rightarrow> container \<Rightarrow> docker_call" where
  "thaw m c = (if m = Pausing then Unpause (cn_id c) else Start (cn_id c))"

definition mode_name :: "quiesce_mode \<Rightarrow> string" where
  "mode_name m = (case m of Hot \<Rightarrow> ''hot'' | Pausing \<Rightarrow> ''pause'' | Stopping \<Rightarrow> ''stop'')"

text \<open>The containers to freeze, the youngest first.\<close>

definition freeze_targets :: "container list \<Rightarrow> container list" where
  "freeze_targets cs = sort_key (\<lambda>c. - (case cn_created c of None \<Rightarrow> 0 | Some t \<Rightarrow> t))
     (filter (\<lambda>c. cn_state c \<in> {''running'', ''restarting''}) cs)"

fun thaw_each :: "daemon \<Rightarrow> quiesce_mode \<Rightarrow> container list \<Rightarrow> nat \<Rightarrow> capture \<Rightarrow> nat \<times> capture" where
  "thaw_each d m [] broken w = (broken, w)"
| "thaw_each d m (c # cs) broken w =
     (case docker d (thaw m c) w of
        (None, w1) \<Rightarrow> thaw_each d m cs broken w1
      | (Some e, w1) \<Rightarrow> thaw_each d m cs (Suc broken) (say (''WARNING: could not bring '' @ cn_name c @ '' back: '' @ e) w1))"

definition resumeAll :: "daemon \<Rightarrow> quiesce_mode \<Rightarrow> container list \<Rightarrow> capture \<Rightarrow> capture" where
  "resumeAll d m frozen w =
     (case thaw_each d m (rev frozen) 0 w of (broken, w1) \<Rightarrow>
        if frozen = [] then w1
        else say (if broken \<noteq> 0
          then ''Resumed '' @ show_int (int (length frozen - broken)) @ '' of '' @ show_int (int (length frozen)) @ '' container(s) - '' @
            show_int (int broken) @ '' need attention.''
          else ''Resumed '' @ show_int (int (length frozen)) @ '' container(s).'') w1)"

fun freeze_each :: "daemon \<Rightarrow> quiesce_mode \<Rightarrow> container list \<Rightarrow> container list \<Rightarrow> capture \<Rightarrow> (string + container list) \<times> capture" where
  "freeze_each d m [] frozen w = (Inr frozen, w)"
| "freeze_each d m (c # cs) frozen w =
     (case docker d (freeze m c) w of
        (None, w1) \<Rightarrow> freeze_each d m cs (frozen @ [c]) w1
      | (Some e, w1) \<Rightarrow>
          (Inl (''Could not '' @ mode_name m @ '' '' @ [CHR 0x22] @ cn_name c @ [CHR 0x22] @ '' for a consistent capture: '' @ e),
           resumeAll d m frozen (say (''Could not '' @ mode_name m @ '' '' @ cn_name c @ '': '' @ e @ '' - undoing.'') w1)))"

definition quiesceStack :: "daemon \<Rightarrow> quiesce_mode \<Rightarrow> container list \<Rightarrow> capture \<Rightarrow> (string + container list) \<times> capture" where
  "quiesceStack d m cs w =
     (if m = Hot then (Inr [], w)
      else if freeze_targets cs = [] then (Inr [], say ''Nothing is running, so the capture is already consistent.'' w)
      else (case freeze_each d m (freeze_targets cs) [] w of
              (Inl e, w1) \<Rightarrow> (Inl e, w1)
            | (Inr frozen, w1) \<Rightarrow>
                (Inr frozen, say ((if m = Pausing then ''Paused '' else ''Stopped '') @ show_int (int (length frozen)) @
                   '' container(s) for the capture.'') w1)))"

text \<open>
  The window of \<^verbatim>\<open>execute\<close>: freeze, capture, and resume whether the capture returns or throws. \<open>body\<close> is
  the capture, which leaves the containers alone.
\<close>

definition capture_window ::
    "daemon \<Rightarrow> quiesce_mode \<Rightarrow> container list \<Rightarrow> (capture \<Rightarrow> (string + 'r) \<times> string list) \<Rightarrow> capture \<Rightarrow> (string + 'r) \<times> capture" where
  "capture_window d m cs body w =
     (case quiesceStack d m cs w of
        (Inl e, w1) \<Rightarrow> (Inl e, w1)
      | (Inr frozen, w1) \<Rightarrow>
          (case body w1 of (res, l) \<Rightarrow> (res, resumeAll d m frozen (w1\<lparr>ca_log := ca_log w1 @ l\<rparr>))))"

lemma say_calls [simp]: "ca_calls (say l w) = ca_calls w"
  by (simp add: say_def)

lemma thaw_calls: "ca_calls (snd (thaw_each d m cs n w)) = ca_calls w @ map (thaw m) cs"
  by (induction d m cs n w rule: thaw_each.induct) (auto simp: docker_def split: option.splits)

lemma resume_calls: "ca_calls (resumeAll d m frozen w) = ca_calls w @ map (thaw m) (rev frozen)"
  using thaw_calls [of d m "rev frozen" 0 w] by (auto simp: resumeAll_def split: prod.splits)

text \<open>The calls of the freeze, and the containers it left frozen.\<close>

lemma freeze_calls:
  assumes "freeze_each d m cs frozen w = (res, w')"
  shows "\<exists>good rest. cs = good @ rest \<and> (\<forall>i < length good. d (ca_calls w @ map (freeze m) (take i good)) (freeze m (good ! i)) = None) \<and>
     (case res of
        Inr out \<Rightarrow> rest = [] \<and> out = frozen @ good \<and> ca_calls w' = ca_calls w @ map (freeze m) good
      | Inl e \<Rightarrow> rest \<noteq> [] \<and> d (ca_calls w @ map (freeze m) good) (freeze m (hd rest)) \<noteq> None \<and>
          ca_calls w' = ca_calls w @ map (freeze m) (good @ [hd rest]) @ map (thaw m) (rev (frozen @ good)))"
  using assms
proof (induction cs arbitrary: frozen w)
  case Nil
  then have "res = Inr frozen" "w' = w" by simp_all
  then show ?case by simp
next
  case (Cons c cs)
  show ?case
  proof (cases "d (ca_calls w) (freeze m c)")
    case (Some e)
    then show ?thesis
      using Cons.prems by (intro exI [of _ "[]"] exI [of _ "c # cs"]) (auto simp: docker_def resume_calls)
  next
    case None
    let ?w = "w\<lparr>ca_calls := ca_calls w @ [freeze m c]\<rparr>"
    have "freeze_each d m cs (frozen @ [c]) ?w = (res, w')" using Cons.prems None by (simp add: docker_def)
    from Cons.IH [OF this] obtain good rest where g: "cs = good @ rest"
      "\<forall>i < length good. d (ca_calls ?w @ map (freeze m) (take i good)) (freeze m (good ! i)) = None"
      "case res of
        Inr out \<Rightarrow> rest = [] \<and> out = (frozen @ [c]) @ good \<and> ca_calls w' = ca_calls ?w @ map (freeze m) good
      | Inl e \<Rightarrow> rest \<noteq> [] \<and> d (ca_calls ?w @ map (freeze m) good) (freeze m (hd rest)) \<noteq> None \<and>
          ca_calls w' = ca_calls ?w @ map (freeze m) (good @ [hd rest]) @ map (thaw m) (rev ((frozen @ [c]) @ good))" by blast
    have "d (ca_calls w @ map (freeze m) (take i (c # good))) (freeze m ((c # good) ! i)) = None" if "i < length (c # good)" for i
      using that g(2) None by (cases i) auto
    then show ?thesis
      using g(1,3) by (intro exI [of _ "c # good"] exI [of _ rest]) (auto split: sum.splits)
  qed
qed

text \<open>
  C17: A backup leaves the stack as it found it: every container it froze, and no other, is asked to resume
  exactly once, in the reverse order, after the capture, whether the capture succeeded, failed, or was
  never begun because one of the containers could not be frozen.
\<close>

theorem frozen_is_resumed:
  assumes "capture_window d m cs body w = (res, w')" and "m \<noteq> Hot"
  shows "\<exists>frozen broken. (\<exists>rest. freeze_targets cs = frozen @ broken @ rest) \<and> length broken \<le> 1 \<and>
    ca_calls w' = ca_calls w @ map (freeze m) (frozen @ broken) @ map (thaw m) (rev frozen) \<and>
    (\<forall>i < length frozen. d (ca_calls w @ map (freeze m) (take i frozen)) (freeze m (frozen ! i)) = None) \<and>
    (broken \<noteq> [] \<longrightarrow> (\<exists>e. res = Inl e) \<and> d (ca_calls w @ map (freeze m) frozen) (freeze m (hd broken)) \<noteq> None)"
proof (cases "freeze_targets cs = []")
  case True
  then show ?thesis
    using assms by (intro exI [of _ "[]"]) (auto simp: capture_window_def quiesceStack_def resume_calls split: prod.splits)
next
  case False
  obtain q w1 where q: "freeze_each d m (freeze_targets cs) [] w = (q, w1)" by fastforce
  from freeze_calls [OF this] obtain good rest where g: "freeze_targets cs = good @ rest"
    "\<forall>i < length good. d (ca_calls w @ map (freeze m) (take i good)) (freeze m (good ! i)) = None"
    "case q of
       Inr out \<Rightarrow> rest = [] \<and> out = [] @ good \<and> ca_calls w1 = ca_calls w @ map (freeze m) good
     | Inl e \<Rightarrow> rest \<noteq> [] \<and> d (ca_calls w @ map (freeze m) good) (freeze m (hd rest)) \<noteq> None \<and>
         ca_calls w1 = ca_calls w @ map (freeze m) (good @ [hd rest]) @ map (thaw m) (rev ([] @ good))" by blast
  show ?thesis
  proof (cases q)
    case (Inl e)
    then have r: "rest = hd rest # tl rest" "res = Inl e" "w' = w1"
      using g(3) assms q False by (auto simp: capture_window_def quiesceStack_def)
    show ?thesis
      by (rule exI [of _ good], rule exI [of _ "[hd rest]"])
        (use g r(2,3) Inl in \<open>auto intro: exI [of _ "tl rest"] simp: r(1) [symmetric]\<close>)
  next
    case (Inr out)
    then have "ca_calls w' = ca_calls w @ map (freeze m) good @ map (thaw m) (rev good)"
      using g(3) assms q False by (auto simp: capture_window_def quiesceStack_def resume_calls split: prod.splits)
    then show ?thesis using g Inr by (intro exI [of _ good] exI [of _ "[]"]) auto
  qed
qed

definition demo_stack :: "container list" where
  "demo_stack = [\<lparr>cn_id = ''db'', cn_name = ''db'', cn_service = None, cn_state = ''running'', cn_created = Some 1\<rparr>,
     \<lparr>cn_id = ''web'', cn_name = ''web'', cn_service = None, cn_state = ''running'', cn_created = Some 2\<rparr>]"

definition demo_daemon :: daemon where
  "demo_daemon calls c = (if c = Stop ''db'' then Some ''busy'' else None)"

lemma frozen_is_resumed_witness:
  "\<exists>frozen broken. [Stop ''web'', Stop ''db'', Start ''web''] =
     map (freeze Stopping) (frozen @ broken) @ map (thaw Stopping) (rev frozen) \<and> length broken \<le> 1"
proof -
  let ?w = "\<lparr>ca_calls = [], ca_log = []\<rparr>"
  obtain res w' where w: "capture_window demo_daemon Stopping demo_stack (\<lambda>w. (Inr (), [])) ?w = (res, w')" by fastforce
  moreover have "ca_calls (snd (capture_window demo_daemon Stopping demo_stack (\<lambda>w. (Inr (), [])) ?w)) =
      [Stop ''web'', Stop ''db'', Start ''web'']"
    by code_simp
  ultimately have "ca_calls w' = [Stop ''web'', Stop ''db'', Start ''web'']" by simp
  then show ?thesis using frozen_is_resumed [OF w] by auto
qed

section \<open>Dump hooks\<close>

record ssh_result =
  sr_code :: int
  sr_stdout :: string
  sr_stderr :: string

type_synonym shell = "string list \<Rightarrow> string \<Rightarrow> ssh_result"

record hook_run =
  hx_commands :: "string list"
  hx_files :: "(string, string) jsmap"

datatype hook_phase = Pre | Post

definition phase_name :: "hook_phase \<Rightarrow> string" where
  "phase_name ph = (case ph of Pre \<Rightarrow> ''pre'' | Post \<Rightarrow> ''post'')"

definition in_quotes :: "string \<Rightarrow> string" where
  "in_quotes s = CHR 0x22 # s @ [CHR 0x22]"

definition resolveTarget :: "container list \<Rightarrow> hook \<Rightarrow> string + string" where
  "resolveTarget cs h =
     (if nonempty (hk_container h) then
        (case List.find (\<lambda>c. cn_name c = the (hk_container h)) cs of
           None \<Rightarrow> Inl (''Hook target container '' @ in_quotes (the (hk_container h)) @ '' is not part of this stack.'')
         | Some c \<Rightarrow> Inr (cn_name c))
      else if nonempty (hk_service h) then
        (case List.find (\<lambda>c. cn_service c = hk_service h) cs of
           None \<Rightarrow> Inl (''Hook target service '' @ in_quotes (the (hk_service h)) @ '' is not part of this stack.'')
         | Some c \<Rightarrow> Inr (cn_name c))
      else Inl ''A hook needs either a service or a container to run in.'')"

definition hook_command :: "string \<Rightarrow> hook \<Rightarrow> string" where
  "hook_command target h = ''docker exec '' @ shell_quote target @ '' sh -c '' @ shell_quote (hk_cmd h)"

definition MAX_CAPTURE_BYTES :: int where "MAX_CAPTURE_BYTES = 8388608"

text \<open>The last five lines of an output.\<close>

definition last_lines :: "string \<Rightarrow> string" where
  "last_lines s = (let ls = split_on line_feed (trim s) in join_with [line_feed] (drop (length ls - 5) ls))"

definition hook_failure :: "hook_phase \<Rightarrow> string \<Rightarrow> ssh_result \<Rightarrow> string" where
  "hook_failure ph target res =
     (let detail = last_lines (if sr_stderr res \<noteq> [] then sr_stderr res else sr_stdout res)
      in phase_name ph @ ''-hook in '' @ target @ '' exited '' @ show_int (sr_code res) @ '': '' @
         (if detail = [] then ''no output'' else detail))"

text \<open>
  One hook; text is counted in characters, and log lines are left out. A failing hook before the capture
  throws, one after it is skipped.
\<close>

definition run_hook :: "shell \<Rightarrow> container list \<Rightarrow> hook_phase \<Rightarrow> hook \<Rightarrow> hook_run \<Rightarrow> (string + unit) \<times> hook_run" where
  "run_hook sh cs ph h w =
     (if trim (hk_cmd h) = [] then (Inr (), w)
      else case resolveTarget cs h of
        Inl e \<Rightarrow> (if ph = Pre then Inl e else Inr (), w)
      | Inr target \<Rightarrow>
          (let cmd = hook_command target h; res = sh (hx_commands w) cmd;
               w1 = w\<lparr>hx_commands := hx_commands w @ [cmd]\<rparr>
           in if sr_code res \<noteq> 0 then
                (if ph = Pre then Inl (hook_failure ph target res) else Inr (), w1)
              else case hk_captureTo h of
                Some f \<Rightarrow>
                  if f = [] then (Inr (), w1)
                  else if \<not> plain_filename f then (Inl (''Hook captureTo must be a plain filename, got '' @ in_quotes f @ ''.''), w1)
                  else if int (length (sr_stdout res)) > MAX_CAPTURE_BYTES then
                    (Inl (''The output of the hook writing '' @ in_quotes f @ '' is over 8 MB. '' @
                      ''Redirect a dump that size into a path inside a captured volume instead of capturing stdout.''), w1)
                  else (Inr (), w1\<lparr>hx_files := map_set (hx_files w1) f (sr_stdout res)\<rparr>)
              | None \<Rightarrow> (Inr (), w1)))"

fun runHooks :: "shell \<Rightarrow> container list \<Rightarrow> hook_phase \<Rightarrow> hook list \<Rightarrow> hook_run \<Rightarrow> (string + unit) \<times> hook_run" where
  "runHooks sh cs ph [] w = (Inr (), w)"
| "runHooks sh cs ph (h # hs) w =
     (case run_hook sh cs ph h w of (Inl e, w1) \<Rightarrow> (Inl e, w1) | (Inr _, w1) \<Rightarrow> runHooks sh cs ph hs w1)"

text \<open>The hooks that have something to run.\<close>

definition real_hooks :: "hook list \<Rightarrow> hook list" where
  "real_hooks hs = filter (\<lambda>h. trim (hk_cmd h) \<noteq> []) hs"

definition command_of :: "container list \<Rightarrow> hook \<Rightarrow> string" where
  "command_of cs h = (case resolveTarget cs h of Inl e \<Rightarrow> [] | Inr t \<Rightarrow> hook_command t h)"

lemma run_hook_pre:
  assumes "run_hook sh cs Pre h w = (Inr (), w1)"
  shows "if trim (hk_cmd h) = [] then w1 = w
    else (\<exists>t. resolveTarget cs h = Inr t) \<and> hx_commands w1 = hx_commands w @ [command_of cs h] \<and>
      sr_code (sh (hx_commands w) (command_of cs h)) = 0 \<and>
      (\<forall>f. hk_captureTo h = Some f \<longrightarrow> f \<noteq> [] \<longrightarrow> map_get (hx_files w1) f = Some (sr_stdout (sh (hx_commands w) (command_of cs h))))"
  using assms by (auto simp: run_hook_def command_of_def Let_def store_simps split: sum.splits if_splits option.splits)

text \<open>
  A backup never goes ahead on a dump that did not work: if the hooks before the capture succeed as a
  whole, every one of them had a container of the stack to run in, was run there in order, and exited zero.
\<close>

theorem dumps_all_ran:
  assumes "runHooks sh cs Pre hs w = (Inr (), w')"
  shows "hx_commands w' = hx_commands w @ map (command_of cs) (real_hooks hs) \<and>
    (\<forall>i < length (real_hooks hs). (\<exists>t. resolveTarget cs (real_hooks hs ! i) = Inr t) \<and>
       sr_code (sh (hx_commands w @ map (command_of cs) (take i (real_hooks hs))) (command_of cs (real_hooks hs ! i))) = 0)"
  using assms
proof (induction hs arbitrary: w)
  case (Cons h hs)
  obtain w1 where w1: "run_hook sh cs Pre h w = (Inr (), w1)" "runHooks sh cs Pre hs w1 = (Inr (), w')"
    using Cons.prems by (auto split: prod.splits sum.splits)
  note ih = Cons.IH [OF w1(2)] and first = run_hook_pre [OF w1(1)]
  show ?case
  proof (cases "trim (hk_cmd h) = []")
    case True
    then show ?thesis using ih first by (simp add: real_hooks_def)
  next
    case False
    then have real: "real_hooks (h # hs) = h # real_hooks hs" by (simp add: real_hooks_def)
    have "(\<exists>t. resolveTarget cs (real_hooks (h # hs) ! i) = Inr t) \<and>
       sr_code (sh (hx_commands w @ map (command_of cs) (take i (real_hooks (h # hs)))) (command_of cs (real_hooks (h # hs) ! i))) = 0"
      if "i < length (real_hooks (h # hs))" for i
      using that ih first False unfolding real by (cases i) auto
    then show ?thesis using ih first False unfolding real by simp
  qed
qed (simp add: real_hooks_def)

definition demo_hook :: hook where
  "demo_hook = \<lparr>hk_service = None, hk_container = Some ''db'', hk_cmd = ''pg_dump'', hk_captureTo = None\<rparr>"

definition demo_shell :: shell where
  "demo_shell cmds c = \<lparr>sr_code = 0, sr_stdout = ''dump'', sr_stderr = []\<rparr>"

lemma dumps_all_ran_witness: "length (real_hooks [demo_hook]) = 1 \<and>
    sr_code (demo_shell [] (command_of demo_stack demo_hook)) = 0"
proof -
  have "trim ''pg_dump'' \<noteq> []" by code_simp
  then have real: "real_hooks [demo_hook] = [demo_hook]" by (simp add: real_hooks_def demo_hook_def)
  have run: "runHooks demo_shell demo_stack Pre [demo_hook] \<lparr>hx_commands = [], hx_files = []\<rparr> =
      (Inr (), \<lparr>hx_commands = [command_of demo_stack demo_hook], hx_files = []\<rparr>)"
    using \<open>trim ''pg_dump'' \<noteq> []\<close>
    by (simp add: demo_hook_def demo_stack_def demo_shell_def run_hook_def resolveTarget_def nonempty_def command_of_def Let_def)
  show ?thesis using dumps_all_ran [OF run, unfolded real] by (simp add: real)
qed

section \<open>Relay transfer\<close>

record mount =
  mt_volume :: bool
  mt_name :: string
  mt_destination :: string

record relay_source =
  re_volume :: bool
  re_name :: string
  re_container :: string
  re_path :: string
  re_relDir :: string

function replace_runs :: "(char \<Rightarrow> bool) \<Rightarrow> string \<Rightarrow> string" where
  "replace_runs bad [] = []"
| "replace_runs bad (c # cs) =
     (if bad c then CHR ''-'' # replace_runs bad (dropWhile bad cs) else c # replace_runs bad cs)"
  by pat_completeness auto
termination by (relation "measure (length \<circ> snd)") (auto simp: le_imp_less_Suc length_dropWhile_le)

definition trim_dashes :: "string \<Rightarrow> string" where
  "trim_dashes s = rev (dropWhile (\<lambda>c. c = CHR ''-'') (rev (dropWhile (\<lambda>c. c = CHR ''-'') s)))"

definition bindSlug :: "string \<Rightarrow> string" where
  "bindSlug path =
     (let slug = trim_dashes (replace_runs (\<lambda>c. \<not> (is_alpha c \<or> is_digit c \<or> c \<in> set ''._-'')) (dropWhile (\<lambda>c. c = CHR ''/'') path))
      in if slug = [] then ''root'' else slug)"

definition findMount :: "(string \<times> mount list) list \<Rightarrow> bool \<Rightarrow> string \<Rightarrow> (string \<times> string) option" where
  "findMount cs vol n =
     (case List.map_filter (\<lambda>(c, ms). map_option (\<lambda>m. (c, mt_destination m))
         (List.find (\<lambda>m. mt_volume m = vol \<and> mt_name m = n \<and> mt_destination m \<noteq> []) ms)) cs of
        [] \<Rightarrow> None | x # xs \<Rightarrow> Some x)"

definition relay_dir :: "bool \<Rightarrow> string \<Rightarrow> string" where
  "relay_dir vol n = (if vol then ''volumes/'' @ n else ''binds/'' @ bindSlug n)"

definition plan_kind :: "(string \<times> mount list) list \<Rightarrow> bool \<Rightarrow> string list \<Rightarrow> relay_source list \<times> string list" where
  "plan_kind cs vol ns =
     (List.map_filter (\<lambda>n. map_option (\<lambda>(c, d). \<lparr>re_volume = vol, re_name = n, re_container = c, re_path = d, re_relDir = relay_dir vol n\<rparr>)
        (findMount cs vol n)) ns,
      filter (\<lambda>n. findMount cs vol n = None) ns)"

definition planRelay :: "(string \<times> mount list) list \<Rightarrow> string list \<Rightarrow> string list \<Rightarrow> relay_source list \<times> string list" where
  "planRelay cs volumes binds =
     (case (plan_kind cs True volumes, plan_kind cs False binds) of ((s1, u1), (s2, u2)) \<Rightarrow> (s1 @ s2, u1 @ u2))"

text \<open>Nothing that was asked for is missing from the plan in silence.\<close>

lemma plan_kind_covers:
  "map re_name (fst (plan_kind cs vol ns)) = filter (\<lambda>n. findMount cs vol n \<noteq> None) ns"
  by (induction ns) (auto simp: plan_kind_def map_filter_simps split: option.splits)

text \<open>Two paths of one stack can share a directory of the snapshot.\<close>

lemma slugs_collide: "bindSlug ''/srv/app data'' = bindSlug ''/srv/app-data''"
  by code_simp

text \<open>
  The staging area: one directory for all runs, one flag. A run takes the flag, empties the
  directory and writes its metadata, pulls its sources, lets the backup tool read the directory and gives
  the flag back; later, when its row is finished and its alerts are sent, it deletes the directory it has staged.
  Every step before the flag is given back can also fail, which is the step to \<open>Unlocked\<close>.
\<close>

datatype relay_phase = Holding | Staged | Captured | Unlocked bool | Over

record relay =
  rl_busy :: bool
  rl_tree :: "(string \<times> string) list"
  rl_phase :: "(string, relay_phase) jsmap"
  rl_snapshots :: "(string, (string \<times> string) list) jsmap"

definition new_relay :: relay where
  "new_relay = \<lparr>rl_busy = False, rl_tree = [], rl_phase = [], rl_snapshots = []\<rparr>"

definition enter_phase :: "string \<Rightarrow> relay_phase \<Rightarrow> relay \<Rightarrow> relay" where
  "enter_phase i p st = st\<lparr>rl_phase := map_set (rl_phase st) i p\<rparr>"

definition relay_acquire :: "string \<Rightarrow> relay \<Rightarrow> relay" where
  "relay_acquire i st =
     (if map_get (rl_phase st) i \<noteq> None then st
      else if rl_busy st then enter_phase i (Unlocked False) st
      else enter_phase i Holding (st\<lparr>rl_busy := True\<rparr>))"

definition relay_stage :: "string \<Rightarrow> string list \<Rightarrow> relay \<Rightarrow> relay" where
  "relay_stage i files st =
     (if map_get (rl_phase st) i = Some Holding then enter_phase i Staged (st\<lparr>rl_tree := map (\<lambda>f. (i, f)) files\<rparr>) else st)"

definition relay_pull :: "string \<Rightarrow> string \<Rightarrow> relay \<Rightarrow> relay" where
  "relay_pull i s st = (if map_get (rl_phase st) i = Some Staged then st\<lparr>rl_tree := rl_tree st @ [(i, s)]\<rparr> else st)"

definition relay_capture :: "string \<Rightarrow> relay \<Rightarrow> relay" where
  "relay_capture i st =
     (if map_get (rl_phase st) i = Some Staged
      then enter_phase i Captured (st\<lparr>rl_snapshots := map_set (rl_snapshots st) i (rl_tree st)\<rparr>) else st)"

definition relay_unlock :: "string \<Rightarrow> relay \<Rightarrow> relay" where
  "relay_unlock i st =
     (case map_get (rl_phase st) i of
        Some Holding \<Rightarrow> enter_phase i (Unlocked False) (st\<lparr>rl_busy := False\<rparr>)
      | Some Staged \<Rightarrow> enter_phase i (Unlocked True) (st\<lparr>rl_busy := False\<rparr>)
      | Some Captured \<Rightarrow> enter_phase i (Unlocked True) (st\<lparr>rl_busy := False\<rparr>)
      | _ \<Rightarrow> st)"

definition relay_cleanup :: "string \<Rightarrow> relay \<Rightarrow> relay" where
  "relay_cleanup i st =
     (case map_get (rl_phase st) i of
        Some (Unlocked staged) \<Rightarrow> enter_phase i Over (if staged then st\<lparr>rl_tree := []\<rparr> else st)
      | _ \<Rightarrow> st)"

datatype relay_event =
  Rl_acquire string | Rl_stage string "string list" | Rl_pull string string | Rl_capture string | Rl_unlock string | Rl_cleanup string

primrec relay_step :: "relay \<Rightarrow> relay_event \<Rightarrow> relay" where
  "relay_step st (Rl_acquire i) = relay_acquire i st"
| "relay_step st (Rl_stage i files) = relay_stage i files st"
| "relay_step st (Rl_pull i s) = relay_pull i s st"
| "relay_step st (Rl_capture i) = relay_capture i st"
| "relay_step st (Rl_unlock i) = relay_unlock i st"
| "relay_step st (Rl_cleanup i) = relay_cleanup i st"

definition in_section :: "relay_phase \<Rightarrow> bool" where
  "in_section p \<longleftrightarrow> p = Holding \<or> p = Staged \<or> p = Captured"

definition inside :: "relay \<Rightarrow> string \<Rightarrow> bool" where
  "inside st i \<longleftrightarrow> (case map_get (rl_phase st) i of None \<Rightarrow> False | Some p \<Rightarrow> in_section p)"

definition relay_ok :: "relay \<Rightarrow> bool" where
  "relay_ok st \<longleftrightarrow> (\<forall>i j. inside st i \<longrightarrow> inside st j \<longrightarrow> i = j) \<and> (\<forall>i. inside st i \<longrightarrow> rl_busy st) \<and>
     (\<forall>i x. map_get (rl_phase st) i = Some Staged \<longrightarrow> x \<in> set (rl_tree st) \<longrightarrow> fst x = i) \<and>
     (\<forall>i snap x. map_get (rl_snapshots st) i = Some snap \<longrightarrow> x \<in> set snap \<longrightarrow> fst x = i)"

lemma relay_okD:
  assumes "relay_ok st"
  shows "inside st i \<Longrightarrow> inside st j \<Longrightarrow> i = j" "inside st i \<Longrightarrow> rl_busy st"
    "map_get (rl_phase st) i = Some Staged \<Longrightarrow> x \<in> set (rl_tree st) \<Longrightarrow> fst x = i"
    "map_get (rl_snapshots st) i = Some snap \<Longrightarrow> x \<in> set snap \<Longrightarrow> fst x = i"
  using assms unfolding relay_ok_def by blast+

lemma phase_enter: "map_get (rl_phase (enter_phase i p st)) j = (if j = i then Some p else map_get (rl_phase st) j)"
  by (simp add: enter_phase_def store_simps)

lemma inside_enter: "inside (enter_phase i p st) j \<longleftrightarrow> (if j = i then in_section p else inside st j)"
  by (simp add: inside_def phase_enter)

lemma staged_inside: "map_get (rl_phase st) i = Some Staged \<Longrightarrow> inside st i"
  by (simp add: inside_def in_section_def)

lemma enter_fields [simp]:
  "rl_busy (enter_phase i p st) = rl_busy st" "rl_tree (enter_phase i p st) = rl_tree st" "rl_snapshots (enter_phase i p st) = rl_snapshots st"
  by (simp_all add: enter_phase_def)

text \<open>
  A change of one run's phase, of the flag, the tree and the snapshots. A run may be inside afterwards only if no
  other is; the tree of a run that is staged holds its own files.
\<close>

lemma enter_ok:
  assumes ok: "relay_ok st" and same: "rl_phase st0 = rl_phase st"
    and alone: "in_section p \<Longrightarrow> \<forall>j. inside st j \<longrightarrow> j = i"
    and flag: "\<And>j. (if j = i then in_section p else inside st j) \<Longrightarrow> rl_busy st0"
    and tree: "\<And>j x. (if j = i then p = Staged else map_get (rl_phase st) j = Some Staged) \<Longrightarrow> x \<in> set (rl_tree st0) \<Longrightarrow> fst x = j"
    and snaps: "\<And>j snap x. map_get (rl_snapshots st0) j = Some snap \<Longrightarrow> x \<in> set snap \<Longrightarrow> fst x = j"
  shows "relay_ok (enter_phase i p st0)"
proof -
  have ins: "inside (enter_phase i p st0) j \<longleftrightarrow> (if j = i then in_section p else inside st j)" for j
    unfolding inside_enter by (simp add: inside_def same)
  have ph: "map_get (rl_phase (enter_phase i p st0)) j = (if j = i then Some p else map_get (rl_phase st) j)" for j
    by (simp add: phase_enter same)
  show ?thesis
    unfolding relay_ok_def
  proof (intro conjI allI impI)
    show "j = k" if "inside (enter_phase i p st0) j" "inside (enter_phase i p st0) k" for j k
    proof -
      have "in_section p \<Longrightarrow> inside st j \<Longrightarrow> j = i" "in_section p \<Longrightarrow> inside st k \<Longrightarrow> k = i" using alone by blast+
      then show ?thesis
        using that relay_okD(1) [OF ok, of j k] unfolding ins by metis
    qed
    show "rl_busy (enter_phase i p st0)" if "inside (enter_phase i p st0) j" for j
      using that flag [of j] unfolding ins by simp
    show "fst x = j" if "map_get (rl_phase (enter_phase i p st0)) j = Some Staged" "x \<in> set (rl_tree (enter_phase i p st0))" for j x
      using that tree [of j x] unfolding ph by (simp split: if_splits)
    show "fst x = j" if "map_get (rl_snapshots (enter_phase i p st0)) j = Some snap" "x \<in> set snap" for j snap x
      using that snaps [of j snap x] by simp
  qed
qed

lemma acquire_ok: "relay_ok st \<Longrightarrow> relay_ok (relay_acquire i st)"
proof -
  assume ok: "relay_ok st"
  have busy: "relay_ok (enter_phase i (Unlocked False) st)" if "map_get (rl_phase st) i = None"
  proof (rule enter_ok [OF ok])
    show "rl_busy st" if "if j = i then in_section (Unlocked False) else inside st j" for j
      using that relay_okD(2) [OF ok, of j] by (simp add: in_section_def split: if_splits)
    show "fst x = j" if "if j = i then Unlocked False = Staged else map_get (rl_phase st) j = Some Staged" "x \<in> set (rl_tree st)" for j x
      using that relay_okD(3) [OF ok, of j x] by (simp split: if_splits)
  qed (use relay_okD(4) [OF ok] in \<open>simp_all add: in_section_def\<close>)
  have free: "relay_ok (enter_phase i Holding (st\<lparr>rl_busy := True\<rparr>))" if "\<not> rl_busy st"
  proof (rule enter_ok [OF ok])
    show "\<forall>j. inside st j \<longrightarrow> j = i" using relay_okD(2) [OF ok] that by blast
    show "fst x = j" if "if j = i then Holding = Staged else map_get (rl_phase st) j = Some Staged"
      "x \<in> set (rl_tree (st\<lparr>rl_busy := True\<rparr>))" for j x
      using that relay_okD(3) [OF ok, of j x] by (simp split: if_splits)
  qed (use relay_okD(4) [OF ok] in simp_all)
  show ?thesis using ok busy free by (simp add: relay_acquire_def)
qed

lemma alone_inside: "relay_ok st \<Longrightarrow> inside st i \<Longrightarrow> inside st j \<Longrightarrow> j = i"
  by (rule relay_okD(1))

lemma stage_ok: "relay_ok st \<Longrightarrow> relay_ok (relay_stage i files st)"
proof -
  assume ok: "relay_ok st"
  have "relay_ok (enter_phase i Staged (st\<lparr>rl_tree := map (\<lambda>f. (i, f)) files\<rparr>))" if h: "map_get (rl_phase st) i = Some Holding"
  proof (rule enter_ok [OF ok])
    have i: "inside st i" using h by (simp add: inside_def in_section_def)
    show "\<forall>j. inside st j \<longrightarrow> j = i" using alone_inside [OF ok i] by blast
    show "rl_busy (st\<lparr>rl_tree := map (\<lambda>f. (i, f)) files\<rparr>)" using relay_okD(2) [OF ok i] by simp
    show "fst x = j" if "if j = i then Staged = Staged else map_get (rl_phase st) j = Some Staged"
      "x \<in> set (rl_tree (st\<lparr>rl_tree := map (\<lambda>f. (i, f)) files\<rparr>))" for j x
      using that alone_inside [OF ok i, of j] staged_inside [of st j] by (auto split: if_splits)
  qed (use relay_okD(4) [OF ok] in auto)
  then show ?thesis using ok by (simp add: relay_stage_def)
qed

lemma pull_ok: "relay_ok st \<Longrightarrow> relay_ok (relay_pull i s st)"
proof -
  assume ok: "relay_ok st"
  have "relay_ok (st\<lparr>rl_tree := rl_tree st @ [(i, s)]\<rparr>)" if h: "map_get (rl_phase st) i = Some Staged"
    unfolding relay_ok_def
  proof (intro conjI allI impI)
    show "fst x = j" if "map_get (rl_phase (st\<lparr>rl_tree := rl_tree st @ [(i, s)]\<rparr>)) j = Some Staged"
      "x \<in> set (rl_tree (st\<lparr>rl_tree := rl_tree st @ [(i, s)]\<rparr>))" for j x
      using that relay_okD(3) [OF ok, of j x] alone_inside [OF ok staged_inside [OF h] staged_inside [of st j]] by auto
  qed (use relay_okD(1,2,4) [OF ok] in \<open>auto simp: inside_def\<close>)
  then show ?thesis using ok by (simp add: relay_pull_def)
qed

lemma capture_ok: "relay_ok st \<Longrightarrow> relay_ok (relay_capture i st)"
proof -
  assume ok: "relay_ok st"
  have "relay_ok (enter_phase i Captured (st\<lparr>rl_snapshots := map_set (rl_snapshots st) i (rl_tree st)\<rparr>))"
    if h: "map_get (rl_phase st) i = Some Staged"
  proof (rule enter_ok [OF ok])
    have i: "inside st i" by (rule staged_inside [OF h])
    show "\<forall>j. inside st j \<longrightarrow> j = i" using alone_inside [OF ok i] by blast
    show "rl_busy (st\<lparr>rl_snapshots := map_set (rl_snapshots st) i (rl_tree st)\<rparr>)" using relay_okD(2) [OF ok i] by simp
    show "fst x = j" if "map_get (rl_snapshots (st\<lparr>rl_snapshots := map_set (rl_snapshots st) i (rl_tree st)\<rparr>)) j = Some snap"
      "x \<in> set snap" for j snap x
      using that relay_okD(4) [OF ok, of j snap x] relay_okD(3) [OF ok h, of x] by (auto simp: store_simps split: if_splits)
  qed (use relay_okD(3) [OF ok] in \<open>auto split: if_splits\<close>)
  then show ?thesis using ok by (simp add: relay_capture_def)
qed

lemma unlock_ok: "relay_ok st \<Longrightarrow> relay_ok (relay_unlock i st)"
proof -
  assume ok: "relay_ok st"
  have "relay_ok (enter_phase i (Unlocked b) (st\<lparr>rl_busy := False\<rparr>))" if i: "inside st i" for b
  proof (rule enter_ok [OF ok])
    show "rl_busy (st\<lparr>rl_busy := False\<rparr>)" if "if j = i then in_section (Unlocked b) else inside st j" for j
      using that alone_inside [OF ok i, of j] by (auto simp: in_section_def split: if_splits)
  qed (use relay_okD(3,4) [OF ok] in \<open>auto simp: in_section_def split: if_splits\<close>)
  then show ?thesis
    using ok by (auto simp: relay_unlock_def inside_def in_section_def split: option.splits relay_phase.splits)
qed

lemma cleanup_ok: "relay_ok st \<Longrightarrow> relay_ok (relay_cleanup i st)"
proof -
  assume ok: "relay_ok st"
  have "relay_ok (enter_phase i Over st)"
    by (rule enter_ok [OF ok]) (use relay_okD(2-4) [OF ok] in \<open>auto simp: in_section_def split: if_splits\<close>)
  moreover have "relay_ok (enter_phase i Over (st\<lparr>rl_tree := []\<rparr>))"
    by (rule enter_ok [OF ok]) (use relay_okD(2,4) [OF ok] in \<open>auto simp: in_section_def split: if_splits\<close>)
  ultimately show ?thesis using ok by (auto simp: relay_cleanup_def split: option.splits relay_phase.splits)
qed

lemma relay_step_ok: "relay_ok st \<Longrightarrow> relay_ok (relay_step st e)"
  by (cases e) (simp_all add: acquire_ok stage_ok pull_ok capture_ok unlock_ok cleanup_ok)

interpretation relays: event_machine relay_step relay_ok
  by unfold_locales (rule relay_step_ok)

text \<open>
  C29: Relay runs never mix: whatever the order of their steps, at most one run is inside the staging
  area, and the snapshot of a run holds nothing that another run put there.
\<close>

theorem relay_never_mixes:
  "(\<forall>i j. inside (foldl relay_step new_relay es) i \<and> inside (foldl relay_step new_relay es) j \<longrightarrow> i = j) \<and>
   (\<forall>i snap. map_get (rl_snapshots (foldl relay_step new_relay es)) i = Some snap \<longrightarrow> fst ` set snap \<subseteq> {i})"
proof -
  have "relay_ok new_relay" by (simp add: relay_ok_def new_relay_def inside_def map_get_def)
  from relays.inv_run [OF this, of es] show ?thesis unfolding relay_ok_def by blast
qed

definition demo_relay :: "relay_event list" where
  "demo_relay = [Rl_acquire ''a'', Rl_stage ''a'' [''meta''], Rl_pull ''a'' ''db'', Rl_capture ''a'', Rl_unlock ''a'',
     Rl_acquire ''b'', Rl_stage ''b'' [''meta''], Rl_pull ''b'' ''web'']"

lemma relay_never_mixes_witness: "fst ` set [(''a'', ''meta''), (''a'', ''db'')] \<subseteq> {''a''}"
proof -
  have "map_get (rl_snapshots (foldl relay_step new_relay demo_relay)) ''a'' = Some [(''a'', ''meta''), (''a'', ''db'')]" by code_simp
  then show ?thesis using relay_never_mixes [of demo_relay, THEN conjunct2, rule_format] by blast
qed

text \<open>The directory is deleted after the flag is given back: the next run's snapshot can be empty although it pulled everything.\<close>

lemma late_cleanup_empties_snapshot:
  "map_get (rl_snapshots (foldl relay_step new_relay (demo_relay @ [Rl_cleanup ''a'', Rl_capture ''b'']))) ''b'' = Some []"
  by code_simp

section \<open>Verify sandboxes\<close>

definition sandboxName :: "string \<Rightarrow> string \<Rightarrow> string" where
  "sandboxName stackName shortId =
     trim_dashes (take 54 (replace_runs (\<lambda>c. \<not> (is_lower c \<or> is_digit c \<or> c = CHR ''_'' \<or> c = CHR ''-''))
       (to_lower (stackName @ ''-verify-'' @ shortId))))"

text \<open>\<^verbatim>\<open>/-verify-[a-z0-9]{4,}$/\<close>: the name ends in the marker and four or more characters.\<close>

definition is_sandbox :: "string \<Rightarrow> bool" where
  "is_sandbox name \<longleftrightarrow>
     list_ex (\<lambda>n. ends_with (take n name) ''-verify-'' \<and> length (drop n name) \<ge> 4 \<and> list_all (\<lambda>c. is_lower c \<or> is_digit c) (drop n name))
       [0 ..< Suc (length name)]"

definition assertSandbox :: "string \<Rightarrow> string option" where
  "assertSandbox name = (if is_sandbox name then None else Some (''Refusing to tear down '' @ in_quotes name @ '' - it is not a verify sandbox.''))"


text \<open>A project name as Compose accepts it.\<close>

definition compose_char :: "char \<Rightarrow> bool" where
  "compose_char c \<longleftrightarrow> is_lower c \<or> is_digit c \<or> c = CHR ''_'' \<or> c = CHR ''-''"

definition compose_name :: "string \<Rightarrow> bool" where
  "compose_name s \<longleftrightarrow> s \<noteq> [] \<and> hd s \<noteq> CHR ''-'' \<and> list_all compose_char s"

definition hex_id :: "string \<Rightarrow> bool" where
  "hex_id i \<longleftrightarrow> length i = 8 \<and> list_all (\<lambda>c. is_lower c \<or> is_digit c) i"

lemma lower_compose: "list_all compose_char s \<Longrightarrow> to_lower s = s"
  by (induction s) (auto simp: to_lower_def lower_char_def compose_char_def is_upper_def is_lower_def is_digit_def code_of_def)

lemma keep_compose: "list_all (\<lambda>c. \<not> bad c) s \<Longrightarrow> replace_runs bad s = s"
  by (induction s) auto

lemma trim_dashes_id: "s \<noteq> [] \<Longrightarrow> hd s \<noteq> CHR ''-'' \<Longrightarrow> last s \<noteq> CHR ''-'' \<Longrightarrow> trim_dashes s = s"
proof -
  assume s: "s \<noteq> []" "hd s \<noteq> CHR ''-''" "last s \<noteq> CHR ''-''"
  then have "dropWhile (\<lambda>c. c = CHR ''-'') s = s" by (cases s) auto
  moreover have "dropWhile (\<lambda>c. c = CHR ''-'') (rev s) = rev s" using s by (cases "rev s") (auto simp: last_rev hd_rev [symmetric])
  ultimately show ?thesis by (simp add: trim_dashes_def)
qed

text \<open>
  The trial restore of a stack whose name has at most 38 characters runs under a name of its own: the
  stack's name, the marker and the snapshot id; the guard of the clean-up accepts it, and refuses the stack itself.
\<close>

theorem sandbox_can_be_removed:
  assumes "compose_name s" and "length s \<le> 38" and "hex_id i"
  shows "sandboxName s i = s @ ''-verify-'' @ i \<and> assertSandbox (sandboxName s i) = None \<and> sandboxName s i \<noteq> s"
proof -
  let ?t = "s @ ''-verify-'' @ i"
  have "list_all compose_char ''-verify-''" by code_simp
  moreover have "list_all compose_char i" using assms(3) by (auto simp: hex_id_def compose_char_def list_all_iff)
  ultimately have t: "list_all compose_char ?t" using assms(1) by (simp add: compose_name_def)
  have i: "length i = 8" using assms(3) by (simp add: hex_id_def)
  then have "i \<noteq> []" by auto
  then have "last i \<in> set i" by simp
  then have "last i \<noteq> CHR ''-''" using assms(3) by (auto simp: hex_id_def list_all_iff is_lower_def is_digit_def code_of_def)
  then have ends: "hd ?t \<noteq> CHR ''-''" "last ?t \<noteq> CHR ''-''" using assms(1) \<open>i \<noteq> []\<close> by (simp_all add: compose_name_def)
  have good: "list_all (\<lambda>c. \<not> \<not> (is_lower c \<or> is_digit c \<or> c = CHR ''_'' \<or> c = CHR ''-'')) ?t"
    using t unfolding compose_char_def by simp
  have "take 54 ?t = ?t" by (rule take_all) (use assms(2) i in simp)
  then have name: "sandboxName s i = ?t"
    unfolding sandboxName_def lower_compose [OF t] keep_compose [OF good] using trim_dashes_id [OF _ ends] by simp
  have "is_sandbox ?t"
    unfolding is_sandbox_def list_ex_iff
  proof (rule bexI)
    show "length s + 8 \<in> set [0 ..< Suc (length ?t)]" by (simp del: upt_Suc)
    show "ends_with (take (length s + 8) ?t) ''-verify-'' \<and> 4 \<le> length (drop (length s + 8) ?t) \<and>
        list_all (\<lambda>c. is_lower c \<or> is_digit c) (drop (length s + 8) ?t)"
      using assms(3) by (simp add: ends_with_def hex_id_def)
  qed
  then show ?thesis by (simp add: name assertSandbox_def)
qed

lemma sandbox_can_be_removed_witness: "assertSandbox (sandboxName ''web'' ''0123abcd'') = None"
proof -
  have "compose_name ''web''" "hex_id ''0123abcd''" by code_simp+
  then show ?thesis using sandbox_can_be_removed [of "''web''" "''0123abcd''"] by force
qed

text \<open>A long name loses the end of the marker, and the guard refuses to remove the sandbox that was made for it.\<close>

lemma long_name_cannot_be_removed: "assertSandbox (sandboxName (replicate 43 CHR ''a'') ''0123abcd'') \<noteq> None"
  by code_simp

end
