(* ===== verification/Fabric_Agents.thy ===== *)
theory Fabric_Agents
  imports Stream_Mux Backup_Run Token_Auth Fabric_Approval
begin

text \<open>
  The agents of Fabric: their credentials (\<^verbatim>\<open>fabric/fabric-credentials.ts\<close>), enrollment
  (\<^verbatim>\<open>fabric-enrollment.service.ts\<close>), the registry of their connections (\<^verbatim>\<open>agent-registry.service.ts\<close>,
  \<^verbatim>\<open>fabric-agent-relay.ts\<close>), what operators do with them and the sessions they open (\<^verbatim>\<open>fabric.service.ts\<close>,
  the tickets of \<^verbatim>\<open>fabric-session.service.ts\<close>) and pinned host keys (\<^verbatim>\<open>fabric-hostkey.ts\<close>).

  The ids the database makes up are numbers in the order of creation. A socket is the index of its
  multiplexer in \<open>fr_muxes\<close>. Timers that are armed are in \<open>fr_timers\<close>. An asynchronous method that waits
  for the database is a task in \<open>fr_tasks\<close>, with what it has read so far; every other method is one step.
  Hashes, signatures, URL parsing and random values are parameters. Certificates, desktops, remote browsers,
  RDP, file transfer and log lines are left out. The dash in the message about ports is a hyphen here.
\<close>

section \<open>Credentials\<close>

definition ENROLL_PREFIX :: string where "ENROLL_PREFIX = ''cbroenroll_''"
definition CRED_PREFIX :: string where "CRED_PREFIX = ''cbroagent_''"

text \<open>The token of an enrollment and its hash, from random bytes.\<close>

definition generateEnrollToken :: "(string \<Rightarrow> string) \<Rightarrow> string \<Rightarrow> string \<times> string" where
  "generateEnrollToken sha secret = (ENROLL_PREFIX @ secret, sha secret)"

definition parseEnrollToken :: "string \<Rightarrow> string option" where
  "parseEnrollToken token =
     (if \<not> starts_with token ENROLL_PREFIX then None
      else let secret = drop (length ENROLL_PREFIX) token in if secret = [] then None else Some secret)"

definition generateCredential :: "(string \<Rightarrow> string) \<Rightarrow> string \<Rightarrow> string \<Rightarrow> string \<times> string \<times> string" where
  "generateCredential sha prefix secret = (CRED_PREFIX @ prefix @ ''_'' @ secret, prefix, sha secret)"

definition parseCredential :: "string \<Rightarrow> (string \<times> string) option" where
  "parseCredential token =
     (if \<not> starts_with token CRED_PREFIX then None
      else
        (let rest = drop (length CRED_PREFIX) token
         in case index_of CHR ''_'' rest of
              None \<Rightarrow> None
            | Some sep \<Rightarrow> if sep = 0 \<or> sep \<ge> length rest - 1 then None else Some (take sep rest, drop (Suc sep) rest)))"

definition safeEqualHex :: "string \<Rightarrow> string \<Rightarrow> bool" where
  "safeEqualHex a b \<longleftrightarrow> hex_bytes a = hex_bytes b"

section \<open>Rows\<close>

datatype agent_status = Ag_pending | Ag_online | Ag_offline | Ag_revoked | Ag_deleting

record fabric_agent =
  fa_id :: nat
  fa_name :: string
  fa_hostname :: "string option"
  fa_os :: "string option"
  fa_osVersion :: "string option"
  fa_agentVersion :: "string option"
  fa_localIp :: "string option"
  fa_notes :: "string option"
  fa_tags :: "string list"
  fa_status :: agent_status
  fa_mode :: agent_mode
  fa_egressCidrs :: "string list"
  fa_requireApproval :: bool
  fa_enrollHash :: "string option"
  fa_enrollExpires :: "time option"
  fa_credPrefix :: "string option"
  fa_credHash :: "string option"
  fa_lastSeenAt :: "time option"
  fa_caTrustedAt :: "time option"
  fa_pendingUninstallAt :: "time option"
  fa_pendingUninstallBy :: "string option"

record target_row =
  ft_id :: nat
  ft_agentId :: nat
  ft_kind :: string
  ft_host :: string
  ft_port :: int
  ft_label :: "string option"
  ft_secretRef :: "string option"
  ft_hostKey :: "string option"
  ft_source :: string
  ft_group :: "string option"
  ft_webUrl :: "string option"
  ft_webIgnoreCertErrors :: bool
  ft_webAutofill :: "string option"

text \<open>A value of the vault with the kind its metadata has.\<close>

record login_secret =
  ls_username :: string
  ls_password :: string
  ls_privateKey :: string
  ls_passphrase :: string

record vault_entry =
  ve_kind :: string
  ve_value :: login_secret

section \<open>State\<close>

record live_agent =
  lc_sock :: nat
  lc_lastBeat :: time
  lc_timer :: nat

datatype fabric_timer = Missed_beats nat | Grace nat string | Drop_after nat int string

datatype out_frame =
    Hello_ack "(string \<times> int) list option" "string list"
  | Set_allow "(string \<times> int) list" "string list"
  | Uninstall "string option"

record declared_target =
  dt_kind :: string
  dt_port :: json
  dt_label :: "string option"

record hello =
  hl_agentVersion :: "string option"
  hl_os :: "string option"
  hl_osVersion :: "string option"
  hl_hostname :: "string option"
  hl_localIp :: "string option"
  hl_targets :: "declared_target list"

text \<open>The target of a session, stored or made up for an address; what was typed to connect; the ticket.\<close>

record session_target =
  sx_id :: "nat option"
  sx_agentId :: nat
  sx_kind :: string
  sx_host :: string
  sx_port :: int
  sx_secretRef :: "string option"

record connect_input =
  ci_secretRef :: string
  ci_useSaved :: bool
  ci_login :: login_secret
  ci_save :: bool
  ci_saveAs :: string

record session_desc =
  sd_target :: session_target
  sd_userId :: string
  sd_userEmail :: string
  sd_login :: "login_secret option"

text \<open>Whose host key is checked: a stored target, or an address.\<close>

datatype key_place = Stored_target nat | Ad_hoc nat string int

datatype fabric_task =
    Attach nat
  | Reconcile nat "time option" time
  | Final_read nat string
  | Final_write nat string fabric_agent
  | Hello_read nat nat hello
  | Hello_write nat hello fabric_agent
  | Enroll_write fabric_agent string string
  | Mint session_target connect_input session_user string
  | Pin_key bool session_user nat key_place string

record registry =
  fr_agents :: "fabric_agent list"
  fr_nextAgent :: nat
  fr_targets :: "target_row list"
  fr_nextTarget :: nat
  fr_live :: "(nat, live_agent) jsmap"
  fr_pendingOffline :: "(nat, nat) jsmap"
  fr_muxes :: "mux list"
  fr_timers :: "(nat, fabric_timer) jsmap"
  fr_nextTimer :: nat
  fr_tasks :: "fabric_task list"
  fr_tickets :: "(string, session_desc \<times> time) jsmap"
  fr_vault :: "(string, vault_entry) jsmap"
  fr_pins :: "(nat \<times> string \<times> int, string) jsmap"
  fr_sent :: "(nat \<times> out_frame) list"
  fr_closed :: "(nat \<times> (int \<times> string) option) list"
  fr_issued :: "(nat \<times> string) list"
  fr_trusted :: "(key_place \<times> string) list"
  fr_audit :: "audit_entry list"
  fr_alerts :: "(string \<times> alert_payload) list"

record web_url =
  wu_protocol :: string
  wu_hostname :: string
  wu_port :: string
  wu_href :: string

record fabric_env =
  fe_sha :: "string \<Rightarrow> string"
  fe_sign :: "string \<Rightarrow> string option"
  fe_url :: "string \<Rightarrow> web_url option"
  fe_heartbeatMs :: int
  fe_missedBeats :: int
  fe_offlineGraceMs :: int

definition no_agents :: registry where
  "no_agents = \<lparr>fr_agents = [], fr_nextAgent = 0, fr_targets = [], fr_nextTarget = 0, fr_live = [], fr_pendingOffline = [],
     fr_muxes = [], fr_timers = [], fr_nextTimer = 0, fr_tasks = [], fr_tickets = [], fr_vault = [], fr_pins = [], fr_sent = [],
     fr_closed = [], fr_issued = [], fr_trusted = [], fr_audit = [], fr_alerts = []\<rparr>"

definition find_agent :: "registry \<Rightarrow> nat \<Rightarrow> fabric_agent option" where
  "find_agent st i = List.find (\<lambda>a. fa_id a = i) (fr_agents st)"

definition update_agent :: "nat \<Rightarrow> (fabric_agent \<Rightarrow> fabric_agent) \<Rightarrow> registry \<Rightarrow> registry" where
  "update_agent i f st = st\<lparr>fr_agents := rows_update (\<lambda>a. fa_id a = i) f (fr_agents st)\<rparr>"

definition update_targets :: "(target_row \<Rightarrow> bool) \<Rightarrow> (target_row \<Rightarrow> target_row) \<Rightarrow> registry \<Rightarrow> registry" where
  "update_targets P f st = st\<lparr>fr_targets := rows_update P f (fr_targets st)\<rparr>"

definition note_audit :: "session_user option \<Rightarrow> string \<Rightarrow> string \<Rightarrow> registry \<Rightarrow> registry" where
  "note_audit user action t st = st\<lparr>fr_audit := fr_audit st @
     [\<lparr>au_actorId = map_option su_id user, au_actorEmail = map_option su_email user, au_action = action, au_target = Some t\<rparr>]\<rparr>"

definition spawn :: "fabric_task \<Rightarrow> registry \<Rightarrow> registry" where
  "spawn k st = st\<lparr>fr_tasks := fr_tasks st @ [k]\<rparr>"

section \<open>Authentication\<close>

text \<open>The answer to a presented credential; the relay attaches the socket of an accepted one later.\<close>

datatype agent_auth = Auth_ok nat | Auth_gone | Auth_bad

definition authenticateOutcome :: "fabric_env \<Rightarrow> string \<Rightarrow> registry \<Rightarrow> agent_auth" where
  "authenticateOutcome env credential st =
     (case parseCredential credential of
        None \<Rightarrow> Auth_bad
      | Some (prefix, secret) \<Rightarrow>
          (case List.find (\<lambda>a. fa_credPrefix a = Some prefix) (fr_agents st) of
             None \<Rightarrow> Auth_bad
           | Some a \<Rightarrow>
               if fa_status a = Ag_revoked then Auth_gone
               else (case fa_credHash a of
                       None \<Rightarrow> Auth_bad
                     | Some h \<Rightarrow> if h = [] then Auth_bad
                         else if \<not> safeEqualHex (fe_sha env secret) h then Auth_bad else Auth_ok (fa_id a))))"

definition connect_agent :: "fabric_env \<Rightarrow> string \<Rightarrow> registry \<Rightarrow> agent_auth \<times> registry" where
  "connect_agent env credential st =
     (case authenticateOutcome env credential st of
        Auth_ok i \<Rightarrow> (Auth_ok i, spawn (Attach i) st)
      | Auth_gone \<Rightarrow> (Auth_gone, st)
      | Auth_bad \<Rightarrow> (Auth_bad, st))"

definition isOnline :: "registry \<Rightarrow> nat \<Rightarrow> bool" where
  "isOnline st i \<longleftrightarrow> map_has (fr_live st) i"

definition statusOf :: "registry \<Rightarrow> nat \<Rightarrow> agent_status \<Rightarrow> agent_status" where
  "statusOf st i stored =
     (if stored = Ag_deleting then Ag_deleting
      else if isOnline st i \<or> map_has (fr_pendingOffline st) i then Ag_online
      else if stored = Ag_pending \<or> stored = Ag_revoked then stored
      else Ag_offline)"

section \<open>Connections\<close>

definition arm :: "fabric_timer \<Rightarrow> registry \<Rightarrow> nat \<times> registry" where
  "arm k st = (fr_nextTimer st, st\<lparr>fr_timers := map_set (fr_timers st) (fr_nextTimer st) k, fr_nextTimer := Suc (fr_nextTimer st)\<rparr>)"

definition disarm_timer :: "nat \<Rightarrow> registry \<Rightarrow> registry" where
  "disarm_timer t st = st\<lparr>fr_timers := map_del (fr_timers st) t\<rparr>"

definition close_sock :: "nat \<Rightarrow> (int \<times> string) option \<Rightarrow> registry \<Rightarrow> registry" where
  "close_sock s why st = st\<lparr>fr_closed := fr_closed st @ [(s, why)]\<rparr>"

definition on_mux :: "nat \<Rightarrow> (mux \<Rightarrow> mux) \<Rightarrow> registry \<Rightarrow> registry" where
  "on_mux s f st = st\<lparr>fr_muxes := at_index s f (fr_muxes st)\<rparr>"

definition send_frame :: "nat \<Rightarrow> out_frame \<Rightarrow> registry \<Rightarrow> registry" where
  "send_frame i f st = (case map_get (fr_live st) i of None \<Rightarrow> st | Some c \<Rightarrow> st\<lparr>fr_sent := fr_sent st @ [(lc_sock c, f)]\<rparr>)"

text \<open>A freshly authenticated socket; it becomes the next one.\<close>

definition register :: "nat \<Rightarrow> time \<Rightarrow> registry \<Rightarrow> registry" where
  "register i now st =
     (let st1 = (case map_get (fr_pendingOffline st) i of
                   None \<Rightarrow> st
                 | Some t \<Rightarrow> (disarm_timer t st)\<lparr>fr_pendingOffline := map_del (fr_pendingOffline st) i\<rparr>);
          st2 = (case map_get (fr_live st1) i of
                   None \<Rightarrow> st1
                 | Some c \<Rightarrow> close_sock (lc_sock c) (Some (4000, ''superseded'')) (on_mux (lc_sock c) dispose (disarm_timer (lc_timer c) st1)))
      in case arm (Missed_beats i) st2 of
           (t, st3) \<Rightarrow> st3\<lparr>fr_live := map_set (fr_live st3) i \<lparr>lc_sock = length (fr_muxes st3), lc_lastBeat = now, lc_timer = t\<rparr>,
                           fr_muxes := fr_muxes st3 @ [new_mux]\<rparr>)"

text \<open>The end of a live connection, shared by a forced one and a lost one.\<close>

definition drop_live :: "nat \<Rightarrow> (int \<times> string) option \<Rightarrow> registry \<Rightarrow> registry" where
  "drop_live i why st =
     (case map_get (fr_live st) i of
        None \<Rightarrow> st
      | Some c \<Rightarrow> close_sock (lc_sock c) why
          (on_mux (lc_sock c) dispose ((disarm_timer (lc_timer c) st)\<lparr>fr_live := map_del (fr_live st) i\<rparr>)))"

definition disconnect :: "nat \<Rightarrow> int \<Rightarrow> string \<Rightarrow> registry \<Rightarrow> registry" where
  "disconnect i code reason st = drop_live i (Some (code, reason)) st"

definition beginOffline :: "nat \<Rightarrow> string \<Rightarrow> registry \<Rightarrow> registry" where
  "beginOffline i reason st =
     (let st1 = drop_live i None st
      in if map_has (fr_pendingOffline st1) i then st1
         else case arm (Grace i reason) st1 of
                (t, st2) \<Rightarrow> st2\<lparr>fr_pendingOffline := map_set (fr_pendingOffline st2) i t\<rparr>)"

definition handleClose :: "nat \<Rightarrow> nat \<Rightarrow> registry \<Rightarrow> registry" where
  "handleClose i s st =
     (case map_get (fr_live st) i of
        None \<Rightarrow> st
      | Some c \<Rightarrow> if lc_sock c \<noteq> s then st else beginOffline i ''connection closed'' st)"

text \<open>\<^verbatim>\<open>finalizeOffline\<close> up to the read of the row, then the write.\<close>

definition finalize_begin :: "nat \<Rightarrow> string \<Rightarrow> registry \<Rightarrow> registry" where
  "finalize_begin i reason st =
     (let st1 = (case map_get (fr_pendingOffline st) i of
                   None \<Rightarrow> st
                 | Some t \<Rightarrow> (disarm_timer t st)\<lparr>fr_pendingOffline := map_del (fr_pendingOffline st) i\<rparr>)
      in if map_has (fr_live st1) i then st1 else spawn (Final_read i reason) st1)"

definition finalize_read :: "nat \<Rightarrow> string \<Rightarrow> registry \<Rightarrow> registry" where
  "finalize_read i reason st =
     (case find_agent st i of
        None \<Rightarrow> st
      | Some a \<Rightarrow> if fa_status a \<in> {Ag_revoked, Ag_offline, Ag_deleting} then st
          else spawn (Final_write i reason a) st)"

definition offline_alert :: "nat \<Rightarrow> string \<Rightarrow> fabric_agent \<Rightarrow> string \<times> alert_payload" where
  "offline_alert i reason a =
     (''fabric.agent_offline'',
      \<lparr>pl_title = ''Fabric agent offline: '' @ fa_name a,
       pl_body = fa_name a @ (case fa_hostname a of None \<Rightarrow> [] | Some h \<Rightarrow> if h = [] then [] else '' ('' @ h @ '')'') @
         '' stopped checking in ('' @ reason @ '').'',
       pl_dedupeKey = Some (''fabric-offline:'' @ show_nat i), pl_connectorId = None, pl_monitorId = None\<rparr>)"

definition finalize_write :: "nat \<Rightarrow> string \<Rightarrow> fabric_agent \<Rightarrow> registry \<Rightarrow> registry" where
  "finalize_write i reason a st =
     (let st1 = note_audit None ''fabric.agent.offline'' (show_nat i) (update_agent i (\<lambda>r. r\<lparr>fa_status := Ag_offline\<rparr>) st)
      in st1\<lparr>fr_alerts := fr_alerts st1 @ [offline_alert i reason a]\<rparr>)"

definition fire_timer :: "nat \<Rightarrow> registry \<Rightarrow> registry" where
  "fire_timer t st =
     (case map_get (fr_timers st) t of
        None \<Rightarrow> st
      | Some k \<Rightarrow>
          (let st1 = disarm_timer t st
           in case k of
                Missed_beats i \<Rightarrow> beginOffline i ''missed heartbeats'' st1
              | Grace i reason \<Rightarrow> finalize_begin i reason (st1\<lparr>fr_pendingOffline := map_del (fr_pendingOffline st1) i\<rparr>)
              | Drop_after i code reason \<Rightarrow> disconnect i code reason st1))"

definition reconcileGraceMs :: "fabric_env \<Rightarrow> int" where
  "reconcileGraceMs env = max (fe_heartbeatMs env * (fe_missedBeats env + 1)) (fe_offlineGraceMs env) + 30000"

definition reconcileOffline :: "fabric_env \<Rightarrow> time \<Rightarrow> registry \<Rightarrow> registry" where
  "reconcileOffline env now st =
     st\<lparr>fr_tasks := fr_tasks st @ map (\<lambda>a. Reconcile (fa_id a) (fa_lastSeenAt a) (now - reconcileGraceMs env))
          (filter (\<lambda>a. fa_status a = Ag_online) (fr_agents st))\<rparr>"

definition reconcile_one :: "nat \<Rightarrow> time option \<Rightarrow> time \<Rightarrow> registry \<Rightarrow> registry" where
  "reconcile_one i seen staleBefore st =
     (if isOnline st i \<or> map_has (fr_pendingOffline st) i then st
      else if (case seen of None \<Rightarrow> False | Some t \<Rightarrow> t > staleBefore) then st
      else finalize_begin i ''no heartbeat (reconciled)'' st)"

section \<open>Frames of an agent\<close>

definition onHeartbeat :: "nat \<Rightarrow> time \<Rightarrow> registry \<Rightarrow> registry" where
  "onHeartbeat i now st =
     (case map_get (fr_live st) i of
        None \<Rightarrow> st
      | Some c \<Rightarrow>
          (case arm (Missed_beats i) (disarm_timer (lc_timer c) st) of
             (t, st1) \<Rightarrow> update_agent i (\<lambda>a. a\<lparr>fa_lastSeenAt := Some now\<rparr>)
               (st1\<lparr>fr_live := map_set (fr_live st1) i (c\<lparr>lc_lastBeat := now, lc_timer := t\<rparr>)\<rparr>)))"

definition same_target :: "nat \<Rightarrow> string \<Rightarrow> string \<Rightarrow> int \<Rightarrow> target_row \<Rightarrow> bool" where
  "same_target i kind host port t \<longleftrightarrow> ft_agentId t = i \<and> ft_kind t = kind \<and> ft_host t = host \<and> ft_port t = port"

definition add_target :: "target_row \<Rightarrow> registry \<Rightarrow> registry" where
  "add_target t st = st\<lparr>fr_targets := fr_targets st @ [t\<lparr>ft_id := fr_nextTarget st\<rparr>], fr_nextTarget := Suc (fr_nextTarget st)\<rparr>"

definition LOOPBACK :: string where "LOOPBACK = ''127.0.0.1''"

definition sync_one :: "nat \<Rightarrow> bool \<Rightarrow> declared_target \<Rightarrow> registry \<Rightarrow> registry" where
  "sync_one i suppressLinuxRdp d st =
     (if dt_kind d \<notin> {''ssh'', ''rdp'', ''vnc''} then st
      else case num_of (dt_port d) of
        None \<Rightarrow> st
      | Some port \<Rightarrow>
          if port \<le> 0 \<or> port > 65535 then st
          else if suppressLinuxRdp \<and> dt_kind d = ''rdp'' \<and> port = 3389 then st
          else if list_ex (same_target i (dt_kind d) LOOPBACK port) (fr_targets st)
          then st\<lparr>fr_targets := rows_update (same_target i (dt_kind d) LOOPBACK port)
                 (\<lambda>t. case dt_label d of None \<Rightarrow> t | Some l \<Rightarrow> t\<lparr>ft_label := Some l\<rparr>) (fr_targets st)\<rparr>
          else if find_agent st i = None then st
          else add_target \<lparr>ft_id = 0, ft_agentId = i, ft_kind = dt_kind d, ft_host = LOOPBACK, ft_port = port, ft_label = dt_label d,
                 ft_secretRef = None, ft_hostKey = None, ft_source = ''discovered'', ft_group = None, ft_webUrl = None,
                 ft_webIgnoreCertErrors = False, ft_webAutofill = None\<rparr> st)"

definition syncTargets :: "nat \<Rightarrow> declared_target list \<Rightarrow> registry \<Rightarrow> registry" where
  "syncTargets i targets st =
     (let agent = find_agent st i
      in if (case agent of None \<Rightarrow> False | Some a \<Rightarrow> fa_mode a = Waypoint) then st
         else
           (let linux = (case agent of None \<Rightarrow> False | Some a \<Rightarrow> fa_os a = Some ''linux'');
                st1 = fold (sync_one i linux) targets st
            in if linux then st1\<lparr>fr_targets := filter (\<lambda>t. \<not> same_target i ''rdp'' LOOPBACK 3389 t) (fr_targets st1)\<rparr> else st1))"

definition computeAllow :: "registry \<Rightarrow> nat \<Rightarrow> (string \<times> int) list" where
  "computeAllow st i = uniq (map (\<lambda>t. (ft_host t, ft_port t)) (filter (\<lambda>t. ft_agentId t = i) (fr_targets st)))"

definition pushAllow :: "nat \<Rightarrow> registry \<Rightarrow> registry" where
  "pushAllow i st =
     (if \<not> map_has (fr_live st) i then st
      else send_frame i (Set_allow (computeAllow st i) (case find_agent st i of None \<Rightarrow> [] | Some a \<Rightarrow> fa_egressCidrs a)) st)"

text \<open>The uninstall frame, and the timer that drops the connection three seconds later.\<close>

definition requestUninstall :: "fabric_env \<Rightarrow> nat \<Rightarrow> registry \<Rightarrow> bool \<times> registry" where
  "requestUninstall env i st =
     (if \<not> map_has (fr_live st) i then (False, st)
      else
        (let token = (case find_agent st i of
                        None \<Rightarrow> None
                      | Some a \<Rightarrow> (case fa_credHash a of None \<Rightarrow> None | Some h \<Rightarrow> if h = [] then None else fe_sign env h))
         in (True, snd (arm (Drop_after i 4003 ''uninstalled'') (send_frame i (Uninstall token) st)))))"

definition onHello :: "nat \<Rightarrow> hello \<Rightarrow> time \<Rightarrow> registry \<Rightarrow> registry" where
  "onHello i h now st =
     (case map_get (fr_live st) i of
        None \<Rightarrow> st
      | Some c \<Rightarrow> spawn (Hello_read i (lc_sock c) h) (st\<lparr>fr_live := map_set (fr_live st) i (c\<lparr>lc_lastBeat := now\<rparr>)\<rparr>))"

definition hello_read :: "fabric_env \<Rightarrow> nat \<Rightarrow> nat \<Rightarrow> hello \<Rightarrow> registry \<Rightarrow> registry" where
  "hello_read env i s h st =
     (case find_agent st i of
        None \<Rightarrow> close_sock s (Some (4003, ''revoked'')) st
      | Some before \<Rightarrow>
          if fa_status before = Ag_revoked then close_sock s (Some (4003, ''revoked'')) st
          else if fa_status before = Ag_deleting then note_audit None ''fabric.agent.uninstall_pushed'' (show_nat i) (snd (requestUninstall env i st))
          else spawn (Hello_write i h before) st)"

definition or_before :: "string option \<Rightarrow> string option \<Rightarrow> string option" where
  "or_before new old = (case new of None \<Rightarrow> old | Some v \<Rightarrow> Some v)"

definition hello_columns :: "hello \<Rightarrow> fabric_agent \<Rightarrow> time \<Rightarrow> fabric_agent \<Rightarrow> fabric_agent" where
  "hello_columns h before now a =
     a\<lparr>fa_status := Ag_online, fa_os := or_before (hl_os h) (fa_os before), fa_osVersion := or_before (hl_osVersion h) (fa_osVersion before),
       fa_hostname := or_before (hl_hostname h) (fa_hostname before),
       fa_agentVersion := or_before (hl_agentVersion h) (fa_agentVersion before),
       fa_localIp := or_before (hl_localIp h) (fa_localIp before), fa_lastSeenAt := Some now\<rparr>"

definition online_alert :: "nat \<Rightarrow> hello \<Rightarrow> fabric_agent \<Rightarrow> string \<times> alert_payload" where
  "online_alert i h before =
     (''fabric.agent_online'',
      \<lparr>pl_title = ''Fabric agent back online: '' @ fa_name before,
       pl_body = fa_name before @ (case hl_hostname h of None \<Rightarrow> [] | Some n \<Rightarrow> if n = [] then [] else '' ('' @ n @ '')'') @
         '' reconnected to Cerebro.'',
       pl_dedupeKey = Some (''fabric-online:'' @ show_nat i), pl_connectorId = None, pl_monitorId = None\<rparr>)"

text \<open>The rest of a hello; the update throws when the row is gone.\<close>

definition hello_write :: "nat \<Rightarrow> hello \<Rightarrow> fabric_agent \<Rightarrow> time \<Rightarrow> registry \<Rightarrow> registry" where
  "hello_write i h before now st =
     (if find_agent st i = None then st
      else
        (let st1 = update_agent i (hello_columns h before now) st;
             st2 = (if fa_mode before \<noteq> Waypoint then syncTargets i (hl_targets h) st1 else st1);
             st3 = (if fa_status before \<noteq> Ag_online then note_audit None ''fabric.agent.online'' (show_nat i) st2 else st2);
             st4 = (if fa_status before = Ag_offline then st3\<lparr>fr_alerts := fr_alerts st3 @ [online_alert i h before]\<rparr> else st3);
             waypoint = fa_mode before = Waypoint
         in send_frame i (Hello_ack (if waypoint then Some (computeAllow st4 i) else None) (if waypoint then fa_egressCidrs before else [])) st4))"

text \<open>The row of an agent that has confirmed its removal, with its targets.\<close>

definition delete_agent_row :: "nat \<Rightarrow> registry \<Rightarrow> registry" where
  "delete_agent_row i st = st\<lparr>fr_agents := filter (\<lambda>a. fa_id a \<noteq> i) (fr_agents st), fr_targets := filter (\<lambda>t. ft_agentId t \<noteq> i) (fr_targets st)\<rparr>"

definition purgeUninstalledAgent :: "nat \<Rightarrow> registry \<Rightarrow> registry" where
  "purgeUninstalledAgent i st =
     (case find_agent st i of
        None \<Rightarrow> st
      | Some a \<Rightarrow> if fa_status a \<noteq> Ag_deleting then st
          else disconnect i 4003 ''uninstalled'' (note_audit None ''fabric.agent.uninstalled'' (show_nat i) (delete_agent_row i st)))"

datatype agent_frame =
    Hello hello
  | Heartbeat
  | Targets "declared_target list"
  | Ca_result bool
  | Uninstall_ack
  | Stream_control control

definition handleFrame :: "nat \<Rightarrow> agent_frame \<Rightarrow> time \<Rightarrow> registry \<Rightarrow> registry" where
  "handleFrame i f now st =
     (case f of
        Hello h \<Rightarrow> onHello i h now st
      | Heartbeat \<Rightarrow> onHeartbeat i now st
      | Targets ts \<Rightarrow> syncTargets i ts st
      | Ca_result ok \<Rightarrow>
          note_audit None (if ok then ''fabric.ca.host_trusted'' else ''fabric.ca.host_trust_failed'') (show_nat i)
            (if ok then update_agent i (\<lambda>a. a\<lparr>fa_caTrustedAt := Some now\<rparr>) st else st)
      | Uninstall_ack \<Rightarrow> purgeUninstalledAgent i st
      | Stream_control c \<Rightarrow>
          (case map_get (fr_live st) i of None \<Rightarrow> st | Some l \<Rightarrow> on_mux (lc_sock l) (handleControl c) st))"

definition handle_data :: "nat \<Rightarrow> bytes \<Rightarrow> registry \<Rightarrow> registry" where
  "handle_data i b st = (case map_get (fr_live st) i of None \<Rightarrow> st | Some l \<Rightarrow> on_mux (lc_sock l) (handleAgentData b) st)"

definition open_agent_stream :: "nat \<Rightarrow> string \<Rightarrow> int \<Rightarrow> registry \<Rightarrow> (string + unit) \<times> registry" where
  "open_agent_stream i host port st =
     (case map_get (fr_live st) i of
        None \<Rightarrow> (Inl ''Agent is not connected.'', st)
      | Some l \<Rightarrow> (Inr (), on_mux (lc_sock l) (openStream host port) st))"

section \<open>Enrollment\<close>

definition enroll_check :: "fabric_env \<Rightarrow> string \<Rightarrow> time \<Rightarrow> registry \<Rightarrow> http_error + fabric_agent" where
  "enroll_check env token now st =
     (case parseEnrollToken token of
        None \<Rightarrow> Inl (Unauthorized ''Invalid enrollment token.'')
      | Some secret \<Rightarrow>
          (case List.find (\<lambda>a. fa_enrollHash a = Some (fe_sha env secret)) (fr_agents st) of
             None \<Rightarrow> Inl (Unauthorized ''Enrollment token is invalid or expired.'')
           | Some a \<Rightarrow>
               if fa_status a = Ag_revoked \<or> (case fa_enrollExpires a of None \<Rightarrow> True | Some t \<Rightarrow> t < now)
               then Inl (Unauthorized ''Enrollment token is invalid or expired.'') else Inr a))"

text \<open>The credential is issued; the update throws when the row is gone, and the prefix is a unique column.\<close>

definition enroll_write :: "fabric_env \<Rightarrow> string \<Rightarrow> string \<Rightarrow> fabric_agent \<Rightarrow> registry \<Rightarrow> registry" where
  "enroll_write env prefix secret a st =
     (if find_agent st (fa_id a) = None \<or> list_ex (\<lambda>x. fa_id x \<noteq> fa_id a \<and> fa_credPrefix x = Some prefix) (fr_agents st) then st
      else
        (case generateCredential (fe_sha env) prefix secret of
           (plaintext, p, h) \<Rightarrow>
             (let st1 = note_audit None ''fabric.agent.enrolled'' (show_nat (fa_id a))
                    (update_agent (fa_id a) (\<lambda>r. r\<lparr>fa_enrollHash := None, fa_enrollExpires := None, fa_credPrefix := Some p,
                       fa_credHash := Some h\<rparr>) st)
              in st1\<lparr>fr_issued := fr_issued st1 @ [(fa_id a, plaintext)]\<rparr>)))"

definition enroll :: "fabric_env \<Rightarrow> string \<Rightarrow> string \<Rightarrow> string \<Rightarrow> time \<Rightarrow> registry \<Rightarrow> (http_error + unit) \<times> registry" where
  "enroll env token prefix secret now st =
     (case enroll_check env token now st of Inl e \<Rightarrow> (Inl e, st) | Inr a \<Rightarrow> (Inr (), spawn (Enroll_write a prefix secret) st))"

section \<open>What operators do\<close>

definition ENROLL_TTL_MS :: int where "ENROLL_TTL_MS = 3600000"

record agent_input =
  ai_name :: string
  ai_os :: "string option"
  ai_tags :: "string list"
  ai_mode :: "string option"

definition new_agent :: "nat \<Rightarrow> string \<Rightarrow> agent_input \<Rightarrow> time \<Rightarrow> fabric_agent" where
  "new_agent i h inp now =
     (let mode = (if ai_mode inp = Some ''waypoint'' then Waypoint else Endpoint); name = trim (ai_name inp)
      in \<lparr>fa_id = i,
          fa_name = (if name \<noteq> [] then name else if mode = Waypoint then ''Unnamed Waypoint'' else ''Unnamed machine''),
          fa_hostname = None, fa_os = ai_os inp, fa_osVersion = None, fa_agentVersion = None, fa_localIp = None, fa_notes = None,
          fa_tags = ai_tags inp, fa_status = Ag_pending, fa_mode = mode, fa_egressCidrs = [], fa_requireApproval = False,
          fa_enrollHash = Some h, fa_enrollExpires = Some (now + ENROLL_TTL_MS), fa_credPrefix = None, fa_credHash = None,
          fa_lastSeenAt = None, fa_caTrustedAt = None, fa_pendingUninstallAt = None, fa_pendingUninstallBy = None\<rparr>)"

text \<open>The database refuses a repeated enrollment hash.\<close>

definition createAgent ::
    "fabric_env \<Rightarrow> string \<Rightarrow> agent_input \<Rightarrow> session_user \<Rightarrow> time \<Rightarrow> registry \<Rightarrow> (http_error + string) \<times> registry" where
  "createAgent env secret inp user now st =
     (case generateEnrollToken (fe_sha env) secret of
        (token, h) \<Rightarrow>
          if list_ex (\<lambda>x. fa_enrollHash x = Some h) (fr_agents st) then (Inl (InternalError ''unique''), st)
          else (Inr token, note_audit (Some user) ''fabric.agent.created'' (show_nat (fr_nextAgent st))
                 (st\<lparr>fr_agents := fr_agents st @ [new_agent (fr_nextAgent st) h inp now], fr_nextAgent := Suc (fr_nextAgent st)\<rparr>)))"

text \<open>A range of an egress policy; a mask that is missing is the whole address.\<close>

definition cidr_text :: "string \<Rightarrow> int \<Rightarrow> string" where
  "cidr_text addr bits = addr @ ''/'' @ show_int bits"

definition egress_range :: "string \<Rightarrow> string + string" where
  "egress_range v =
     (let parts = split_on CHR ''/'' v; addr = hd parts; fam = isIP addr; maxBits = (if fam = 6 then 128 else 32)
      in if fam = 0 then Inl (''Invalid CIDR/IP: '' @ v)
         else case (case parts of _ # b # _ \<Rightarrow> num_of_string b | _ \<Rightarrow> Some maxBits) of
                None \<Rightarrow> Inl (''Invalid CIDR mask: '' @ v)
              | Some bits \<Rightarrow> if bits < 0 \<or> bits > maxBits then Inl (''Invalid CIDR mask: '' @ v) else Inr (cidr_text addr bits))"

fun egress_ranges :: "string list \<Rightarrow> string + string list" where
  "egress_ranges [] = Inr []"
| "egress_ranges (raw # rs) =
     (let v = trim raw
      in if v = [] then egress_ranges rs
         else case egress_range v of
                Inl e \<Rightarrow> Inl e
              | Inr c \<Rightarrow> (case egress_ranges rs of Inl e \<Rightarrow> Inl e | Inr cs \<Rightarrow> Inr (c # cs)))"

definition egress_cidrs :: "string list \<Rightarrow> string + string list" where
  "egress_cidrs rs = (case egress_ranges rs of Inl e \<Rightarrow> Inl e | Inr cs \<Rightarrow> Inr (take 64 (uniq cs)))"

fun egress_block :: "string list \<Rightarrow> block_list \<Rightarrow> net_error + block_list" where
  "egress_block [] bl = Inr bl"
| "egress_block (c # cs) bl =
     (let parts = split_on CHR ''/'' c; addr = hd parts; bits = nat (the (num_of_string (hd (tl parts))))
      in case addSubnet bl addr bits (if isIP addr = 6 then Ipv6 else Ipv4) of Inl e \<Rightarrow> Inl e | Inr bl1 \<Rightarrow> egress_block cs bl1)"

definition ipInCidrs :: "string \<Rightarrow> string list \<Rightarrow> bool" where
  "ipInCidrs ip cidrs \<longleftrightarrow>
     isIP ip \<noteq> 0 \<and> (case egress_block cidrs [] of Inl e \<Rightarrow> False | Inr bl \<Rightarrow> bl_check bl ip)"

record agent_edit =
  gi_name :: "string option"
  gi_tags :: "string list option"
  gi_notes :: "string option option"
  gi_egressCidrs :: "string list option"
  gi_requireApproval :: "bool option"

text \<open>The columns are collected, and checked, before the row is written.\<close>

definition edit_problem :: "agent_edit \<Rightarrow> fabric_agent \<Rightarrow> http_error option" where
  "edit_problem inp a =
     (if (case gi_name inp of None \<Rightarrow> False | Some n \<Rightarrow> trim n = []) then Some (BadRequest ''Name cannot be empty.'')
      else case gi_egressCidrs inp of
             None \<Rightarrow> None
           | Some rs \<Rightarrow>
               if fa_mode a \<noteq> Waypoint then Some (BadRequest ''Egress ranges apply only to a Waypoint.'')
               else (case egress_cidrs rs of Inl e \<Rightarrow> Some (BadRequest e) | Inr _ \<Rightarrow> None))"

definition edit_texts :: "agent_edit \<Rightarrow> fabric_agent \<Rightarrow> fabric_agent" where
  "edit_texts inp a =
     (let a1 = (case gi_name inp of None \<Rightarrow> a | Some n \<Rightarrow> a\<lparr>fa_name := trim n\<rparr>);
          a2 = (case gi_tags inp of None \<Rightarrow> a1 | Some ts \<Rightarrow> a1\<lparr>fa_tags := take 20 (filter (\<lambda>t. t \<noteq> []) (map trim ts))\<rparr>)
      in case gi_notes inp of
           None \<Rightarrow> a2
         | Some n \<Rightarrow> a2\<lparr>fa_notes := (case n of None \<Rightarrow> None | Some s \<Rightarrow> if trim s = [] then None else Some (take 2000 (trim s)))\<rparr>)"

definition edit_columns :: "agent_edit \<Rightarrow> fabric_agent \<Rightarrow> fabric_agent" where
  "edit_columns inp a =
     (let a1 = edit_texts inp a;
          a2 = (case gi_egressCidrs inp of
                  None \<Rightarrow> a1
                | Some rs \<Rightarrow> (case egress_cidrs rs of Inl _ \<Rightarrow> a1 | Inr cs \<Rightarrow> a1\<lparr>fa_egressCidrs := cs\<rparr>))
      in case gi_requireApproval inp of None \<Rightarrow> a2 | Some b \<Rightarrow> a2\<lparr>fa_requireApproval := b\<rparr>)"

definition updateAgent :: "nat \<Rightarrow> agent_edit \<Rightarrow> session_user \<Rightarrow> registry \<Rightarrow> (http_error + unit) \<times> registry" where
  "updateAgent i inp user st =
     (case find_agent st i of
        None \<Rightarrow> (Inl (NotFound ''Agent not found.''), st)
      | Some a \<Rightarrow>
          (case edit_problem inp a of
             Some e \<Rightarrow> (Inl e, st)
           | None \<Rightarrow>
               (let st1 = note_audit (Some user) ''fabric.agent.updated'' (show_nat i) (update_agent i (edit_columns inp) st)
                in (Inr (), if gi_egressCidrs inp \<noteq> None then pushAllow i st1 else st1))))"

definition revokeAgent :: "nat \<Rightarrow> session_user \<Rightarrow> registry \<Rightarrow> (http_error + unit) \<times> registry" where
  "revokeAgent i user st =
     (case find_agent st i of
        None \<Rightarrow> (Inl (NotFound ''Agent not found.''), st)
      | Some a \<Rightarrow>
          (Inr (), note_audit (Some user) ''fabric.agent.revoked'' (show_nat i)
             (update_agent i (\<lambda>r. r\<lparr>fa_status := Ag_revoked, fa_credPrefix := None, fa_credHash := None, fa_enrollHash := None,
                fa_enrollExpires := None\<rparr>) (disconnect i 4003 ''revoked'' st))))"

definition attached_secrets :: "nat \<Rightarrow> registry \<Rightarrow> string list" where
  "attached_secrets i st = List.map_filter ft_secretRef (filter (\<lambda>t. ft_agentId t = i) (fr_targets st))"

definition deleteAgent :: "fabric_env \<Rightarrow> nat \<Rightarrow> session_user \<Rightarrow> time \<Rightarrow> registry \<Rightarrow> (http_error + unit) \<times> registry" where
  "deleteAgent env i user now st =
     (case find_agent st i of
        None \<Rightarrow> (Inl (NotFound ''Agent not found.''), st)
      | Some a \<Rightarrow>
          (let st1 = st\<lparr>fr_vault := fold (\<lambda>k v. if k = [] then v else map_del v k) (attached_secrets i st) (fr_vault st)\<rparr>;
               st2 = update_agent i (\<lambda>r. r\<lparr>fa_status := Ag_deleting, fa_pendingUninstallAt := Some now,
                       fa_pendingUninstallBy := Some (su_email user)\<rparr>) st1
           in (Inr (), note_audit (Some user) ''fabric.agent.delete_requested'' (show_nat i) (snd (requestUninstall env i st2)))))"

definition retryUninstall :: "fabric_env \<Rightarrow> nat \<Rightarrow> session_user \<Rightarrow> registry \<Rightarrow> (http_error + bool) \<times> registry" where
  "retryUninstall env i user st =
     (case find_agent st i of
        None \<Rightarrow> (Inl (NotFound ''Agent not found.''), st)
      | Some a \<Rightarrow>
          if fa_status a \<noteq> Ag_deleting then (Inl (BadRequest ''Agent is not pending removal.''), st)
          else (case requestUninstall env i st of
                  (online, st1) \<Rightarrow> (Inr online, note_audit (Some user) ''fabric.agent.uninstall_retried'' (show_nat i) st1)))"

definition forceRemoveAgent :: "nat \<Rightarrow> session_user \<Rightarrow> registry \<Rightarrow> (http_error + unit) \<times> registry" where
  "forceRemoveAgent i user st =
     (case find_agent st i of
        None \<Rightarrow> (Inl (NotFound ''Agent not found.''), st)
      | Some a \<Rightarrow>
          if fa_status a \<noteq> Ag_deleting then (Inl (BadRequest ''Only a pending-removal agent can be force-removed.''), st)
          else (Inr (), note_audit (Some user) ''fabric.agent.force_removed'' (show_nat i) (delete_agent_row i (disconnect i 4003 ''revoked'' st))))"

section \<open>Routes of a Waypoint\<close>

record route_input =
  ri_kind :: string
  ri_host :: string
  ri_port :: json
  ri_label :: string
  ri_group :: string
  ri_secretRef :: string
  ri_webUrl :: string
  ri_webIgnoreCertErrors :: bool
  ri_webAutofill :: "string option"

definition short_text :: "nat \<Rightarrow> string \<Rightarrow> string option" where
  "short_text n s = (if trim s = [] then None else Some (take n (trim s)))"

definition normalizeAutofill :: "string option \<Rightarrow> string" where
  "normalizeAutofill v = (case v of Some s \<Rightarrow> if s \<in> {''off'', ''auto'', ''manual''} then s else ''manual'' | None \<Rightarrow> ''manual'')"

definition own_loopback :: "string \<Rightarrow> bool" where
  "own_loopback host \<longleftrightarrow> host = LOOPBACK \<or> to_lower host = ''localhost''"

text \<open>\<^verbatim>\<open>/^[a-z]+:\/\//i\<close>\<close>

definition has_scheme :: "string \<Rightarrow> bool" where
  "has_scheme s \<longleftrightarrow> (let rest = dropWhile is_alpha s in rest \<noteq> s \<and> starts_with rest ''://'')"

definition route_row :: "route_input \<Rightarrow> string \<Rightarrow> int \<Rightarrow> target_row" where
  "route_row inp host port =
     \<lparr>ft_id = 0, ft_agentId = 0, ft_kind = ri_kind inp, ft_host = host, ft_port = port, ft_label = short_text 120 (ri_label inp),
      ft_secretRef = short_text 256 (ri_secretRef inp), ft_hostKey = None, ft_source = ''curated'', ft_group = short_text 80 (ri_group inp),
      ft_webUrl = None, ft_webIgnoreCertErrors = False, ft_webAutofill = None\<rparr>"

definition web_route :: "fabric_env \<Rightarrow> route_input \<Rightarrow> http_error + target_row" where
  "web_route env inp =
     (let raw = trim (ri_webUrl inp)
      in if raw = [] then Inl (BadRequest ''A Remote Browser needs a URL.'')
         else case fe_url env (if has_scheme raw then raw else ''https://'' @ raw) of
                None \<Rightarrow> Inl (BadRequest ''Enter a valid URL, e.g. https://10.20.0.5.'')
              | Some u \<Rightarrow>
                  if wu_protocol u \<noteq> ''http:'' \<and> wu_protocol u \<noteq> ''https:'' then Inl (BadRequest ''Remote Browser URLs must be http(s).'')
                  else if own_loopback (wu_hostname u) then Inl (BadRequest ''A Waypoint targets the LAN, not its own loopback.'')
                  else
                    (let port = (if wu_port u \<noteq> [] then int (read_nat (wu_port u)) else if wu_protocol u = ''https:'' then 443 else 80)
                     in Inr ((route_row inp (wu_hostname u) port)\<lparr>ft_webUrl := Some (wu_href u),
                          ft_webIgnoreCertErrors := ri_webIgnoreCertErrors inp,
                          ft_webAutofill := Some (normalizeAutofill (ri_webAutofill inp))\<rparr>)))"

definition normalizeRoute :: "fabric_env \<Rightarrow> route_input \<Rightarrow> http_error + target_row" where
  "normalizeRoute env inp =
     (if ri_kind inp \<notin> {''ssh'', ''rdp'', ''vnc'', ''web''} then Inl (BadRequest ''kind must be one of ssh, rdp, vnc, web.'')
      else if ri_kind inp = ''web'' then web_route env inp
      else
        (let host = trim (ri_host inp)
         in if host = [] then Inl (BadRequest ''host is required.'')
            else if own_loopback host then Inl (BadRequest ''A Waypoint targets the LAN, not its own loopback.'')
            else case num_of (ri_port inp) of
                   None \<Rightarrow> Inl (BadRequest ''port must be 1-65535.'')
                 | Some port \<Rightarrow> if port \<le> 0 \<or> port > 65535 then Inl (BadRequest ''port must be 1-65535.'') else Inr (route_row inp host port)))"

definition requireWaypoint :: "nat \<Rightarrow> registry \<Rightarrow> http_error option" where
  "requireWaypoint i st =
     (case find_agent st i of
        None \<Rightarrow> Some (NotFound ''Agent not found.'')
      | Some a \<Rightarrow> if fa_mode a \<noteq> Waypoint then Some (BadRequest ''Routes can only be added to a Waypoint.'') else None)"

definition find_target_of :: "registry \<Rightarrow> nat \<Rightarrow> nat \<Rightarrow> target_row option" where
  "find_target_of st i t = List.find (\<lambda>x. ft_id x = t \<and> ft_agentId x = i) (fr_targets st)"

definition createRoute :: "fabric_env \<Rightarrow> nat \<Rightarrow> route_input \<Rightarrow> session_user \<Rightarrow> registry \<Rightarrow> (http_error + unit) \<times> registry" where
  "createRoute env i inp user st =
     (case requireWaypoint i st of
        Some e \<Rightarrow> (Inl e, st)
      | None \<Rightarrow>
          (case normalizeRoute env inp of
             Inl e \<Rightarrow> (Inl e, st)
           | Inr t \<Rightarrow>
               if list_ex (same_target i (ft_kind t) (ft_host t) (ft_port t)) (fr_targets st)
               then (Inl (BadRequest ''A route for this protocol/host/port already exists.''), st)
               else (Inr (), pushAllow i (note_audit (Some user) ''fabric.route.created'' (show_nat i) (add_target (t\<lparr>ft_agentId := i\<rparr>) st)))))"

definition route_columns :: "target_row \<Rightarrow> target_row \<Rightarrow> target_row" where
  "route_columns t row =
     t\<lparr>ft_id := ft_id row, ft_agentId := ft_agentId row,
       ft_hostKey := (if ft_kind row \<noteq> ft_kind t \<or> ft_host row \<noteq> ft_host t \<or> ft_port row \<noteq> ft_port t then None else ft_hostKey row)\<rparr>"

text \<open>The database refuses the update when another row has the same protocol, host and port.\<close>

definition updateRoute :: "fabric_env \<Rightarrow> nat \<Rightarrow> nat \<Rightarrow> route_input \<Rightarrow> session_user \<Rightarrow> registry \<Rightarrow> (http_error + unit) \<times> registry" where
  "updateRoute env i t inp user st =
     (case requireWaypoint i st of
        Some e \<Rightarrow> (Inl e, st)
      | None \<Rightarrow>
          (case find_target_of st i t of
             None \<Rightarrow> (Inl (NotFound ''Route not found.''), st)
           | Some row \<Rightarrow>
               (case normalizeRoute env inp of
                  Inl e \<Rightarrow> (Inl e, st)
                | Inr new \<Rightarrow>
                    if list_ex (\<lambda>x. ft_id x \<noteq> t \<and> same_target i (ft_kind new) (ft_host new) (ft_port new) x) (fr_targets st)
                    then (Inl (InternalError ''unique''), st)
                    else (Inr (), pushAllow i (note_audit (Some user) ''fabric.route.updated'' (show_nat i)
                           (update_targets (\<lambda>x. ft_id x = t \<and> ft_agentId x = i) (route_columns new) st))))))"

definition deleteRoute :: "nat \<Rightarrow> nat \<Rightarrow> session_user \<Rightarrow> registry \<Rightarrow> (http_error + unit) \<times> registry" where
  "deleteRoute i t user st =
     (case requireWaypoint i st of
        Some e \<Rightarrow> (Inl e, st)
      | None \<Rightarrow>
          (case find_target_of st i t of
             None \<Rightarrow> (Inl (NotFound ''Route not found.''), st)
           | Some row \<Rightarrow>
               (Inr (), pushAllow i (note_audit (Some user) ''fabric.route.deleted'' (show_nat i)
                  (st\<lparr>fr_targets := filter (\<lambda>x. ft_id x \<noteq> t) (fr_targets st)\<rparr>)))))"

section \<open>Targets of a session\<close>

definition resolveStoredTarget :: "nat \<Rightarrow> nat \<Rightarrow> string \<Rightarrow> registry \<Rightarrow> http_error + session_target" where
  "resolveStoredTarget i t kind st =
     (case find_target_of st i t of
        None \<Rightarrow> Inl (NotFound ''Target not found.'')
      | Some row \<Rightarrow>
          if ft_kind row \<noteq> kind then Inl (BadRequest (''This target is not a '' @ to_upper kind @ '' endpoint.''))
          else if (case find_agent st i of None \<Rightarrow> False | Some a \<Rightarrow> fa_status a = Ag_deleting)
          then Inl (BadRequest ''This agent is being removed.'')
          else if \<not> isOnline st i then Inl (BadRequest ''Agent is offline.'')
          else Inr \<lparr>sx_id = Some t, sx_agentId = i, sx_kind = kind, sx_host = ft_host row, sx_port = ft_port row,
                 sx_secretRef = ft_secretRef row\<rparr>)"

definition adhoc_address :: "string \<Rightarrow> json \<Rightarrow> http_error + string \<times> int" where
  "adhoc_address h p =
     (let host = trim h
      in if isIP host = 0 then Inl (BadRequest ''Ad-hoc connections require a literal IP address.'')
         else case num_of p of
                None \<Rightarrow> Inl (BadRequest ''Invalid port.'')
              | Some port \<Rightarrow> if port \<le> 0 \<or> port > 65535 then Inl (BadRequest ''Invalid port.'') else Inr (host, port))"

definition outside_egress :: "string \<Rightarrow> string" where
  "outside_egress host = host @ '' is not within this Waypoint'' @ [CHR 0x27] @ ''s egress ranges.''"

definition resolveAdhocTarget :: "nat \<Rightarrow> string \<Rightarrow> string \<Rightarrow> json \<Rightarrow> registry \<Rightarrow> http_error + session_target" where
  "resolveAdhocTarget i kind h p st =
     (case find_agent st i of
        None \<Rightarrow> Inl (NotFound ''Agent not found.'')
      | Some a \<Rightarrow>
          if fa_mode a \<noteq> Waypoint then Inl (BadRequest ''Ad-hoc connections require a Waypoint.'')
          else if fa_status a = Ag_deleting then Inl (BadRequest ''This Waypoint is being removed.'')
          else if \<not> isOnline st i then Inl (BadRequest ''Waypoint is offline.'')
          else (case adhoc_address h p of
                  Inl e \<Rightarrow> Inl e
                | Inr (host, port) \<Rightarrow>
                    if fa_egressCidrs a = [] then Inl (BadRequest ''This Waypoint has no ad-hoc egress ranges configured.'')
                    else if \<not> ipInCidrs host (fa_egressCidrs a) then Inl (BadRequest (outside_egress host))
                    else Inr \<lparr>sx_id = None, sx_agentId = i, sx_kind = kind, sx_host = host, sx_port = port, sx_secretRef = None\<rparr>))"

section \<open>Credentials of a session\<close>

definition revealCredential :: "string \<Rightarrow> string \<Rightarrow> registry \<Rightarrow> http_error + login_secret" where
  "revealCredential key kind st =
     (case map_get (fr_vault st) key of
        Some e \<Rightarrow> if ve_kind e = kind then Inr (ve_value e)
          else Inl (BadRequest (''That vault entry is not an '' @ to_upper kind @ '' credential.''))
      | None \<Rightarrow> Inl (BadRequest (''That vault entry is not an '' @ to_upper kind @ '' credential.'')))"

definition may_manage :: "session_user \<Rightarrow> bool" where
  "may_manage user \<longleftrightarrow> ''fabric:manage'' \<in> set (su_permissions user)"

definition cred_slug :: "string \<Rightarrow> string" where
  "cred_slug name =
     (let slug = take 60 (trim_dashes (replace_runs (\<lambda>c. \<not> (is_lower c \<or> is_digit c)) (to_lower name)))
      in if slug = [] then ''cred'' else slug)"

definition saveNamedCredential :: "string \<Rightarrow> string \<Rightarrow> login_secret \<Rightarrow> session_user \<Rightarrow> registry \<Rightarrow> registry" where
  "saveNamedCredential kind name v user st =
     (let key = ''fabric/cred/'' @ cred_slug name
      in note_audit (Some user) ''fabric.credential_saved'' key (st\<lparr>fr_vault := map_set (fr_vault st) key \<lparr>ve_kind = kind, ve_value = v\<rparr>\<rparr>))"

definition save_as_instead :: string where
  "save_as_instead = ''Use '' @ [CHR 0x27] @ ''Save as'' @ [CHR 0x27] @ '' to store a credential for an ad-hoc connection.''"

definition target_key :: "nat \<Rightarrow> nat \<Rightarrow> string" where
  "target_key i t = ''fabric/'' @ show_nat i @ ''/'' @ show_nat t"

text \<open>The vault is written before the row, whose update throws when it is gone.\<close>

definition saveTargetCredential ::
    "session_target \<Rightarrow> string \<Rightarrow> login_secret \<Rightarrow> session_user \<Rightarrow> registry \<Rightarrow> (http_error + unit) \<times> registry" where
  "saveTargetCredential x kind v user st =
     (case sx_id x of
        None \<Rightarrow> (Inl (BadRequest save_as_instead), st)
      | Some t \<Rightarrow>
          (let key = target_key (sx_agentId x) t; st1 = st\<lparr>fr_vault := map_set (fr_vault st) key \<lparr>ve_kind = kind, ve_value = v\<rparr>\<rparr>
           in if \<not> list_ex (\<lambda>r. ft_id r = t) (fr_targets st) then (Inl (InternalError ''update''), st1)
              else (Inr (), note_audit (Some user) ''fabric.target.credential_saved'' (show_nat (sx_agentId x))
                     (update_targets (\<lambda>r. ft_id r = t) (\<lambda>r. r\<lparr>ft_secretRef := Some key\<rparr>) st1))))"

definition save_login ::
    "session_target \<Rightarrow> string \<Rightarrow> connect_input \<Rightarrow> login_secret \<Rightarrow> session_user \<Rightarrow> registry \<Rightarrow> (http_error + unit) \<times> registry" where
  "save_login x kind inp v user st =
     (if \<not> ci_save inp then (Inr (), st)
      else if \<not> may_manage user then (Inl (Forbidden ''Saving a credential to the vault requires fabric:manage.''), st)
      else if trim (ci_saveAs inp) \<noteq> [] then (Inr (), saveNamedCredential kind (trim (ci_saveAs inp)) v user st)
      else saveTargetCredential x kind v user st)"

definition clearTargetCredential :: "nat \<Rightarrow> nat \<Rightarrow> session_user \<Rightarrow> registry \<Rightarrow> (http_error + unit) \<times> registry" where
  "clearTargetCredential i t user st =
     (case find_target_of st i t of
        None \<Rightarrow> (Inl (NotFound ''Target not found.''), st)
      | Some row \<Rightarrow>
          (let st1 = (case ft_secretRef row of
                        None \<Rightarrow> st
                      | Some k \<Rightarrow> if k = [] then st
                          else update_targets (\<lambda>x. ft_id x = t) (\<lambda>x. x\<lparr>ft_secretRef := None\<rparr>) (st\<lparr>fr_vault := map_del (fr_vault st) k\<rparr>))
           in (Inr (), note_audit (Some user) ''fabric.target.credential_cleared'' (show_nat i) st1)))"

text \<open>The vault entry a connection names, before the login that was typed.\<close>

definition login_ref :: "session_target \<Rightarrow> connect_input \<Rightarrow> string option" where
  "login_ref x inp =
     (if ci_secretRef inp \<noteq> [] then Some (ci_secretRef inp)
      else if ci_useSaved inp then (case sx_secretRef x of None \<Rightarrow> None | Some r \<Rightarrow> if r = [] then None else Some r) else None)"

definition resolveSshCreds ::
    "session_target \<Rightarrow> connect_input \<Rightarrow> session_user \<Rightarrow> registry \<Rightarrow> (http_error + login_secret) \<times> registry" where
  "resolveSshCreds x inp user st =
     (case login_ref x inp of
        Some ref \<Rightarrow> (revealCredential ref ''ssh'' st, st)
      | None \<Rightarrow>
          if trim (ls_username (ci_login inp)) = [] then (Inl (BadRequest ''A username is required.''), st)
          else if ls_password (ci_login inp) = [] \<and> ls_privateKey (ci_login inp) = []
          then (Inl (BadRequest ''Provide a password or a private key.''), st)
          else
            (let creds = (ci_login inp)\<lparr>ls_username := trim (ls_username (ci_login inp))\<rparr>
             in case save_login x ''ssh'' inp creds user st of (Inl e, st1) \<Rightarrow> (Inl e, st1) | (Inr _, st1) \<Rightarrow> (Inr creds, st1)))"

section \<open>Tickets\<close>

definition TICKET_TTL_MS :: int where "TICKET_TTL_MS = 30000"

definition issue :: "string \<Rightarrow> session_desc \<Rightarrow> time \<Rightarrow> registry \<Rightarrow> registry" where
  "issue token d now st = st\<lparr>fr_tickets := map_keep (\<lambda>_ e. \<not> snd e < now) (map_set (fr_tickets st) token (d, now + TICKET_TTL_MS))\<rparr>"

definition consume :: "string \<Rightarrow> time \<Rightarrow> registry \<Rightarrow> session_desc option \<times> registry" where
  "consume token now st =
     ((case map_get (fr_tickets st) token of None \<Rightarrow> None | Some (d, e) \<Rightarrow> if e < now then None else Some d),
      st\<lparr>fr_tickets := map_del (fr_tickets st) token\<rparr>)"

definition session_of :: "session_target \<Rightarrow> session_user \<Rightarrow> login_secret option \<Rightarrow> session_desc" where
  "session_of x user l = \<lparr>sd_target = x, sd_userId = su_id user, sd_userEmail = su_email user, sd_login = l\<rparr>"

definition issueSshSession ::
    "session_target \<Rightarrow> connect_input \<Rightarrow> session_user \<Rightarrow> string \<Rightarrow> time \<Rightarrow> registry \<Rightarrow> (http_error + string) \<times> registry" where
  "issueSshSession x inp user token now st =
     (case resolveSshCreds x inp user st of
        (Inl e, st1) \<Rightarrow> (Inl e, st1)
      | (Inr c, st1) \<Rightarrow> (Inr token, issue token (session_of x user (Some c)) now st1))"

definition vnc_needs_manage :: string where
  "vnc_needs_manage = ''Using a saved VNC credential requires fabric:manage (VNC authenticates in your browser). '' @
     ''Enter the password to connect, or ask an admin.''"

definition vnc_creds ::
    "session_target \<Rightarrow> connect_input \<Rightarrow> session_user \<Rightarrow> registry \<Rightarrow> (http_error + login_secret option) \<times> registry" where
  "vnc_creds x inp user st =
     (case login_ref x inp of
        Some ref \<Rightarrow>
          if \<not> may_manage user then (Inl (Forbidden vnc_needs_manage), st)
          else (case revealCredential ref ''vnc'' st of Inl e \<Rightarrow> (Inl e, st) | Inr c \<Rightarrow> (Inr (Some c), st))
      | None \<Rightarrow>
          if ls_password (ci_login inp) = [] then (Inr None, st)
          else
            (let c = \<lparr>ls_username = trim (ls_username (ci_login inp)), ls_password = ls_password (ci_login inp), ls_privateKey = [],
                   ls_passphrase = []\<rparr>
             in case save_login x ''vnc'' inp c user st of (Inl e, st1) \<Rightarrow> (Inl e, st1) | (Inr _, st1) \<Rightarrow> (Inr (Some c), st1)))"

text \<open>The login of a VNC session goes to the browser with the ticket.\<close>

definition issueVncSession ::
    "session_target \<Rightarrow> connect_input \<Rightarrow> session_user \<Rightarrow> string \<Rightarrow> time \<Rightarrow> registry \<Rightarrow>
      (http_error + string \<times> login_secret option) \<times> registry" where
  "issueVncSession x inp user token now st =
     (case vnc_creds x inp user st of
        (Inl e, st1) \<Rightarrow> (Inl e, st1)
      | (Inr c, st1) \<Rightarrow> (Inr (token, c), issue token (session_of x user None) now st1))"

definition mint :: "session_target \<Rightarrow> connect_input \<Rightarrow> session_user \<Rightarrow> string \<Rightarrow> time \<Rightarrow> registry \<Rightarrow> registry" where
  "mint x inp user token now st =
     (if sx_kind x = ''vnc'' then snd (issueVncSession x inp user token now st) else snd (issueSshSession x inp user token now st))"

text \<open>The gate: a session that needs approval waits, as a closure over its target; the approval is \<^theory_text>\<open>Fabric_Approval\<close>.\<close>

definition gate_session :: "session_target \<Rightarrow> connect_input \<Rightarrow> session_user \<Rightarrow> string \<Rightarrow> time \<Rightarrow> registry \<Rightarrow> registry" where
  "gate_session x inp user token now st =
     (if (case find_agent st (sx_agentId x) of None \<Rightarrow> False | Some a \<Rightarrow> fa_requireApproval a) then spawn (Mint x inp user token) st
      else mint x inp user token now st)"

datatype where_to = Stored nat | Address string json

definition session_place :: "nat \<Rightarrow> string \<Rightarrow> where_to \<Rightarrow> registry \<Rightarrow> http_error + session_target" where
  "session_place i kind w st =
     (case w of Stored t \<Rightarrow> resolveStoredTarget i t kind st | Address h p \<Rightarrow> resolveAdhocTarget i kind h p st)"

definition openSession ::
    "nat \<Rightarrow> string \<Rightarrow> where_to \<Rightarrow> connect_input \<Rightarrow> session_user \<Rightarrow> string \<Rightarrow> time \<Rightarrow> registry \<Rightarrow> http_error option \<times> registry" where
  "openSession i kind w inp user token now st =
     (case session_place i kind w st of
        Inl e \<Rightarrow> (Some e, st)
      | Inr x \<Rightarrow> (None, gate_session x inp user token now st))"

text \<open>A ticket is redeemed and its session dials through the agent.\<close>

definition redeem :: "string \<Rightarrow> time \<Rightarrow> registry \<Rightarrow> registry" where
  "redeem token now st =
     (case consume token now st of
        (None, st1) \<Rightarrow> st1
      | (Some d, st1) \<Rightarrow> snd (open_agent_stream (sx_agentId (sd_target d)) (sx_host (sd_target d)) (sx_port (sd_target d)) st1))"

section \<open>Host keys\<close>

definition key_place_of :: "session_target \<Rightarrow> key_place" where
  "key_place_of x = (case sx_id x of Some t \<Rightarrow> Stored_target t | None \<Rightarrow> Ad_hoc (sx_agentId x) (sx_host x) (sx_port x))"

definition stored_pin :: "key_place \<Rightarrow> registry \<Rightarrow> string option" where
  "stored_pin k st =
     (case k of
        Stored_target t \<Rightarrow> (case List.find (\<lambda>r. ft_id r = t) (fr_targets st) of None \<Rightarrow> None | Some r \<Rightarrow> ft_hostKey r)
      | Ad_hoc i h p \<Rightarrow> map_get (fr_pins st) (i, h, p))"

definition note_trust :: "key_place \<Rightarrow> string \<Rightarrow> registry \<Rightarrow> registry" where
  "note_trust k fp st = st\<lparr>fr_trusted := fr_trusted st @ [(k, fp)]\<rparr>"

text \<open>The answer, unless the key is pinned first; \<open>readable\<close> is whether the database answers, \<open>saved\<close> whether
  the write of the pin works; the key is accepted either way.\<close>

definition checkHostKey :: "bool \<Rightarrow> bool \<Rightarrow> session_user \<Rightarrow> nat \<Rightarrow> key_place \<Rightarrow> string \<Rightarrow> registry \<Rightarrow> bool option \<times> registry" where
  "checkHostKey readable saved user i k fp st =
     (if (case k of Ad_hoc _ h p \<Rightarrow> h = [] \<or> p = 0 | Stored_target _ \<Rightarrow> False) then (Some True, note_trust k fp st)
      else if \<not> readable then (Some False, st)
      else case stored_pin k st of
             None \<Rightarrow> (None, spawn (Pin_key saved user i k fp) st)
           | Some p \<Rightarrow>
               if p = [] then (None, spawn (Pin_key saved user i k fp) st)
               else if p = fp then (Some True, note_trust k fp st)
               else (Some False, note_audit (Some user) ''fabric.hostkey.mismatch'' (show_nat i) st))"

definition pin_key :: "bool \<Rightarrow> session_user \<Rightarrow> nat \<Rightarrow> key_place \<Rightarrow> string \<Rightarrow> registry \<Rightarrow> registry" where
  "pin_key saved user i k fp st =
     note_trust k fp (note_audit (Some user) ''fabric.hostkey.pinned'' (show_nat i)
       (if \<not> saved then st
        else case k of
          Stored_target t \<Rightarrow> update_targets (\<lambda>r. ft_id r = t) (\<lambda>r. r\<lparr>ft_hostKey := Some fp\<rparr>) st
        | Ad_hoc a h p \<Rightarrow> st\<lparr>fr_pins := map_set (fr_pins st) (a, h, p) fp\<rparr>))"

definition clearHostKey :: "nat \<Rightarrow> nat \<Rightarrow> session_user \<Rightarrow> registry \<Rightarrow> (http_error + unit) \<times> registry" where
  "clearHostKey i t user st =
     (case find_target_of st i t of
        None \<Rightarrow> (Inl (NotFound ''Target not found.''), st)
      | Some row \<Rightarrow>
          (Inr (), note_audit (Some user) ''fabric.hostkey.cleared'' (show_nat i)
             (update_targets (\<lambda>x. ft_id x = t) (\<lambda>x. x\<lparr>ft_hostKey := None\<rparr>) st)))"

section \<open>The machine\<close>

text \<open>A task goes on from its database call.\<close>

definition task_turn :: "fabric_env \<Rightarrow> fabric_task \<Rightarrow> time \<Rightarrow> registry \<Rightarrow> registry" where
  "task_turn env k now st =
     (case k of
        Attach i \<Rightarrow> register i now st
      | Reconcile i seen staleBefore \<Rightarrow> reconcile_one i seen staleBefore st
      | Final_read i reason \<Rightarrow> finalize_read i reason st
      | Final_write i reason a \<Rightarrow> finalize_write i reason a st
      | Hello_read i s h \<Rightarrow> hello_read env i s h st
      | Hello_write i h before \<Rightarrow> hello_write i h before now st
      | Enroll_write a prefix secret \<Rightarrow> enroll_write env prefix secret a st
      | Mint x inp user token \<Rightarrow> mint x inp user token now st
      | Pin_key saved user i place fp \<Rightarrow> pin_key saved user i place fp st)"

definition run_task :: "fabric_env \<Rightarrow> nat \<Rightarrow> time \<Rightarrow> registry \<Rightarrow> registry" where
  "run_task env k now st =
     (if k \<ge> length (fr_tasks st) then st
      else task_turn env (fr_tasks st ! k) now (st\<lparr>fr_tasks := take k (fr_tasks st) @ drop (Suc k) (fr_tasks st)\<rparr>))"

text \<open>What the consumer of a tunnel, or the timer of a dial, does at a multiplexer.\<close>

definition consumer_op :: "mux_event \<Rightarrow> bool" where
  "consumer_op e \<longleftrightarrow> (case e of Mx_timeout _ \<Rightarrow> True | Mx_onData _ _ \<Rightarrow> True | Mx_onClose _ _ \<Rightarrow> True | Mx_write _ _ \<Rightarrow> True
     | Mx_close _ \<Rightarrow> True | _ \<Rightarrow> False)"

datatype fabric_event =
    Connect string
  | Lost nat nat
  | Frame nat agent_frame time
  | Data nat bytes
  | Consumer nat mux_event
  | Timer nat
  | Turn nat time
  | Sweep time
  | Enroll string string string time
  | Create string agent_input session_user time
  | Edit nat agent_edit session_user
  | Revoke nat session_user
  | Remove nat session_user time
  | Retry nat session_user
  | Force nat session_user
  | New_route nat route_input session_user
  | Edit_route nat nat route_input session_user
  | Drop_route nat nat session_user
  | Forget_login nat nat session_user
  | Forget_key nat nat session_user
  | Open_session nat string where_to connect_input session_user string time
  | Redeem string time
  | Host_key bool bool session_user nat key_place string

primrec agents_step :: "fabric_env \<Rightarrow> registry \<Rightarrow> fabric_event \<Rightarrow> registry" where
  "agents_step env st (Connect credential) = snd (connect_agent env credential st)"
| "agents_step env st (Lost i s) = handleClose i s st"
| "agents_step env st (Frame i f now) = handleFrame i f now st"
| "agents_step env st (Data i b) = handle_data i b st"
| "agents_step env st (Consumer s e) = (if consumer_op e then on_mux s (\<lambda>m. mux_step m e) st else st)"
| "agents_step env st (Timer t) = fire_timer t st"
| "agents_step env st (Turn k now) = run_task env k now st"
| "agents_step env st (Sweep now) = reconcileOffline env now st"
| "agents_step env st (Enroll token prefix secret now) = snd (enroll env token prefix secret now st)"
| "agents_step env st (Create secret inp user now) = snd (createAgent env secret inp user now st)"
| "agents_step env st (Edit i inp user) = snd (updateAgent i inp user st)"
| "agents_step env st (Revoke i user) = snd (revokeAgent i user st)"
| "agents_step env st (Remove i user now) = snd (deleteAgent env i user now st)"
| "agents_step env st (Retry i user) = snd (retryUninstall env i user st)"
| "agents_step env st (Force i user) = snd (forceRemoveAgent i user st)"
| "agents_step env st (New_route i inp user) = snd (createRoute env i inp user st)"
| "agents_step env st (Edit_route i t inp user) = snd (updateRoute env i t inp user st)"
| "agents_step env st (Drop_route i t user) = snd (deleteRoute i t user st)"
| "agents_step env st (Forget_login i t user) = snd (clearTargetCredential i t user st)"
| "agents_step env st (Forget_key i t user) = snd (clearHostKey i t user st)"
| "agents_step env st (Open_session i kind w inp user token now) = snd (openSession i kind w inp user token now st)"
| "agents_step env st (Redeem token now) = redeem token now st"
| "agents_step env st (Host_key readable saved user i k fp) = snd (checkHostKey readable saved user i k fp st)"

abbreviation agents_run :: "fabric_env \<Rightarrow> registry \<Rightarrow> fabric_event list \<Rightarrow> registry" where
  "agents_run env st es \<equiv> foldl (agents_step env) st es"

end
