(* ===== verification/Fabric_Safety.thy ===== *)
theory Fabric_Safety
  imports Fabric_Agents
begin

text \<open>
  What the agents of Fabric (\<^theory_text>\<open>Fabric_Agents\<close>) keep after any events in any order: connections, timers and
  multiplexers belong together (\<open>conn_ok\<close>), a revoked agent stays out (\<open>locked\<close>), and the table of agents keeps
  its keys (\<open>db_ok\<close>). Before them, what each operation leaves alone, and what an entry of an egress policy means.
\<close>

section \<open>Frames\<close>

lemma note_audit_keeps [simp]:
  "fr_agents (note_audit u a t st) = fr_agents st" "fr_nextAgent (note_audit u a t st) = fr_nextAgent st"
  "fr_targets (note_audit u a t st) = fr_targets st" "fr_nextTarget (note_audit u a t st) = fr_nextTarget st"
  "fr_live (note_audit u a t st) = fr_live st" "fr_pendingOffline (note_audit u a t st) = fr_pendingOffline st"
  "fr_muxes (note_audit u a t st) = fr_muxes st" "fr_timers (note_audit u a t st) = fr_timers st"
  "fr_nextTimer (note_audit u a t st) = fr_nextTimer st" "fr_tasks (note_audit u a t st) = fr_tasks st"
  "fr_tickets (note_audit u a t st) = fr_tickets st" "fr_vault (note_audit u a t st) = fr_vault st"
  "fr_pins (note_audit u a t st) = fr_pins st" "fr_sent (note_audit u a t st) = fr_sent st"
  "fr_closed (note_audit u a t st) = fr_closed st" "fr_issued (note_audit u a t st) = fr_issued st"
  "fr_trusted (note_audit u a t st) = fr_trusted st" "fr_alerts (note_audit u a t st) = fr_alerts st"
  by (simp_all add: note_audit_def)

lemma spawn_keeps [simp]:
  "fr_agents (spawn k st) = fr_agents st" "fr_nextAgent (spawn k st) = fr_nextAgent st"
  "fr_targets (spawn k st) = fr_targets st" "fr_nextTarget (spawn k st) = fr_nextTarget st"
  "fr_live (spawn k st) = fr_live st" "fr_pendingOffline (spawn k st) = fr_pendingOffline st"
  "fr_muxes (spawn k st) = fr_muxes st" "fr_timers (spawn k st) = fr_timers st" "fr_nextTimer (spawn k st) = fr_nextTimer st"
  "fr_tickets (spawn k st) = fr_tickets st" "fr_vault (spawn k st) = fr_vault st" "fr_pins (spawn k st) = fr_pins st"
  "fr_sent (spawn k st) = fr_sent st" "fr_closed (spawn k st) = fr_closed st" "fr_issued (spawn k st) = fr_issued st"
  "fr_trusted (spawn k st) = fr_trusted st" "fr_audit (spawn k st) = fr_audit st" "fr_alerts (spawn k st) = fr_alerts st"
  by (simp_all add: spawn_def)

lemma update_agent_keeps [simp]:
  "fr_nextAgent (update_agent i f st) = fr_nextAgent st" "fr_targets (update_agent i f st) = fr_targets st"
  "fr_nextTarget (update_agent i f st) = fr_nextTarget st" "fr_live (update_agent i f st) = fr_live st"
  "fr_pendingOffline (update_agent i f st) = fr_pendingOffline st" "fr_muxes (update_agent i f st) = fr_muxes st"
  "fr_timers (update_agent i f st) = fr_timers st" "fr_nextTimer (update_agent i f st) = fr_nextTimer st"
  "fr_tasks (update_agent i f st) = fr_tasks st" "fr_tickets (update_agent i f st) = fr_tickets st"
  "fr_vault (update_agent i f st) = fr_vault st" "fr_pins (update_agent i f st) = fr_pins st"
  "fr_sent (update_agent i f st) = fr_sent st" "fr_closed (update_agent i f st) = fr_closed st"
  "fr_issued (update_agent i f st) = fr_issued st" "fr_trusted (update_agent i f st) = fr_trusted st"
  "fr_audit (update_agent i f st) = fr_audit st" "fr_alerts (update_agent i f st) = fr_alerts st"
  by (simp_all add: update_agent_def)

lemma update_targets_keeps [simp]:
  "fr_agents (update_targets P tf st) = fr_agents st" "fr_nextAgent (update_targets P tf st) = fr_nextAgent st"
  "fr_nextTarget (update_targets P tf st) = fr_nextTarget st" "fr_live (update_targets P tf st) = fr_live st"
  "fr_pendingOffline (update_targets P tf st) = fr_pendingOffline st" "fr_muxes (update_targets P tf st) = fr_muxes st"
  "fr_timers (update_targets P tf st) = fr_timers st" "fr_nextTimer (update_targets P tf st) = fr_nextTimer st"
  "fr_tasks (update_targets P tf st) = fr_tasks st" "fr_tickets (update_targets P tf st) = fr_tickets st"
  "fr_vault (update_targets P tf st) = fr_vault st" "fr_pins (update_targets P tf st) = fr_pins st"
  "fr_sent (update_targets P tf st) = fr_sent st" "fr_closed (update_targets P tf st) = fr_closed st"
  "fr_issued (update_targets P tf st) = fr_issued st" "fr_trusted (update_targets P tf st) = fr_trusted st"
  "fr_audit (update_targets P tf st) = fr_audit st" "fr_alerts (update_targets P tf st) = fr_alerts st"
  by (simp_all add: update_targets_def)

lemma add_target_keeps [simp]:
  "fr_agents (add_target tr st) = fr_agents st" "fr_nextAgent (add_target tr st) = fr_nextAgent st"
  "fr_live (add_target tr st) = fr_live st" "fr_pendingOffline (add_target tr st) = fr_pendingOffline st"
  "fr_muxes (add_target tr st) = fr_muxes st" "fr_timers (add_target tr st) = fr_timers st"
  "fr_nextTimer (add_target tr st) = fr_nextTimer st" "fr_tasks (add_target tr st) = fr_tasks st"
  "fr_tickets (add_target tr st) = fr_tickets st" "fr_vault (add_target tr st) = fr_vault st"
  "fr_pins (add_target tr st) = fr_pins st" "fr_sent (add_target tr st) = fr_sent st"
  "fr_closed (add_target tr st) = fr_closed st" "fr_issued (add_target tr st) = fr_issued st"
  "fr_trusted (add_target tr st) = fr_trusted st" "fr_audit (add_target tr st) = fr_audit st"
  "fr_alerts (add_target tr st) = fr_alerts st"
  by (simp_all add: add_target_def)

lemma delete_agent_row_keeps [simp]:
  "fr_nextAgent (delete_agent_row i st) = fr_nextAgent st" "fr_nextTarget (delete_agent_row i st) = fr_nextTarget st"
  "fr_live (delete_agent_row i st) = fr_live st" "fr_pendingOffline (delete_agent_row i st) = fr_pendingOffline st"
  "fr_muxes (delete_agent_row i st) = fr_muxes st" "fr_timers (delete_agent_row i st) = fr_timers st"
  "fr_nextTimer (delete_agent_row i st) = fr_nextTimer st" "fr_tasks (delete_agent_row i st) = fr_tasks st"
  "fr_tickets (delete_agent_row i st) = fr_tickets st" "fr_vault (delete_agent_row i st) = fr_vault st"
  "fr_pins (delete_agent_row i st) = fr_pins st" "fr_sent (delete_agent_row i st) = fr_sent st"
  "fr_closed (delete_agent_row i st) = fr_closed st" "fr_issued (delete_agent_row i st) = fr_issued st"
  "fr_trusted (delete_agent_row i st) = fr_trusted st" "fr_audit (delete_agent_row i st) = fr_audit st"
  "fr_alerts (delete_agent_row i st) = fr_alerts st"
  by (simp_all add: delete_agent_row_def)

lemma close_sock_keeps [simp]:
  "fr_agents (close_sock s why st) = fr_agents st" "fr_nextAgent (close_sock s why st) = fr_nextAgent st"
  "fr_targets (close_sock s why st) = fr_targets st" "fr_nextTarget (close_sock s why st) = fr_nextTarget st"
  "fr_live (close_sock s why st) = fr_live st" "fr_pendingOffline (close_sock s why st) = fr_pendingOffline st"
  "fr_muxes (close_sock s why st) = fr_muxes st" "fr_timers (close_sock s why st) = fr_timers st"
  "fr_nextTimer (close_sock s why st) = fr_nextTimer st" "fr_tasks (close_sock s why st) = fr_tasks st"
  "fr_tickets (close_sock s why st) = fr_tickets st" "fr_vault (close_sock s why st) = fr_vault st"
  "fr_pins (close_sock s why st) = fr_pins st" "fr_sent (close_sock s why st) = fr_sent st"
  "fr_issued (close_sock s why st) = fr_issued st" "fr_trusted (close_sock s why st) = fr_trusted st"
  "fr_audit (close_sock s why st) = fr_audit st" "fr_alerts (close_sock s why st) = fr_alerts st"
  by (simp_all add: close_sock_def)

lemma on_mux_keeps [simp]:
  "fr_agents (on_mux s g st) = fr_agents st" "fr_nextAgent (on_mux s g st) = fr_nextAgent st"
  "fr_targets (on_mux s g st) = fr_targets st" "fr_nextTarget (on_mux s g st) = fr_nextTarget st"
  "fr_live (on_mux s g st) = fr_live st" "fr_pendingOffline (on_mux s g st) = fr_pendingOffline st"
  "fr_timers (on_mux s g st) = fr_timers st" "fr_nextTimer (on_mux s g st) = fr_nextTimer st"
  "fr_tasks (on_mux s g st) = fr_tasks st" "fr_tickets (on_mux s g st) = fr_tickets st"
  "fr_vault (on_mux s g st) = fr_vault st" "fr_pins (on_mux s g st) = fr_pins st" "fr_sent (on_mux s g st) = fr_sent st"
  "fr_closed (on_mux s g st) = fr_closed st" "fr_issued (on_mux s g st) = fr_issued st"
  "fr_trusted (on_mux s g st) = fr_trusted st" "fr_audit (on_mux s g st) = fr_audit st"
  "fr_alerts (on_mux s g st) = fr_alerts st"
  by (simp_all add: on_mux_def)

lemma disarm_timer_keeps [simp]:
  "fr_agents (disarm_timer n st) = fr_agents st" "fr_nextAgent (disarm_timer n st) = fr_nextAgent st"
  "fr_targets (disarm_timer n st) = fr_targets st" "fr_nextTarget (disarm_timer n st) = fr_nextTarget st"
  "fr_live (disarm_timer n st) = fr_live st" "fr_pendingOffline (disarm_timer n st) = fr_pendingOffline st"
  "fr_muxes (disarm_timer n st) = fr_muxes st" "fr_nextTimer (disarm_timer n st) = fr_nextTimer st"
  "fr_tasks (disarm_timer n st) = fr_tasks st" "fr_tickets (disarm_timer n st) = fr_tickets st"
  "fr_vault (disarm_timer n st) = fr_vault st" "fr_pins (disarm_timer n st) = fr_pins st"
  "fr_sent (disarm_timer n st) = fr_sent st" "fr_closed (disarm_timer n st) = fr_closed st"
  "fr_issued (disarm_timer n st) = fr_issued st" "fr_trusted (disarm_timer n st) = fr_trusted st"
  "fr_audit (disarm_timer n st) = fr_audit st" "fr_alerts (disarm_timer n st) = fr_alerts st"
  by (simp_all add: disarm_timer_def)

lemma arm_keeps [simp]:
  "fr_agents (snd (arm fk st)) = fr_agents st" "fr_nextAgent (snd (arm fk st)) = fr_nextAgent st"
  "fr_targets (snd (arm fk st)) = fr_targets st" "fr_nextTarget (snd (arm fk st)) = fr_nextTarget st"
  "fr_live (snd (arm fk st)) = fr_live st" "fr_pendingOffline (snd (arm fk st)) = fr_pendingOffline st"
  "fr_muxes (snd (arm fk st)) = fr_muxes st" "fr_tasks (snd (arm fk st)) = fr_tasks st"
  "fr_tickets (snd (arm fk st)) = fr_tickets st" "fr_vault (snd (arm fk st)) = fr_vault st"
  "fr_pins (snd (arm fk st)) = fr_pins st" "fr_sent (snd (arm fk st)) = fr_sent st"
  "fr_closed (snd (arm fk st)) = fr_closed st" "fr_issued (snd (arm fk st)) = fr_issued st"
  "fr_trusted (snd (arm fk st)) = fr_trusted st" "fr_audit (snd (arm fk st)) = fr_audit st"
  "fr_alerts (snd (arm fk st)) = fr_alerts st"
  by (simp_all add: arm_def)

lemma send_frame_keeps [simp]:
  "fr_agents (send_frame i fr st) = fr_agents st" "fr_nextAgent (send_frame i fr st) = fr_nextAgent st"
  "fr_targets (send_frame i fr st) = fr_targets st" "fr_nextTarget (send_frame i fr st) = fr_nextTarget st"
  "fr_live (send_frame i fr st) = fr_live st" "fr_pendingOffline (send_frame i fr st) = fr_pendingOffline st"
  "fr_muxes (send_frame i fr st) = fr_muxes st" "fr_timers (send_frame i fr st) = fr_timers st"
  "fr_nextTimer (send_frame i fr st) = fr_nextTimer st" "fr_tasks (send_frame i fr st) = fr_tasks st"
  "fr_tickets (send_frame i fr st) = fr_tickets st" "fr_vault (send_frame i fr st) = fr_vault st"
  "fr_pins (send_frame i fr st) = fr_pins st" "fr_closed (send_frame i fr st) = fr_closed st"
  "fr_issued (send_frame i fr st) = fr_issued st" "fr_trusted (send_frame i fr st) = fr_trusted st"
  "fr_audit (send_frame i fr st) = fr_audit st" "fr_alerts (send_frame i fr st) = fr_alerts st"
  by (simp_all add: send_frame_def split: option.split)

lemma note_trust_keeps [simp]:
  "fr_agents (note_trust kp fp st) = fr_agents st" "fr_nextAgent (note_trust kp fp st) = fr_nextAgent st"
  "fr_targets (note_trust kp fp st) = fr_targets st" "fr_nextTarget (note_trust kp fp st) = fr_nextTarget st"
  "fr_live (note_trust kp fp st) = fr_live st" "fr_pendingOffline (note_trust kp fp st) = fr_pendingOffline st"
  "fr_muxes (note_trust kp fp st) = fr_muxes st" "fr_timers (note_trust kp fp st) = fr_timers st"
  "fr_nextTimer (note_trust kp fp st) = fr_nextTimer st" "fr_tasks (note_trust kp fp st) = fr_tasks st"
  "fr_tickets (note_trust kp fp st) = fr_tickets st" "fr_vault (note_trust kp fp st) = fr_vault st"
  "fr_pins (note_trust kp fp st) = fr_pins st" "fr_sent (note_trust kp fp st) = fr_sent st"
  "fr_closed (note_trust kp fp st) = fr_closed st" "fr_issued (note_trust kp fp st) = fr_issued st"
  "fr_audit (note_trust kp fp st) = fr_audit st" "fr_alerts (note_trust kp fp st) = fr_alerts st"
  by (simp_all add: note_trust_def)

lemma issue_keeps [simp]:
  "fr_agents (issue tok d now st) = fr_agents st" "fr_nextAgent (issue tok d now st) = fr_nextAgent st"
  "fr_targets (issue tok d now st) = fr_targets st" "fr_nextTarget (issue tok d now st) = fr_nextTarget st"
  "fr_live (issue tok d now st) = fr_live st" "fr_pendingOffline (issue tok d now st) = fr_pendingOffline st"
  "fr_muxes (issue tok d now st) = fr_muxes st" "fr_timers (issue tok d now st) = fr_timers st"
  "fr_nextTimer (issue tok d now st) = fr_nextTimer st" "fr_tasks (issue tok d now st) = fr_tasks st"
  "fr_vault (issue tok d now st) = fr_vault st" "fr_pins (issue tok d now st) = fr_pins st"
  "fr_sent (issue tok d now st) = fr_sent st" "fr_closed (issue tok d now st) = fr_closed st"
  "fr_issued (issue tok d now st) = fr_issued st" "fr_trusted (issue tok d now st) = fr_trusted st"
  "fr_audit (issue tok d now st) = fr_audit st" "fr_alerts (issue tok d now st) = fr_alerts st"
  by (simp_all add: issue_def)

lemma register_keeps [simp]:
  "fr_agents (register i now st) = fr_agents st" "fr_nextAgent (register i now st) = fr_nextAgent st"
  "fr_targets (register i now st) = fr_targets st" "fr_tasks (register i now st) = fr_tasks st"
  "fr_tickets (register i now st) = fr_tickets st" "fr_pins (register i now st) = fr_pins st"
  "fr_trusted (register i now st) = fr_trusted st"
  by (simp_all add: register_def Let_def case_prod_beta split: option.split)


lemma enroll_write_keeps [simp]:
  "fr_nextAgent (enroll_write env p s a st) = fr_nextAgent st" "fr_targets (enroll_write env p s a st) = fr_targets st"
  "fr_nextTarget (enroll_write env p s a st) = fr_nextTarget st" "fr_live (enroll_write env p s a st) = fr_live st"
  "fr_pendingOffline (enroll_write env p s a st) = fr_pendingOffline st" "fr_muxes (enroll_write env p s a st) = fr_muxes st"
  "fr_timers (enroll_write env p s a st) = fr_timers st" "fr_nextTimer (enroll_write env p s a st) = fr_nextTimer st"
  "fr_tasks (enroll_write env p s a st) = fr_tasks st" "fr_tickets (enroll_write env p s a st) = fr_tickets st"
  "fr_vault (enroll_write env p s a st) = fr_vault st" "fr_pins (enroll_write env p s a st) = fr_pins st"
  "fr_sent (enroll_write env p s a st) = fr_sent st" "fr_closed (enroll_write env p s a st) = fr_closed st"
  "fr_trusted (enroll_write env p s a st) = fr_trusted st" "fr_alerts (enroll_write env p s a st) = fr_alerts st"
  by (simp_all add: enroll_write_def generateCredential_def Let_def)

lemma createAgent_keeps [simp]:
  "fr_targets (snd (createAgent env s inp user now st)) = fr_targets st"
  "fr_nextTarget (snd (createAgent env s inp user now st)) = fr_nextTarget st"
  "fr_live (snd (createAgent env s inp user now st)) = fr_live st"
  "fr_pendingOffline (snd (createAgent env s inp user now st)) = fr_pendingOffline st"
  "fr_muxes (snd (createAgent env s inp user now st)) = fr_muxes st"
  "fr_timers (snd (createAgent env s inp user now st)) = fr_timers st"
  "fr_nextTimer (snd (createAgent env s inp user now st)) = fr_nextTimer st"
  "fr_tasks (snd (createAgent env s inp user now st)) = fr_tasks st"
  "fr_tickets (snd (createAgent env s inp user now st)) = fr_tickets st"
  "fr_vault (snd (createAgent env s inp user now st)) = fr_vault st"
  "fr_pins (snd (createAgent env s inp user now st)) = fr_pins st"
  "fr_sent (snd (createAgent env s inp user now st)) = fr_sent st"
  "fr_closed (snd (createAgent env s inp user now st)) = fr_closed st"
  "fr_issued (snd (createAgent env s inp user now st)) = fr_issued st"
  "fr_trusted (snd (createAgent env s inp user now st)) = fr_trusted st"
  "fr_alerts (snd (createAgent env s inp user now st)) = fr_alerts st"
  by (simp_all add: createAgent_def generateEnrollToken_def)

section \<open>Egress ranges\<close>

text \<open>What an entry \<^verbatim>\<open>addr/bits\<close> means: the address agrees with it on the leading bits.\<close>

definition range_size :: "string \<Rightarrow> nat" where
  "range_size addr = (if isIP addr = 6 then 128 else 32)"

definition range_covers :: "string \<Rightarrow> string \<Rightarrow> bool" where
  "range_covers entry ip \<longleftrightarrow>
     (let parts = split_on CHR ''/'' entry
      in case addr_bits (hd parts) of
           None \<Rightarrow> False
         | Some n \<Rightarrow>
             (case addr_bits ip of
                None \<Rightarrow> False
              | Some w \<Rightarrow> (\<forall>i. range_size (hd parts) - read_nat (parts ! 1) \<le> i \<and> i < 128 \<longrightarrow> bit w i = bit n i)))"

definition range_ok :: "string \<Rightarrow> bool" where
  "range_ok entry \<longleftrightarrow> (\<exists>addr bits. entry = cidr_text addr (int bits) \<and> isIP addr \<noteq> 0 \<and> bits \<le> range_size addr)"

lemma range_parts:
  assumes "isIP addr \<noteq> 0"
  shows "split_on CHR ''/'' (cidr_text addr (int bits)) = [addr, show_nat bits]"
proof -
  have "CHR ''/'' \<notin> set addr" using isIP_chars [OF assms] ip_char_not by blast
  then have "split_on CHR ''/'' (addr @ CHR ''/'' # show_nat bits) = addr # split_on CHR ''/'' (show_nat bits)" by (rule split_on_append)
  moreover have "split_on CHR ''/'' (show_nat bits) = [show_nat bits]" by (rule split_on_none) (simp add: show_nat_plain)
  ultimately show ?thesis by (simp add: cidr_text_def show_int_def)
qed

lemma egress_range_ok: "egress_range v = Inr c \<Longrightarrow> range_ok c"
proof -
  assume c: "egress_range v = Inr c"
  let ?a = "hd (split_on CHR ''/'' v)"
  obtain bits where "c = cidr_text ?a bits" "isIP ?a \<noteq> 0" "0 \<le> bits" "bits \<le> (if isIP ?a = 6 then 128 else 32)"
    using c unfolding egress_range_def Let_def by (force split: option.splits if_splits)
  then have "c = cidr_text ?a (int (nat bits)) \<and> isIP ?a \<noteq> 0 \<and> nat bits \<le> range_size ?a" by (simp add: range_size_def split: if_splits)
  then show ?thesis unfolding range_ok_def by blast
qed

lemma egress_ranges_ok: "egress_ranges rs = Inr cs \<Longrightarrow> list_all range_ok cs"
proof (induction rs arbitrary: cs)
  case (Cons r rs)
  show ?case
  proof (cases "trim r = []")
    case False
    with Cons.prems obtain c ds where c: "egress_range (trim r) = Inr c" and d: "egress_ranges rs = Inr ds" "cs = c # ds"
      by (auto simp: Let_def split: sum.splits)
    with Cons.IH [OF d(1)] egress_range_ok [OF c] show ?thesis by simp
  qed (use Cons in simp)
qed simp

definition range_rule :: "string \<Rightarrow> 128 word \<times> nat" where
  "range_rule entry = (let parts = split_on CHR ''/'' entry
     in (the (addr_bits (hd parts)), read_nat (parts ! 1) + (128 - range_size (hd parts))))"

lemma egress_block_rules: "list_all range_ok cs \<Longrightarrow> egress_block cs bl = Inr (bl @ map range_rule cs)"
proof (induction cs arbitrary: bl)
  case (Cons c cs)
  then obtain addr bits where c: "c = cidr_text addr (int bits)" "isIP addr \<noteq> 0" "bits \<le> range_size addr" by (auto simp: range_ok_def)
  obtain w where w: "addr_bits addr = Some w" using isIP_addr_bits [OF c(2)] by blast
  have fam: "family_of addr = Some (if isIP addr = 6 then Ipv6 else Ipv4)" using c(2) isIP_cases [of addr] by (auto simp: family_of_def)
  have size: "family_bits (if isIP addr = 6 then Ipv6 else Ipv4) = range_size addr" by (simp add: family_bits_def range_size_def)
  have "addSubnet bl addr bits (if isIP addr = 6 then Ipv6 else Ipv4) = Inr (bl @ [range_rule c])"
    using c(3) fam size w by (simp add: addSubnet_def range_rule_def c(1) range_parts [OF c(2)] read_show_nat del: if_split)
  with Cons show ?case by (simp add: c(1) range_parts [OF c(2)] num_show_nat)
qed simp

lemma range_rule_covers:
  assumes "range_ok c" and "addr_bits ip = Some w"
  shows "same_prefix (snd (range_rule c)) w (fst (range_rule c)) \<longleftrightarrow> range_covers c ip"
proof -
  obtain addr bits where c: "c = cidr_text addr (int bits)" "isIP addr \<noteq> 0" "bits \<le> range_size addr" using assms(1) by (auto simp: range_ok_def)
  obtain n where n: "addr_bits addr = Some n" using isIP_addr_bits [OF c(2)] by blast
  have "range_size addr \<le> 128" by (simp add: range_size_def)
  then have "128 - (bits + (128 - range_size addr)) = range_size addr - bits" using c(3) by simp
  then show ?thesis
    by (simp add: range_covers_def range_rule_def c(1) range_parts [OF c(2)] n assms(2) read_show_nat same_prefix_bits)
qed

lemma ranges_exact:
  assumes "list_all range_ok cs"
  shows "ipInCidrs ip cs \<longleftrightarrow> isIP ip \<noteq> 0 \<and> (\<exists>c \<in> set cs. range_covers c ip)"
proof (cases "isIP ip = 0")
  case False
  then obtain w where w: "addr_bits ip = Some w" using isIP_addr_bits by blast
  have "bl_check (map range_rule cs) ip \<longleftrightarrow> (\<exists>c \<in> set cs. same_prefix (snd (range_rule c)) w (fst (range_rule c)))"
    by (simp add: bl_check_def w list_ex_iff case_prod_beta)
  also have "\<dots> \<longleftrightarrow> (\<exists>c \<in> set cs. range_covers c ip)" using assms range_rule_covers [OF _ w] by (auto simp: list_all_iff)
  finally show ?thesis using False by (simp add: ipInCidrs_def egress_block_rules [OF assms])
qed (simp add: ipInCidrs_def)

lemma egress_cidrs_ok: "egress_cidrs rs = Inr cs \<Longrightarrow> list_all range_ok cs \<and> length cs \<le> 64"
  using egress_ranges_ok by (auto simp: egress_cidrs_def list_all_iff split: sum.splits dest!: in_set_takeD)

lemma slash_opens_everything:
  "egress_cidrs [''10.0.0.0/''] = Inr [''10.0.0.0/0''] \<and> ipInCidrs ''8.8.8.8'' [''10.0.0.0/0'']"
  by code_simp
section \<open>Connections\<close>

text \<open>A multiplexer after its connection: nothing is open and nothing can be opened.\<close>

definition idle_mux :: "mux \<Rightarrow> bool" where
  "idle_mux m \<longleftrightarrow> mx_disposed m \<and> mx_streams m = [] \<and> mx_pending m = []"

lemma fold_disposed [simp]:
  "mx_disposed (fold (\<lambda>p s. settle p r s) ps m) = mx_disposed m" "mx_disposed (fold (\<lambda>r s. on_tunnel r f s) rs m) = mx_disposed m"
proof -
  show "mx_disposed (fold (\<lambda>p s. settle p r s) ps m) = mx_disposed m" by (induction ps arbitrary: m) simp_all
  show "mx_disposed (fold (\<lambda>r s. on_tunnel r f s) rs m) = mx_disposed m"
    by (induction rs arbitrary: m) (simp_all add: on_tunnel_def)
qed

lemma idle_dispose: "idle_mux (dispose m)"
  by (simp add: idle_mux_def dispose_def Let_def)

lemma idle_step: "idle_mux m \<Longrightarrow> consumer_op e \<Longrightarrow> idle_mux (mux_step m e)"
  by (cases e) (auto simp: idle_mux_def consumer_op_def open_timeout_def tunnel_write_def tunnel_close_def closeLocal_def
      sendData_def on_tunnel_def Let_def map_del_def)

text \<open>
  The discipline of connections and timers, on the tables as functions: a live agent has its own socket and one
  heartbeat timer and is not in its grace, an agent in its grace has one grace timer, there are no other timers of the
  two sorts, and the multiplexer of a socket that is not live is idle.
\<close>

definition tables_ok ::
    "(nat \<Rightarrow> live_agent option) \<Rightarrow> (nat \<Rightarrow> nat option) \<Rightarrow> mux list \<Rightarrow> (nat \<Rightarrow> fabric_timer option) \<Rightarrow> nat \<Rightarrow> bool" where
  "tables_ok L P M T n \<longleftrightarrow>
     (\<forall>i c. L i = Some c \<longrightarrow> lc_sock c < length M \<and> T (lc_timer c) = Some (Missed_beats i) \<and> P i = None) \<and>
     (\<forall>i j c d. L i = Some c \<and> L j = Some d \<and> lc_sock c = lc_sock d \<longrightarrow> i = j) \<and>
     (\<forall>t i. T t = Some (Missed_beats i) \<longrightarrow> (\<exists>c. L i = Some c \<and> lc_timer c = t)) \<and>
     (\<forall>i t. P i = Some t \<longrightarrow> (\<exists>r. T t = Some (Grace i r))) \<and>
     (\<forall>t i r. T t = Some (Grace i r) \<longrightarrow> P i = Some t) \<and>
     (\<forall>t k. T t = Some k \<longrightarrow> t < n) \<and>
     (\<forall>s < length M. (\<forall>i c. L i = Some c \<longrightarrow> lc_sock c \<noteq> s) \<longrightarrow> idle_mux (M ! s))"

lemma tablesI:
  assumes "\<And>i c. L i = Some c \<Longrightarrow> lc_sock c < length M \<and> T (lc_timer c) = Some (Missed_beats i) \<and> P i = None"
    and "\<And>i j c d. L i = Some c \<Longrightarrow> L j = Some d \<Longrightarrow> lc_sock c = lc_sock d \<Longrightarrow> i = j"
    and "\<And>t i. T t = Some (Missed_beats i) \<Longrightarrow> \<exists>c. L i = Some c \<and> lc_timer c = t"
    and "\<And>i t. P i = Some t \<Longrightarrow> \<exists>r. T t = Some (Grace i r)"
    and "\<And>t i r. T t = Some (Grace i r) \<Longrightarrow> P i = Some t"
    and "\<And>t k. T t = Some k \<Longrightarrow> t < n"
    and "\<And>s. s < length M \<Longrightarrow> (\<And>i c. L i = Some c \<Longrightarrow> lc_sock c \<noteq> s) \<Longrightarrow> idle_mux (M ! s)"
  shows "tables_ok L P M T n"
  unfolding tables_ok_def using assms by blast

lemma tablesD:
  assumes "tables_ok L P M T n"
  shows "L i = Some c \<Longrightarrow> lc_sock c < length M" "L i = Some c \<Longrightarrow> T (lc_timer c) = Some (Missed_beats i)"
    "L i = Some c \<Longrightarrow> P i = None" "L i = Some c \<Longrightarrow> L j = Some d \<Longrightarrow> lc_sock c = lc_sock d \<Longrightarrow> i = j"
    "T t = Some (Missed_beats i) \<Longrightarrow> \<exists>c. L i = Some c \<and> lc_timer c = t" "P i = Some t \<Longrightarrow> \<exists>r. T t = Some (Grace i r)"
    "T t = Some (Grace i r) \<Longrightarrow> P i = Some t" "T t = Some k \<Longrightarrow> t < n"
    "s < length M \<Longrightarrow> (\<And>i c. L i = Some c \<Longrightarrow> lc_sock c \<noteq> s) \<Longrightarrow> idle_mux (M ! s)"
  using assms unfolding tables_ok_def by blast+

lemma tables_detach:
  assumes ok: "tables_ok L P M T n" and c: "L i = Some c"
  shows "tables_ok (L(i := None)) P (at_index (lc_sock c) dispose M) (T(lc_timer c := None)) n"
proof (rule tablesI)
  note d = tablesD [OF ok]
  fix j e
  assume "(L(i := None)) j = Some e"
  then have e: "L j = Some e" "j \<noteq> i" by (auto split: if_splits)
  have "lc_timer e \<noteq> lc_timer c" using d(2) [OF e(1)] d(2) [OF c] e(2) by auto
  then show "lc_sock e < length (at_index (lc_sock c) dispose M) \<and> (T(lc_timer c := None)) (lc_timer e) = Some (Missed_beats j) \<and>
      P j = None" using d(1-3) [OF e(1)] by simp
next
  fix t j
  assume "(T(lc_timer c := None)) t = Some (Missed_beats j)"
  then have t: "T t = Some (Missed_beats j)" "t \<noteq> lc_timer c" by (auto split: if_splits)
  from tablesD(5) [OF ok t(1)] obtain e where e: "L j = Some e" "lc_timer e = t" by blast
  with c t(2) have "j \<noteq> i" by auto
  with e show "\<exists>e. (L(i := None)) j = Some e \<and> lc_timer e = t" by simp
next
  fix j t
  assume "P j = Some t"
  from tablesD(6) [OF ok this] tablesD(2) [OF ok c] show "\<exists>r. (T(lc_timer c := None)) t = Some (Grace j r)" by auto
next
  fix s
  assume s: "s < length (at_index (lc_sock c) dispose M)" and n: "\<And>j e. (L(i := None)) j = Some e \<Longrightarrow> lc_sock e \<noteq> s"
  show "idle_mux (at_index (lc_sock c) dispose M ! s)"
  proof (cases "s = lc_sock c")
    case True
    then show ?thesis using s by (simp add: nth_at_index idle_dispose)
  next
    case False
    have "L j = Some e \<Longrightarrow> lc_sock e \<noteq> s" for j e using n [of j e] False c by (cases "j = i") auto
    then show ?thesis using tablesD(9) [OF ok, of s] s False by (simp add: nth_at_index)
  qed
qed (use tablesD [OF ok] in \<open>auto split: if_splits\<close>)

lemma tables_attach:
  assumes ok: "tables_ok L P M T n" and i: "L i = None" "P i = None"
  shows "tables_ok (L(i \<mapsto> \<lparr>lc_sock = length M, lc_lastBeat = b, lc_timer = n\<rparr>)) P (M @ [m]) (T(n \<mapsto> Missed_beats i)) (Suc n)"
proof (rule tablesI)
  note d = tablesD [OF ok]
  have fresh: "T n = None" using d(8) by (cases "T n") auto
  fix j e
  assume e: "(L(i \<mapsto> \<lparr>lc_sock = length M, lc_lastBeat = b, lc_timer = n\<rparr>)) j = Some e"
  show "lc_sock e < length (M @ [m]) \<and> (T(n \<mapsto> Missed_beats i)) (lc_timer e) = Some (Missed_beats j) \<and> P j = None"
  proof (cases "j = i")
    case False
    with e have "L j = Some e" by simp
    from d(1-3) [OF this] fresh show ?thesis by auto
  qed (use e i in auto)
next
  fix j k c e
  assume "(L(i \<mapsto> \<lparr>lc_sock = length M, lc_lastBeat = b, lc_timer = n\<rparr>)) j = Some c"
    "(L(i \<mapsto> \<lparr>lc_sock = length M, lc_lastBeat = b, lc_timer = n\<rparr>)) k = Some e" "lc_sock c = lc_sock e"
  then show "j = k" using tablesD(1) [OF ok, of j c] tablesD(1) [OF ok, of k e] tablesD(4) [OF ok, of j c k e] by (auto split: if_splits)
next
  fix t j
  assume "(T(n \<mapsto> Missed_beats i)) t = Some (Missed_beats j)"
  then show "\<exists>c. (L(i \<mapsto> \<lparr>lc_sock = length M, lc_lastBeat = b, lc_timer = n\<rparr>)) j = Some c \<and> lc_timer c = t"
    using tablesD(5) [OF ok, of t j] i by (auto split: if_splits)
next
  fix j t
  assume "P j = Some t"
  from tablesD(6) [OF ok this] tablesD(8) [OF ok, of n] show "\<exists>r. (T(n \<mapsto> Missed_beats i)) t = Some (Grace j r)" by auto
next
  fix s
  assume s: "s < length (M @ [m])"
    and n: "\<And>j e. (L(i \<mapsto> \<lparr>lc_sock = length M, lc_lastBeat = b, lc_timer = n\<rparr>)) j = Some e \<Longrightarrow> lc_sock e \<noteq> s"
  have "s \<noteq> length M" using n [of i] by simp
  moreover have "L j = Some e \<Longrightarrow> lc_sock e \<noteq> s" for j e using n [of j e] i by (cases "j = i") auto
  ultimately show "idle_mux ((M @ [m]) ! s)" using tablesD(9) [OF ok, of s] s by (simp add: nth_append)
next
  fix t k
  assume "(T(n \<mapsto> Missed_beats i)) t = Some k"
  then show "t < Suc n" using tablesD(8) [OF ok, of t k] by (auto split: if_splits)
qed (use tablesD(7) [OF ok] in \<open>auto split: if_splits\<close>)

lemma tables_hold:
  assumes ok: "tables_ok L P M T n" and i: "L i = None" "P i = None"
  shows "tables_ok L (P(i \<mapsto> n)) M (T(n \<mapsto> Grace i r)) (Suc n)"
proof (rule tablesI)
  note d = tablesD [OF ok]
  have fresh: "T n = None" using d(8) by (cases "T n") auto
  show "lc_sock c < length M \<and> (T(n \<mapsto> Grace i r)) (lc_timer c) = Some (Missed_beats j) \<and> (P(i \<mapsto> n)) j = None" if "L j = Some c" for j c
    using d(1-3) [OF that] that i fresh by auto
  show "\<exists>c. L j = Some c \<and> lc_timer c = t" if "(T(n \<mapsto> Grace i r)) t = Some (Missed_beats j)" for t j
    using that d(5) [of t j] by (auto split: if_splits)
  show "\<exists>q. (T(n \<mapsto> Grace i r)) t = Some (Grace j q)" if "(P(i \<mapsto> n)) j = Some t" for j t
    using that d(6) [of j t] fresh by (auto split: if_splits)
  show "(P(i \<mapsto> n)) j = Some t" if "(T(n \<mapsto> Grace i r)) t = Some (Grace j q)" for t j q
    using that d(7) [of t j q] i by (auto split: if_splits)
  show "t < Suc n" if "(T(n \<mapsto> Grace i r)) t = Some k" for t k
    using that d(8) [of t k] by (auto split: if_splits)
qed (use tablesD(4,9) [OF ok] in auto)

lemma tables_unhold:
  assumes ok: "tables_ok L P M T n" and t: "P i = Some t"
  shows "tables_ok L (P(i := None)) M (T(t := None)) n"
proof (rule tablesI)
  note d = tablesD [OF ok]
  obtain r where r: "T t = Some (Grace i r)" using d(6) [OF t] by blast
  show "lc_sock c < length M \<and> (T(t := None)) (lc_timer c) = Some (Missed_beats j) \<and> (P(i := None)) j = None" if "L j = Some c" for j c
    using d(1-3) [OF that] r by auto
  show "\<exists>c. L j = Some c \<and> lc_timer c = u" if "(T(t := None)) u = Some (Missed_beats j)" for u j
    using that d(5) [of u j] by (auto split: if_splits)
  show "\<exists>q. (T(t := None)) u = Some (Grace j q)" if "(P(i := None)) j = Some u" for j u
    using that d(6) [of j u] r by (auto split: if_splits)
  show "(P(i := None)) j = Some u" if "(T(t := None)) u = Some (Grace j q)" for u j q
    using that d(7) [of u j q] t by (auto split: if_splits)
  show "u < n" if "(T(t := None)) u = Some k" for u k
    using that d(8) [of u k] by (auto split: if_splits)
qed (use tablesD(4,9) [OF ok] in auto)

lemma tables_drop_timer:
  assumes ok: "tables_ok L P M T n" and t: "T t = Some (Drop_after i code reason)"
  shows "tables_ok L P M (T(t := None)) n"
proof (rule tablesI)
  note d = tablesD [OF ok]
  show "lc_sock c < length M \<and> (T(t := None)) (lc_timer c) = Some (Missed_beats j) \<and> P j = None" if "L j = Some c" for j c
    using d(1-3) [OF that] t by auto
  show "\<exists>c. L j = Some c \<and> lc_timer c = u" if "(T(t := None)) u = Some (Missed_beats j)" for u j
    using that d(5) [of u j] by (auto split: if_splits)
  show "\<exists>q. (T(t := None)) u = Some (Grace j q)" if "P j = Some u" for j u
    using d(6) [OF that] t by auto
  show "P j = Some u" if "(T(t := None)) u = Some (Grace j q)" for u j q
    using that d(7) [of u j q] by (auto split: if_splits)
  show "u < n" if "(T(t := None)) u = Some k" for u k
    using that d(8) [of u k] by (auto split: if_splits)
qed (use tablesD(4,9) [OF ok] in auto)

lemma tables_arm_drop:
  assumes ok: "tables_ok L P M T n"
  shows "tables_ok L P M (T(n \<mapsto> Drop_after i code reason)) (Suc n)"
proof (rule tablesI)
  note d = tablesD [OF ok]
  have fresh: "T n = None" using d(8) by (cases "T n") auto
  show "lc_sock c < length M \<and> (T(n \<mapsto> Drop_after i code reason)) (lc_timer c) = Some (Missed_beats j) \<and> P j = None"
    if "L j = Some c" for j c using d(1-3) [OF that] fresh by auto
  show "\<exists>c. L j = Some c \<and> lc_timer c = u" if "(T(n \<mapsto> Drop_after i code reason)) u = Some (Missed_beats j)" for u j
    using that d(5) [of u j] by (auto split: if_splits)
  show "\<exists>q. (T(n \<mapsto> Drop_after i code reason)) u = Some (Grace j q)" if "P j = Some u" for j u
    using d(6) [OF that] fresh by auto
  show "P j = Some u" if "(T(n \<mapsto> Drop_after i code reason)) u = Some (Grace j q)" for u j q
    using that d(7) [of u j q] by (auto split: if_splits)
  show "u < Suc n" if "(T(n \<mapsto> Drop_after i code reason)) u = Some k" for u k
    using that d(8) [of u k] by (auto split: if_splits)
qed (use tablesD(4,9) [OF ok] in auto)

lemma own_socket:
  assumes ok: "tables_ok L P M T n" and "\<And>j e. L' j = Some e \<Longrightarrow> \<exists>d. L j = Some d \<and> lc_sock d = lc_sock e"
    and e: "L' j = Some e" and g: "L' k = Some g" and eq: "lc_sock e = lc_sock g"
  shows "j = k"
proof -
  obtain d f where "L j = Some d" "lc_sock d = lc_sock e" "L k = Some f" "lc_sock f = lc_sock g"
    using assms(2) [OF e] assms(2) [OF g] by blast
  with eq tablesD(4) [OF ok, of j d k f] show ?thesis by simp
qed

lemma tables_beat:
  assumes ok: "tables_ok L P M T n" and c: "L i = Some c"
  shows "tables_ok (L(i \<mapsto> c\<lparr>lc_lastBeat := b, lc_timer := n\<rparr>)) P M (T(lc_timer c := None, n := Some (Missed_beats i))) (Suc n)"
proof (rule tablesI)
  note d = tablesD [OF ok]
  have fresh: "T n = None" using d(8) by (cases "T n") auto
  have own: "lc_timer e \<noteq> lc_timer c" if "L j = Some e" "j \<noteq> i" for j e using d(2) [OF that(1)] d(2) [OF c] that(2) by auto
  show "lc_sock e < length M \<and> (T(lc_timer c := None, n := Some (Missed_beats i))) (lc_timer e) = Some (Missed_beats j) \<and> P j = None"
    if "(L(i \<mapsto> c\<lparr>lc_lastBeat := b, lc_timer := n\<rparr>)) j = Some e" for j e
  proof (cases "j = i")
    case True
    with that d(1-3) [OF c] show ?thesis by auto
  next
    case False
    with that have e: "L j = Some e" by simp
    from d(1-3) [OF e] own [OF e False] fresh show ?thesis by auto
  qed
  show "j = k" if "(L(i \<mapsto> c\<lparr>lc_lastBeat := b, lc_timer := n\<rparr>)) j = Some e" "(L(i \<mapsto> c\<lparr>lc_lastBeat := b, lc_timer := n\<rparr>)) k = Some g"
    "lc_sock e = lc_sock g" for j k e g
  proof (rule own_socket [OF ok _ that])
    show "\<exists>d. L x = Some d \<and> lc_sock d = lc_sock y" if "(L(i \<mapsto> c\<lparr>lc_lastBeat := b, lc_timer := n\<rparr>)) x = Some y" for x y
      using that c by (cases "x = i") auto
  qed
  show "\<exists>e. (L(i \<mapsto> c\<lparr>lc_lastBeat := b, lc_timer := n\<rparr>)) j = Some e \<and> lc_timer e = u"
    if "(T(lc_timer c := None, n := Some (Missed_beats i))) u = Some (Missed_beats j)" for u j
    using that d(5) [of u j] c by (auto split: if_splits)
  show "\<exists>q. (T(lc_timer c := None, n := Some (Missed_beats i))) u = Some (Grace j q)" if "P j = Some u" for j u
    using d(6) [OF that] d(2) [OF c] fresh by auto
  show "P j = Some u" if "(T(lc_timer c := None, n := Some (Missed_beats i))) u = Some (Grace j q)" for u j q
    using that d(7) [of u j q] by (auto split: if_splits)
  show "u < Suc n" if "(T(lc_timer c := None, n := Some (Missed_beats i))) u = Some k" for u k
    using that d(8) [of u k] by (auto split: if_splits)
  show "idle_mux (M ! s)" if "s < length M" "\<And>j e. (L(i \<mapsto> c\<lparr>lc_lastBeat := b, lc_timer := n\<rparr>)) j = Some e \<Longrightarrow> lc_sock e \<noteq> s" for s
  proof (rule d(9) [OF that(1)])
    fix j e
    assume "L j = Some e"
    then show "lc_sock e \<noteq> s" using that(2) [of j e] that(2) [of i] c by (cases "j = i") auto
  qed
qed

lemma tables_refresh:
  assumes ok: "tables_ok L P M T n" and c: "L i = Some c"
  shows "tables_ok (L(i \<mapsto> c\<lparr>lc_lastBeat := b\<rparr>)) P M T n"
proof (rule tablesI)
  note d = tablesD [OF ok]
  show "lc_sock e < length M \<and> T (lc_timer e) = Some (Missed_beats j) \<and> P j = None"
    if "(L(i \<mapsto> c\<lparr>lc_lastBeat := b\<rparr>)) j = Some e" for j e
    using that d(1-3) [OF c] d(1-3) [of j e] by (cases "j = i") auto
  show "j = k" if "(L(i \<mapsto> c\<lparr>lc_lastBeat := b\<rparr>)) j = Some e" "(L(i \<mapsto> c\<lparr>lc_lastBeat := b\<rparr>)) k = Some g" "lc_sock e = lc_sock g" for j k e g
  proof (rule own_socket [OF ok _ that])
    show "\<exists>d. L x = Some d \<and> lc_sock d = lc_sock y" if "(L(i \<mapsto> c\<lparr>lc_lastBeat := b\<rparr>)) x = Some y" for x y
      using that c by (cases "x = i") auto
  qed
  show "\<exists>e. (L(i \<mapsto> c\<lparr>lc_lastBeat := b\<rparr>)) j = Some e \<and> lc_timer e = u" if "T u = Some (Missed_beats j)" for u j
    using d(5) [OF that] c by auto
  show "idle_mux (M ! s)" if "s < length M" "\<And>j e. (L(i \<mapsto> c\<lparr>lc_lastBeat := b\<rparr>)) j = Some e \<Longrightarrow> lc_sock e \<noteq> s" for s
  proof (rule d(9) [OF that(1)])
    fix j e
    assume "L j = Some e"
    then show "lc_sock e \<noteq> s" using that(2) [of j e] that(2) [of i] c by (cases "j = i") auto
  qed
qed (use tablesD [OF ok] in auto)

lemma tables_mux:
  assumes ok: "tables_ok L P M T n" and "\<And>m. idle_mux m \<Longrightarrow> idle_mux (f m)"
  shows "tables_ok L P (at_index s f M) T n"
  by (rule tablesI) (use assms(2) tablesD [OF ok] in \<open>auto simp: nth_at_index\<close>)

text \<open>A multiplexer of a live socket may do anything.\<close>

lemma tables_live_mux:
  assumes ok: "tables_ok L P M T n" and c: "L i = Some c"
  shows "tables_ok L P (at_index (lc_sock c) f M) T n"
proof (rule tablesI)
  show "idle_mux (at_index (lc_sock c) f M ! s)"
    if "s < length (at_index (lc_sock c) f M)" "\<And>j e. L j = Some e \<Longrightarrow> lc_sock e \<noteq> s" for s
    using that(1) that(2) [OF c] tablesD(9) [OF ok, of s] that(2) by (simp add: nth_at_index)
qed (use tablesD(1-8) [OF ok] in auto)

section \<open>The registry keeps the discipline\<close>

definition conn_ok :: "registry \<Rightarrow> bool" where
  "conn_ok st \<longleftrightarrow> tables_ok (map_get (fr_live st)) (map_get (fr_pendingOffline st)) (fr_muxes st) (map_get (fr_timers st)) (fr_nextTimer st)"

lemma map_get_set_fun: "map_get (map_set m k v) = (map_get m)(k \<mapsto> v)"
  by (simp add: fun_eq_iff store_simps)

lemma map_get_del_fun: "map_get (map_del m k) = (map_get m)(k := None)"
  by (simp add: fun_eq_iff store_simps)

lemmas table_simps = conn_ok_def map_get_set_fun map_get_del_fun

text \<open>An operation that leaves the connections alone.\<close>

definition same_conn :: "registry \<Rightarrow> registry \<Rightarrow> bool" where
  "same_conn st st' \<longleftrightarrow> fr_live st' = fr_live st \<and> fr_pendingOffline st' = fr_pendingOffline st \<and> fr_muxes st' = fr_muxes st \<and>
     fr_timers st' = fr_timers st \<and> fr_nextTimer st' = fr_nextTimer st"

lemma same_conn_ok: "same_conn st st' \<Longrightarrow> conn_ok st \<Longrightarrow> conn_ok st'"
  by (simp add: same_conn_def conn_ok_def)

lemma same_conn_refl [simp]: "same_conn st st"
  by (simp add: same_conn_def)

lemma same_conn_trans: "same_conn a b \<Longrightarrow> same_conn b c \<Longrightarrow> same_conn a c"
  by (simp add: same_conn_def)

lemma drop_live_ok:
  assumes "conn_ok st"
  shows "conn_ok (drop_live i why st)" "map_get (fr_live (drop_live i why st)) i = None"
    "fr_pendingOffline (drop_live i why st) = fr_pendingOffline st"
proof -
  show "conn_ok (drop_live i why st)"
    using assms tables_detach [of "map_get (fr_live st)" _ _ _ _ i]
    by (auto simp: drop_live_def table_simps close_sock_def on_mux_def disarm_timer_def split: option.split)
qed (simp_all add: drop_live_def store_simps close_sock_def on_mux_def disarm_timer_def split: option.split)

lemma hold_ok:
  assumes "conn_ok st" and "map_get (fr_live st) i = None" and "map_get (fr_pendingOffline st) i = None"
  shows "conn_ok ((snd (arm (Grace i r) st))\<lparr>fr_pendingOffline := map_set (fr_pendingOffline st) i (fr_nextTimer st)\<rparr>)"
  using assms tables_hold [of "map_get (fr_live st)" _ _ _ _ i] by (simp add: table_simps arm_def)

lemma beginOffline_ok: "conn_ok st \<Longrightarrow> conn_ok (beginOffline i r st)"
  using drop_live_ok [of st i None] hold_ok [of "drop_live i None st" i r]
  by (simp add: beginOffline_def Let_def arm_def map_has_def)

lemma disconnect_ok: "conn_ok st \<Longrightarrow> conn_ok (disconnect i code r st)"
  by (simp add: disconnect_def drop_live_ok)

lemma handleClose_ok: "conn_ok st \<Longrightarrow> conn_ok (handleClose i s st)"
  by (simp add: handleClose_def beginOffline_ok split: option.split)

text \<open>The end of a grace.\<close>

lemma unhold_ok:
  assumes "conn_ok st" and "map_get (fr_pendingOffline st) i = Some t"
  shows "conn_ok ((disarm_timer t st)\<lparr>fr_pendingOffline := map_del (fr_pendingOffline st) i\<rparr>)"
  using assms tables_unhold [of _ "map_get (fr_pendingOffline st)" _ _ _ i t] by (simp add: table_simps disarm_timer_def)

lemma finalize_begin_ok: "conn_ok st \<Longrightarrow> conn_ok (finalize_begin i r st)"
  using unhold_ok [of st i]
  by (auto simp: finalize_begin_def Let_def spawn_def conn_ok_def split: option.split)

lemma register_ok:
  assumes ok: "conn_ok st"
  shows "conn_ok (register i now st)"
proof -
  define a where "a = (case map_get (fr_pendingOffline st) i of None \<Rightarrow> st
    | Some t \<Rightarrow> (disarm_timer t st)\<lparr>fr_pendingOffline := map_del (fr_pendingOffline st) i\<rparr>)"
  define b where "b = (case map_get (fr_live a) i of None \<Rightarrow> a
    | Some c \<Rightarrow> close_sock (lc_sock c) (Some (4000, ''superseded'')) (on_mux (lc_sock c) dispose (disarm_timer (lc_timer c) a)))"
  have a: "conn_ok a" "map_get (fr_pendingOffline a) i = None"
    using ok unhold_ok [OF ok] by (auto simp: a_def store_simps disarm_timer_def split: option.split)
  let ?L = "(map_get (fr_live a))(i := None)"
  have "tables_ok ?L (map_get (fr_pendingOffline b)) (fr_muxes b) (map_get (fr_timers b)) (fr_nextTimer b)"
  proof (cases "map_get (fr_live a) i")
    case None
    then have "?L = map_get (fr_live a)" by auto
    with None a(1) show ?thesis by (simp add: b_def conn_ok_def)
  next
    case (Some c)
    with a(1) tables_detach [of "map_get (fr_live a)" _ _ _ _ i c] show ?thesis
      by (simp add: b_def table_simps close_sock_def on_mux_def disarm_timer_def)
  qed
  from tables_attach [OF this, of i now new_mux]
  have "tables_ok (?L(i \<mapsto> \<lparr>lc_sock = length (fr_muxes b), lc_lastBeat = now, lc_timer = fr_nextTimer b\<rparr>)) (map_get (fr_pendingOffline b))
      (fr_muxes b @ [new_mux]) ((map_get (fr_timers b))(fr_nextTimer b \<mapsto> Missed_beats i)) (Suc (fr_nextTimer b))"
    using a(2) by (simp add: b_def close_sock_def on_mux_def disarm_timer_def split: option.split)
  moreover have "fr_live b = fr_live a" by (simp add: b_def close_sock_def on_mux_def disarm_timer_def split: option.split)
  ultimately show ?thesis
    by (simp add: register_def a_def [symmetric] b_def [symmetric] Let_def arm_def table_simps)
qed

lemma fire_timer_ok:
  assumes ok: "conn_ok st"
  shows "conn_ok (fire_timer t st)"
proof (cases "map_get (fr_timers st) t")
  case None
  with ok show ?thesis by (simp add: fire_timer_def)
next
  case (Some k)
  note t = tablesD [OF ok [unfolded conn_ok_def]]
  show ?thesis
  proof (cases k)
    case (Missed_beats i)
    with Some t(5) [of t i] obtain c where c: "map_get (fr_live st) i = Some c" "lc_timer c = t" by auto
    have "disarm_timer (lc_timer c) (disarm_timer t st) = disarm_timer t st"
      by (simp add: disarm_timer_def c(2) map_del_def delete_idem)
    then have "drop_live i None (disarm_timer t st) = drop_live i None st"
      using c by (simp add: drop_live_def)
    then have "beginOffline i ''missed heartbeats'' (disarm_timer t st) = beginOffline i ''missed heartbeats'' st"
      by (simp add: beginOffline_def)
    with Some Missed_beats show ?thesis using beginOffline_ok [OF ok] by (simp add: fire_timer_def Let_def)
  next
    case (Grace i r)
    with Some t(7) [of t i r] have "map_get (fr_pendingOffline st) i = Some t" by simp
    from finalize_begin_ok [OF unhold_ok [OF ok this]] Some Grace show ?thesis
      by (simp add: fire_timer_def Let_def disarm_timer_def)
  next
    case (Drop_after i code r)
    with Some ok have "conn_ok (disarm_timer t st)"
      using tables_drop_timer [of _ _ _ "map_get (fr_timers st)" _ t] by (simp add: table_simps disarm_timer_def)
    with Some Drop_after show ?thesis by (simp add: fire_timer_def Let_def disconnect_ok)
  qed
qed

lemma onHeartbeat_ok: "conn_ok st \<Longrightarrow> conn_ok (onHeartbeat i now st)"
  using tables_beat [of "map_get (fr_live st)" _ _ _ _ i]
  by (auto simp: onHeartbeat_def table_simps arm_def disarm_timer_def split: option.split)

lemma onHello_ok: "conn_ok st \<Longrightarrow> conn_ok (onHello i h now st)"
  using tables_refresh [of "map_get (fr_live st)" _ _ _ _ i]
  by (auto simp: onHello_def table_simps split: option.split)

lemma requestUninstall_ok: "conn_ok st \<Longrightarrow> conn_ok (snd (requestUninstall env i st))"
  using tables_arm_drop [of "map_get (fr_live st)"]
  by (simp add: requestUninstall_def Let_def table_simps arm_def)

lemma mux_op_ok: "conn_ok st \<Longrightarrow> consumer_op e \<Longrightarrow> conn_ok (on_mux s (\<lambda>m. mux_step m e) st)"
  using tables_mux [of _ _ "fr_muxes st" _ _ "\<lambda>m. mux_step m e" s] by (simp add: conn_ok_def on_mux_def idle_step)

lemma live_mux_ok: "conn_ok st \<Longrightarrow> map_get (fr_live st) i = Some c \<Longrightarrow> conn_ok (on_mux (lc_sock c) f st)"
  using tables_live_mux [of "map_get (fr_live st)" _ "fr_muxes st" _ _ i c f] by (simp add: conn_ok_def on_mux_def)
text \<open>The operations that only change rows, tasks or what was sent.\<close>

lemma find_agent_keeps [simp]:
  "find_agent (note_audit u a t st) i = find_agent st i" "find_agent (spawn k st) i = find_agent st i"
  "find_agent (update_targets P tf st) i = find_agent st i" "find_agent (add_target tr st) i = find_agent st i"
  "find_agent (send_frame j fr st) i = find_agent st i" "find_agent (snd (arm fk st)) i = find_agent st i"
  by (simp_all add: find_agent_def)

lemma same_conn_send: "same_conn st (send_frame i f st)"
  by (simp add: same_conn_def)

lemma same_conn_push: "same_conn st (pushAllow i st)"
  by (simp add: pushAllow_def same_conn_def)

lemma same_conn_sync_one: "same_conn st (sync_one i b d st)"
  by (simp add: sync_one_def same_conn_def split: option.split)

lemma same_conn_syncTargets: "same_conn st (syncTargets i ts st)"
proof -
  have "same_conn st (fold (sync_one i b) ts st)" for b
    by (induction ts arbitrary: st) (auto intro: same_conn_trans same_conn_sync_one)
  then show ?thesis by (simp add: syncTargets_def Let_def same_conn_def split: option.split)
qed

lemma same_conn_finalize: "same_conn st (finalize_read i r st)" "same_conn st (finalize_write i r a st)"
  by (simp_all add: finalize_read_def finalize_write_def Let_def same_conn_def split: option.split)

lemma same_conn_hello_write: "same_conn st (hello_write i h a now st)"
  using same_conn_syncTargets [of "update_agent i (hello_columns h a now) st" i "hl_targets h"]
  by (simp add: hello_write_def Let_def same_conn_def)

lemma same_conn_login:
  "same_conn st (snd (save_login x kind inp v user st))" "same_conn st (mint x inp user token now st)"
proof -
  have save: "same_conn st (snd (save_login x kind inp v user st))" for x kind inp v user
    by (simp add: save_login_def saveNamedCredential_def saveTargetCredential_def same_conn_def Let_def split: option.split)
  then show "same_conn st (snd (save_login x kind inp v user st))" .
  have ssh: "same_conn st (snd (resolveSshCreds x inp user st))"
    using save by (auto simp: resolveSshCreds_def Let_def split: option.split prod.split sum.split)
      (metis snd_conv)+
  have vnc: "same_conn st (snd (vnc_creds x inp user st))"
    using save by (auto simp: vnc_creds_def Let_def split: option.split prod.split sum.split) (metis snd_conv)+
  show "same_conn st (mint x inp user token now st)"
    using ssh vnc by (auto simp: mint_def issueVncSession_def issueSshSession_def same_conn_def split: prod.split sum.split)
qed

lemma same_conn_rows:
  "same_conn st (snd (connect_agent env cred st))" "same_conn st (snd (enroll env tok p s now st))"
  "same_conn st (snd (createAgent env s inp user now st))" "same_conn st (snd (updateAgent i ed user st))"
  "same_conn st (snd (createRoute env i ri user st))" "same_conn st (snd (updateRoute env i t ri user st))"
  "same_conn st (snd (deleteRoute i t user st))" "same_conn st (snd (clearTargetCredential i t user st))"
  "same_conn st (snd (clearHostKey i t user st))" "same_conn st (snd (openSession i kind w ci user token now st))"
  "same_conn st (snd (checkHostKey rd sv user i k fp st))" "same_conn st (reconcileOffline env now st)"
  "same_conn st (enroll_write env p s a st)" "same_conn st (pin_key sv user i k fp st)"
proof -
  show "same_conn st (snd (openSession i kind w ci user token now st))"
    using same_conn_login(2) by (simp add: openSession_def gate_session_def same_conn_def split: sum.split)
  show "same_conn st (snd (updateAgent i ed user st))" "same_conn st (snd (createRoute env i ri user st))"
    "same_conn st (snd (updateRoute env i t ri user st))" "same_conn st (snd (deleteRoute i t user st))"
    using same_conn_push
    by (simp_all add: updateAgent_def createRoute_def updateRoute_def deleteRoute_def same_conn_def Let_def split: option.split sum.split)
qed (simp_all add: connect_agent_def enroll_def createAgent_def clearTargetCredential_def clearHostKey_def checkHostKey_def
    reconcileOffline_def enroll_write_def pin_key_def same_conn_def Let_def split: agent_auth.split sum.split option.split prod.split key_place.split)

lemma conn_ok_keep [simp]:
  "conn_ok (note_audit u a t st) = conn_ok st" "conn_ok (delete_agent_row i st) = conn_ok st" "conn_ok (update_agent i f st) = conn_ok st"
  "conn_ok (st\<lparr>fr_vault := v\<rparr>) = conn_ok st" "conn_ok (close_sock n w st) = conn_ok st" "conn_ok (spawn k st) = conn_ok st"
  by (simp_all add: conn_ok_def)

lemma offline_ok:
  assumes "conn_ok st"
  shows "conn_ok (purgeUninstalledAgent i st)" "conn_ok (snd (revokeAgent i user st))" "conn_ok (snd (forceRemoveAgent i user st))"
    "conn_ok (snd (retryUninstall env i user st))" "conn_ok (snd (deleteAgent env i user now st))"
    "conn_ok (hello_read env i s h st)" "conn_ok (reconcile_one i seen b st)"
    using assms requestUninstall_ok [of _ env i]
    by (simp_all add: purgeUninstalledAgent_def revokeAgent_def forceRemoveAgent_def retryUninstall_def deleteAgent_def hello_read_def
        reconcile_one_def disconnect_ok finalize_begin_ok Let_def case_prod_beta split: option.split)

lemma handleFrame_ok: "conn_ok st \<Longrightarrow> conn_ok (handleFrame i f now st)"
  using same_conn_ok [OF same_conn_syncTargets]
  by (auto simp: handleFrame_def onHello_ok onHeartbeat_ok offline_ok live_mux_ok
      split: agent_frame.split option.split)

lemma task_turn_ok: "conn_ok st \<Longrightarrow> conn_ok (task_turn env k now st)"
  by (cases k) (auto simp: task_turn_def register_ok offline_ok
      intro: same_conn_ok [OF same_conn_finalize(1)] same_conn_ok [OF same_conn_finalize(2)] same_conn_ok [OF same_conn_hello_write]
        same_conn_ok [OF same_conn_rows(13)] same_conn_ok [OF same_conn_rows(14)] same_conn_ok [OF same_conn_login(2)])

lemma redeem_ok: "conn_ok st \<Longrightarrow> conn_ok (redeem token now st)"
proof -
  assume "conn_ok st"
  then have "conn_ok (snd (consume token now st))" by (simp add: consume_def conn_ok_def)
  then show ?thesis
    by (auto simp: redeem_def open_agent_stream_def live_mux_ok split: prod.split option.split)
qed

lemma agents_step_ok: "conn_ok st \<Longrightarrow> conn_ok (agents_step env st e)"
proof (induction e)
  case (Turn k now)
  then have "conn_ok (st\<lparr>fr_tasks := ts\<rparr>)" for ts by (simp add: conn_ok_def)
  with Turn show ?case by (simp add: run_task_def task_turn_ok)
next
  case (Data i b)
  then show ?case by (simp add: handle_data_def live_mux_ok split: option.split)
qed (simp_all add: handleClose_ok handleFrame_ok fire_timer_ok offline_ok redeem_ok mux_op_ok same_conn_ok [OF same_conn_rows(1)]
    same_conn_ok [OF same_conn_rows(2)] same_conn_ok [OF same_conn_rows(3)] same_conn_ok [OF same_conn_rows(4)]
    same_conn_ok [OF same_conn_rows(5)] same_conn_ok [OF same_conn_rows(6)] same_conn_ok [OF same_conn_rows(7)]
    same_conn_ok [OF same_conn_rows(8)] same_conn_ok [OF same_conn_rows(9)] same_conn_ok [OF same_conn_rows(10)]
    same_conn_ok [OF same_conn_rows(11)] same_conn_ok [OF same_conn_rows(12)])

lemma no_agents_ok: "conn_ok no_agents"
  by (simp add: conn_ok_def no_agents_def tables_ok_def)

interpretation connections: event_machine "agents_step env" conn_ok for env
  by unfold_locales (rule agents_step_ok)

section \<open>A revoked agent stays out\<close>

text \<open>What is in flight could still let an agent in: a socket to attach, an enrollment to write.\<close>

definition lets_in :: "nat \<Rightarrow> fabric_task \<Rightarrow> bool" where
  "lets_in i k \<longleftrightarrow> (case k of Attach j \<Rightarrow> j = i | Enroll_write a _ _ \<Rightarrow> fa_id a = i | _ \<Rightarrow> False)"

definition bare :: "nat \<Rightarrow> fabric_agent list \<Rightarrow> bool" where
  "bare i as \<longleftrightarrow> (\<forall>a \<in> set as. fa_id a = i \<longrightarrow> fa_credHash a = None \<and> fa_enrollHash a = None)"

definition locked :: "nat \<Rightarrow> registry \<Rightarrow> bool" where
  "locked i st \<longleftrightarrow> bare i (fr_agents st) \<and> i < fr_nextAgent st \<and> map_get (fr_live st) i = None \<and> (\<forall>k \<in> set (fr_tasks st). \<not> lets_in i k)"

text \<open>Rows that are lost or changed without a new key: ids and modes stay, hashes and prefixes stay or are cleared.\<close>

definition same_keys :: "fabric_agent \<Rightarrow> fabric_agent \<Rightarrow> bool" where
  "same_keys a b \<longleftrightarrow> fa_id b = fa_id a \<and> fa_mode b = fa_mode a \<and> (fa_credPrefix b = fa_credPrefix a \<or> fa_credPrefix b = None) \<and>
     (fa_credHash b = fa_credHash a \<or> fa_credHash b = None) \<and> (fa_enrollHash b = fa_enrollHash a \<or> fa_enrollHash b = None) \<and>
     (list_all range_ok (fa_egressCidrs a) \<longrightarrow> list_all range_ok (fa_egressCidrs b))"

definition shrunk :: "fabric_agent list \<Rightarrow> fabric_agent list \<Rightarrow> bool" where
  "shrunk as bs \<longleftrightarrow> (\<exists>g P. bs = map g (filter P as) \<and> (\<forall>a. same_keys a (g a)))"

lemma same_keys_refl [simp]: "same_keys a a"
  by (simp add: same_keys_def)

lemma same_keys_trans: "same_keys a b \<Longrightarrow> same_keys b c \<Longrightarrow> same_keys a c"
  unfolding same_keys_def by (elim conjE disjE) simp_all

lemma shrunk_map: "(\<And>a. same_keys a (g a)) \<Longrightarrow> shrunk as (map g as)"
  unfolding shrunk_def by (rule exI [of _ g], rule exI [of _ "\<lambda>_. True"]) simp

lemma shrunk_filter: "shrunk as (filter P as)"
  unfolding shrunk_def by (rule exI [of _ id], rule exI [of _ P]) simp

lemma shrunk_refl [simp]: "shrunk as as"
  using shrunk_map [of id as] by simp

lemma shrunk_update: "(\<And>a. same_keys a (f a)) \<Longrightarrow> shrunk as (rows_update P f as)"
  unfolding rows_update_def by (rule shrunk_map) simp

lemma shrunk_trans:
  assumes "shrunk as bs" and "shrunk bs cs"
  shows "shrunk as cs"
proof -
  obtain g P h Q where g: "bs = map g (filter P as)" "\<forall>a. same_keys a (g a)" and h: "cs = map h (filter Q bs)" "\<forall>a. same_keys a (h a)"
    using assms by (auto simp: shrunk_def)
  have "cs = map (h \<circ> g) (filter (\<lambda>a. P a \<and> Q (g a)) as)" using g(1) h(1) by (simp add: filter_map comp_def)
  moreover have "same_keys a (h (g a))" for a using g(2) h(2) by (blast intro: same_keys_trans)
  ultimately show ?thesis unfolding shrunk_def by (intro exI [of _ "h \<circ> g"] exI [of _ "\<lambda>a. P a \<and> Q (g a)"]) simp
qed

lemma shrunk_row: "shrunk as bs \<Longrightarrow> b \<in> set bs \<Longrightarrow> \<exists>a \<in> set as. same_keys a b"
  by (fastforce simp: shrunk_def)

lemma shrunk_bare: "shrunk as bs \<Longrightarrow> bare i as \<Longrightarrow> bare i bs"
  unfolding bare_def by (fastforce simp: same_keys_def dest: shrunk_row)

definition pins :: "fabric_task \<Rightarrow> bool" where
  "pins k \<longleftrightarrow> (case k of Pin_key _ _ _ _ _ \<Rightarrow> True | _ \<Rightarrow> False)"

text \<open>An operation that lets nobody in and trusts no key: the rows shrink, no connection, pin or such task is new.\<close>

definition no_entry :: "nat \<Rightarrow> registry \<Rightarrow> registry \<Rightarrow> bool" where
  "no_entry i st st' \<longleftrightarrow> shrunk (fr_agents st) (fr_agents st') \<and> fr_nextAgent st' = fr_nextAgent st \<and>
     (map_get (fr_live st) i = None \<longrightarrow> map_get (fr_live st') i = None) \<and>
     (\<forall>k \<in> set (fr_tasks st'). lets_in i k \<or> pins k \<longrightarrow> k \<in> set (fr_tasks st)) \<and>
     fr_pins st' = fr_pins st \<and> fr_trusted st' = fr_trusted st"

lemma no_entry_locked: "no_entry i st st' \<Longrightarrow> locked i st \<Longrightarrow> locked i st'"
  using shrunk_bare by (auto simp: no_entry_def locked_def)

lemma no_entry_refl [simp]: "no_entry i st st"
  by (simp add: no_entry_def)

lemma no_entry_trans: "no_entry i a b \<Longrightarrow> no_entry i b c \<Longrightarrow> no_entry i a c"
  by (auto simp: no_entry_def intro: shrunk_trans)

text \<open>Primitive operations.\<close>

lemma no_entry_update: "(\<And>a. same_keys a (f a)) \<Longrightarrow> no_entry i st (update_agent j f st)"
  using shrunk_update [of f "fr_agents st"] by (simp add: no_entry_def update_agent_def)

lemma no_entry_rest:
  assumes "fr_agents st' = fr_agents st" "fr_nextAgent st' = fr_nextAgent st" "fr_live st' = fr_live st" "fr_tasks st' = fr_tasks st"
    "fr_pins st' = fr_pins st" "fr_trusted st' = fr_trusted st"
  shows "no_entry i st st'"
  using assms by (simp add: no_entry_def)

lemma no_entry_prims [simp]:
  "no_entry i st (note_audit u a t st)" "no_entry i st (update_targets P tf st)" "no_entry i st (add_target tr st)"
  "no_entry i st (close_sock s why st)" "no_entry i st (on_mux s g st)" "no_entry i st (disarm_timer n st)" "no_entry i st (snd (arm fk st))"
  "no_entry i st (send_frame j fr st)" "no_entry i st (issue tok d now st)"
  by (rule no_entry_rest; simp)+

lemma no_entry_delete [simp]: "no_entry i st (delete_agent_row j st)"
  by (simp add: no_entry_def delete_agent_row_def shrunk_filter)

lemma no_entry_spawn: "\<not> lets_in i k \<Longrightarrow> \<not> pins k \<Longrightarrow> no_entry i st (spawn k st)"
  by (auto simp: no_entry_def spawn_def)

lemma no_entry_drop [simp]: "no_entry i st (drop_live j why st)"
  by (auto simp: no_entry_def drop_live_def close_sock_def on_mux_def disarm_timer_def store_simps split: option.split)

lemma no_entry_begin [simp]: "no_entry i st (beginOffline j r st)"
proof -
  have "no_entry i st (drop_live j None st)" by simp
  then show ?thesis by (simp add: beginOffline_def Let_def arm_def no_entry_def)
qed

lemma no_entry_finalize [simp]: "no_entry i st (finalize_begin j r st)"
  by (auto simp: no_entry_def finalize_begin_def Let_def disarm_timer_def spawn_def lets_in_def pins_def split: option.split)

lemma no_entry_fire: "no_entry i st (fire_timer t st)"
proof -
  have a: "no_entry i st s \<Longrightarrow> no_entry i st (beginOffline j r s)" "no_entry i st s \<Longrightarrow> no_entry i st (finalize_begin j r s)"
    "no_entry i st s \<Longrightarrow> no_entry i st (disconnect j code r s)" for s j r code
    by (auto intro: no_entry_trans simp: disconnect_def)
  have "no_entry i st ((disarm_timer t st)\<lparr>fr_pendingOffline := p\<rparr>)" for p by (simp add: no_entry_def)
  then show ?thesis by (simp add: fire_timer_def Let_def a split: option.split fabric_timer.split)
qed

lemma no_entry_uninstall [simp]: "no_entry i st (snd (requestUninstall env j st))"
  using no_entry_trans [OF no_entry_prims(8) no_entry_prims(7)] by (simp add: requestUninstall_def Let_def)

lemma no_entry_push [simp]: "no_entry i st (pushAllow j st)"
  by (simp add: pushAllow_def)

lemma no_entry_sync [simp]: "no_entry i st (syncTargets j ts st)"
proof -
  have one: "no_entry i st (sync_one j b d st)" for b d st by (rule no_entry_rest) (simp_all add: sync_one_def split: option.split)
  have all: "no_entry i st (fold (sync_one j b) ts st)" for b
    by (induction ts arbitrary: st) (auto intro: no_entry_trans one)
  then have "no_entry i st ((fold (sync_one j b) ts st)\<lparr>fr_targets := x\<rparr>)" for b x by (simp add: no_entry_def)
  with all show ?thesis by (simp add: syncTargets_def Let_def)
qed

lemma hello_columns_keeps [simp]:
  "fa_id (hello_columns h b now a) = fa_id a" "fa_credPrefix (hello_columns h b now a) = fa_credPrefix a" "fa_credHash (hello_columns h b now a) = fa_credHash a"
  "fa_enrollHash (hello_columns h b now a) = fa_enrollHash a" "fa_mode (hello_columns h b now a) = fa_mode a"
  "fa_egressCidrs (hello_columns h b now a) = fa_egressCidrs a"
  by (simp_all add: hello_columns_def)

lemma no_entry_hello [simp]:
  "no_entry i st (onHello j h now st)" "no_entry i st (onHeartbeat j now st)" "no_entry i st (hello_read env j s h st)"
  "no_entry i st (hello_write j h a now st)"
proof -
  show "no_entry i st (onHello j h now st)"
    by (auto simp: no_entry_def onHello_def spawn_def lets_in_def pins_def store_simps split: option.split)
  have up: "no_entry i s (update_agent j (\<lambda>a. a\<lparr>fa_lastSeenAt := Some now\<rparr>) s)" for s by (rule no_entry_update) (simp add: same_keys_def)
  have "no_entry i st ((snd (arm k (disarm_timer n st)))\<lparr>fr_live := map_set (fr_live st) j e\<rparr>)" if "map_get (fr_live st) j = Some c" for k n e c
    using that by (simp add: no_entry_def store_simps)
  from no_entry_trans [OF this up] show "no_entry i st (onHeartbeat j now st)"
    by (simp add: onHeartbeat_def case_prod_beta disarm_timer_def split: option.split)
  show "no_entry i st (hello_read env j s h st)"
    by (auto simp: hello_read_def lets_in_def pins_def split: option.split intro: no_entry_spawn no_entry_trans [OF no_entry_uninstall no_entry_prims(1)])
  have up: "no_entry i st (update_agent j (hello_columns h a now) st)" by (rule no_entry_update) (simp add: same_keys_def)
  have sy: "no_entry i st (syncTargets j (hl_targets h) (update_agent j (hello_columns h a now) st))"
    using no_entry_trans [OF up no_entry_sync] .
  have "no_entry i st s \<Longrightarrow> no_entry i st (note_audit u c t s)" "no_entry i st s \<Longrightarrow> no_entry i st (send_frame j fr s)"
    "no_entry i st s \<Longrightarrow> no_entry i st (s\<lparr>fr_alerts := al\<rparr>)" for s u c t fr al by (auto simp: no_entry_def)
  with up sy show "no_entry i st (hello_write j h a now st)" by (simp add: hello_write_def Let_def)
qed

definition same_but_login :: "registry \<Rightarrow> registry \<Rightarrow> bool" where
  "same_but_login st st' \<longleftrightarrow> fr_agents st' = fr_agents st \<and> fr_nextAgent st' = fr_nextAgent st \<and> fr_live st' = fr_live st \<and>
     fr_tasks st' = fr_tasks st \<and> fr_pins st' = fr_pins st \<and> fr_trusted st' = fr_trusted st"

lemma save_login_tables: "same_but_login st (snd (save_login x kind inp v user st))"
  by (simp add: same_but_login_def save_login_def saveNamedCredential_def saveTargetCredential_def Let_def split: option.split)

lemma mint_tables: "same_but_login st (mint x inp user token now st)"
proof -
  have r: "same_but_login st (snd (resolveSshCreds x inp user st))" and v: "same_but_login st (snd (vnc_creds x inp user st))"
    using save_login_tables [of st x "''ssh''" inp _ user] save_login_tables [of st x "''vnc''" inp _ user]
    by (simp_all add: resolveSshCreds_def vnc_creds_def Let_def case_prod_beta same_but_login_def split: option.split sum.split)
  then show ?thesis
    by (auto simp: mint_def issueSshSession_def issueVncSession_def same_but_login_def split: prod.split sum.split)
qed

lemma no_entry_mint [simp]: "no_entry i st (mint x inp user token now st)"
  using mint_tables [of st x inp user token now] by (intro no_entry_rest) (simp_all add: same_but_login_def)

lemma find_agentD: "find_agent st i = Some a \<Longrightarrow> a \<in> set (fr_agents st) \<and> fa_id a = i"
  unfolding find_agent_def by (drule find_SomeD) simp

lemma edit_keys: "same_keys a (edit_columns inp a)"
  using egress_cidrs_ok by (auto simp: same_keys_def edit_columns_def edit_texts_def Let_def split: option.split sum.split)

lemma no_entry_edit: "no_entry i st (snd (updateAgent j inp user st))"
proof -
  have "no_entry i st (note_audit u c t (update_agent j (edit_columns inp) st))" for u c t
    by (rule no_entry_trans [of i st "update_agent j (edit_columns inp) st"]) (simp_all add: no_entry_update edit_keys)
  then show ?thesis by (auto simp: updateAgent_def Let_def intro: no_entry_trans [OF _ no_entry_push] split: option.split)
qed

lemma no_entry_operators:
  "no_entry i st (snd (revokeAgent j user st))" "no_entry i st (snd (deleteAgent env j user now st))"
  "no_entry i st (snd (retryUninstall env j user st))" "no_entry i st (snd (forceRemoveAgent j user st))"
  "no_entry i st (snd (createRoute env j ri user st))" "no_entry i st (snd (updateRoute env j t ri user st))"
  "no_entry i st (snd (deleteRoute j t user st))" "no_entry i st (snd (clearTargetCredential j t user st))"
  "no_entry i st (snd (clearHostKey j t user st))" "no_entry i st (purgeUninstalledAgent j st)"
proof -
  have after1: "no_entry i st s \<Longrightarrow> no_entry i st (note_audit u c t s)" "no_entry i st s \<Longrightarrow> no_entry i st (pushAllow j s)"
    "no_entry i st s \<Longrightarrow> no_entry i st (snd (requestUninstall env j s))" "no_entry i st s \<Longrightarrow> no_entry i st (delete_agent_row j s)"
    "no_entry i st s \<Longrightarrow> no_entry i st (disconnect j code r s)" "no_entry i st s \<Longrightarrow> no_entry i st (add_target tr s)"
    "no_entry i st s \<Longrightarrow> no_entry i st (update_targets P tf s)" for s u c t code r tr P tf
    by (erule no_entry_trans, simp add: disconnect_def)+
  have after2: "no_entry i st s \<Longrightarrow> no_entry i st (s\<lparr>fr_targets := ts\<rparr>)" "no_entry i st s \<Longrightarrow> no_entry i st (s\<lparr>fr_vault := v\<rparr>)" for s ts v
    by (simp_all add: no_entry_def)
  note after = after1 after2
  have "no_entry i s (update_agent j (\<lambda>r. r\<lparr>fa_status := Ag_revoked, fa_credPrefix := None, fa_credHash := None, fa_enrollHash := None,
      fa_enrollExpires := None\<rparr>) s)" "no_entry i s (update_agent j (\<lambda>r. r\<lparr>fa_status := Ag_deleting, fa_pendingUninstallAt := Some now,
      fa_pendingUninstallBy := Some e\<rparr>) s)" for s now e
    by (rule no_entry_update; simp add: same_keys_def)+
  note up = this [THEN no_entry_trans [rotated]]
  show "no_entry i st (snd (revokeAgent j user st))" "no_entry i st (snd (deleteAgent env j user now st))"
    "no_entry i st (snd (retryUninstall env j user st))" "no_entry i st (snd (forceRemoveAgent j user st))"
    "no_entry i st (purgeUninstalledAgent j st)"
    by (simp_all add: revokeAgent_def deleteAgent_def retryUninstall_def forceRemoveAgent_def purgeUninstalledAgent_def Let_def case_prod_beta
        after up split: option.split)
  show "no_entry i st (snd (createRoute env j ri user st))" "no_entry i st (snd (updateRoute env j t ri user st))"
    "no_entry i st (snd (deleteRoute j t user st))" "no_entry i st (snd (clearTargetCredential j t user st))"
    "no_entry i st (snd (clearHostKey j t user st))"
    by (simp_all add: createRoute_def updateRoute_def deleteRoute_def clearTargetCredential_def clearHostKey_def Let_def after
        split: option.split sum.split)
qed

lemma no_entry_frame: "no_entry i st (handleFrame j f now st)"
proof -
  have "no_entry i st (update_agent j (\<lambda>a. a\<lparr>fa_caTrustedAt := Some now\<rparr>) st)" by (rule no_entry_update) (simp add: same_keys_def)
  then have "no_entry i st (note_audit u c t (update_agent j (\<lambda>a. a\<lparr>fa_caTrustedAt := Some now\<rparr>) st))" for u c t
    by (rule no_entry_trans) simp
  then show ?thesis
    by (auto simp: handleFrame_def no_entry_operators split: agent_frame.split option.split)
qed

lemma new_agent_keys [simp]:
  "fa_id (new_agent i h inp now) = i" "fa_credPrefix (new_agent i h inp now) = None" "fa_credHash (new_agent i h inp now) = None"
  "fa_enrollHash (new_agent i h inp now) = Some h"
  by (simp_all add: new_agent_def Let_def)

lemma locked_auth: "locked i st \<Longrightarrow> authenticateOutcome env cred st \<noteq> Auth_ok i"
  by (auto simp: authenticateOutcome_def locked_def bare_def split: option.splits if_splits dest!: find_SomeD)

lemma locked_enroll:
  assumes "locked i st" and "enroll_check env token now st = Inr a"
  shows "fa_id a \<noteq> i"
  using assms by (auto simp: enroll_check_def locked_def bare_def split: option.splits if_splits dest!: find_SomeD)

text \<open>The operations that may let an agent in, or trust a key.\<close>

definition admits :: "fabric_task \<Rightarrow> bool" where
  "admits k \<longleftrightarrow> (case k of Attach _ \<Rightarrow> True | Enroll_write _ _ _ \<Rightarrow> True | _ \<Rightarrow> False)"

fun plain :: "registry \<Rightarrow> fabric_event \<Rightarrow> bool" where
  "plain st (Connect _) = False"
| "plain st (Enroll _ _ _ _) = False"
| "plain st (Create _ _ _ _) = False"
| "plain st (Host_key _ _ _ _ _ _) = False"
| "plain st (Turn n _) = (n < length (fr_tasks st) \<longrightarrow> \<not> admits (fr_tasks st ! n) \<and> \<not> pins (fr_tasks st ! n))"
| "plain st _ = True"

lemma plain_task:
  assumes "\<not> admits k" and "\<not> pins k"
  shows "no_entry i st (task_turn env k now st)"
proof (cases k)
  case (Final_write j r a)
  have "no_entry i st (update_agent j (\<lambda>r. r\<lparr>fa_status := Ag_offline\<rparr>) st)" by (rule no_entry_update) (simp add: same_keys_def)
  with Final_write show ?thesis by (simp add: task_turn_def finalize_write_def Let_def no_entry_def)
qed (use assms in \<open>auto simp: task_turn_def admits_def pins_def lets_in_def reconcile_one_def finalize_read_def
  intro: no_entry_spawn split: option.split\<close>)

definition take_task :: "nat \<Rightarrow> registry \<Rightarrow> registry" where
  "take_task n st = st\<lparr>fr_tasks := take n (fr_tasks st) @ drop (Suc n) (fr_tasks st)\<rparr>"

lemma run_take: "run_task env n now st = (if n \<ge> length (fr_tasks st) then st else task_turn env (fr_tasks st ! n) now (take_task n st))"
  by (simp add: run_task_def take_task_def)

lemma no_entry_take: "no_entry i st (take_task n st)"
  by (auto simp: no_entry_def take_task_def dest: in_set_takeD in_set_dropD)

lemma no_entry_tickets: "no_entry i st (on_mux s f (st\<lparr>fr_tickets := t\<rparr>))" "no_entry i st (st\<lparr>fr_tickets := t\<rparr>)"
  by (rule no_entry_rest; simp)+

lemma plain_step: "plain st e \<Longrightarrow> no_entry i st (agents_step env st e)"
proof (cases e)
  case (Turn n now)
  assume "plain st e"
  with Turn show ?thesis using no_entry_trans [OF no_entry_take plain_task] by (simp add: run_take)
next
  case (Open_session j kind w inp user token now)
  then show ?thesis by (auto simp: openSession_def gate_session_def lets_in_def pins_def intro: no_entry_spawn split: sum.split)
next
  case (Sweep now)
  then show ?thesis by (auto simp: reconcileOffline_def no_entry_def lets_in_def pins_def)
qed (auto simp: no_entry_operators no_entry_frame no_entry_fire no_entry_edit redeem_def consume_def open_agent_stream_def handleClose_def
    handle_data_def no_entry_tickets split: option.split prod.split)

lemma locked_same:
  assumes "fr_agents st' = fr_agents st" "fr_nextAgent st' = fr_nextAgent st" "map_get (fr_live st') i = map_get (fr_live st) i" "fr_tasks st' = fr_tasks st"
  shows "locked i st' \<longleftrightarrow> locked i st"
  using assms by (simp add: locked_def)

lemma locked_step:
  assumes l: "locked i st"
  shows "locked i (agents_step env st e)"
proof (cases "plain st e")
  case True
  from no_entry_locked [OF plain_step [OF this] l] show ?thesis .
next
  case False
  show ?thesis
  proof (cases e)
    case (Connect cred)
    with l locked_auth [OF l, of env cred] show ?thesis
      by (auto simp: connect_agent_def locked_def spawn_def lets_in_def split: agent_auth.split)
  next
    case (Enroll token p s now)
    with l locked_enroll [OF l, of env token now] show ?thesis
      by (auto simp: enroll_def locked_def spawn_def lets_in_def split: sum.split)
  next
    case (Create s inp user now)
    with l show ?thesis by (auto simp: createAgent_def generateEnrollToken_def locked_def bare_def Let_def)
  next
    case (Host_key rd sv user j pl fp)
    with l show ?thesis
      by (auto simp: checkHostKey_def locked_def spawn_def lets_in_def note_trust_def note_audit_def split: option.split key_place.split)
  next
    case (Turn n now)
    with False have n: "n < length (fr_tasks st)" "admits (fr_tasks st ! n) \<or> pins (fr_tasks st ! n)" by auto
    from no_entry_locked [OF no_entry_take l] have t: "locked i (take_task n st)" .
    have "\<not> lets_in i (fr_tasks st ! n)" using l n(1) by (simp add: locked_def)
    with t have "locked i (task_turn env (fr_tasks st ! n) now (take_task n st))"
    proof (cases "fr_tasks st ! n")
      case (Attach j)
      with \<open>\<not> lets_in i _\<close> have j: "j \<noteq> i" by (simp add: lets_in_def)
      have "locked i (register j now s) \<longleftrightarrow> locked i s" for s
        using j by (intro locked_same)
          (simp_all add: register_def Let_def arm_def disarm_timer_def close_sock_def on_mux_def store_simps split: option.split)
      with t Attach show ?thesis by (simp add: task_turn_def)
    next
      case (Enroll_write a p s)
      with \<open>\<not> lets_in i _\<close> have a: "fa_id a \<noteq> i" by (simp add: lets_in_def)
      have "bare i as \<Longrightarrow> bare i (rows_update (\<lambda>r. fa_id r = fa_id a) f as)" if "\<And>r. fa_id (f r) = fa_id r" for f as
        using a that by (auto simp: bare_def in_rows_update)
      with t Enroll_write show ?thesis
        by (simp add: task_turn_def enroll_write_def generateCredential_def Let_def locked_def update_agent_def)
    next
      case (Pin_key sv u j pl fp)
      have "locked i (pin_key sv u j pl fp s) \<longleftrightarrow> locked i s" for s
        by (intro locked_same) (simp_all add: pin_key_def split: key_place.split)
      with t Pin_key show ?thesis by (simp add: task_turn_def)
    qed (use n(2) in \<open>simp_all add: admits_def pins_def\<close>)
    with Turn n(1) show ?thesis by (simp add: run_take)
  qed (use False in simp_all)
qed

interpretation lockout: event_machine "agents_step env" "locked i" for env i
  by unfold_locales (rule locked_step)

lemma bare_cleared:
  assumes "\<And>r. fa_credHash (f r) = None" "\<And>r. fa_enrollHash (f r) = None"
  shows "bare i (rows_update (\<lambda>a. fa_id a = i) f as)"
  using assms by (induction as) (auto simp: bare_def)

lemma revoke_locks:
  assumes "revokeAgent i user st = (Inr u, st')" and "i < fr_nextAgent st" and "\<forall>k \<in> set (fr_tasks st). \<not> lets_in i k"
  shows "locked i st'"
proof -
  obtain a where a: "find_agent st i = Some a" using assms(1) by (cases "find_agent st i") (auto simp: revokeAgent_def)
  have r: "fr_tasks (disconnect i code r st) = fr_tasks st" "fr_nextAgent (disconnect i code r st) = fr_nextAgent st"
    "map_get (fr_live (disconnect i code r st)) i = None" for code r
    by (simp_all add: disconnect_def drop_live_def close_sock_def on_mux_def disarm_timer_def store_simps split: option.split)
  have "bare i (rows_update (\<lambda>a. fa_id a = i) (\<lambda>r. r\<lparr>fa_status := Ag_revoked, fa_credPrefix := None, fa_credHash := None,
      fa_enrollHash := None, fa_enrollExpires := None\<rparr>) as)" for as by (rule bare_cleared) simp_all
  moreover have "st' = snd (revokeAgent i user st)" by (simp add: assms(1))
  ultimately show ?thesis using assms(2,3) a r by (simp add: revokeAgent_def locked_def update_agent_def)
qed

section \<open>The keys of the agent table\<close>

text \<open>What the primary key and the unique columns promise.\<close>

definition unique_column :: "(fabric_agent \<Rightarrow> string option) \<Rightarrow> fabric_agent list \<Rightarrow> bool" where
  "unique_column c as \<longleftrightarrow> (\<forall>a \<in> set as. \<forall>b \<in> set as. c a \<noteq> None \<and> c a = c b \<longrightarrow> fa_id a = fa_id b)"

definition db_ok :: "registry \<Rightarrow> bool" where
  "db_ok st \<longleftrightarrow> distinct (map fa_id (fr_agents st)) \<and> (\<forall>a \<in> set (fr_agents st). fa_id a < fr_nextAgent st) \<and>
     unique_column fa_credPrefix (fr_agents st) \<and> unique_column fa_enrollHash (fr_agents st)"

definition rows_shrink :: "registry \<Rightarrow> registry \<Rightarrow> bool" where
  "rows_shrink st st' \<longleftrightarrow> shrunk (fr_agents st) (fr_agents st') \<and> fr_nextAgent st' = fr_nextAgent st"

lemma no_entry_shrink: "no_entry i st st' \<Longrightarrow> rows_shrink st st'"
  by (simp add: no_entry_def rows_shrink_def)

lemma unique_shrunk:
  assumes "shrunk as bs" and "unique_column c as" and "\<And>a b. same_keys a b \<Longrightarrow> c b = c a \<or> c b = None"
  shows "unique_column c bs"
  unfolding unique_column_def
proof (intro ballI impI)
  fix x y
  assume xy: "x \<in> set bs" "y \<in> set bs" and c: "c x \<noteq> None \<and> c x = c y"
  obtain a b where a: "a \<in> set as" "same_keys a x" and b: "b \<in> set as" "same_keys b y"
    using shrunk_row [OF assms(1)] xy by blast
  then have "c x = c a" "c y = c b" using assms(3) c by (metis)+
  with assms(2) a b c show "fa_id x = fa_id y" by (auto simp: unique_column_def same_keys_def)
qed

lemma db_shrink:
  assumes "rows_shrink st st'" and "db_ok st"
  shows "db_ok st'"
proof -
  note s = assms(1) [unfolded rows_shrink_def]
  have same: "same_keys a b \<Longrightarrow> fa_credPrefix b = fa_credPrefix a \<or> fa_credPrefix b = None"
    "same_keys a b \<Longrightarrow> fa_enrollHash b = fa_enrollHash a \<or> fa_enrollHash b = None" for a b
    by (auto simp: same_keys_def)
  obtain g P where g: "fr_agents st' = map g (filter P (fr_agents st))" "\<forall>a. same_keys a (g a)" using s by (auto simp: shrunk_def)
  then have "map fa_id (fr_agents st') = map fa_id (filter P (fr_agents st))" by (simp add: same_keys_def)
  with assms(2) have "distinct (map fa_id (fr_agents st'))" by (simp add: db_ok_def distinct_map_filter)
  moreover have "\<forall>a \<in> set (fr_agents st'). fa_id a < fr_nextAgent st'"
    using assms(2) g s by (auto simp: db_ok_def same_keys_def)
  ultimately show ?thesis
    using assms(2) s unique_shrunk [of "fr_agents st" "fr_agents st'" fa_credPrefix] unique_shrunk [of "fr_agents st" "fr_agents st'" fa_enrollHash]
      same by (simp add: db_ok_def)
qed

text \<open>Only a new agent and an enrollment give keys.\<close>

definition enrolls :: "fabric_task \<Rightarrow> bool" where
  "enrolls k \<longleftrightarrow> (case k of Enroll_write _ _ _ \<Rightarrow> True | _ \<Rightarrow> False)"

lemma rows_step:
  assumes "\<And>s inp user now. e \<noteq> Create s inp user now"
    and "\<And>n now. e = Turn n now \<Longrightarrow> n < length (fr_tasks st) \<Longrightarrow> \<not> enrolls (fr_tasks st ! n)"
  shows "rows_shrink st (agents_step env st e)"
proof (cases "plain st e")
  case True
  from no_entry_shrink [OF plain_step [OF this]] show ?thesis .
next
  case False
  show ?thesis
  proof (cases e)
    case (Turn n now)
    with False have n: "n < length (fr_tasks st)" "admits (fr_tasks st ! n) \<or> pins (fr_tasks st ! n)" by auto
    with assms(2) Turn have "\<not> enrolls (fr_tasks st ! n)" by blast
    then have "rows_shrink s (task_turn env (fr_tasks st ! n) now s)" for s
      using n(2) by (cases "fr_tasks st ! n") (simp_all add: task_turn_def rows_shrink_def register_def pin_key_def Let_def arm_def disarm_timer_def
        close_sock_def on_mux_def admits_def pins_def enrolls_def split: option.split key_place.split)
    from this [of "take_task n st"] Turn n(1) show ?thesis by (simp add: run_take rows_shrink_def) (simp add: take_task_def)
  qed (use False assms(1) in \<open>auto simp: connect_agent_def enroll_def checkHostKey_def rows_shrink_def
    split: agent_auth.split sum.split option.split key_place.split\<close>)
qed

lemma unique_add: "unique_column c as \<Longrightarrow> c n = None \<or> (\<forall>a \<in> set as. c a \<noteq> c n) \<Longrightarrow> unique_column c (as @ [n])"
  unfolding unique_column_def set_append list.set by (metis Un_iff empty_iff insert_iff)

lemma db_create: "db_ok st \<Longrightarrow> db_ok (snd (createAgent env s inp user now st))"
proof -
  assume db: "db_ok st"
  define n where "n h = new_agent (fr_nextAgent st) h inp now" for h
  have n: "fa_id (n h) = fr_nextAgent st" "fa_credPrefix (n h) = None" "fa_enrollHash (n h) = Some h" for h by (simp_all add: n_def)
  have "db_ok (note_audit u c t (st\<lparr>fr_agents := fr_agents st @ [n h], fr_nextAgent := Suc (fr_nextAgent st)\<rparr>))"
    if "\<not> list_ex (\<lambda>x. fa_enrollHash x = Some h) (fr_agents st)" for u c t h
    using db unique_add [of fa_credPrefix "fr_agents st" "n h"] unique_add [of fa_enrollHash "fr_agents st" "n h"] that
    by (auto simp: db_ok_def n list_ex_iff)
  with db show ?thesis by (simp add: createAgent_def generateEnrollToken_def n_def)
qed

lemma db_enroll: "db_ok st \<Longrightarrow> db_ok (enroll_write env p s a st)"
proof -
  assume db: "db_ok st"
  define f where "f h r = r\<lparr>fa_enrollHash := None, fa_enrollExpires := None, fa_credPrefix := Some p, fa_credHash := Some h\<rparr>"
    for h and r :: fabric_agent
  have "unique_column fa_credPrefix (rows_update (\<lambda>r. fa_id r = fa_id a) (f h) (fr_agents st))"
    if "\<not> list_ex (\<lambda>x. fa_id x \<noteq> fa_id a \<and> fa_credPrefix x = Some p) (fr_agents st)" for h
  proof -
    have only: "fa_id r = fa_id a" if "r \<in> set (fr_agents st)" "fa_credPrefix r = Some p" for r
      using that \<open>\<not> list_ex _ _\<close> by (auto simp: list_ex_iff)
    have u: "fa_id r = fa_id t" if "r \<in> set (fr_agents st)" "t \<in> set (fr_agents st)" "fa_credPrefix r = Some q" "fa_credPrefix t = Some q" for r t q
      using db that unfolding db_ok_def unique_column_def by (metis option.distinct(1))
    have ids: "fa_id (f h r) = fa_id r" "fa_credPrefix (f h r) = Some p" for r by (simp_all add: f_def)
    show ?thesis unfolding unique_column_def
    proof (intro ballI impI)
      fix x y
      assume "x \<in> set (rows_update (\<lambda>r. fa_id r = fa_id a) (f h) (fr_agents st))" "y \<in> set (rows_update (\<lambda>r. fa_id r = fa_id a) (f h) (fr_agents st))"
      then obtain r t where r: "r \<in> set (fr_agents st)" "x = (if fa_id r = fa_id a then f h r else r)"
        and t: "t \<in> set (fr_agents st)" "y = (if fa_id t = fa_id a then f h t else t)" by (auto simp: in_rows_update)
      assume "fa_credPrefix x \<noteq> None \<and> fa_credPrefix x = fa_credPrefix y"
      then obtain q where "fa_credPrefix x = Some q" "fa_credPrefix y = Some q" by (metis option.exhaust)
      then show "fa_id x = fa_id y" using r t only [of r] only [of t] u [of r t q] ids by (simp split: if_splits)
    qed
  qed
  moreover have "unique_column fa_enrollHash (rows_update (\<lambda>r. fa_id r = fa_id a) (f h) (fr_agents st))" for h
    using db by (fastforce simp: f_def db_ok_def unique_column_def in_rows_update)
  moreover have "map fa_id (rows_update (\<lambda>r. fa_id r = fa_id a) (f h) (fr_agents st)) = map fa_id (fr_agents st)" for h
    by (rule map_rows_update) (simp add: f_def)
  moreover have "\<forall>r \<in> set (rows_update (\<lambda>r. fa_id r = fa_id a) (f h) (fr_agents st)). fa_id r < fr_nextAgent st" for h
    using db unfolding db_ok_def f_def by (fastforce simp: in_rows_update)
  ultimately show ?thesis
    using db by (simp add: enroll_write_def generateCredential_def Let_def db_ok_def update_agent_def f_def [abs_def])
qed

lemma db_step: "db_ok st \<Longrightarrow> db_ok (agents_step env st e)"
proof (cases "(\<exists>s inp user now. e = Create s inp user now) \<or> (\<exists>n now. e = Turn n now \<and> n < length (fr_tasks st) \<and> enrolls (fr_tasks st ! n))")
  case True
  assume "db_ok st"
  moreover from this have "db_ok (st\<lparr>fr_tasks := ts\<rparr>)" for ts by (simp add: db_ok_def)
  moreover have "enrolls k \<Longrightarrow> \<exists>a p s. k = Enroll_write a p s" for k by (cases k) (auto simp: enrolls_def)
  ultimately show ?thesis using True by (fastforce simp: db_create run_take take_task_def task_turn_def db_enroll)
next
  case False
  assume "db_ok st"
  with db_shrink rows_step False show ?thesis by blast
qed

lemma no_agents_db: "db_ok no_agents"
  by (simp add: db_ok_def no_agents_def unique_column_def)

interpretation table: event_machine "agents_step env" db_ok for env
  by unfold_locales (rule db_step)

lemma unique_row:
  assumes "db_ok st" and "a \<in> set (fr_agents st)" and "b \<in> set (fr_agents st)" and "fa_id a = fa_id b"
  shows "a = b"
  using assms by (auto simp: db_ok_def distinct_map dest: inj_onD)

lemma find_row: "db_ok st \<Longrightarrow> a \<in> set (fr_agents st) \<Longrightarrow> find_agent st (fa_id a) = Some a"
proof -
  assume *: "db_ok st" "a \<in> set (fr_agents st)"
  then obtain b where "find_agent st (fa_id a) = Some b"
    unfolding find_agent_def by (cases "List.find (\<lambda>b. fa_id b = fa_id a) (fr_agents st)") (auto simp: find_None_iff)
  with find_agentD [OF this] unique_row [OF *(1) _ *(2)] show ?thesis by auto
qed

end
