(* ===== verification/Fabric_Reach.thy ===== *)
theory Fabric_Reach
  imports Fabric_Safety
begin

text \<open>
  What the server can be brought to reach through the agents of Fabric: an endpoint is only ever dialled at its own
  loopback address (\<open>at_home\<close>), an address that is not stored lies in an egress range of its waypoint
  (\<open>egress_ok\<close>), and the first host key of such an address is the only one (\<open>held_pin\<close>). Then the properties
  of \<^theory_text>\<open>Fabric_Agents\<close>, with runs that reach the situations they are about.
\<close>

section \<open>Where an endpoint agent is told to dial\<close>

definition endpoint :: "registry \<Rightarrow> nat \<Rightarrow> bool" where
  "endpoint st i \<longleftrightarrow> (\<exists>a \<in> set (fr_agents st). fa_id a = i \<and> fa_mode a = Endpoint)"

text \<open>The hosts a multiplexer has asked its agent to dial.\<close>

definition dials :: "mux \<Rightarrow> string set" where
  "dials m = {h. \<exists>n p. Open_stream n h p \<in> set (mx_sent m)}"

lemma dials_drop [simp]: "dials (drop_stream i m) = dials m"
  by (simp add: dials_def drop_stream_def on_tunnel_def split: option.split)

lemma dials_settle [simp]: "dials (settle p r m) = dials m"
  by (simp add: dials_def)

lemma dials_fields [simp]: "dials (m\<lparr>mx_pending := x\<rparr>) = dials m" "dials (m\<lparr>mx_streams := y\<rparr>) = dials m" "dials (m\<lparr>mx_tunnels := z\<rparr>) = dials m"
  "dials (m\<lparr>mx_disposed := b\<rparr>) = dials m" "dials (on_tunnel r f m) = dials m"
  "dials (send (Close_frame i) m) = dials m" "dials (send (Binary w) m) = dials m"
  by (auto simp: dials_def on_tunnel_def send_def)

lemma dials_ops:
  "dials (handleControl c m) = dials m" "dials (handleAgentData b m) = dials m" "dials (dispose m) = dials m"
  "consumer_op e \<Longrightarrow> dials (mux_step m e) = dials m"
proof -
  show "dials (handleControl c m) = dials m"
    by (simp add: handleControl_def reject_pending_def Let_def split: option.split)
  show "dials (handleAgentData b m) = dials m"
    by (simp add: handleAgentData_def handleData_def split: option.split)
  show "dials (dispose m) = dials m"
    by (simp add: dispose_def Let_def) (simp add: dials_def)
  show "consumer_op e \<Longrightarrow> dials (mux_step m e) = dials m"
    by (cases e) (simp_all add: consumer_op_def open_timeout_def tunnel_write_def tunnel_close_def closeLocal_def sendData_def Let_def)
qed

lemma dials_open: "dials (openStream h p m) \<subseteq> insert h (dials m)"
  by (auto simp: openStream_def dials_def send_def Let_def)

text \<open>Every destination the server holds for an agent: its targets, held sessions, tickets, and what a live socket was told.\<close>

definition dialled :: "registry \<Rightarrow> (nat \<times> string) set" where
  "dialled st = {(i, h). \<exists>c. map_get (fr_live st) i = Some c \<and> h \<in> dials (fr_muxes st ! lc_sock c)}"

definition held_dests :: "fabric_task list \<Rightarrow> (nat \<times> string) set" where
  "held_dests ks = {(sx_agentId x, sx_host x) | x. \<exists>inp user token. Mint x inp user token \<in> set ks}"

definition dests :: "registry \<Rightarrow> (nat \<times> string) set" where
  "dests st = (\<lambda>t. (ft_agentId t, ft_host t)) ` set (fr_targets st) \<union>
     held_dests (fr_tasks st) \<union>
     (\<lambda>(_, d, _). (sx_agentId (sd_target d), sx_host (sd_target d))) ` set (fr_tickets st) \<union> dialled st"

definition known :: "registry \<Rightarrow> nat set" where
  "known st = {i. Attach i \<in> set (fr_tasks st) \<or> map_get (fr_live st) i \<noteq> None} \<union> fst ` dests st"

definition at_home :: "registry \<Rightarrow> bool" where
  "at_home st \<longleftrightarrow> (\<forall>(i, h) \<in> dests st. endpoint st i \<longrightarrow> h = LOOPBACK) \<and> (\<forall>i \<in> known st. i < fr_nextAgent st)"

text \<open>An operation that adds only destinations from \<open>D\<close>.\<close>

definition adds :: "(nat \<times> string) set \<Rightarrow> registry \<Rightarrow> registry \<Rightarrow> bool" where
  "adds D st st' \<longleftrightarrow> dests st' \<subseteq> dests st \<union> D \<and> known st' \<subseteq> known st \<union> fst ` D"

text \<open>No agent becomes an endpoint, and ids are not given twice.\<close>

definition modes_keep :: "registry \<Rightarrow> registry \<Rightarrow> bool" where
  "modes_keep st st' \<longleftrightarrow> fr_nextAgent st \<le> fr_nextAgent st' \<and> (\<forall>i < fr_nextAgent st. endpoint st' i \<longrightarrow> endpoint st i)"

lemma shrink_modes: "rows_shrink st st' \<Longrightarrow> modes_keep st st'"
  by (fastforce simp: modes_keep_def endpoint_def rows_shrink_def same_keys_def dest: shrunk_row)

lemma adds_home:
  assumes "modes_keep st st'" and "adds D st st'" and "at_home st"
    and "\<And>i h. (i, h) \<in> D \<Longrightarrow> i < fr_nextAgent st \<and> (endpoint st i \<longrightarrow> h = LOOPBACK)"
  shows "at_home st'"
proof -
  have low: "i < fr_nextAgent st" if "i \<in> known st \<union> fst ` D" for i using that assms(3,4) by (auto simp: at_home_def)
  show ?thesis unfolding at_home_def
  proof (intro conjI ballI, clarify)
    fix i h
    assume ih: "(i, h) \<in> dests st'" and e: "endpoint st' i"
    have ih2: "(i, h) \<in> dests st \<union> D" using assms(2) ih by (auto simp: adds_def)
    then have "i \<in> known st \<union> fst ` D" by (force simp: known_def)
    from low [OF this] e assms(1) have "endpoint st i" by (simp add: modes_keep_def)
    with ih2 assms(3,4) show "h = LOOPBACK" by (auto simp: at_home_def)
  next
    fix i
    assume "i \<in> known st'"
    with assms(2) have "i \<in> known st \<union> fst ` D" by (auto simp: adds_def)
    from low [OF this] assms(1) show "i < fr_nextAgent st'" by (simp add: modes_keep_def)
  qed
qed

lemma adds_refl [simp]: "adds D st st"
  by (simp add: adds_def)

lemma held_dests_mono: "set ks \<subseteq> set ls \<Longrightarrow> held_dests ks \<subseteq> held_dests ls"
  by (fastforce simp: held_dests_def)

lemma dests_dialled:
  assumes "fr_targets st' = fr_targets st" "set (fr_tasks st') \<subseteq> set (fr_tasks st)" "fr_tickets st' = fr_tickets st"
    and "dialled st' \<subseteq> dialled st \<union> D"
  shows "dests st' \<subseteq> dests st \<union> D"
  unfolding dests_def assms(1,3) using held_dests_mono [OF assms(2)] assms(4) by blast

lemma addsI:
  assumes d: "dests st' \<subseteq> dests st \<union> D" and a: "\<And>i. Attach i \<in> set (fr_tasks st') \<Longrightarrow> Attach i \<in> set (fr_tasks st)"
    and l: "\<And>i. map_get (fr_live st') i \<noteq> None \<Longrightarrow> map_get (fr_live st) i \<noteq> None \<or> Attach i \<in> set (fr_tasks st)"
  shows "adds D st st'"
proof -
  have "fst ` dests st' \<subseteq> fst ` dests st \<union> fst ` D" using image_mono [OF d, of fst] by (simp add: image_Un)
  then show ?thesis using d a l unfolding adds_def known_def by blast
qed

lemma adds_trans: "adds D a b \<Longrightarrow> adds E b c \<Longrightarrow> D \<union> E \<subseteq> F \<Longrightarrow> adds F a c"
  unfolding adds_def by (auto, blast+)

lemma adds_mono: "adds D a b \<Longrightarrow> D \<subseteq> E \<Longrightarrow> adds E a b"
  unfolding adds_def by (auto, blast+)

abbreviation adds_none :: "registry \<Rightarrow> registry \<Rightarrow> bool" where
  "adds_none \<equiv> adds {}"

lemma none_trans: "adds_none a b \<Longrightarrow> adds_none b c \<Longrightarrow> adds_none a c"
  by (rule adds_trans) auto

lemma adds_same:
  assumes "fr_targets st' = fr_targets st" "fr_tasks st' = fr_tasks st" "fr_tickets st' = fr_tickets st" "fr_live st' = fr_live st"
    "fr_muxes st' = fr_muxes st"
  shows "adds D st st'"
  using assms by (simp add: adds_def dests_def dialled_def known_def)

lemma adds_prims [simp]:
  "adds D st (note_audit u a t st)" "adds D st (update_agent j f st)" "adds D st (close_sock s why st)" "adds D st (disarm_timer n st)"
  "adds D st (snd (arm fk st))" "adds D st (send_frame j fr st)" "adds D st (note_trust kp fp st)" "adds D st (st\<lparr>fr_vault := v\<rparr>)"
  "adds D st (st\<lparr>fr_pendingOffline := p\<rparr>)" "adds D st (st\<lparr>fr_alerts := al\<rparr>)"
  by (rule adds_same; simp)+

lemma adds_fewer:
  assumes "set (fr_targets st') \<subseteq> set (fr_targets st)" "set (fr_tasks st') \<subseteq> set (fr_tasks st)" "set (fr_tickets st') \<subseteq> set (fr_tickets st)"
    "\<And>i c. map_get (fr_live st') i = Some c \<Longrightarrow> \<exists>d. map_get (fr_live st) i = Some d \<and> dials (fr_muxes st' ! lc_sock c) \<subseteq> dials (fr_muxes st ! lc_sock d)"
  shows "adds D st st'"
proof -
  have "dialled st' \<subseteq> dialled st" using assms(4) unfolding dialled_def by fastforce
  then have "dests st' \<subseteq> dests st" unfolding dests_def using assms(1,3) held_dests_mono [OF assms(2)] by (intro Un_mono image_mono)
  moreover have "map_get (fr_live st) i \<noteq> None" if "map_get (fr_live st') i \<noteq> None" for i using that assms(4) [of i] by fastforce
  ultimately show ?thesis using assms(2) by (intro addsI) auto
qed

lemma adds_delete [simp]: "adds D st (delete_agent_row j st)"
  by (rule adds_fewer) (auto simp: delete_agent_row_def)

lemma dials_at_index: "(\<And>m. dials (f m) = dials m) \<Longrightarrow> dials (at_index s f M ! k) = dials (M ! k)"
  by (cases "k = s") (simp_all add: at_index_def)

lemma adds_mux: "(\<And>m. dials (f m) = dials m) \<Longrightarrow> adds D st (on_mux s f st)"
  by (rule adds_fewer) (auto simp: on_mux_def dials_at_index)

lemma adds_drop [simp]: "adds D st (drop_live j why st)"
  by (rule adds_fewer) (auto simp: drop_live_def close_sock_def on_mux_def disarm_timer_def store_simps dials_at_index
    dials_ops split: option.split if_splits)

lemma adds_spawn: "(\<And>x inp user token. k \<noteq> Mint x inp user token) \<Longrightarrow> (\<And>i. k \<noteq> Attach i) \<Longrightarrow> adds D st (spawn k st)"
proof -
  assume k: "\<And>x inp user token. k \<noteq> Mint x inp user token" "\<And>i. k \<noteq> Attach i"
  have m: "Mint x inp user token \<in> set (fr_tasks (spawn k st)) \<longleftrightarrow> Mint x inp user token \<in> set (fr_tasks st)" for x inp user token
    using k(1) [of x inp user token] by (auto simp: spawn_def)
  have a: "Attach i \<in> set (fr_tasks (spawn k st)) \<longleftrightarrow> Attach i \<in> set (fr_tasks st)" for i
    using k(2) [of i] by (auto simp: spawn_def)
  have d: "dests (spawn k st) = dests st" unfolding dests_def dialled_def held_dests_def by (simp only: m spawn_keeps)
  have "known (spawn k st) = known st" unfolding known_def by (simp only: a d spawn_keeps)
  with d show ?thesis by (simp add: adds_def)
qed

lemma adds_after:
  "adds_none st s \<Longrightarrow> adds_none st (note_audit u c t s)" "adds_none st s \<Longrightarrow> adds_none st (update_agent j f s)"
  "adds_none st s \<Longrightarrow> adds_none st (disconnect j code r s)" "adds_none st s \<Longrightarrow> adds_none st (delete_agent_row j s)"
  "adds_none st s \<Longrightarrow> adds_none st (close_sock n w s)" "adds_none st s \<Longrightarrow> adds_none st (s\<lparr>fr_vault := v\<rparr>)"
  "adds_none st s \<Longrightarrow> adds_none st (s\<lparr>fr_alerts := al\<rparr>)" "adds_none st s \<Longrightarrow> adds_none st (send_frame j fr s)"
  by (erule none_trans, simp add: disconnect_def)+

lemma adds_begin [simp]: "adds_none st (beginOffline j r st)"
proof -
  have "adds_none st (drop_live j None st)" by simp
  moreover have "adds_none s ((snd (arm k s))\<lparr>fr_pendingOffline := p\<rparr>)" for s k p by (rule adds_same) simp_all
  ultimately have "adds_none st ((snd (arm k (drop_live j None st)))\<lparr>fr_pendingOffline := p\<rparr>)" for k p by (rule none_trans)
  then show ?thesis by (simp add: beginOffline_def Let_def case_prod_beta)
qed

lemma adds_finalize [simp]: "adds_none st (finalize_begin j r st)"
proof -
  have a: "adds_none st ((disarm_timer t st)\<lparr>fr_pendingOffline := p\<rparr>)" for t p by (rule adds_same) simp_all
  have b: "adds_none s (spawn (Final_read j r) s)" for s by (rule adds_spawn) simp_all
  show ?thesis using a b none_trans [OF a b] by (simp add: finalize_begin_def Let_def split: option.split)
qed

lemma adds_fire: "adds_none st (fire_timer t st)"
proof -
  have "adds_none st (disarm_timer t st)" "adds_none st ((disarm_timer t st)\<lparr>fr_pendingOffline := p\<rparr>)" for p by (rule adds_same; simp)+
  then show ?thesis
    by (simp add: fire_timer_def Let_def adds_after none_trans [OF _ adds_begin] none_trans [OF _ adds_finalize]
        split: option.split fabric_timer.split)
qed

lemma adds_uninstall [simp]: "adds_none st (snd (requestUninstall env j st))"
  by (rule adds_same) (simp_all add: requestUninstall_def Let_def)

lemma adds_push [simp]: "adds_none st (pushAllow j st)"
  by (simp add: pushAllow_def)

lemma adds_targets:
  assumes "set (fr_targets st') \<subseteq> set (fr_targets st) \<union> N" and "fr_tasks st' = fr_tasks st" "fr_tickets st' = fr_tickets st"
    "fr_live st' = fr_live st" "fr_muxes st' = fr_muxes st"
  shows "adds ((\<lambda>t. (ft_agentId t, ft_host t)) ` N) st st'"
proof -
  have "dests st' \<subseteq> dests st \<union> (\<lambda>t. (ft_agentId t, ft_host t)) ` N"
    using assms(1) unfolding dests_def dialled_def assms(2-5) by (auto simp: image_iff)
  then show ?thesis by (rule addsI) (simp_all add: assms)
qed

lemma adds_update_targets:
  assumes "\<And>t. P t \<Longrightarrow> ft_agentId (f t) = ft_agentId t \<and> ft_host (f t) = ft_host t"
  shows "adds_none st (update_targets P f st)"
proof -
  have "(\<lambda>t. (ft_agentId t, ft_host t)) ` set (rows_update P f ts) = (\<lambda>t. (ft_agentId t, ft_host t)) ` set ts" for ts
    using assms by (induction ts) auto
  then have "dests (update_targets P f st) = dests st" by (simp add: dests_def dialled_def update_targets_def)
  then show ?thesis by (simp add: adds_def known_def)
qed

definition home :: "nat \<Rightarrow> (nat \<times> string) set" where "home i = {(i, LOOPBACK)}"

lemma adds_sync_one: "adds (home i) st (sync_one i b d st)"
proof -
  have up: "adds_none st (st\<lparr>fr_targets := rows_update Q (\<lambda>t. case l of None \<Rightarrow> t | Some x \<Rightarrow> t\<lparr>ft_label := Some x\<rparr>) (fr_targets st)\<rparr>)" for Q l
    using adds_update_targets [of Q "\<lambda>t. case l of None \<Rightarrow> t | Some x \<Rightarrow> t\<lparr>ft_label := Some x\<rparr>" st]
    by (simp add: update_targets_def split: option.split)
  have new: "adds (home i) st (add_target t st)" if "ft_agentId t = i" "ft_host t = LOOPBACK" for t
    using adds_targets [of "add_target t st" st "{t\<lparr>ft_id := fr_nextTarget st\<rparr>}"] that by (simp add: add_target_def home_def)
  show ?thesis
    using adds_mono [OF up] by (simp add: sync_one_def Let_def new split: option.split)
qed

lemma adds_sync: "adds (home i) st (syncTargets i ts st)"
proof -
  have all: "adds (home i) st (fold (sync_one i b) ts st)" for b
    by (induction ts arbitrary: st) (auto intro: adds_trans adds_sync_one)
  have "adds {} s (s\<lparr>fr_targets := filter Q (fr_targets s)\<rparr>)" for s Q by (rule adds_fewer) auto
  from adds_trans [OF all this, of "home i"] all show ?thesis by (simp add: syncTargets_def Let_def)
qed

text \<open>A target of the table that a session resolves, or an address of a waypoint.\<close>

lemma find_target_dest: "find_target_of st i t = Some row \<Longrightarrow> (i, ft_host row) \<in> dests st"
  unfolding find_target_of_def dests_def dialled_def by (drule find_SomeD) force

lemma waypoint_not_endpoint: "db_ok st \<Longrightarrow> find_agent st i = Some a \<Longrightarrow> fa_mode a = Waypoint \<Longrightarrow> \<not> endpoint st i"
  using unique_row by (auto simp: endpoint_def dest!: find_agentD) (metis agent_mode.distinct(1))

lemma known_dest: "(i, h) \<in> dests st \<Longrightarrow> i \<in> known st"
  by (force simp: known_def)

lemma place_ok:
  assumes "db_ok st" and "at_home st" and "session_place i kind w st = Inr x"
  shows "sx_agentId x < fr_nextAgent st" "endpoint st (sx_agentId x) \<Longrightarrow> sx_host x = LOOPBACK"
proof -
  have "sx_agentId x < fr_nextAgent st \<and> (endpoint st (sx_agentId x) \<longrightarrow> sx_host x = LOOPBACK)"
  proof (cases w)
    case (Stored t)
    with assms(3) obtain row where "find_target_of st i t = Some row" "sx_agentId x = i" "sx_host x = ft_host row"
      by (auto simp: session_place_def resolveStoredTarget_def split: option.splits if_splits)
    with find_target_dest [of st i t row] known_dest [of i "ft_host row" st] assms(2) show ?thesis by (auto simp: at_home_def)
  next
    case (Address h p)
    with assms(3) obtain a where a: "find_agent st i = Some a" "fa_mode a = Waypoint" "sx_agentId x = i"
      by (auto simp: session_place_def resolveAdhocTarget_def split: option.splits if_splits sum.splits prod.splits)
    with waypoint_not_endpoint [OF assms(1) a(1,2)] assms(1) find_agentD [OF a(1)] show ?thesis by (auto simp: db_ok_def)
  qed
  then show "sx_agentId x < fr_nextAgent st" "endpoint st (sx_agentId x) \<Longrightarrow> sx_host x = LOOPBACK" by auto
qed

lemma set_map_keep: "set (map_keep P m) \<subseteq> set m"
  by (auto simp: map_keep_def)

lemma adds_issue: "adds {(sx_agentId (sd_target d), sx_host (sd_target d))} st (issue token d now st)"
proof -
  have "set (fr_tickets (issue token d now st)) \<subseteq> insert (token, d, now + TICKET_TTL_MS) (set (fr_tickets st))"
    using set_map_keep set_map_set unfolding issue_def by fastforce
  then have "(\<lambda>(_, d, _). (sx_agentId (sd_target d), sx_host (sd_target d))) ` set (fr_tickets (issue token d now st)) \<subseteq>
      insert (sx_agentId (sd_target d), sx_host (sd_target d)) ((\<lambda>(_, d, _). (sx_agentId (sd_target d), sx_host (sd_target d))) ` set (fr_tickets st))"
    by force
  then have "dests (issue token d now st) \<subseteq> dests st \<union> {(sx_agentId (sd_target d), sx_host (sd_target d))}"
    unfolding dests_def dialled_def by simp blast
  then show ?thesis by (rule addsI) simp_all
qed

lemma adds_save_login: "adds_none st (snd (save_login x kind inp v user st))"
proof -
  have "adds_none s (update_targets P (\<lambda>r. r\<lparr>ft_secretRef := k\<rparr>) s)" for s P k by (rule adds_update_targets) simp
  then have "adds_none st (update_targets P (\<lambda>r. r\<lparr>ft_secretRef := k\<rparr>) (st\<lparr>fr_vault := w\<rparr>))" for P k w
    using none_trans [OF adds_prims(8)] by blast
  then show ?thesis
    by (simp add: save_login_def saveNamedCredential_def saveTargetCredential_def Let_def adds_after split: option.split)
qed

lemma adds_mint: "adds {(sx_agentId x, sx_host x)} st (mint x inp user token now st)"
proof -
  have ssh: "adds_none st (snd (resolveSshCreds x inp user st))" and vnc: "adds_none st (snd (vnc_creds x inp user st))"
    using adds_save_login [of st x "''ssh''" inp _ user] adds_save_login [of st x "''vnc''" inp _ user]
    by (simp_all add: resolveSshCreds_def vnc_creds_def Let_def case_prod_beta split: option.split sum.split)
  have iss: "adds {(sx_agentId x, sx_host x)} st (issue token (session_of x user l) now s)" if "adds_none st s" for s l
    using adds_trans [OF that adds_issue [of "session_of x user l" s token now]] by (simp add: session_of_def)
  show ?thesis
    using iss [OF ssh] iss [OF vnc] adds_mono [OF ssh] adds_mono [OF vnc]
    by (simp add: mint_def issueSshSession_def issueVncSession_def case_prod_beta split: sum.split)
qed

lemma adds_spawn_mint: "adds {(sx_agentId x, sx_host x)} st (spawn (Mint x inp user token) st)"
proof -
  have "held_dests (ks @ [Mint x inp user token]) \<subseteq> held_dests ks \<union> {(sx_agentId x, sx_host x)}" for ks by (fastforce simp: held_dests_def)
  then have "dests (spawn (Mint x inp user token) st) \<subseteq> dests st \<union> {(sx_agentId x, sx_host x)}"
    unfolding dests_def dialled_def spawn_def by simp blast
  then show ?thesis by (rule addsI) (simp_all add: spawn_def)
qed

lemma adds_open:
  assumes "conn_ok st" and "map_get (fr_live st) i = Some c"
  shows "adds {(i, h)} st (on_mux (lc_sock c) (openStream h p) st)"
proof -
  have told: "dials (at_index (lc_sock c) (openStream h p) M ! k) \<subseteq> (if k = lc_sock c then insert h (dials (M ! k)) else dials (M ! k))" for M k
    using dials_open [of h p "M ! k"] by (auto simp: at_index_def)
  have only: "map_get (fr_live st) j = Some d \<Longrightarrow> lc_sock d = lc_sock c \<Longrightarrow> j = i" for j d
    using tablesD(4) [OF assms(1) [unfolded conn_ok_def] _ assms(2)] by blast
  have "dialled (on_mux (lc_sock c) (openStream h p) st) \<subseteq> dialled st \<union> {(i, h)}"
  proof
    fix z
    assume "z \<in> dialled (on_mux (lc_sock c) (openStream h p) st)"
    then obtain j g d where z: "z = (j, g)" and d: "map_get (fr_live st) j = Some d"
      and g: "g \<in> dials (at_index (lc_sock c) (openStream h p) (fr_muxes st) ! lc_sock d)" by (auto simp: dialled_def on_mux_def)
    from g have "g \<in> (if lc_sock d = lc_sock c then insert h (dials (fr_muxes st ! lc_sock d)) else dials (fr_muxes st ! lc_sock d))"
      using told by blast
    with only [OF d] d show "z \<in> dialled st \<union> {(i, h)}" by (auto simp: z dialled_def split: if_splits)
  qed
  then have "dests (on_mux (lc_sock c) (openStream h p) st) \<subseteq> dests st \<union> {(i, h)}" by (intro dests_dialled) simp_all
  then show ?thesis by (rule addsI) simp_all
qed

lemma adds_register:
  assumes "conn_ok st"
  shows "adds_none (st\<lparr>fr_tasks := t1 @ Attach i # t2\<rparr>) (register i now (st\<lparr>fr_tasks := t1 @ t2\<rparr>))"
proof -
  let ?s = "st\<lparr>fr_tasks := t1 @ Attach i # t2\<rparr>" and ?r = "register i now (st\<lparr>fr_tasks := t1 @ t2\<rparr>)"
  have same: "fr_targets ?r = fr_targets st" "fr_tasks ?r = t1 @ t2" "fr_tickets ?r = fr_tickets st"
    by (simp_all add: register_def Let_def arm_def close_sock_def on_mux_def disarm_timer_def split: option.split)
  have other: "dials (fr_muxes ?r ! lc_sock c) \<subseteq> dials (fr_muxes st ! lc_sock c)" "map_get (fr_live st) j = Some c"
    if "map_get (fr_live ?r) j = Some c" "j \<noteq> i" for j c
  proof -
    show l: "map_get (fr_live st) j = Some c"
      using that by (simp add: register_def Let_def arm_def close_sock_def on_mux_def disarm_timer_def store_simps split: option.splits)
    from tablesD(1) [OF assms [unfolded conn_ok_def] l] have "lc_sock c < length (fr_muxes st)" .
    then show "dials (fr_muxes ?r ! lc_sock c) \<subseteq> dials (fr_muxes st ! lc_sock c)"
      by (auto simp: register_def Let_def arm_def close_sock_def on_mux_def disarm_timer_def nth_append dials_at_index dials_ops split: option.split)
  qed
  have own: "dials (fr_muxes ?r ! lc_sock c) = {}" if "map_get (fr_live ?r) i = Some c" for c
    using that by (auto simp: register_def Let_def arm_def close_sock_def on_mux_def disarm_timer_def store_simps nth_append dials_def new_mux_def
        split: option.splits)
  have "dialled ?r \<subseteq> dialled ?s \<union> {}"
  proof (clarsimp simp: dialled_def)
    fix j h c
    assume c: "map_get (fr_live ?r) j = Some c" "h \<in> dials (fr_muxes ?r ! lc_sock c)"
    then have "j \<noteq> i" using own by auto
    with other [OF c(1)] c(2) show "\<exists>c. map_get (fr_live st) j = Some c \<and> h \<in> dials (fr_muxes st ! lc_sock c)" by blast
  qed
  then have d: "dests ?r \<subseteq> dests ?s \<union> {}" by (intro dests_dialled) (auto simp: same)
  have "map_get (fr_live ?r) j \<noteq> None \<Longrightarrow> j = i \<or> map_get (fr_live st) j \<noteq> None" for j using other(2) [of j] by (cases "map_get (fr_live ?r) j") auto
  then have "map_get (fr_live ?r) j \<noteq> None \<Longrightarrow> map_get (fr_live ?s) j \<noteq> None \<or> Attach j \<in> set (fr_tasks ?s)" for j by auto
  with d show ?thesis by (intro addsI) (auto simp: same)
qed

lemma adds_operators:
  "adds_none st (snd (revokeAgent j user st))" "adds_none st (snd (deleteAgent env j user now st))"
  "adds_none st (snd (retryUninstall env j user st))" "adds_none st (snd (forceRemoveAgent j user st))"
  "adds_none st (purgeUninstalledAgent j st)" "adds_none st (snd (deleteRoute j t user st))"
  "adds_none st (snd (clearTargetCredential j t user st))" "adds_none st (snd (clearHostKey j t user st))"
  "adds_none st (snd (updateAgent j ed user st))"
proof -
  have un: "adds_none st s \<Longrightarrow> adds_none st (snd (requestUninstall env j s))" and pu: "adds_none st s \<Longrightarrow> adds_none st (pushAllow j s)" for s
    by (erule none_trans, simp)+
  show "adds_none st (snd (revokeAgent j user st))" "adds_none st (snd (deleteAgent env j user now st))"
    "adds_none st (snd (retryUninstall env j user st))" "adds_none st (snd (forceRemoveAgent j user st))"
    "adds_none st (purgeUninstalledAgent j st)" "adds_none st (snd (updateAgent j ed user st))"
    by (simp_all add: revokeAgent_def deleteAgent_def retryUninstall_def forceRemoveAgent_def purgeUninstalledAgent_def updateAgent_def
        Let_def case_prod_beta un pu adds_after split: option.split)
  have fl: "adds_none st (st\<lparr>fr_targets := filter Q (fr_targets st)\<rparr>)" for Q by (rule adds_fewer) auto
  have sec: "adds_none s (update_targets P (\<lambda>r. r\<lparr>ft_secretRef := k\<rparr>) s)" and key: "adds_none s (update_targets P (\<lambda>r. r\<lparr>ft_hostKey := k\<rparr>) s)"
    for s P k by (rule adds_update_targets, simp)+
  have "adds_none st (update_targets P (\<lambda>r. r\<lparr>ft_secretRef := k\<rparr>) (st\<lparr>fr_vault := v\<rparr>))" for P k v
    using none_trans [OF adds_prims(8) sec] .
  then show "adds_none st (snd (deleteRoute j t user st))" "adds_none st (snd (clearTargetCredential j t user st))"
    "adds_none st (snd (clearHostKey j t user st))"
    by (simp_all add: deleteRoute_def clearTargetCredential_def clearHostKey_def Let_def adds_after pu fl key split: option.split)
qed

text \<open>What an operation adds is for a waypoint, at home, or known.\<close>

definition fits :: "registry \<Rightarrow> registry \<Rightarrow> bool" where
  "fits st st' \<longleftrightarrow> (\<exists>D. adds D st st' \<and> (\<forall>(i, h) \<in> D. i < fr_nextAgent st \<and> (endpoint st i \<longrightarrow> h = LOOPBACK)))"

lemma fits_home: "modes_keep st st' \<Longrightarrow> fits st st' \<Longrightarrow> at_home st \<Longrightarrow> at_home st'"
  unfolding fits_def using adds_home by blast

lemma fits_none: "adds_none st st' \<Longrightarrow> fits st st'"
  unfolding fits_def by blast

lemma fits_refl [simp]: "fits st st"
  by (simp add: fits_none)

lemma fits_adds: "adds D st s \<Longrightarrow> adds_none s st' \<Longrightarrow> (\<And>i h. (i, h) \<in> D \<Longrightarrow> i < fr_nextAgent st \<and> (endpoint st i \<longrightarrow> h = LOOPBACK)) \<Longrightarrow> fits st st'"
  unfolding fits_def by (intro exI [of _ D]) (auto intro: adds_trans)

lemma fits_routes:
  assumes "db_ok st"
  shows "fits st (snd (createRoute env i ri user st))" "fits st (snd (updateRoute env i t ri user st))"
proof -
  have way: "i < fr_nextAgent st \<and> \<not> endpoint st i" if w: "requireWaypoint i st = None"
  proof -
    obtain a where "find_agent st i = Some a" "fa_mode a = Waypoint" using w by (auto simp: requireWaypoint_def split: option.splits if_splits)
    with waypoint_not_endpoint [OF assms this] find_agentD [of st i a] assms show ?thesis by (auto simp: db_ok_def)
  qed
  have new: "fits st (pushAllow i (note_audit u c x (add_target (r\<lparr>ft_agentId := i\<rparr>) st)))" if "requireWaypoint i st = None" for u c x r
  proof (rule fits_adds)
    let ?N = "{r\<lparr>ft_agentId := i, ft_id := fr_nextTarget st\<rparr>}"
    show "adds ((\<lambda>t. (ft_agentId t, ft_host t)) ` ?N) st (add_target (r\<lparr>ft_agentId := i\<rparr>) st)"
      by (rule adds_targets) (simp_all add: add_target_def)
    show "adds_none (add_target (r\<lparr>ft_agentId := i\<rparr>) st) (pushAllow i (note_audit u c x (add_target (r\<lparr>ft_agentId := i\<rparr>) st)))"
      by (rule none_trans [OF adds_prims(1) adds_push])
  qed (use way [OF that] in auto)
  have edit: "fits st (pushAllow i (note_audit u c x (update_targets (\<lambda>y. ft_id y = t \<and> ft_agentId y = i) (route_columns r) st)))"
    if "requireWaypoint i st = None" for u c x r
  proof (rule fits_adds)
    let ?N = "set (filter (\<lambda>y. ft_agentId y = i) (rows_update (\<lambda>y. ft_id y = t \<and> ft_agentId y = i) (route_columns r) (fr_targets st)))"
    show "adds ((\<lambda>t. (ft_agentId t, ft_host t)) ` ?N) st (update_targets (\<lambda>y. ft_id y = t \<and> ft_agentId y = i) (route_columns r) st)"
    proof (rule adds_targets)
      show "set (fr_targets (update_targets (\<lambda>y. ft_id y = t \<and> ft_agentId y = i) (route_columns r) st)) \<subseteq> set (fr_targets st) \<union> ?N"
      proof
        fix z
        assume z: "z \<in> set (fr_targets (update_targets (\<lambda>y. ft_id y = t \<and> ft_agentId y = i) (route_columns r) st))"
        then obtain y where y: "y \<in> set (fr_targets st)" "z = (if ft_id y = t \<and> ft_agentId y = i then route_columns r y else y)"
          by (auto simp: update_targets_def in_rows_update)
        have "ft_agentId (route_columns r y) = ft_agentId y" by (simp add: route_columns_def)
        with y z show "z \<in> set (fr_targets st) \<union> ?N" by (auto simp: update_targets_def)
      qed
    qed simp_all
    show "adds_none (update_targets (\<lambda>y. ft_id y = t \<and> ft_agentId y = i) (route_columns r) st)
        (pushAllow i (note_audit u c x (update_targets (\<lambda>y. ft_id y = t \<and> ft_agentId y = i) (route_columns r) st)))"
      by (rule none_trans [OF adds_prims(1) adds_push])
  qed (use way [OF that] in auto)
  show "fits st (snd (createRoute env i ri user st))"
    using new by (simp add: createRoute_def split: option.split sum.split)
  show "fits st (snd (updateRoute env i t ri user st))"
    using edit by (simp add: updateRoute_def split: option.split sum.split)
qed

text \<open>A frame of an agent that is gone.\<close>

lemma adds_sync_gone: "find_agent st i = None \<Longrightarrow> adds_none st (syncTargets i ts st)"
proof -
  assume gone: "find_agent st i = None"
  have up: "adds_none s (s\<lparr>fr_targets := rows_update Q (\<lambda>t. case l of None \<Rightarrow> t | Some x \<Rightarrow> t\<lparr>ft_label := Some x\<rparr>) (fr_targets s)\<rparr>)" for Q l s
    using adds_update_targets [of Q "\<lambda>t. case l of None \<Rightarrow> t | Some x \<Rightarrow> t\<lparr>ft_label := Some x\<rparr>" s]
    by (simp add: update_targets_def split: option.split)
  have one: "adds_none s (sync_one i b d s)" "find_agent (sync_one i b d s) i = None" if "find_agent s i = None" for b d s
    using that up by (simp_all add: sync_one_def find_agent_def split: option.split)
  have "find_agent s i = None \<Longrightarrow> adds_none s (fold (sync_one i b) ts s)" for b s
  proof (induction ts arbitrary: s)
    case (Cons d ds)
    from none_trans [OF one(1) [OF Cons.prems] Cons.IH [OF one(2) [OF Cons.prems]]] show ?case by simp
  qed simp
  with gone show ?thesis by (simp add: syncTargets_def Let_def)
qed

lemma fits_lost: "find_agent st i = None \<Longrightarrow> map_get (fr_live st) i = None \<Longrightarrow> fits st (handleFrame i f now st)"
  by (auto simp: handleFrame_def onHello_def onHeartbeat_def purgeUninstalledAgent_def adds_sync_gone
      intro!: fits_none adds_after split: agent_frame.split)

lemma fits_frame: "fits st (handleFrame i f now st)" if low: "i < fr_nextAgent st"
proof -
  have sync: "fits st (syncTargets i ts st)" for ts
    by (rule fits_adds [OF adds_sync adds_refl]) (use low in \<open>auto simp: home_def\<close>)
  have mux: "adds_none st (on_mux s (handleControl c) st)" for s c by (rule adds_mux) (rule dials_ops)
  have hello: "adds_none st (onHello i h now st)" for h
  proof (cases "map_get (fr_live st) i")
    case (Some c)
    have "adds_none st (st\<lparr>fr_live := map_set (fr_live st) i (c\<lparr>lc_lastBeat := now\<rparr>)\<rparr>)"
      by (rule adds_fewer) (auto simp: store_simps Some split: if_splits)
    from none_trans [OF this adds_spawn] Some show ?thesis by (simp add: onHello_def)
  qed (simp add: onHello_def)
  have beat: "adds_none st (onHeartbeat i now st)"
  proof (cases "map_get (fr_live st) i")
    case (Some c)
    have "adds_none st ((snd (arm k (disarm_timer n st)))\<lparr>fr_live := map_set (fr_live st) i (c\<lparr>lc_lastBeat := now, lc_timer := m\<rparr>)\<rparr>)" for k n m
      by (rule adds_fewer) (auto simp: store_simps Some split: if_splits)
    with Some show ?thesis by (simp add: onHeartbeat_def case_prod_beta adds_after disarm_timer_def)
  qed (simp add: onHeartbeat_def)
  show ?thesis
    by (auto simp: handleFrame_def sync hello beat mux fits_none adds_operators adds_after split: agent_frame.split option.split)
qed

lemma fits_task:
  assumes c: "conn_ok st" and db: "db_ok st" and n: "n < length (fr_tasks st)" and at: "at_home st"
  shows "fits st (run_task env n now st)"
proof -
  define k where "k = fr_tasks st ! n"
  define s where "s = st\<lparr>fr_tasks := take n (fr_tasks st) @ drop (Suc n) (fr_tasks st)\<rparr>"
  have st: "st = st\<lparr>fr_tasks := take n (fr_tasks st) @ k # drop (Suc n) (fr_tasks st)\<rparr>" using n by (simp add: k_def Cons_nth_drop_Suc)
  have less: "adds D st s" for D by (rule adds_fewer) (auto simp: s_def dest: in_set_takeD in_set_dropD)
  have run: "run_task env n now st = task_turn env k now s" using n by (simp add: run_task_def k_def s_def)
  have id: "i < fr_nextAgent st \<and> (endpoint st i \<longrightarrow> h = LOOPBACK)" if "(i, h) \<in> dests st" for i h
    using at that known_dest [of i h st] by (auto simp: at_home_def)
  have plain: "adds_none s s' \<Longrightarrow> fits st s'" for s' using none_trans [OF less] fits_none by blast
  have aft: "adds_none s s' \<Longrightarrow> adds_none s (note_audit u c t s')" "adds_none s s' \<Longrightarrow> adds_none s (s'\<lparr>fr_alerts := al\<rparr>)" for s' u c t al
    by (erule none_trans, simp)+
  show ?thesis
  proof (cases k)
    case (Attach i)
    with st have "adds_none st (register i now s)"
      using adds_register [OF c, of "take n (fr_tasks st)" i "drop (Suc n) (fr_tasks st)" now] by (simp add: s_def)
    with Attach run show ?thesis by (simp add: task_turn_def fits_none)
  next
    case (Hello_read i so h)
    have "adds_none s (hello_read env i so h s)"
      by (simp add: hello_read_def adds_spawn none_trans [OF adds_uninstall adds_prims(1)] split: option.split)
    with Hello_read run plain show ?thesis by (simp add: task_turn_def)
  next
    case (Hello_write i h a)
    show ?thesis
    proof (cases "find_agent s i")
      case None
      with Hello_write run plain show ?thesis by (simp add: task_turn_def hello_write_def)
    next
      case (Some b)
      then have i: "i < fr_nextAgent st" using db by (auto simp: s_def db_ok_def dest!: find_agentD)
      have all: "adds (home i) s (syncTargets i (hl_targets h) (update_agent i f s))" for f
        using adds_trans [OF adds_prims(2) [of "{}" s i f] adds_sync, of i "home i" "hl_targets h"] by simp
      have then1: "adds (home i) s s' \<Longrightarrow> adds (home i) s (note_audit u c t s')" "adds (home i) s s' \<Longrightarrow> adds (home i) s (send_frame j fr s')"
        "adds (home i) s s' \<Longrightarrow> adds (home i) s (s'\<lparr>fr_alerts := al\<rparr>)" for s' u c t j fr al
        by (erule adds_trans [OF _ adds_prims(1) [of "{}"]], simp) (erule adds_trans [OF _ adds_prims(6) [of "{}"]], simp,
            erule adds_trans [OF _ adds_prims(10) [of "{}"]], simp)
      have "adds (home i) s (hello_write i h a now s)" by (simp add: hello_write_def Let_def all then1)
      from adds_trans [OF less [of "{}"] this, of "home i"] have "adds (home i) st (hello_write i h a now s)" by simp
      with i have "fits st (hello_write i h a now s)" unfolding fits_def by (intro exI [of _ "home i"]) (auto simp: home_def)
      with Hello_write run show ?thesis by (simp add: task_turn_def)
    qed
  next
    case (Mint x inp user token)
    have "(sx_agentId x, sx_host x) \<in> dests st"
      using n Mint by (auto simp: dests_def held_dests_def k_def) (metis nth_mem)
    from id [OF this] have "fits st (mint x inp user token now s)"
      using adds_trans [OF less [of "{}"] adds_mint] by (auto simp: fits_def intro!: exI [of _ "{(sx_agentId x, sx_host x)}"])
    with Mint run show ?thesis by (simp add: task_turn_def)
  next
    case (Pin_key sv u i pl fp)
    have "adds_none s (update_targets P (\<lambda>r. r\<lparr>ft_hostKey := q\<rparr>) s)" "adds_none s (s\<lparr>fr_pins := m\<rparr>)" for P q m
      by (rule adds_update_targets, simp) (rule adds_same, simp_all)
    then have "adds_none s (pin_key sv u i pl fp s)"
      by (auto simp: pin_key_def aft intro: none_trans [OF _ adds_prims(7)] split: key_place.split)
    with Pin_key run plain show ?thesis by (simp add: task_turn_def)
  next
    case (Enroll_write a p t)
    have "adds_none s (enroll_write env p t a s)"
      by (rule adds_same) (simp_all add: enroll_write_def generateCredential_def Let_def)
    with Enroll_write run plain show ?thesis by (simp add: task_turn_def)
  qed (use run plain in \<open>simp_all add: task_turn_def reconcile_one_def finalize_read_def finalize_write_def Let_def aft adds_spawn adds_prims split: option.split\<close>)
qed

lemma fits_step:
  assumes c: "conn_ok st" and db: "db_ok st" and at: "at_home st"
  shows "fits st (agents_step env st e)"
proof (cases e)
  case (Connect cred)
  show ?thesis
  proof (cases "authenticateOutcome env cred st")
    case (Auth_ok i)
    then have i: "i < fr_nextAgent st"
      using db by (auto simp: authenticateOutcome_def db_ok_def split: option.splits if_splits dest!: find_SomeD)
    have "adds {(i, LOOPBACK)} st (spawn (Attach i) st)"
    proof -
      have "held_dests (ks @ [Attach i]) = held_dests ks" for ks by (auto simp: held_dests_def)
      then have "dests (spawn (Attach i) st) = dests st" by (simp add: dests_def dialled_def spawn_def)
      then show ?thesis unfolding adds_def known_def by (auto simp: spawn_def)
    qed
    with i Auth_ok Connect show ?thesis by (auto simp: connect_agent_def fits_def intro!: exI [of _ "{(i, LOOPBACK)}"])
  qed (simp_all add: Connect connect_agent_def)
next
  case (Turn n now)
  then show ?thesis using fits_task [OF c db _ at] by (cases "n < length (fr_tasks st)") (simp_all add: run_task_def)
next
  case (Frame i f now)
  show ?thesis
  proof (cases "i < fr_nextAgent st")
    case True
    with Frame fits_frame show ?thesis by simp
  next
    case False
    then have "find_agent st i = None" using db by (cases "find_agent st i") (auto simp: db_ok_def dest!: find_agentD)
    moreover have "map_get (fr_live st) i = None" using at False by (cases "map_get (fr_live st) i") (auto simp: at_home_def known_def)
    ultimately show ?thesis using Frame fits_lost [of st i f now] by simp
  qed
next
  case (Open_session i kind w inp user token now)
  show ?thesis
  proof (cases "session_place i kind w st")
    case (Inr x)
    note p = place_ok [OF db at Inr]
    have "adds {(sx_agentId x, sx_host x)} st (gate_session x inp user token now st)"
      using adds_mint adds_spawn_mint by (simp add: gate_session_def)
    with p Inr Open_session show ?thesis by (auto simp: openSession_def fits_def intro!: exI [of _ "{(sx_agentId x, sx_host x)}"])
  qed (simp add: Open_session openSession_def)
next
  case (Redeem token now)
  show ?thesis
  proof (cases "fst (consume token now st)")
    case None
    have "adds_none st (snd (consume token now st))" by (rule adds_fewer) (auto simp: consume_def dest: set_map_del [THEN subsetD])
    with None Redeem show ?thesis by (simp add: redeem_def case_prod_beta fits_none)
  next
    case (Some d)
    define i h p where "i = sx_agentId (sd_target d)" and "h = sx_host (sd_target d)" and "p = sx_port (sd_target d)"
    define s where "s = snd (consume token now st)"
    from Some obtain t where "(token, d, t) \<in> set (fr_tickets st)"
      by (auto simp: consume_def split: option.splits if_splits dest!: map_get_in_set)
    then have dest: "(i, h) \<in> dests st" unfolding dests_def i_def h_def by force
    have cs: "conn_ok s" and less: "adds_none st s" using c by (auto simp: s_def consume_def conn_ok_def intro!: adds_fewer dest: set_map_del [THEN subsetD])
    have r: "redeem token now st = snd (open_agent_stream i h p s)" using Some by (simp add: redeem_def case_prod_beta s_def i_def h_def p_def)
    have "adds {(i, h)} st (snd (open_agent_stream i h p s))"
    proof (cases "map_get (fr_live s) i")
      case (Some c)
      with adds_trans [OF less adds_open [OF cs Some]] show ?thesis by (simp add: open_agent_stream_def)
    qed (use adds_mono [OF less] in \<open>simp add: open_agent_stream_def\<close>)
    with dest at known_dest [OF dest] r Redeem show ?thesis by (auto simp: fits_def at_home_def intro!: exI [of _ "{(i, h)}"])
  qed
next
  case (Host_key rd sv user i pl fp)
  have "adds_none st (spawn (Pin_key sv user i pl fp) st)" by (rule adds_spawn) simp_all
  with Host_key show ?thesis by (auto simp: checkHostKey_def intro!: fits_none split: option.split key_place.split)
next
  case (Sweep now)
  have "held_dests (ks @ map (\<lambda>a. Reconcile (f a) (g a) (h a)) xs) = held_dests ks" for ks f g h and xs :: "fabric_agent list"
    by (auto simp: held_dests_def)
  then have "dests (reconcileOffline env now st) = dests st" by (simp add: dests_def dialled_def reconcileOffline_def)
  then have "adds_none st (reconcileOffline env now st)" by (auto simp: adds_def known_def reconcileOffline_def)
  with Sweep show ?thesis by (simp add: fits_none)
next
  case (Create s inp user now)
  have "adds_none st (snd (createAgent env s inp user now st))"
    by (rule adds_same) (simp_all add: createAgent_def generateEnrollToken_def)
  with Create show ?thesis by (simp add: fits_none)
qed (auto simp: enroll_def handleClose_def handle_data_def adds_operators adds_fire fits_routes db dials_ops
    intro!: fits_none adds_spawn adds_mux split: sum.split option.split)

lemma home_step:
  assumes "conn_ok st" and "db_ok st" and "at_home st"
  shows "at_home (agents_step env st e)"
proof (rule fits_home [OF _ fits_step [OF assms] assms(3)])
  show "modes_keep st (agents_step env st e)"
  proof (cases "(\<exists>s inp user now. e = Create s inp user now) \<or> (\<exists>n now. e = Turn n now \<and> n < length (fr_tasks st) \<and> enrolls (fr_tasks st ! n))")
    case True
    have up: "endpoint (update_agent j f s) i \<Longrightarrow> endpoint s i" if "\<And>r. fa_id (f r) = fa_id r \<and> fa_mode (f r) = fa_mode r" for j f s i
      using that by (fastforce simp: endpoint_def update_agent_def in_rows_update)
    have "endpoint (enroll_write env p t a s) i \<Longrightarrow> endpoint s i" for p t a s i
      using up [of "\<lambda>r. r\<lparr>fa_enrollHash := None, fa_enrollExpires := None, fa_credPrefix := Some p, fa_credHash := Some (fe_sha env t)\<rparr>" "fa_id a" s i]
      by (auto simp: enroll_write_def generateCredential_def Let_def endpoint_def split: if_splits)
    moreover have "fr_nextAgent (enroll_write env p t a s) = fr_nextAgent s" for p t a s
      by (simp add: enroll_write_def generateCredential_def Let_def)
    ultimately have en: "endpoint (enroll_write env p t a s) i \<Longrightarrow> endpoint s i" "fr_nextAgent (enroll_write env p t a s) = fr_nextAgent s" for p t a s i
      by blast+
    from True show ?thesis
    proof
      assume "\<exists>s inp user now. e = Create s inp user now"
      moreover have "endpoint (note_audit u c t (st\<lparr>fr_agents := fr_agents st @ [new_agent (fr_nextAgent st) h inp now], fr_nextAgent := n\<rparr>)) i
          \<Longrightarrow> i < fr_nextAgent st \<Longrightarrow> endpoint st i" for u c t h inp now n i by (auto simp: endpoint_def)
      ultimately show ?thesis by (auto simp: modes_keep_def createAgent_def generateEnrollToken_def split: if_splits)
    next
      assume "\<exists>n now. e = Turn n now \<and> n < length (fr_tasks st) \<and> enrolls (fr_tasks st ! n)"
      then obtain n now where e: "e = Turn n now" and n: "n < length (fr_tasks st)" and k: "enrolls (fr_tasks st ! n)" by blast
      obtain a p s where "fr_tasks st ! n = Enroll_write a p s" using k by (cases "fr_tasks st ! n") (simp_all add: enrolls_def)
      with e n have "agents_step env st e = enroll_write env p s a (take_task n st)" by (simp add: run_take task_turn_def)
      moreover have "endpoint (take_task n st) i = endpoint st i" "fr_nextAgent (take_task n st) = fr_nextAgent st" for i
        by (simp_all add: endpoint_def take_task_def)
      ultimately show ?thesis using en [of p s a "take_task n st"] by (simp add: modes_keep_def)
    qed
  next
    case False
    with shrink_modes rows_step show ?thesis by blast
  qed
qed

definition agents_ok :: "registry \<Rightarrow> bool" where
  "agents_ok st \<longleftrightarrow> conn_ok st \<and> db_ok st \<and> at_home st"

interpretation agents: event_machine "agents_step env" agents_ok for env
  by unfold_locales (simp add: agents_ok_def agents_step_ok db_step home_step)

lemma no_agents_all: "agents_ok no_agents"
  by (simp add: agents_ok_def no_agents_ok no_agents_db at_home_def dests_def known_def dialled_def held_dests_def) (simp add: no_agents_def)

section \<open>Stored ranges\<close>

definition egress_ok :: "registry \<Rightarrow> bool" where
  "egress_ok st \<longleftrightarrow> (\<forall>a \<in> set (fr_agents st). list_all range_ok (fa_egressCidrs a))"

lemma egress_step: "egress_ok st \<Longrightarrow> egress_ok (agents_step env st e)"
proof (cases "(\<exists>s inp user now. e = Create s inp user now) \<or> (\<exists>n now. e = Turn n now \<and> n < length (fr_tasks st) \<and> enrolls (fr_tasks st ! n))")
  case True
  assume ok: "egress_ok st"
  have up: "egress_ok s \<Longrightarrow> egress_ok (update_agent j f s)" if "\<And>r. fa_egressCidrs (f r) = fa_egressCidrs r" for j f s
    using that by (auto simp: egress_ok_def update_agent_def in_rows_update)
  have "fa_egressCidrs (new_agent i h inp now) = []" for i h inp now by (simp add: new_agent_def Let_def)
  then have "egress_ok (snd (createAgent env s inp user now st))" for s inp user now
    using ok by (auto simp: createAgent_def generateEnrollToken_def egress_ok_def)
  moreover have "egress_ok (enroll_write env p t a (take_task n st))" for p t a n
    using ok up [of "\<lambda>r. r\<lparr>fa_enrollHash := None, fa_enrollExpires := None, fa_credPrefix := Some p, fa_credHash := Some (fe_sha env t)\<rparr>"
      "take_task n st" "fa_id a"]
    by (simp add: enroll_write_def generateCredential_def Let_def) (simp add: egress_ok_def take_task_def)
  moreover have "enrolls k \<Longrightarrow> \<exists>a p s. k = Enroll_write a p s" for k by (cases k) (auto simp: enrolls_def)
  ultimately show ?thesis using True by (fastforce simp: run_take task_turn_def)
next
  case False
  assume "egress_ok st"
  moreover have "shrunk (fr_agents st) (fr_agents (agents_step env st e))" using rows_step False unfolding rows_shrink_def by blast
  ultimately show ?thesis unfolding egress_ok_def by (fastforce simp: same_keys_def dest: shrunk_row)
qed

interpretation ranges: event_machine "agents_step env" egress_ok for env
  by unfold_locales (rule egress_step)

section \<open>Pinned host keys\<close>






section \<open>A fresh credential\<close>

lemma parse_generated:
  assumes "p \<noteq> []" and "CHR ''_'' \<notin> set p" and "s \<noteq> []"
  shows "parseCredential (fst (generateCredential sha p s)) = Some (p, s)"
  using assms by (simp add: generateCredential_def parseCredential_def starts_with_def index_of_append)

lemma issued_row:
  assumes db: "db_ok st" and a: "a \<in> set (fr_agents st)" and st': "st' = enroll_write env p s a st"
    and fresh: "\<forall>x \<in> set (fr_agents st). fa_credPrefix x \<noteq> Some p"
  obtains f where "fr_agents st' = rows_update (\<lambda>r. fa_id r = fa_id a) f (fr_agents st)"
    and "f = (\<lambda>r. r\<lparr>fa_enrollHash := None, fa_enrollExpires := None, fa_credPrefix := Some p, fa_credHash := Some (fe_sha env s)\<rparr>)"
    and "fr_issued st' = fr_issued st @ [(fa_id a, fst (generateCredential (fe_sha env) p s))]"
    and "\<And>r. r \<in> set (fr_agents st) \<Longrightarrow> fa_id r = fa_id a \<Longrightarrow> r = a"
proof -
  define f :: "fabric_agent \<Rightarrow> fabric_agent" where
    "f = (\<lambda>r. r\<lparr>fa_enrollHash := None, fa_enrollExpires := None, fa_credPrefix := Some p, fa_credHash := Some (fe_sha env s)\<rparr>)"
  have "find_agent st (fa_id a) \<noteq> None" using a by (auto simp: find_agent_def find_None_iff)
  then obtain r where row: "find_agent st (fa_id a) = Some r" by blast
  have free: "\<not> list_ex (\<lambda>x. fa_id x \<noteq> fa_id a \<and> fa_credPrefix x = Some p) (fr_agents st)" using fresh by (auto simp: list_ex_iff)
  show ?thesis
  proof (rule that)
    show "fr_agents st' = rows_update (\<lambda>r. fa_id r = fa_id a) f (fr_agents st)"
      using row free by (simp add: st' enroll_write_def generateCredential_def Let_def update_agent_def note_audit_def f_def)
    show "fr_issued st' = fr_issued st @ [(fa_id a, fst (generateCredential (fe_sha env) p s))]"
      using row free by (simp add: st' enroll_write_def generateCredential_def Let_def)
    show "r = a" if "r \<in> set (fr_agents st)" "fa_id r = fa_id a" for r
      using db a that unfolding db_ok_def by (metis distinct_map inj_onD)
  qed (rule f_def)
qed

section \<open>A run\<close>

definition demo_sha :: "string \<Rightarrow> string" where
  "demo_sha s = (if s = ''e1'' then ''aa'' else if s = ''s1'' then ''bb'' else ''cc'')"

definition demo_fabric :: fabric_env where
  "demo_fabric = \<lparr>fe_sha = demo_sha, fe_sign = (\<lambda>_. None), fe_url = (\<lambda>_. None), fe_heartbeatMs = 30000, fe_missedBeats = 2,
     fe_offlineGraceMs = 120000\<rparr>"

definition demo_hello :: hello where
  "demo_hello = \<lparr>hl_agentVersion = None, hl_os = None, hl_osVersion = None, hl_hostname = Some ''h'', hl_localIp = None,
     hl_targets = [\<lparr>dt_kind = ''ssh'', dt_port = JNum 22, dt_label = None\<rparr>]\<rparr>"

definition demo_input :: "string \<Rightarrow> agent_input" where
  "demo_input mode = \<lparr>ai_name = ''box'', ai_os = None, ai_tags = [], ai_mode = Some mode\<rparr>"

definition demo_typed :: connect_input where
  "demo_typed = \<lparr>ci_secretRef = [], ci_useSaved = False, ci_login = \<lparr>ls_username = ''root'', ls_password = ''x'', ls_privateKey = [],
     ls_passphrase = []\<rparr>, ci_save = False, ci_saveAs = []\<rparr>"

text \<open>An agent is created, enrolls, connects and says hello; with its mode and its credential.\<close>

definition demo_created :: "string \<Rightarrow> fabric_event list" where
  "demo_created mode = [Create ''e1'' (demo_input mode) (operator ''ann'') 0]"

definition demo_online :: "string \<Rightarrow> fabric_event list" where
  "demo_online mode = demo_created mode @ [Enroll ''cbroenroll_e1'' ''p1'' ''s1'' 10, Turn 0 10, Connect ''cbroagent_p1_s1'', Turn 0 20,
     Frame 0 (Hello demo_hello) 30, Turn 0 30, Turn 0 30]"

definition demo_session :: "fabric_event list" where
  "demo_session = demo_online ''endpoint'' @
     [Open_session 0 ''ssh'' (Stored 0) demo_typed (operator ''ann'') ''tk'' 40, Redeem ''tk'' 50]"

section \<open>Properties\<close>

text \<open>
  C5: Whatever happens, in whatever order, every live agent has its own socket and exactly one heartbeat timer and is not in its
  reconnect grace; every agent in its grace has exactly one grace timer; no other heartbeat or grace timer is armed; and a socket
  that is not live has no open or pending stream left, and cannot get one.
\<close>

theorem connections_accounted: "conn_ok (agents_run env no_agents es)"
  by (rule connections.inv_run) (rule no_agents_ok)




text \<open>
  The box of a revoked agent is told 401, as any stranger, and not 410: its credential is refused as unknown, because
  the revocation clears the prefix the lookup goes by. (The documented answer for a revoked agent is \<^verbatim>\<open>gone\<close>, on
  which the box would remove itself; a plain revocation never gives it.)
\<close>

theorem revoked_agent_is_told_401:
  assumes "st = agents_run env no_agents es" and "find_agent st i = Some a" and "fa_credPrefix a = Some p"
    and "parseCredential credential = Some (p, s)"
  shows "authenticateOutcome env credential (snd (revokeAgent i user st)) = Auth_bad"
proof -
  have db: "db_ok st" using table.inv_run [OF no_agents_db] by (simp add: assms(1))
  have other: "fa_id x = i" if "x \<in> set (fr_agents st)" "fa_credPrefix x = Some p" for x
    using db that find_agentD [OF assms(2)] assms(3) unfolding db_ok_def unique_column_def by (metis option.distinct(1))
  define f :: "fabric_agent \<Rightarrow> fabric_agent" where "f = (\<lambda>r. r\<lparr>fa_status := Ag_revoked, fa_credPrefix := None, fa_credHash := None, fa_enrollHash := None, fa_enrollExpires := None\<rparr>)"
  have rows: "fr_agents (snd (revokeAgent i user st)) = rows_update (\<lambda>r. fa_id r = i) f (fr_agents st)"
    by (simp add: revokeAgent_def assms(2) update_agent_def note_audit_def disconnect_def drop_live_def f_def split: option.split)
  have "fa_credPrefix x \<noteq> Some p" if x: "x \<in> set (fr_agents (snd (revokeAgent i user st)))" for x
  proof -
    obtain r where "r \<in> set (fr_agents st)" "x = (if fa_id r = i then f r else r)" using x by (auto simp: rows in_rows_update)
    moreover have "fa_credPrefix (f r) = None" by (simp add: f_def)
    ultimately show ?thesis using other [of r] by auto
  qed
  then have "List.find (\<lambda>x. fa_credPrefix x = Some p) (fr_agents (snd (revokeAgent i user st))) = None" by (simp add: find_None_iff)
  then show ?thesis by (simp add: authenticateOutcome_def assms(4))
qed

lemma demo_prefix:
  "map_option fa_credPrefix (find_agent (agents_run demo_fabric no_agents (demo_online ''endpoint'')) 0) = Some (Some ''p1'')"
  "parseCredential ''cbroagent_p1_s1'' = Some (''p1'', ''s1'')"
  by code_simp+

lemma revoked_agent_is_told_401_witness:
  "authenticateOutcome demo_fabric ''cbroagent_p1_s1''
     (snd (revokeAgent 0 (operator ''ann'') (agents_run demo_fabric no_agents (demo_online ''endpoint'')))) = Auth_bad"
proof -
  obtain a where a: "find_agent (agents_run demo_fabric no_agents (demo_online ''endpoint'')) 0 = Some a" "fa_credPrefix a = Some ''p1''"
    using demo_prefix(1) by auto
  show ?thesis by (rule revoked_agent_is_told_401 [OF refl a demo_prefix(2)])
qed

text \<open>
  C6: Whatever agents declare, operators add or edit and sessions are held for approval, the server only ever tells an endpoint
  agent to dial its own loopback address.
\<close>

theorem endpoint_dials_loopback:
  assumes "st = agents_run env no_agents es" and "find_agent st i = Some a" and "fa_mode a = Endpoint"
    and "map_get (fr_live st) i = Some c" and "Open_stream n host port \<in> set (mx_sent (fr_muxes st ! lc_sock c))"
  shows "host = ''127.0.0.1''"
proof -
  have "at_home st" using agents.inv_run [OF no_agents_all] by (simp add: assms(1) agents_ok_def)
  moreover have "(i, host) \<in> dests st" using assms(4,5) by (auto simp: dests_def dialled_def dials_def)
  moreover have "endpoint st i" using find_agentD [OF assms(2)] assms(3) by (auto simp: endpoint_def)
  ultimately show ?thesis by (auto simp: at_home_def LOOPBACK_def)
qed

lemma demo_session_run:
  "map_option fa_mode (find_agent (agents_run demo_fabric no_agents demo_session) 0) = Some Endpoint \<and>
   map_option lc_sock (map_get (fr_live (agents_run demo_fabric no_agents demo_session)) 0) = Some 0 \<and>
   mx_sent (fr_muxes (agents_run demo_fabric no_agents demo_session) ! 0) = [Open_stream 1 ''127.0.0.1'' 22]"
  by code_simp

lemma endpoint_dials_loopback_witness:
  "Open_stream 1 ''127.0.0.1'' 22 \<in> set (mx_sent (fr_muxes (agents_run demo_fabric no_agents demo_session) ! 0)) \<and>
   Open_stream 1 ''10.0.0.1'' 22 \<notin> set (mx_sent (fr_muxes (agents_run demo_fabric no_agents demo_session) ! 0))"
proof -
  obtain a c where "find_agent (agents_run demo_fabric no_agents demo_session) 0 = Some a" "fa_mode a = Endpoint"
    "map_get (fr_live (agents_run demo_fabric no_agents demo_session)) 0 = Some c" "lc_sock c = 0"
    using demo_session_run by auto
  then have "Open_stream 1 ''10.0.0.1'' 22 \<notin> set (mx_sent (fr_muxes (agents_run demo_fabric no_agents demo_session) ! 0))"
    using endpoint_dials_loopback [OF refl, of demo_fabric demo_session 0 a c 1 "''10.0.0.1''" 22] by auto
  with demo_session_run show ?thesis by simp
qed

text \<open>
  C14: An address that was not stored as a target can be connected to through an online waypoint exactly when it is an IP address
  with a port from 1 to 65535 that agrees with an egress range of the waypoint on the bits of its mask.
\<close>

theorem adhoc_exactly_in_range:
  assumes "st = agents_run env no_agents es" and "find_agent st i = Some a" and "fa_mode a = Waypoint" and "fa_status a \<noteq> Ag_deleting"
    and "isOnline st i"
  shows "resolveAdhocTarget i kind h p st = Inr x \<longleftrightarrow>
    (\<exists>port. num_of p = Some port \<and> 0 < port \<and> port \<le> 65535 \<and>
       x = \<lparr>sx_id = None, sx_agentId = i, sx_kind = kind, sx_host = trim h, sx_port = port, sx_secretRef = None\<rparr>) \<and>
    isIP (trim h) \<noteq> 0 \<and> (\<exists>c \<in> set (fa_egressCidrs a). range_covers c (trim h))"
proof -
  have "egress_ok no_agents" by (simp add: egress_ok_def no_agents_def)
  from ranges.inv_run [OF this] have "list_all range_ok (fa_egressCidrs a)"
    using find_agentD [OF assms(2)] by (auto simp: assms(1) egress_ok_def)
  note exact = ranges_exact [OF this]
  show ?thesis
    using assms(2-5) exact [of "trim h"]
    by (auto simp: resolveAdhocTarget_def adhoc_address_def Let_def split: option.split)
qed

definition demo_range :: agent_edit where
  "demo_range = \<lparr>gi_name = None, gi_tags = None, gi_notes = None, gi_egressCidrs = Some [''10.0.0.0/8''], gi_requireApproval = None\<rparr>"

definition demo_waypoint :: "fabric_event list" where
  "demo_waypoint = demo_online ''waypoint'' @ [Edit 0 demo_range (operator ''ann'')]"

lemma demo_waypoint_run:
  "map_option (\<lambda>a. (fa_mode a, fa_status a, fa_egressCidrs a)) (find_agent (agents_run demo_fabric no_agents demo_waypoint) 0) =
     Some (Waypoint, Ag_online, [''10.0.0.0/8'']) \<and>
   isOnline (agents_run demo_fabric no_agents demo_waypoint) 0 \<and>
   resolveAdhocTarget 0 ''ssh'' ''10.1.2.3'' (JNum 22) (agents_run demo_fabric no_agents demo_waypoint) =
     Inr \<lparr>sx_id = None, sx_agentId = 0, sx_kind = ''ssh'', sx_host = ''10.1.2.3'', sx_port = 22, sx_secretRef = None\<rparr>"
  by code_simp

lemma adhoc_exactly_in_range_witness: "range_covers ''10.0.0.0/8'' ''10.1.2.3''"
proof -
  have t: "trim ''10.1.2.3'' = ''10.1.2.3''" by code_simp
  obtain a where a: "find_agent (agents_run demo_fabric no_agents demo_waypoint) 0 = Some a" "fa_mode a = Waypoint" "fa_status a \<noteq> Ag_deleting"
    "isOnline (agents_run demo_fabric no_agents demo_waypoint) 0" and ranges: "fa_egressCidrs a = [''10.0.0.0/8'']"
    using demo_waypoint_run by auto
  from demo_waypoint_run iffD1 [OF adhoc_exactly_in_range [OF refl a]] have "\<exists>c \<in> set (fa_egressCidrs a). range_covers c (trim ''10.1.2.3'')"
    by blast
  then show ?thesis unfolding ranges t by simp
qed

text \<open>
  C15: A box that enrolls with a valid token, after whatever happened, is issued a credential with which it is accepted as the agent
  the token was made for; the token is spent, and does not enroll again.
\<close>

theorem enrolled_credential_authenticates:
  assumes "st = agents_run env no_agents es" and "enroll_check env token now st = Inr a"
    and "p \<noteq> []" and "CHR ''_'' \<notin> set p" and "s \<noteq> []" and "fe_sha env s \<noteq> []" and "\<forall>x \<in> set (fr_agents st). fa_credPrefix x \<noteq> Some p"
    and "st' = agents_run env st [Enroll token p s now, Turn (length (fr_tasks st)) later]"
  shows "\<exists>credential. fr_issued st' = fr_issued st @ [(fa_id a, credential)] \<and> authenticateOutcome env credential st' = Auth_ok (fa_id a) \<and>
    enroll_check env token now2 st' = Inl (Unauthorized ''Enrollment token is invalid or expired.'')"
proof -
  have db: "db_ok st" using table.inv_run [OF no_agents_db] by (simp add: assms(1))
  obtain secret where tok: "parseEnrollToken token = Some secret" and a: "a \<in> set (fr_agents st)"
    and hash: "fa_enrollHash a = Some (fe_sha env secret)" and live: "fa_status a \<noteq> Ag_revoked"
    using assms(2) by (auto simp: enroll_check_def split: option.splits if_splits dest!: find_SomeD)
  have "st' = enroll_write env p s a st"
    using assms(2,8) by (simp add: enroll_def spawn_def run_task_def task_turn_def)
  from issued_row [OF db a this assms(7)] obtain f where rows: "fr_agents st' = rows_update (\<lambda>r. fa_id r = fa_id a) f (fr_agents st)"
    and f: "f = (\<lambda>r. r\<lparr>fa_enrollHash := None, fa_enrollExpires := None, fa_credPrefix := Some p, fa_credHash := Some (fe_sha env s)\<rparr>)"
    and issued: "fr_issued st' = fr_issued st @ [(fa_id a, fst (generateCredential (fe_sha env) p s))]"
    and only: "\<And>r. r \<in> set (fr_agents st) \<Longrightarrow> fa_id r = fa_id a \<Longrightarrow> r = a" by blast
  have row: "x = f a" if "x \<in> set (fr_agents st')" "fa_credPrefix x = Some p" for x
    using that only assms(7) by (auto simp: rows in_rows_update split: if_splits)
  have "f a \<in> set (fr_agents st')" using a by (force simp: rows in_rows_update)
  moreover have new: "fa_credPrefix (f a) = Some p" "fa_status (f a) = fa_status a" "fa_id (f a) = fa_id a"
      "fa_credHash (f a) = Some (fe_sha env s)" by (simp_all add: f)
  ultimately have "List.find (\<lambda>x. fa_credPrefix x = Some p) (fr_agents st') \<noteq> None" by (auto simp: find_None_iff)
  then obtain x where x: "List.find (\<lambda>x. fa_credPrefix x = Some p) (fr_agents st') = Some x" by blast
  moreover have "x = f a" using row find_SomeD [OF x] by blast
  ultimately have "authenticateOutcome env (fst (generateCredential (fe_sha env) p s)) st' = Auth_ok (fa_id a)"
    using live assms(6) by (simp add: authenticateOutcome_def parse_generated [OF assms(3-5)] new safeEqualHex_def)
  moreover have "fa_enrollHash x \<noteq> Some (fe_sha env secret)" if x: "x \<in> set (fr_agents st')" for x
  proof -
    obtain r where r: "r \<in> set (fr_agents st)" "x = (if fa_id r = fa_id a then f r else r)" using x by (auto simp: rows in_rows_update)
    have "fa_id r = fa_id a" if "fa_enrollHash r = Some (fe_sha env secret)"
      using db r(1) a hash that unfolding db_ok_def unique_column_def by (metis option.distinct(1))
    with r(2) show ?thesis by (auto simp: f)
  qed
  then have "List.find (\<lambda>x. fa_enrollHash x = Some (fe_sha env secret)) (fr_agents st') = None" by (simp add: find_None_iff)
  then have "enroll_check env token now2 st' = Inl (Unauthorized ''Enrollment token is invalid or expired.'')"
    by (simp add: enroll_check_def tok)
  ultimately show ?thesis using issued by blast
qed

lemma demo_token:
  "map_option fa_id (case enroll_check demo_fabric ''cbroenroll_e1'' 10 (agents_run demo_fabric no_agents (demo_created ''endpoint'')) of
     Inl e \<Rightarrow> None | Inr a \<Rightarrow> Some a) = Some 0 \<and>
   list_all (\<lambda>x. fa_credPrefix x = None) (fr_agents (agents_run demo_fabric no_agents (demo_created ''endpoint''))) \<and> demo_sha ''s1'' = ''bb''"
  by code_simp

lemma enrolled_credential_authenticates_witness:
  "\<exists>credential i. authenticateOutcome demo_fabric credential (agents_run demo_fabric (agents_run demo_fabric no_agents (demo_created ''endpoint''))
      [Enroll ''cbroenroll_e1'' ''p1'' ''s1'' 10, Turn (length (fr_tasks (agents_run demo_fabric no_agents (demo_created ''endpoint'')))) 10]) = Auth_ok i"
proof -
  obtain a where a: "enroll_check demo_fabric ''cbroenroll_e1'' 10 (agents_run demo_fabric no_agents (demo_created ''endpoint'')) = Inr a"
    using demo_token by (auto split: sum.splits)
  have "\<forall>x \<in> set (fr_agents (agents_run demo_fabric no_agents (demo_created ''endpoint''))). fa_credPrefix x \<noteq> Some ''p1''"
    using demo_token by (auto simp: list_all_iff)
  moreover have "fe_sha demo_fabric ''s1'' \<noteq> []" using demo_token by (simp add: demo_fabric_def)
  ultimately show ?thesis using enrolled_credential_authenticates [OF refl a, of "''p1''" "''s1''", OF _ _ _ _ _ refl] by simp blast
qed





section \<open>Orders that go wrong\<close>

text \<open>The end of a grace is written after the agent has come back: it is connected, recorded as offline and reported.\<close>

lemma reconnected_marked_offline:
  "(let st = agents_run demo_fabric no_agents (demo_online ''endpoint'' @ [Lost 0 0, Timer 1, Turn 0 50, Connect ''cbroagent_p1_s1'', Turn 1 60,
        Frame 0 (Hello demo_hello) 60, Turn 1 60, Turn 1 60, Turn 0 70])
    in isOnline st 0 \<and> map_option fa_status (find_agent st 0) = Some Ag_offline \<and> map fst (fr_alerts st) = [''fabric.agent_offline''])"
  by code_simp

text \<open>A hello that was half way puts an agent that is being removed back online, and its confirmation is then ignored.\<close>

lemma late_hello_undoes_removal:
  "(let st = agents_run demo_fabric no_agents (demo_online ''endpoint'' @ [Frame 0 (Hello demo_hello) 40, Turn 0 40, Remove 0 (operator ''ann'') 50,
        Turn 0 60, Frame 0 Uninstall_ack 70])
    in map_option fa_status (find_agent st 0) = Some Ag_online)"
  by code_simp

text \<open>Two boxes that present one enrollment token at once both get a credential; the later one counts.\<close>

lemma token_enrolls_twice:
  "fr_issued (agents_run demo_fabric no_agents (demo_created ''endpoint'' @ [Enroll ''cbroenroll_e1'' ''p1'' ''s1'' 10,
      Enroll ''cbroenroll_e1'' ''p2'' ''s2'' 10, Turn 0 20, Turn 0 20])) = [(0, ''cbroagent_p1_s1''), (0, ''cbroagent_p2_s2'')]"
  by code_simp

end
