(* ===== verification/Connector_Watch.thy ===== *)
theory Connector_Watch
  imports Notifications
begin

text \<open>
  What watches the connectors in the background: reachability (\<^verbatim>\<open>connectors/connection-monitor.service.ts\<close>), the
  state of guests (\<^verbatim>\<open>connectors/resource-monitor.service.ts\<close>), limits of metrics
  (\<^verbatim>\<open>connectors/metric-threshold-monitor.service.ts\<close>), and the operations that run in the background
  (\<^verbatim>\<open>connectors/job.service.ts\<close>).

  A check is two steps, its start and the answer of the connector; the checks under way are part of the state, and may be
  answered in any order, after any ticks. The limits of a connector are read when its check starts. Values of metrics are
  whole numbers. The id of a job is its number.
\<close>

section \<open>Reachability\<close>

datatype watch_state = Seen_up | Seen_down

record conn_monitor =
  cm_health :: "(string, watch_state) jsmap"
  cm_active :: "(string, string) jsmap"
  cm_alerts :: "(string \<times> alert_payload) list"

definition no_conns :: conn_monitor where
  "no_conns = \<lparr>cm_health = [], cm_active = [], cm_alerts = []\<rparr>"

definition conn_begin :: "string \<times> string \<Rightarrow> conn_monitor \<Rightarrow> conn_monitor" where
  "conn_begin r st = (if map_has (cm_active st) (fst r) then st else st\<lparr>cm_active := map_set (cm_active st) (fst r) (snd r)\<rparr>)"

definition conn_tick :: "(string \<times> string) list \<Rightarrow> conn_monitor \<Rightarrow> conn_monitor" where
  "conn_tick rows st = fold conn_begin rows (st\<lparr>cm_health := map_keep (\<lambda>i _. i \<in> set (map fst rows)) (cm_health st)\<rparr>)"

definition recovered_alert :: "string \<Rightarrow> string \<Rightarrow> string \<Rightarrow> string \<times> alert_payload" where
  "recovered_alert i name message =
     (''connection.recovered'',
      \<lparr>pl_title = ''Connector recovered: '' @ name, pl_body = (if message = [] then ''Connection restored.'' else message),
       pl_dedupeKey = Some (''conn:'' @ i @ '':up''), pl_connectorId = Some i, pl_monitorId = None\<rparr>)"

definition unreachable_alert :: "string \<Rightarrow> string \<Rightarrow> string \<Rightarrow> string \<times> alert_payload" where
  "unreachable_alert i name message =
     (''connection.down'',
      \<lparr>pl_title = ''Connector unreachable: '' @ name, pl_body = (if message = [] then ''Connection test failed.'' else message),
       pl_dedupeKey = Some (''conn:'' @ i @ '':down''), pl_connectorId = Some i, pl_monitorId = None\<rparr>)"

text \<open>The answer of a test; one that throws is not ok, with the text of its error.\<close>

definition conn_finish :: "string \<Rightarrow> bool \<Rightarrow> string \<Rightarrow> conn_monitor \<Rightarrow> conn_monitor" where
  "conn_finish i ok message st =
     (case map_get (cm_active st) i of
        None \<Rightarrow> st
      | Some name \<Rightarrow>
          (let prev = map_get (cm_health st) i;
               raised = (if ok then (if prev = Some Seen_down then [recovered_alert i name message] else [])
                         else if prev \<noteq> Some Seen_down then [unreachable_alert i name message] else [])
           in st\<lparr>cm_alerts := cm_alerts st @ raised, cm_health := map_set (cm_health st) i (if ok then Seen_up else Seen_down),
                 cm_active := map_del (cm_active st) i\<rparr>))"

datatype conn_event = Conn_tick "(string \<times> string) list" | Conn_answer string bool string

primrec conn_step :: "conn_monitor \<Rightarrow> conn_event \<Rightarrow> conn_monitor" where
  "conn_step st (Conn_tick rows) = conn_tick rows st"
| "conn_step st (Conn_answer i ok message) = conn_finish i ok message st"

section \<open>Guests\<close>

record guest =
  gu_name :: string
  gu_kind :: string
  gu_status :: string
  gu_node :: string


definition guestKey :: "guest \<Rightarrow> string" where
  "guestKey g = gu_kind g @ '':'' @ gu_node g @ '':'' @ gu_name g"

record guest_monitor =
  gm_lastStatus :: "(string, (string, watch_state) jsmap) jsmap"
  gm_lastCheck :: "(string, time) jsmap"
  gm_active :: "(string, string \<times> time) jsmap"
  gm_alerts :: "(string \<times> alert_payload) list"


record watched_row =
  wr_id :: string
  wr_name :: string
  wr_refreshIntervalSec :: int

definition guests_begin :: "time \<Rightarrow> watched_row \<Rightarrow> guest_monitor \<Rightarrow> guest_monitor" where
  "guests_begin now r st =
     (let seen = (case map_get (gm_lastCheck st) (wr_id r) of None \<Rightarrow> 0 | Some t \<Rightarrow> t);
          every = (if wr_refreshIntervalSec r = 0 then 30 else wr_refreshIntervalSec r)
      in if now - seen < every * 1000 then st
         else if map_has (gm_active st) (wr_id r) then st
         else st\<lparr>gm_active := map_set (gm_active st) (wr_id r) (wr_name r, now)\<rparr>)"


definition guest_alert :: "string \<Rightarrow> string \<Rightarrow> guest \<Rightarrow> watch_state \<Rightarrow> string \<times> alert_payload" where
  "guest_alert i connectorName g s =
     (if s = Seen_down then ''resource.stopped'' else ''resource.started'',
      \<lparr>pl_title = gu_name g @ '' '' @ (if s = Seen_down then ''stopped'' else ''started'') @ '' '' @ [CHR 0xB7] @ '' '' @ connectorName,
       pl_body = gu_kind g @ (if gu_node g = [] then [] else '' on '' @ gu_node g) @ '' is now '' @ gu_status g @ ''.'',
       pl_dedupeKey = Some (''res:'' @ i @ '':'' @ guestKey g @ '':'' @ (if s = Seen_down then ''down'' else ''up'')),
       pl_connectorId = Some i, pl_monitorId = None\<rparr>)"





section \<open>Limits\<close>

record overview_metric =
  om_key :: string
  om_label :: string
  om_value :: int
  om_unit :: "string option"

definition upper_letter :: "char \<Rightarrow> bool" where
  "upper_letter c \<longleftrightarrow> 65 \<le> code_of c \<and> code_of c \<le> 90"

text \<open>A currency has two digits after the point; the value is whole.\<close>

definition fmt :: "int \<Rightarrow> string \<Rightarrow> string" where
  "fmt v unit =
     (if length unit = 3 \<and> list_all upper_letter unit then unit @ '' '' @ show_int v @ ''.00''
      else if unit \<noteq> [] then show_int v @ '' '' @ unit else show_int v)"

definition over_key :: "string \<Rightarrow> string \<Rightarrow> string" where
  "over_key i d = i @ '':'' @ d"

text \<open>A check that waits for its overview, with the limits it has read.\<close>

record limit_check =
  lk_id :: string
  lk_name :: string
  lk_limits :: "(metric_threshold \<times> int) list"

record limit_monitor =
  lm_over :: "string list"
  lm_saved :: "string list option"
  lm_checks :: "limit_check list"
  lm_alerts :: "(string \<times> alert_payload) list"

definition no_limits :: limit_monitor where
  "no_limits = \<lparr>lm_over = [], lm_saved = None, lm_checks = [], lm_alerts = []\<rparr>"

definition set_add :: "'a \<Rightarrow> 'a list \<Rightarrow> 'a list" where
  "set_add x xs = (if x \<in> set xs then xs else xs @ [x])"

text \<open>The connector of an entry: up to its last colon; without one, all but the last character.\<close>

definition over_owner :: "string \<Rightarrow> string" where
  "over_owner k = (if CHR '':'' \<in> set k then rev (drop 1 (dropWhile (\<lambda>c. c \<noteq> CHR '':'') (rev k))) else butlast k)"

definition limits_begin :: "settings \<Rightarrow> string \<times> string \<Rightarrow> limit_monitor \<Rightarrow> limit_monitor" where
  "limits_begin cfg r st =
     (let limit = (\<lambda>d. connectorThreshold cfg (fst r) (mt_id d));
          unset = map (\<lambda>d. over_key (fst r) (mt_id d)) (filter (\<lambda>d. \<not> limit d > 0) METRIC_THRESHOLDS);
          active = map (\<lambda>d. (d, limit d)) (filter (\<lambda>d. limit d > 0) METRIC_THRESHOLDS);
          st1 = st\<lparr>lm_over := filter (\<lambda>k. k \<notin> set unset) (lm_over st)\<rparr>
      in if active = [] then st1
         else st1\<lparr>lm_checks := lm_checks st1 @ [\<lparr>lk_id = fst r, lk_name = snd r, lk_limits = active\<rparr>]\<rparr>)"

definition limits_tick :: "settings \<Rightarrow> (string \<times> string) list \<Rightarrow> limit_monitor \<Rightarrow> limit_monitor" where
  "limits_tick cfg rows st =
     fold (limits_begin cfg) rows (st\<lparr>lm_over := filter (\<lambda>k. over_owner k \<in> set (map fst rows)) (lm_over st)\<rparr>)"

definition limit_alert :: "string \<Rightarrow> string \<Rightarrow> metric_threshold \<Rightarrow> int \<Rightarrow> overview_metric \<Rightarrow> string \<times> alert_payload" where
  "limit_alert i name d limit m =
     (let unit = (case om_unit m of None \<Rightarrow> [] | Some u \<Rightarrow> u); lim = fmt limit unit
      in (mt_alertKey d,
          \<lparr>pl_title = mt_label d @ '' over '' @ lim @ '': '' @ name,
           pl_body = om_label m @ '' is '' @ fmt (om_value m) unit @ '', over the '' @ lim @ '' limit.'',
           pl_dedupeKey = Some (''thr:'' @ i @ '':'' @ mt_id d), pl_connectorId = Some i, pl_monitorId = None\<rparr>))"

definition limit_one :: "string \<Rightarrow> string \<Rightarrow> overview_metric list \<Rightarrow> metric_threshold \<times> int \<Rightarrow> limit_monitor \<Rightarrow> limit_monitor" where
  "limit_one i name metrics dl st =
     (case List.find (\<lambda>m. om_key m = mt_metricKey (fst dl)) metrics of
        None \<Rightarrow> st
      | Some m \<Rightarrow>
          (let k = over_key i (mt_id (fst dl))
           in if om_value m \<ge> snd dl
              then (if k \<in> set (lm_over st) then st
                    else st\<lparr>lm_over := set_add k (lm_over st), lm_alerts := lm_alerts st @ [limit_alert i name (fst dl) (snd dl) m]\<rparr>)
              else st\<lparr>lm_over := removeAll k (lm_over st)\<rparr>))"

text \<open>The overview of the n-th check under way, or none when it could not be fetched.\<close>

definition limits_finish :: "nat \<Rightarrow> overview_metric list option \<Rightarrow> limit_monitor \<Rightarrow> limit_monitor" where
  "limits_finish n metrics st =
     (if n \<ge> length (lm_checks st) then st
      else
        (let c = lm_checks st ! n; st1 = st\<lparr>lm_checks := take n (lm_checks st) @ drop (Suc n) (lm_checks st)\<rparr>
         in case metrics of None \<Rightarrow> st1 | Some ms \<Rightarrow> fold (limit_one (lk_id c) (lk_name c) ms) (lk_limits c) st1))"

definition persistOver :: "limit_monitor \<Rightarrow> limit_monitor" where
  "persistOver st = st\<lparr>lm_saved := Some (lm_over st)\<rparr>"

text \<open>A new process.\<close>

definition limits_restart :: "limit_monitor \<Rightarrow> limit_monitor" where
  "limits_restart st = st\<lparr>lm_over := (case lm_saved st of None \<Rightarrow> [] | Some ks \<Rightarrow> fold set_add ks []), lm_checks := []\<rparr>"

datatype limit_event = Limits_tick settings "(string \<times> string) list" | Limits_answer nat "overview_metric list option" | Limits_saved | Limits_restart

primrec limits_step :: "limit_monitor \<Rightarrow> limit_event \<Rightarrow> limit_monitor" where
  "limits_step st (Limits_tick cfg rows) = limits_tick cfg rows st"
| "limits_step st (Limits_answer n metrics) = limits_finish n metrics st"
| "limits_step st Limits_saved = persistOver st"
| "limits_step st Limits_restart = limits_restart st"

section \<open>Jobs\<close>

datatype job_status = Job_running | Job_success | Job_error

record job =
  jb_instanceId :: string
  jb_label :: string
  jb_status :: job_status
  jb_steps :: "string list"
  jb_message :: "string option"
  jb_createdResourceId :: "string option"
  jb_startedAt :: time
  jb_finishedAt :: "time option"

record job_service =
  js_jobs :: "(nat, job) jsmap"
  js_next :: nat
  js_aborts :: "nat list"
  js_aborted :: "nat list"
  js_audit :: "(nat \<times> string) list"

definition no_jobs :: job_service where
  "no_jobs = \<lparr>js_jobs = [], js_next = 0, js_aborts = [], js_aborted = [], js_audit = []\<rparr>"

definition job_start :: "string \<Rightarrow> string \<Rightarrow> time \<Rightarrow> job_service \<Rightarrow> nat \<times> job_service" where
  "job_start instanceId label now st =
     (js_next st,
      st\<lparr>js_jobs := map_set (js_jobs st) (js_next st)
           \<lparr>jb_instanceId = instanceId, jb_label = label, jb_status = Job_running, jb_steps = [], jb_message = None,
            jb_createdResourceId = None, jb_startedAt = now, jb_finishedAt = None\<rparr>,
         js_aborts := js_aborts st @ [js_next st], js_next := Suc (js_next st)\<rparr>)"

definition onProgress :: "nat \<Rightarrow> string \<Rightarrow> job_service \<Rightarrow> job_service" where
  "onProgress i s st =
     (case map_get (js_jobs st) i of
        None \<Rightarrow> st
      | Some j \<Rightarrow> st\<lparr>js_jobs := map_set (js_jobs st) i (j\<lparr>jb_steps := jb_steps j @ [s]\<rparr>)\<rparr>)"

definition JOB_KEEP_MS :: int where "JOB_KEEP_MS = 30 * 60 * 1000"

definition job_prune :: "time \<Rightarrow> job_service \<Rightarrow> job_service" where
  "job_prune now st =
     st\<lparr>js_jobs := map_keep (\<lambda>_ j. \<not> (case jb_finishedAt j of None \<Rightarrow> False | Some t \<Rightarrow> t \<noteq> 0 \<and> t < now - JOB_KEEP_MS)) (js_jobs st)\<rparr>"

definition recordOutcome :: "nat \<Rightarrow> job \<Rightarrow> job_service \<Rightarrow> job_service" where
  "recordOutcome i j st =
     st\<lparr>js_audit := js_audit st @
       [(i, if jb_status j = Job_success then ''connectors.operation_succeeded'' else ''connectors.operation_failed'')]\<rparr>"

text \<open>What an operation answers, or the text of what it throws.\<close>

record operation_result =
  or_ok :: bool
  or_message :: "string option"
  or_createdResourceId :: "string option"

definition job_outcome :: "string + operation_result \<Rightarrow> time \<Rightarrow> job \<Rightarrow> job" where
  "job_outcome r now j =
     (case r of
        Inr x \<Rightarrow> j\<lparr>jb_status := (if or_ok x then Job_success else Job_error), jb_message := or_message x,
          jb_createdResourceId := or_createdResourceId x, jb_finishedAt := Some now\<rparr>
      | Inl e \<Rightarrow> j\<lparr>jb_status := Job_error, jb_message := Some e, jb_finishedAt := Some now\<rparr>)"

definition job_settle :: "nat \<Rightarrow> string + operation_result \<Rightarrow> time \<Rightarrow> job_service \<Rightarrow> job_service" where
  "job_settle i r now st =
     (let st1 = (case map_get (js_jobs st) i of
                   None \<Rightarrow> st
                 | Some j \<Rightarrow>
                     if jb_status j \<noteq> Job_running then st
                     else recordOutcome i (job_outcome r now j) (st\<lparr>js_jobs := map_set (js_jobs st) i (job_outcome r now j)\<rparr>))
      in job_prune now (st1\<lparr>js_aborts := removeAll i (js_aborts st1)\<rparr>))"

definition job_cancel :: "nat \<Rightarrow> time \<Rightarrow> job_service \<Rightarrow> bool \<times> job_service" where
  "job_cancel i now st =
     (case map_get (js_jobs st) i of
        None \<Rightarrow> (False, st)
      | Some j \<Rightarrow>
          if jb_status j \<noteq> Job_running then (False, st)
          else
            (True, st\<lparr>js_aborted := (if i \<in> set (js_aborts st) then js_aborted st @ [i] else js_aborted st),
               js_jobs := map_set (js_jobs st) i
                 (j\<lparr>jb_status := Job_error, jb_message := Some ''Cancelled.'', jb_finishedAt := Some now\<rparr>)\<rparr>))"

definition listRunning :: "string \<Rightarrow> job_service \<Rightarrow> job list" where
  "listRunning instanceId st = filter (\<lambda>j. jb_instanceId j = instanceId \<and> jb_status j = Job_running) (map_vals (js_jobs st))"

datatype job_event =
    Job_start string string time
  | Job_progress nat string
  | Job_settle nat "string + operation_result" time
  | Job_cancel nat time

primrec job_step :: "job_service \<Rightarrow> job_event \<Rightarrow> job_service" where
  "job_step st (Job_start instanceId label now) = snd (job_start instanceId label now st)"
| "job_step st (Job_progress i s) = onProgress i s st"
| "job_step st (Job_settle i r now) = job_settle i r now st"
| "job_step st (Job_cancel i now) = snd (job_cancel i now st)"

section \<open>Reachability alerts are the edges\<close>

definition alerts_for :: "string \<Rightarrow> (string \<times> alert_payload) list \<Rightarrow> string list" where
  "alerts_for i as = map fst (filter (\<lambda>a. pl_connectorId (snd a) = Some i) as)"

lemma alerts_for_simps [simp]:
  "alerts_for i [] = []" "alerts_for i (as @ bs) = alerts_for i as @ alerts_for i bs"
  "alerts_for i [recovered_alert j name m] = (if j = i then [''connection.recovered''] else [])"
  "alerts_for i [unreachable_alert j name m] = (if j = i then [''connection.down''] else [])"
  by (simp_all add: alerts_for_def recovered_alert_def unreachable_alert_def)

text \<open>The answers that count, and what is raised for a series of them.\<close>

definition conn_counts :: "string \<Rightarrow> conn_monitor \<Rightarrow> conn_event \<Rightarrow> bool list" where
  "conn_counts i st e = (case e of Conn_answer j ok _ \<Rightarrow> if j = i \<and> map_has (cm_active st) i then [ok] else [] | _ \<Rightarrow> [])"

fun answers_of :: "string \<Rightarrow> conn_monitor \<Rightarrow> conn_event list \<Rightarrow> bool list" where
  "answers_of i st [] = []"
| "answers_of i st (e # es) = conn_counts i st e @ answers_of i (conn_step st e) es"

fun conn_edges :: "watch_state option \<Rightarrow> bool list \<Rightarrow> string list" where
  "conn_edges prev [] = []"
| "conn_edges prev (ok # oks) =
     (if ok then (if prev = Some Seen_down then [''connection.recovered''] else [])
      else if prev \<noteq> Some Seen_down then [''connection.down''] else []) @
     conn_edges (Some (if ok then Seen_up else Seen_down)) oks"

fun takes_turns :: "string \<Rightarrow> string \<Rightarrow> string list \<Rightarrow> bool" where
  "takes_turns a b [] = True"
| "takes_turns a b (x # xs) = (x = a \<and> takes_turns b a xs)"

lemma conn_edges_turns:
  "(if prev = Some Seen_down then takes_turns ''connection.recovered'' ''connection.down'' (conn_edges prev oks)
    else takes_turns ''connection.down'' ''connection.recovered'' (conn_edges prev oks))"
proof (induction oks arbitrary: prev)
  case (Cons ok oks)
  show ?case using Cons [of "Some (if ok then Seen_up else Seen_down)"] by (auto split: if_splits)
qed simp

lemma begin_keeps [simp]:
  "cm_health (fold conn_begin rows st) = cm_health st" "cm_alerts (fold conn_begin rows st) = cm_alerts st"
proof -
  show "cm_health (fold conn_begin rows st) = cm_health st" by (induction rows arbitrary: st) (simp_all add: conn_begin_def)
  show "cm_alerts (fold conn_begin rows st) = cm_alerts st" by (induction rows arbitrary: st) (simp_all add: conn_begin_def)
qed

lemma conn_answer_effect:
  assumes "map_ok (cm_health st)"
  shows "alerts_for i (cm_alerts (conn_finish j ok m st)) =
      alerts_for i (cm_alerts st) @ conn_edges (map_get (cm_health st) i) (conn_counts i st (Conn_answer j ok m))"
    and "map_get (cm_health (conn_finish j ok m st)) i =
      (if conn_counts i st (Conn_answer j ok m) = [] then map_get (cm_health st) i else Some (if ok then Seen_up else Seen_down))"
    and "map_ok (cm_health (conn_finish j ok m st))"
  using assms by (auto simp: conn_finish_def conn_counts_def map_has_def store_simps jsm.ok_put Let_def split: option.splits)

lemma conn_run_edges:
  assumes "map_ok (cm_health st)" and "\<forall>rows. Conn_tick rows \<in> set es \<longrightarrow> i \<in> set (map fst rows)"
  shows "alerts_for i (cm_alerts (foldl conn_step st es)) = alerts_for i (cm_alerts st) @ conn_edges (map_get (cm_health st) i) (answers_of i st es)"
  using assms
proof (induction es arbitrary: st)
  case (Cons e es)
  show ?case
  proof (cases e)
    case (Conn_tick rows)
    then have i: "i \<in> set (map fst rows)" using Cons.prems(2) by auto
    have "map_ok (cm_health (conn_tick rows st))" using Cons.prems(1) by (simp add: conn_tick_def map_ok_keep)
    moreover have "map_get (cm_health (conn_tick rows st)) i = map_get (cm_health st) i"
      using i by (simp add: conn_tick_def map_get_keep [OF Cons.prems(1)] split: option.split)
    moreover have "cm_alerts (conn_tick rows st) = cm_alerts st" by (simp add: conn_tick_def)
    ultimately show ?thesis using Cons.IH [of "conn_tick rows st"] Cons.prems(2) Conn_tick by (simp add: conn_counts_def)
  next
    case (Conn_answer j ok m)
    note eff = conn_answer_effect [OF Cons.prems(1), where j = j and ok = ok and m = m]
    have "conn_edges (map_get (cm_health st) i) (conn_counts i st e @ oks) =
        conn_edges (map_get (cm_health st) i) (conn_counts i st e) @ conn_edges (map_get (cm_health (conn_finish j ok m st)) i) oks" for oks
      by (simp add: eff(2)) (simp add: Conn_answer conn_counts_def)
    then show ?thesis using Cons.IH [OF eff(3)] Cons.prems(2) Conn_answer by (simp add: eff(1))
  qed
qed simp

section \<open>Guest alerts are the changes\<close>

text \<open>The alerts of one guest of a connector, by the key they are deduplicated with.\<close>

definition guest_alerts :: "string \<Rightarrow> string \<Rightarrow> (string \<times> alert_payload) list \<Rightarrow> string list" where
  "guest_alerts i k as = map fst (filter (\<lambda>a. pl_connectorId (snd a) = Some i \<and>
     pl_dedupeKey (snd a) \<in> {Some (''res:'' @ i @ '':'' @ k @ '':down''), Some (''res:'' @ i @ '':'' @ k @ '':up'')}) as)"

lemma guest_alerts_append [simp]: "guest_alerts i k [] = []" "guest_alerts i k (as @ bs) = guest_alerts i k as @ guest_alerts i k bs"
  by (simp_all add: guest_alerts_def)

definition change_kind :: "watch_state \<Rightarrow> string" where
  "change_kind s = (if s = Seen_down then ''resource.stopped'' else ''resource.started'')"

lemma same_ending: "xs @ (if b then ''down'' else ''up'') = ys @ (if c then ''down'' else ''up'') \<Longrightarrow> xs = ys"
  by (cases b; cases c) (auto dest: arg_cong [where f = rev])

lemma guest_alerts_one [simp]:
  "guest_alerts i k (guest_alert j name g s # as) = (if j = i \<and> guestKey g = k then [change_kind s] else []) @ guest_alerts i k as"
proof -
  have "guestKey g @ '':down'' = k @ '':up'' \<Longrightarrow> False" "guestKey g @ '':up'' = k @ '':down'' \<Longrightarrow> False"
    by (auto dest: arg_cong [where f = last])
  then show ?thesis by (auto simp: guest_alerts_def guest_alert_def change_kind_def)
qed









lemma guests_begin_keeps [simp]:
  "gm_lastStatus (fold (guests_begin now) rows st) = gm_lastStatus st" "gm_alerts (fold (guests_begin now) rows st) = gm_alerts st"
proof -
  show "gm_lastStatus (fold (guests_begin now) rows st) = gm_lastStatus st" by (induction rows arbitrary: st) (simp_all add: guests_begin_def Let_def)
  show "gm_alerts (fold (guests_begin now) rows st) = gm_alerts st" by (induction rows arbitrary: st) (simp_all add: guests_begin_def Let_def)
qed




section \<open>A job ends once\<close>

definition outcomes :: "nat \<Rightarrow> job_service \<Rightarrow> string list" where
  "outcomes i st = map snd (filter (\<lambda>a. fst a = i) (js_audit st))"

definition job_inv :: "job_service \<Rightarrow> bool" where
  "job_inv st \<longleftrightarrow> map_ok (js_jobs st) \<and> (\<forall>i j. map_get (js_jobs st) i = Some j \<longrightarrow> i < js_next st) \<and>
     (\<forall>a \<in> set (js_audit st). fst a < js_next st) \<and>
     (\<forall>i j. map_get (js_jobs st) i = Some j \<and> jb_status j = Job_running \<longrightarrow> outcomes i st = [] \<and> jb_finishedAt j = None) \<and>
     (\<forall>i. length (outcomes i st) \<le> 1)"

lemma job_prune_simps [simp]:
  "outcomes i (job_prune now st) = outcomes i st" "js_next (job_prune now st) = js_next st"
  "js_audit (job_prune now st) = js_audit st" "js_aborts (job_prune now st) = js_aborts st"
  by (simp_all add: job_prune_def outcomes_def)

lemma prune_get: "map_ok (js_jobs st) \<Longrightarrow> map_get (js_jobs (job_prune now st)) i = Some j \<Longrightarrow> map_get (js_jobs st) i = Some j"
  by (auto simp: job_prune_def map_get_keep split: option.splits if_splits)

lemma prune_ok: "map_ok (js_jobs st) \<Longrightarrow> map_ok (js_jobs (job_prune now st))"
  by (simp add: job_prune_def map_ok_keep)

lemma prune_inv:
  assumes "job_inv st"
  shows "job_inv (job_prune now st)"
proof -
  have ok: "map_ok (js_jobs st)" using assms by (simp add: job_inv_def)
  have sub: "map_get (js_jobs st) i = Some j" if "map_get (js_jobs (job_prune now st)) i = Some j" for i j
    using prune_get [OF ok that] .
  show ?thesis using assms prune_ok [OF ok] sub unfolding job_inv_def job_prune_simps by blast
qed

lemma outcome_settled [simp]: "jb_status (job_outcome r now j) \<noteq> Job_running"
  by (simp add: job_outcome_def split: sum.split)

lemma no_outcome: "\<forall>a \<in> set (js_audit st). fst a < js_next st \<Longrightarrow> outcomes (js_next st) st = []"
  by (auto simp: outcomes_def filter_empty_conv)

lemma settle_inv:
  assumes "job_inv st" and "map_get (js_jobs st) i = Some j" and "jb_status j = Job_running"
  shows "job_inv (recordOutcome i (job_outcome r now j) (st\<lparr>js_jobs := map_set (js_jobs st) i (job_outcome r now j)\<rparr>))"
proof -
  have "outcomes i st = []" "i < js_next st" using assms unfolding job_inv_def by blast+
  then show ?thesis using assms(1) unfolding job_inv_def
    by (auto simp: recordOutcome_def outcomes_def store_simps jsm.ok_put split: if_splits)
qed

lemma job_inv_step: "job_inv st \<Longrightarrow> job_inv (job_step st e)"
proof (cases e)
  case (Job_start a b now)
  assume inv: "job_inv st"
  then have "outcomes (js_next st) st = []" unfolding job_inv_def by (blast intro: no_outcome)
  with inv Job_start show ?thesis unfolding job_inv_def
    by (auto simp: job_start_def outcomes_def store_simps jsm.ok_put less_Suc_eq split: if_splits)
next
  case (Job_progress i s)
  assume "job_inv st"
  with Job_progress show ?thesis unfolding job_inv_def
    by (auto simp: onProgress_def outcomes_def store_simps jsm.ok_put split: option.split if_splits)
next
  case (Job_settle i r now)
  assume inv: "job_inv st"
  have ab: "job_inv s \<Longrightarrow> job_inv (s\<lparr>js_aborts := x\<rparr>)" for s x unfolding job_inv_def outcomes_def by auto
  show ?thesis using Job_settle inv settle_inv [OF inv]
    by (auto simp: job_settle_def Let_def intro!: prune_inv ab split: option.split)
next
  case (Job_cancel i now)
  assume "job_inv st"
  with Job_cancel show ?thesis unfolding job_inv_def
    by (auto simp: job_cancel_def outcomes_def store_simps jsm.ok_put split: option.split if_splits)
qed

interpretation jobs: event_machine job_step job_inv
  by unfold_locales (rule job_inv_step)

lemma no_jobs_inv: "job_inv no_jobs"
  by (simp add: job_inv_def no_jobs_def outcomes_def)

text \<open>What is recorded of a job that has ended, and that it stays so.\<close>

definition same_end :: "job \<Rightarrow> job \<Rightarrow> bool" where
  "same_end j j' \<longleftrightarrow> jb_status j' = jb_status j \<and> jb_message j' = jb_message j \<and>
     jb_createdResourceId j' = jb_createdResourceId j \<and> jb_finishedAt j' = jb_finishedAt j"

definition ended_as :: "nat \<Rightarrow> job \<Rightarrow> string list \<Rightarrow> job_service \<Rightarrow> bool" where
  "ended_as i j os st \<longleftrightarrow> job_inv st \<and> i < js_next st \<and> outcomes i st = os \<and> jb_status j \<noteq> Job_running \<and>
     (\<forall>j'. map_get (js_jobs st) i = Some j' \<longrightarrow> same_end j j')"

lemma ended_changes:
  assumes "ended_as i j os st" and "job_inv st'" and "js_next st \<le> js_next st'" and "outcomes i st' = outcomes i st"
    and sub: "\<And>j'. map_get (js_jobs st') i = Some j' \<Longrightarrow> \<exists>j0. map_get (js_jobs st) i = Some j0 \<and> same_end j0 j'"
  shows "ended_as i j os st'"
proof -
  have "same_end j j'" if now: "map_get (js_jobs st') i = Some j'" for j'
  proof -
    obtain j0 where "map_get (js_jobs st) i = Some j0" "same_end j0 j'" using sub [OF now] by blast
    then show ?thesis using assms(1) by (simp add: ended_as_def same_end_def)
  qed
  then show ?thesis using assms(1-4) by (simp add: ended_as_def)
qed

lemma ended_keeps:
  assumes "ended_as i j os st" and "job_inv st'" and "js_next st \<le> js_next st'" and "outcomes i st' = outcomes i st"
    and "\<And>j'. map_get (js_jobs st') i = Some j' \<Longrightarrow> map_get (js_jobs st) i = Some j'"
  shows "ended_as i j os st'"
  using assms(5) by (intro ended_changes [OF assms(1-4)]) (auto simp: same_end_def)

lemma ended_prune:
  assumes e: "ended_as i j os st"
  shows "ended_as i j os (job_prune now st)"
proof (rule ended_keeps [OF e])
  show "job_inv (job_prune now st)" using e by (simp add: ended_as_def prune_inv)
  show "map_get (js_jobs st) i = Some j'" if "map_get (js_jobs (job_prune now st)) i = Some j'" for j'
    using e by (intro prune_get [OF _ that]) (simp add: ended_as_def job_inv_def)
qed simp_all

lemma ended_running: "ended_as i j os st \<Longrightarrow> map_get (js_jobs st) k = Some j' \<Longrightarrow> jb_status j' = Job_running \<Longrightarrow> k \<noteq> i"
  by (auto simp: ended_as_def same_end_def)

lemma ended_settles:
  assumes e: "ended_as i j os st" and "map_get (js_jobs st) k = Some j'" and "jb_status j' = Job_running"
  shows "ended_as i j os (recordOutcome k (job_outcome r now j') (st\<lparr>js_jobs := map_set (js_jobs st) k (job_outcome r now j')\<rparr>))"
proof (rule ended_keeps [OF e])
  have inv: "job_inv st" using e by (simp add: ended_as_def)
  show "job_inv (recordOutcome k (job_outcome r now j') (st\<lparr>js_jobs := map_set (js_jobs st) k (job_outcome r now j')\<rparr>))"
    using settle_inv [OF inv assms(2,3)] .
qed (use ended_running [OF assms] in \<open>simp_all add: recordOutcome_def outcomes_def store_simps\<close>)

lemma ended_step:
  assumes e: "ended_as i j os st"
  shows "ended_as i j os (job_step st ev)"
proof -
  have inv: "job_inv st" using e by (simp add: ended_as_def)
  note inv' = job_inv_step [OF inv, of ev]
  have ab: "ended_as i j os (s\<lparr>js_aborts := x\<rparr>) = ended_as i j os s" for s x
    unfolding ended_as_def job_inv_def outcomes_def by simp
  show ?thesis
  proof (cases ev)
    case (Job_start a b now)
    have "i < js_next st" using e by (simp add: ended_as_def)
    then show ?thesis using Job_start by (intro ended_keeps [OF e inv']) (auto simp: job_start_def outcomes_def store_simps)
  next
    case (Job_progress k s)
    have "\<exists>j0. map_get (js_jobs st) i = Some j0 \<and> same_end j0 j'" if "map_get (js_jobs (onProgress k s st)) i = Some j'" for j'
      using that by (auto simp: onProgress_def store_simps same_end_def split: option.splits if_splits)
    then show ?thesis using Job_progress
      by (intro ended_changes [OF e inv']) (auto simp: onProgress_def outcomes_def split: option.splits)
  next
    case (Job_settle k r now)
    have "ended_as i j os (st\<lparr>js_aborts := x\<rparr>)" for x using e by (simp add: ab)
    then show ?thesis using Job_settle ended_settles [OF e]
      by (simp add: job_settle_def Let_def ab ended_prune split: option.split)
  next
    case (Job_cancel k now)
    have "map_get (js_jobs (snd (job_cancel k now st))) i = Some j' \<Longrightarrow> map_get (js_jobs st) i = Some j'" for j'
      using ended_running [OF e, of k] by (auto simp: job_cancel_def store_simps split: option.splits if_splits)
    then show ?thesis using Job_cancel
      by (intro ended_keeps [OF e inv']) (auto simp: job_cancel_def outcomes_def split: option.splits)
  qed
qed

interpretation ended: event_machine job_step "ended_as i j os" for i j os
  by unfold_locales (rule ended_step)

section \<open>Properties\<close>

text \<open>
  As long as a connector stays enabled, the alerts about its reachability are exactly the edges of the answers its tests gave,
  in the order they came, whatever ticks pass in between: unreachable, then recovered, in turn.
\<close>

theorem connector_alerts_are_edges:
  assumes "\<forall>rows. Conn_tick rows \<in> set es \<longrightarrow> i \<in> set (map fst rows)"
  shows "alerts_for i (cm_alerts (foldl conn_step no_conns es)) = conn_edges None (answers_of i no_conns es) \<and>
    takes_turns ''connection.down'' ''connection.recovered'' (alerts_for i (cm_alerts (foldl conn_step no_conns es)))"
  using conn_run_edges [of no_conns es i] conn_edges_turns [of None "answers_of i no_conns es"] assms by (simp add: no_conns_def)

definition demo_outage :: "conn_event list" where
  "demo_outage = [Conn_tick [(''c'', ''NAS'')], Conn_answer ''c'' False ''timeout'', Conn_tick [(''c'', ''NAS'')], Conn_answer ''c'' False [],
     Conn_tick [(''c'', ''NAS'')], Conn_tick [(''c'', ''NAS'')], Conn_answer ''c'' True []]"

lemma connector_alerts_are_edges_witness:
  "alerts_for ''c'' (cm_alerts (foldl conn_step no_conns demo_outage)) = [''connection.down'', ''connection.recovered'']"
proof -
  have "answers_of ''c'' no_conns demo_outage = [False, False, True]" by code_simp
  moreover have "\<forall>rows. Conn_tick rows \<in> set demo_outage \<longrightarrow> ''c'' \<in> set (map fst rows)" by (auto simp: demo_outage_def)
  ultimately show ?thesis using connector_alerts_are_edges [of demo_outage "''c''"] by simp
qed

text \<open>A test under way when its connector is disabled still raises an alert.\<close>

lemma disabled_connector_alerts:
  "alerts_for ''c'' (cm_alerts (foldl conn_step no_conns [Conn_tick [(''c'', ''NAS'')], Conn_tick [], Conn_answer ''c'' False []])) = [''connection.down'']"
  by code_simp





text \<open>
  A job ends once: from the moment it is no longer running, whether it succeeded, failed or was cancelled, its status, message,
  result and end never change, and no outcome is recorded for it any more; in all at most one is.
\<close>

theorem job_ends_once:
  assumes "st = foldl job_step no_jobs es" and "map_get (js_jobs st) i = Some j" and "jb_status j \<noteq> Job_running"
    and "st' = foldl job_step st es'"
  shows "outcomes i st' = outcomes i st \<and> length (outcomes i st) \<le> 1 \<and>
    (case map_get (js_jobs st') i of
       None \<Rightarrow> True
     | Some j' \<Rightarrow> jb_status j' = jb_status j \<and> jb_message j' = jb_message j \<and>
         jb_createdResourceId j' = jb_createdResourceId j \<and> jb_finishedAt j' = jb_finishedAt j)"
proof -
  have inv: "job_inv st" using jobs.inv_run [OF no_jobs_inv] by (simp add: assms(1))
  then have "ended_as i j (outcomes i st) st" using assms(2,3) unfolding job_inv_def ended_as_def same_end_def by auto
  then have "ended_as i j (outcomes i st) st'" unfolding assms(4) by (rule ended.inv_run)
  then show ?thesis using inv unfolding ended_as_def job_inv_def same_end_def by (auto split: option.split)
qed

definition demo_cancelled :: "job_event list" where
  "demo_cancelled = [Job_start ''c'' ''clone'' 10, Job_cancel 0 20]"

lemma job_ends_once_witness:
  "outcomes 0 (foldl job_step (foldl job_step no_jobs demo_cancelled)
     [Job_settle 0 (Inr \<lparr>or_ok = True, or_message = None, or_createdResourceId = None\<rparr>) 30]) = []"
proof -
  have run: "map_option jb_status (map_get (js_jobs (foldl job_step no_jobs demo_cancelled)) 0) = Some Job_error \<and>
      outcomes 0 (foldl job_step no_jobs demo_cancelled) = []" by code_simp
  then obtain j where "map_get (js_jobs (foldl job_step no_jobs demo_cancelled)) 0 = Some j" "jb_status j \<noteq> Job_running" by auto
  from job_ends_once [OF refl this refl, of "[Job_settle 0 (Inr \<lparr>or_ok = True, or_message = None, or_createdResourceId = None\<rparr>) 30]"]
  show ?thesis using run by (simp only:)
qed

section \<open>Limits and restarts\<close>

text \<open>A new process that starts when no check is under way and the entries have been saved raises nothing again: it is in the same state.\<close>

lemma set_add_distinct: "distinct (ys @ xs) \<Longrightarrow> fold set_add xs ys = ys @ xs"
  by (induction xs arbitrary: ys) (auto simp: set_add_def)

lemma limit_one_distinct: "distinct (lm_over st) \<Longrightarrow> distinct (lm_over (limit_one i name ms dl st))"
  by (simp add: limit_one_def set_add_def Let_def distinct_removeAll split: option.split)

lemma limits_distinct_step: "distinct (lm_over st) \<Longrightarrow> distinct (lm_over (limits_step st e))"
proof (cases e)
  case (Limits_tick cfg rows)
  have "distinct (lm_over s) \<Longrightarrow> distinct (lm_over (fold (limits_begin cfg) rows s))" for s
    by (induction rows arbitrary: s) (simp_all add: limits_begin_def Let_def)
  with Limits_tick show "distinct (lm_over st) \<Longrightarrow> ?thesis" by (simp add: limits_tick_def)
next
  case (Limits_answer n metrics)
  have "distinct (lm_over s) \<Longrightarrow> distinct (lm_over (fold (limit_one i name ms) dls s))" for s i name ms dls
    by (induction dls arbitrary: s) (simp_all add: limit_one_distinct)
  with Limits_answer show "distinct (lm_over st) \<Longrightarrow> ?thesis" by (simp add: limits_finish_def Let_def split: option.split)
next
  case Limits_restart
  have "distinct ys \<Longrightarrow> distinct (fold set_add xs ys)" for xs ys :: "string list"
    by (induction xs arbitrary: ys) (simp_all add: set_add_def)
  with Limits_restart show "distinct (lm_over st) \<Longrightarrow> ?thesis" by (simp add: limits_restart_def split: option.split)
qed (simp add: persistOver_def)

interpretation limits: event_machine limits_step "\<lambda>st. distinct (lm_over st)"
  by unfold_locales (rule limits_distinct_step)

lemma restart_is_silent:
  assumes "st = foldl limits_step no_limits es" and "lm_checks st = []"
  shows "limits_restart (persistOver st) = persistOver st"
proof -
  have "distinct (lm_over st)" using limits.inv_run [of no_limits es] by (simp add: assms(1) no_limits_def)
  then show ?thesis using assms(2) set_add_distinct [of "[]" "lm_over st"] by (simp add: limits_restart_def persistOver_def)
qed

end
