(* ===== verification/Vault.thy ===== *)
theory Vault
  imports Login "HOL-Library.Sublist"
begin

text \<open>
  The vault: \<^verbatim>\<open>secrets/secrets.service.ts\<close>, its management API (\<^verbatim>\<open>secrets/secrets.controller.ts\<close>), the reminders of
  \<^verbatim>\<open>secrets/secrets-rotation.service.ts\<close> and the step-up in front of a plaintext
  (\<^verbatim>\<open>secrets/secrets-reveal.controller.ts\<close>), which asks the accounts of \<open>Users\<close> and the throttle of \<open>Login\<close>.

  Encryption and digests (\<^verbatim>\<open>common/crypto.service.ts\<close>) are parameters: a value encrypted with a fresh vector, a decryption
  that may fail, a keyed digest. The moment of the last use of a value is written with the read. The order of the list
  (by locale) is left out; a date in a text is a parameter, the dash between its parts a hyphen.
\<close>

section \<open>Rows\<close>

record secret_row =
  vs_key :: string
  vs_ciphertext :: string
  vs_updatedAt :: time

record secret_meta =
  sm_key :: string
  sm_label :: string
  sm_description :: "string option"
  sm_kind :: string
  sm_category :: string
  sm_owningConnectorId :: "string option"
  sm_rotateAfterDays :: "int option"
  sm_expiresAt :: "time option"
  sm_lastUsedAt :: "time option"
  sm_rotatedAt :: time
  sm_createdAt :: time

text \<open>What a caller may say about a secret; a field that is not given stays, and some can be cleared.\<close>

record meta_input =
  sin_label :: "string option"
  sin_description :: "string option option"
  sin_kind :: "string option"
  sin_category :: "string option"
  sin_rotateAfterDays :: "int option option"
  sin_expiresAt :: "time option option"

definition no_meta :: meta_input where
  "no_meta = \<lparr>sin_label = None, sin_description = None, sin_kind = None, sin_category = None, sin_rotateAfterDays = None, sin_expiresAt = None\<rparr>"

record secret_actor =
  cx_actorId :: "string option"
  cx_actorEmail :: "string option"

record secret_store =
  va_secrets :: "secret_row list"
  va_metas :: "secret_meta list"
  va_digests :: "((nat \<times> time) \<times> (string, string list) jsmap) option"
  va_audit :: "audit_entry list"

record vault_env =
  vn_encrypt :: "string \<Rightarrow> string \<Rightarrow> string"
  vn_decrypt :: "string \<Rightarrow> string option"
  vn_digest :: "string \<Rightarrow> string"
  vn_date :: "time \<Rightarrow> string"

definition empty_vault :: secret_store where
  "empty_vault = \<lparr>va_secrets = [], va_metas = [], va_digests = None, va_audit = []\<rparr>"

definition find_secret :: "secret_store \<Rightarrow> string \<Rightarrow> secret_row option" where
  "find_secret st k = List.find (\<lambda>r. vs_key r = k) (va_secrets st)"

definition find_meta :: "secret_store \<Rightarrow> string \<Rightarrow> secret_meta option" where
  "find_meta st k = List.find (\<lambda>m. sm_key m = k) (va_metas st)"

definition vault_audit :: "secret_actor \<Rightarrow> string \<Rightarrow> string \<Rightarrow> secret_store \<Rightarrow> secret_store" where
  "vault_audit ctx action key st = st\<lparr>va_audit := va_audit st @
     [\<lparr>au_actorId = cx_actorId ctx, au_actorEmail = cx_actorEmail ctx, au_action = action, au_target = Some key\<rparr>]\<rparr>"

definition named_actor :: "secret_actor option \<Rightarrow> bool" where
  "named_actor ctx = (case ctx of None \<Rightarrow> False | Some c \<Rightarrow> nonempty (cx_actorId c) \<or> nonempty (cx_actorEmail c))"

definition audit_write :: "secret_actor option \<Rightarrow> string \<Rightarrow> string \<Rightarrow> secret_store \<Rightarrow> secret_store" where
  "audit_write ctx action key st = (if named_actor ctx then vault_audit (the ctx) action key st else st)"

section \<open>Names\<close>

definition DOT :: string where "DOT = '' '' @ [CHR 0xB7] @ '' ''"

fun split_camel :: "string \<Rightarrow> string" where
  "split_camel (c # d # s) = (if (is_lower c \<or> is_digit c) \<and> is_upper d then c # CHR '' '' # split_camel (d # s) else c # split_camel (d # s))"
| "split_camel s = s"

fun squeeze_spaces :: "string \<Rightarrow> string" where
  "squeeze_spaces (c # d # s) = (if is_space c \<and> is_space d then squeeze_spaces (d # s)
     else (if is_space c then CHR '' '' else c) # squeeze_spaces (d # s))"
| "squeeze_spaces s = map (\<lambda>c. if is_space c then CHR '' '' else c) s"

definition humanize :: "string \<Rightarrow> string" where
  "humanize key =
     (let s = to_lower (trim (squeeze_spaces (map (\<lambda>c. if c \<in> {CHR ''.'', CHR '':'', CHR ''_''} then CHR '' '' else c) (split_camel key))))
      in case s of [] \<Rightarrow> [] | c # cs \<Rightarrow> upper_char c # cs)"

record inferred =
  in_label :: string
  in_category :: string
  in_owningConnectorId :: "string option"

definition part_at :: "char \<Rightarrow> string \<Rightarrow> nat \<Rightarrow> string option" where
  "part_at c s n = (let ps = split_on c s in if n < length ps then Some (ps ! n) else None)"

definition or_text :: "string option \<Rightarrow> string \<Rightarrow> string" where
  "or_text v d = (case v of None \<Rightarrow> d | Some s \<Rightarrow> s)"

definition api_label :: "string \<Rightarrow> inferred" where
  "api_label l = \<lparr>in_label = l, in_category = ''api'', in_owningConnectorId = None\<rparr>"

definition inferMeta :: "string \<Rightarrow> inferred" where
  "inferMeta key =
     (if starts_with key ''connector:''
      then \<lparr>in_label = trim (''Connector '' @ or_text (part_at CHR '':'' key 1) [] @ DOT @ or_text (part_at CHR '':'' key 2) ''secret''),
             in_category = ''connector'', in_owningConnectorId = part_at CHR '':'' key 1\<rparr>
      else if starts_with key ''fabric/'' then \<lparr>in_label = humanize key, in_category = ''fabric'', in_owningConnectorId = None\<rparr>
      else if key = ''smtp.password'' then \<lparr>in_label = ''SMTP password'', in_category = ''notification'', in_owningConnectorId = None\<rparr>
      else if starts_with key ''notify.'' then \<lparr>in_label = humanize key, in_category = ''notification'', in_owningConnectorId = None\<rparr>
      else if key = ''oauth:jwtSecret'' then api_label ''OAuth signing key''
      else if key = ''assistant.apiKey'' then api_label (''Computer API key'' @ DOT @ ''default agent'')
      else if key = ''zuma.credential'' then api_label ''Saviynt Zuma credential''
      else if starts_with key ''mcp.'' then api_label (trim (''MCP server credential'' @ DOT @ or_text (part_at CHR ''.'' key 1) []))
      else if starts_with key ''assistant.agent.''
      then api_label (trim (''Computer API key'' @ DOT @ ''agent '' @ or_text (part_at CHR ''.'' key 2) []))
      else if starts_with key ''idp:'' then api_label (trim (''SSO client secret'' @ DOT @ or_text (part_at CHR '':'' key 1) []))
      else \<lparr>in_label = humanize key, in_category = ''manual'', in_owningConnectorId = None\<rparr>)"

section \<open>Reading\<close>

definition TOUCH_THROTTLE_MS :: int where "TOUCH_THROTTLE_MS = 5 * 60 * 1000"

definition touch :: "string \<Rightarrow> time \<Rightarrow> secret_store \<Rightarrow> secret_store" where
  "touch k now st =
     st\<lparr>va_metas := rows_update (\<lambda>m. sm_key m = k \<and> (case sm_lastUsedAt m of None \<Rightarrow> True | Some t \<Rightarrow> t < now - TOUCH_THROTTLE_MS))
          (\<lambda>m. m\<lparr>sm_lastUsedAt := Some now\<rparr>) (va_metas st)\<rparr>"

text \<open>The value, none for a missing key; a ciphertext that does not open throws.\<close>

definition reveal :: "vault_env \<Rightarrow> string \<Rightarrow> time \<Rightarrow> secret_store \<Rightarrow> (http_error + string option) \<times> secret_store" where
  "reveal env k now st =
     (case find_secret st k of
        None \<Rightarrow> (Inr None, st)
      | Some row \<Rightarrow>
          (case vn_decrypt env (vs_ciphertext row) of
             None \<Rightarrow> (Inl (InternalError ''decrypt''), st)
           | Some v \<Rightarrow> (Inr (Some v), touch k now st)))"

definition revealForActor :: "vault_env \<Rightarrow> string \<Rightarrow> secret_actor \<Rightarrow> time \<Rightarrow> secret_store \<Rightarrow> (http_error + string option) \<times> secret_store" where
  "revealForActor env k ctx now st =
     (case reveal env k now st of
        (Inr (Some v), st1) \<Rightarrow> (Inr (Some v), vault_audit ctx ''secret.revealed'' k st1)
      | (r, st1) \<Rightarrow> (r, st1))"

definition has_secret :: "secret_store \<Rightarrow> string \<Rightarrow> bool" where
  "has_secret st k \<longleftrightarrow> find_secret st k \<noteq> None"

section \<open>Digests\<close>

definition digest_token :: "secret_row list \<Rightarrow> nat \<times> time" where
  "digest_token rows = (length rows, if rows = [] then 0 else Max (set (map vs_updatedAt rows)))"

definition digest_row :: "vault_env \<Rightarrow> secret_row \<Rightarrow> (string, string list) jsmap \<Rightarrow> (string, string list) jsmap" where
  "digest_row env row m =
     (case vn_decrypt env (vs_ciphertext row) of
        None \<Rightarrow> m
      | Some v \<Rightarrow> map_set m (vn_digest env v) ((case map_get m (vn_digest env v) of None \<Rightarrow> [] | Some ks \<Rightarrow> ks) @ [vs_key row]))"

definition digest_scan :: "vault_env \<Rightarrow> secret_row list \<Rightarrow> (string, string list) jsmap" where
  "digest_scan env rows = fold (digest_row env) rows []"

definition digestAll :: "vault_env \<Rightarrow> secret_store \<Rightarrow> (string, string list) jsmap \<times> secret_store" where
  "digestAll env st =
     (let token = digest_token (va_secrets st); fresh = digest_scan env (va_secrets st)
      in case va_digests st of
           Some (t, m) \<Rightarrow> if t = token then (m, st) else (fresh, st\<lparr>va_digests := Some (token, fresh)\<rparr>)
         | None \<Rightarrow> (fresh, st\<lparr>va_digests := Some (token, fresh)\<rparr>))"

section \<open>Writing\<close>

definition cleanMeta :: "meta_input \<Rightarrow> secret_meta \<Rightarrow> secret_meta" where
  "cleanMeta i m =
     m\<lparr>sm_label := or_text (sin_label i) (sm_label m), sm_description := (case sin_description i of None \<Rightarrow> sm_description m | Some d \<Rightarrow> d),
       sm_kind := or_text (sin_kind i) (sm_kind m), sm_category := or_text (sin_category i) (sm_category m),
       sm_rotateAfterDays := (case sin_rotateAfterDays i of None \<Rightarrow> sm_rotateAfterDays m | Some d \<Rightarrow> d),
       sm_expiresAt := (case sin_expiresAt i of None \<Rightarrow> sm_expiresAt m | Some t \<Rightarrow> t)\<rparr>"

definition fresh_meta :: "string \<Rightarrow> time \<Rightarrow> secret_meta" where
  "fresh_meta k now =
     (let i = inferMeta k
      in \<lparr>sm_key = k, sm_label = in_label i, sm_description = None, sm_kind = ''generic'', sm_category = in_category i,
          sm_owningConnectorId = in_owningConnectorId i, sm_rotateAfterDays = None, sm_expiresAt = None, sm_lastUsedAt = None,
          sm_rotatedAt = now, sm_createdAt = now\<rparr>)"

definition upsert_secret :: "string \<Rightarrow> string \<Rightarrow> time \<Rightarrow> secret_row list \<Rightarrow> secret_row list" where
  "upsert_secret k c now rows =
     (if list_ex (\<lambda>r. vs_key r = k) rows
      then rows_update (\<lambda>r. vs_key r = k) (\<lambda>r. r\<lparr>vs_ciphertext := c, vs_updatedAt := now\<rparr>) rows
      else rows @ [\<lparr>vs_key = k, vs_ciphertext = c, vs_updatedAt = now\<rparr>])"

definition secret_set ::
    "vault_env \<Rightarrow> string \<Rightarrow> string \<Rightarrow> string \<Rightarrow> meta_input \<Rightarrow> secret_actor option \<Rightarrow> time \<Rightarrow> secret_store \<Rightarrow> secret_store" where
  "secret_set env iv k v i ctx now st =
     (let old = find_meta st k;
          metas = (if old = None then va_metas st @ [cleanMeta i (fresh_meta k now)]
                   else rows_update (\<lambda>m. sm_key m = k) (\<lambda>m. cleanMeta i (m\<lparr>sm_rotatedAt := now\<rparr>)) (va_metas st))
      in audit_write ctx (if old = None then ''secret.created'' else ''secret.rotated'') k
           (st\<lparr>va_secrets := upsert_secret k (vn_encrypt env iv v) now (va_secrets st), va_metas := metas\<rparr>))"

definition updateMeta :: "string \<Rightarrow> meta_input \<Rightarrow> secret_actor option \<Rightarrow> time \<Rightarrow> secret_store \<Rightarrow> secret_store" where
  "updateMeta k i ctx now st =
     (if \<not> has_secret st k then st
      else audit_write ctx ''secret.meta_updated'' k
        (st\<lparr>va_metas := (if find_meta st k = None then va_metas st @ [cleanMeta i (fresh_meta k now)]
                         else rows_update (\<lambda>m. sm_key m = k) (cleanMeta i) (va_metas st))\<rparr>))"

definition secret_remove :: "string \<Rightarrow> secret_actor option \<Rightarrow> secret_store \<Rightarrow> secret_store" where
  "secret_remove k ctx st =
     audit_write ctx ''secret.deleted'' k
       (st\<lparr>va_secrets := filter (\<lambda>r. vs_key r \<noteq> k) (va_secrets st), va_metas := filter (\<lambda>m. sm_key m \<noteq> k) (va_metas st)\<rparr>)"

text \<open>At the start of the server: metadata for the values that have none.\<close>

definition backfillMeta :: "time \<Rightarrow> secret_store \<Rightarrow> secret_store" where
  "backfillMeta now st =
     st\<lparr>va_metas := va_metas st @ map (\<lambda>r. fresh_meta (vs_key r) now) (filter (\<lambda>r. find_meta st (vs_key r) = None) (va_secrets st))\<rparr>"

text \<open>The write of the management API: a value, or only what is said about it.\<close>

definition secret_upsert ::
    "vault_env \<Rightarrow> string \<Rightarrow> string \<Rightarrow> string option \<Rightarrow> meta_input \<Rightarrow> session_user \<Rightarrow> time \<Rightarrow> secret_store \<Rightarrow> secret_store" where
  "secret_upsert env iv k value i user now st =
     (let ctx = Some \<lparr>cx_actorId = Some (su_id user), cx_actorEmail = Some (su_email user)\<rparr>
      in if nonempty value then secret_set env iv k (the value) i ctx now st else updateMeta k i ctx now st)"

datatype vault_event =
    Va_upsert string string "string option" meta_input session_user
  | Va_set string string string meta_input "secret_actor option"
  | Va_remove string "secret_actor option"
  | Va_reveal string
  | Va_digest
  | Va_backfill

definition vault_step :: "vault_env \<Rightarrow> secret_store \<Rightarrow> time \<times> vault_event \<Rightarrow> secret_store" where
  "vault_step env st e =
     (case snd e of
        Va_upsert iv k v i user \<Rightarrow> secret_upsert env iv k v i user (fst e) st
      | Va_set iv k v i ctx \<Rightarrow> secret_set env iv k v i ctx (fst e) st
      | Va_remove k ctx \<Rightarrow> secret_remove k ctx st
      | Va_reveal k \<Rightarrow> snd (reveal env k (fst e) st)
      | Va_digest \<Rightarrow> snd (digestAll env st)
      | Va_backfill \<Rightarrow> backfillMeta (fst e) st)"

section \<open>Rotation\<close>

datatype secret_health = Health_ok | Health_due | Health_expired

definition DAY_MS :: int where "DAY_MS = 24 * 60 * 60 * 1000"
definition EXPIRY_WARN_DAYS :: int where "EXPIRY_WARN_DAYS = 14"

definition computeHealth :: "int \<Rightarrow> int option \<Rightarrow> time option \<Rightarrow> time \<Rightarrow> secret_health" where
  "computeHealth ageDays rotateAfterDays expiresAt now =
     (if (case expiresAt of None \<Rightarrow> False | Some t \<Rightarrow> t \<le> now) then Health_expired
      else if (case rotateAfterDays of None \<Rightarrow> False | Some d \<Rightarrow> ageDays \<ge> d) then Health_due
      else if (case expiresAt of None \<Rightarrow> False | Some t \<Rightarrow> t - now \<le> EXPIRY_WARN_DAYS * DAY_MS) then Health_due
      else Health_ok)"

record secret_summary =
  sy_key :: string
  sy_label :: string
  sy_description :: "string option"
  sy_kind :: string
  sy_category :: string
  sy_owningConnectorId :: "string option"
  sy_rotateAfterDays :: "int option"
  sy_expiresAt :: "time option"
  sy_lastUsedAt :: "time option"
  sy_rotatedAt :: time
  sy_createdAt :: time
  sy_health :: secret_health
  sy_ageDays :: int
  sy_orphaned :: bool
  sy_owner :: "(string \<times> string \<times> string) option"
  sy_connector :: "(string \<times> string \<times> string option \<times> string) option"

definition toSummary_secret :: "string \<Rightarrow> secret_meta option \<Rightarrow> time \<Rightarrow> time \<Rightarrow> secret_summary" where
  "toSummary_secret key meta fallbackTs now =
     (let rotatedAt = (case meta of None \<Rightarrow> fallbackTs | Some m \<Rightarrow> sm_rotatedAt m);
          expiresAt = Option.bind meta sm_expiresAt; rotateAfterDays = Option.bind meta sm_rotateAfterDays;
          ageDays = (now - rotatedAt) div DAY_MS
      in \<lparr>sy_key = key, sy_label = or_text (map_option sm_label meta) (in_label (inferMeta key)),
          sy_description = Option.bind meta sm_description, sy_kind = or_text (map_option sm_kind meta) ''generic'',
          sy_category = or_text (map_option sm_category meta) (in_category (inferMeta key)),
          sy_owningConnectorId = (case Option.bind meta sm_owningConnectorId of None \<Rightarrow> in_owningConnectorId (inferMeta key) | Some c \<Rightarrow> Some c),
          sy_rotateAfterDays = rotateAfterDays, sy_expiresAt = expiresAt, sy_lastUsedAt = Option.bind meta sm_lastUsedAt,
          sy_rotatedAt = rotatedAt, sy_createdAt = (case meta of None \<Rightarrow> fallbackTs | Some m \<Rightarrow> sm_createdAt m),
          sy_health = computeHealth ageDays rotateAfterDays expiresAt now, sy_ageDays = ageDays, sy_orphaned = False, sy_owner = None,
          sy_connector = None\<rparr>)"

text \<open>The tables a label is looked up in; none when the table could not be read.\<close>

record owners =
  ow_connectors :: "(string \<times> string \<times> string) list option"
  ow_agents :: "(string \<times> string \<times> bool) list option"
  ow_servers :: "(string \<times> string) list option"
  ow_manifest :: "string \<Rightarrow> (string \<times> (string \<times> string) list) option"

record assistant_owner =
  ao_owner :: "(string \<times> string \<times> string) option"
  ao_label :: string
  ao_orphaned :: bool

definition some_rows :: "'a list option \<Rightarrow> 'a list" where
  "some_rows r = (case r of None \<Rightarrow> [] | Some xs \<Rightarrow> xs)"

definition agent_key :: "string \<Rightarrow> string option" where
  "agent_key key = (case split_on CHR ''.'' key of
     [a, b, i, c] \<Rightarrow> if a = ''assistant'' \<and> b = ''agent'' \<and> c = ''apiKey'' \<and> i \<noteq> [] then Some i else None | _ \<Rightarrow> None)"

definition server_key :: "string \<Rightarrow> string option" where
  "server_key key = (case split_on CHR ''.'' key of
     [a, i, c] \<Rightarrow> if a = ''mcp'' \<and> c = ''credential'' \<and> i \<noteq> [] then Some i else None | _ \<Rightarrow> None)"

definition resolveAssistantOwner :: "string \<Rightarrow> owners \<Rightarrow> assistant_owner option" where
  "resolveAssistantOwner key w =
     (if key = ''zuma.credential''
      then Some \<lparr>ao_owner = Some (''zuma'', ''Saviynt Zuma'', ''/settings/zuma''), ao_label = ''Saviynt Zuma credential'', ao_orphaned = False\<rparr>
      else if key = ''assistant.apiKey'' \<or> agent_key key \<noteq> None
      then Some (case List.find (\<lambda>(i, _, d). case agent_key key of Some j \<Rightarrow> i = j | None \<Rightarrow> d) (some_rows (ow_agents w)) of
             Some (i, name, _) \<Rightarrow> \<lparr>ao_owner = Some (''agent'', name, ''/settings/agents/'' @ i),
               ao_label = name @ DOT @ ''Computer agent API key'', ao_orphaned = False\<rparr>
           | None \<Rightarrow> \<lparr>ao_owner = None, ao_label = ''Deleted Computer agent'' @ DOT @ ''API key'', ao_orphaned = ow_agents w \<noteq> None\<rparr>)
      else case server_key key of
             None \<Rightarrow> None
           | Some j \<Rightarrow>
               Some (case List.find (\<lambda>(i, _). i = j) (some_rows (ow_servers w)) of
                 Some (_, name) \<Rightarrow> \<lparr>ao_owner = Some (''mcp'', name, ''/settings/mcp-servers''),
                   ao_label = name @ DOT @ ''MCP server credential'', ao_orphaned = False\<rparr>
               | None \<Rightarrow> \<lparr>ao_owner = None, ao_label = ''Deleted MCP server'' @ DOT @ ''credential'', ao_orphaned = ow_servers w \<noteq> None\<rparr>))"

definition summary_of :: "owners \<Rightarrow> secret_store \<Rightarrow> time \<Rightarrow> secret_row \<Rightarrow> secret_summary" where
  "summary_of w st now row =
     (let key = vs_key row; meta = find_meta st key; s = toSummary_secret key meta (vs_updatedAt row) now;
          auto = (case meta of None \<Rightarrow> True | Some m \<Rightarrow> sm_label m = [] \<or> sm_label m = in_label (inferMeta key));
          relabel = (\<lambda>l x. if auto then x\<lparr>sy_label := l\<rparr> else x)
      in case resolveAssistantOwner key w of
           Some a \<Rightarrow> relabel (ao_label a) (s\<lparr>sy_owner := ao_owner a, sy_orphaned := ao_orphaned a\<rparr>)
         | None \<Rightarrow>
             if \<not> starts_with key ''connector:'' \<or> \<not> nonempty (sy_owningConnectorId s) then s
             else
               (let field = or_text (part_at CHR '':'' key 2) ''secret''
                in case List.find (\<lambda>(i, _, _). i = the (sy_owningConnectorId s)) (some_rows (ow_connectors w)) of
                     Some (_, name, ty) \<Rightarrow>
                       (let man = ow_manifest w ty;
                            fl = or_text (case man of None \<Rightarrow> None | Some (_, fs) \<Rightarrow> map_of fs field) (humanize field)
                        in relabel (name @ DOT @ fl) (s\<lparr>sy_connector := Some (name, ty, map_option fst man, fl)\<rparr>))
                   | None \<Rightarrow>
                       if ow_connectors w = None then s
                       else relabel (''Deleted connector'' @ DOT @ humanize field) (s\<lparr>sy_orphaned := True\<rparr>)))"

definition secret_list :: "owners \<Rightarrow> secret_store \<Rightarrow> time \<Rightarrow> secret_summary list" where
  "secret_list w st now = map (summary_of w st now) (va_secrets st)"

definition dueForRotation :: "owners \<Rightarrow> secret_store \<Rightarrow> time \<Rightarrow> secret_summary list" where
  "dueForRotation w st now = filter (\<lambda>s. sy_health s \<noteq> Health_ok) (secret_list w st now)"

definition rotation_alert :: "vault_env \<Rightarrow> secret_summary \<Rightarrow> string \<times> string \<times> string \<times> string" where
  "rotation_alert env s =
     (let expired = sy_health s = Health_expired;
          kind = (if expired then ''secret.expired'' else ''secret.rotation_due'');
          parts = [if expired then ''has expired'' else ''is due for rotation''] @
            (case sy_expiresAt s of None \<Rightarrow> [] | Some t \<Rightarrow> [''expires '' @ vn_date env t]) @
            (case sy_rotateAfterDays s of None \<Rightarrow> [] | Some d \<Rightarrow>
               [''last rotated '' @ show_int (sy_ageDays s) @ ''d ago (policy '' @ show_int d @ ''d)''])
      in (kind, ''Secret '' @ (if expired then ''expired'' else ''rotation due'') @ '': '' @ sy_label s,
          ''The '' @ sy_category s @ '' secret '' @ [CHR 0x22] @ sy_label s @ [CHR 0x22] @ '' '' @ join_with '' - '' parts @ ''.'',
          kind @ '':'' @ sy_key s))"

definition rotation_tick :: "vault_env \<Rightarrow> owners \<Rightarrow> secret_store \<Rightarrow> time \<Rightarrow> (string \<times> string \<times> string \<times> string) list" where
  "rotation_tick env w st now = map (rotation_alert env) (dueForRotation w st now)"

section \<open>The step-up\<close>

definition REAUTH_WINDOW_MS :: int where "REAUTH_WINDOW_MS = 5 * 60 * 1000"

record linked_identity =
  li_userId :: string
  li_slug :: string
  li_label :: string
  li_enabled :: bool

record requirements =
  rq_password :: bool
  rq_totp :: bool
  rq_oidc :: bool
  rq_provider :: "(string \<times> string) option"
  rq_reauthFresh :: bool
  rq_canReveal :: bool

record 'r reveal_world =
  rw_vault :: secret_store
  rw_db :: auth_db
  rw_redis :: 'r
  rw_identities :: "linked_identity list"

definition requirementsFor :: "'r reveal_world \<Rightarrow> string \<Rightarrow> time option \<Rightarrow> time \<Rightarrow> http_error + requirements" where
  "requirementsFor w userId reauthAt now =
     (case getStatus (rw_db w) userId of
        Inl e \<Rightarrow> Inl e
      | Inr (totp, _) \<Rightarrow>
          (let password = hasPassword (rw_db w) userId;
               usable = (if \<not> password \<and> \<not> totp then List.find (\<lambda>i. li_userId i = userId \<and> li_enabled i) (rw_identities w) else None);
               oidc = usable \<noteq> None
           in Inr \<lparr>rq_password = password, rq_totp = totp, rq_oidc = oidc, rq_provider = map_option (\<lambda>i. (li_slug i, li_label i)) usable,
                rq_reauthFresh = (oidc \<and> (case reauthAt of None \<Rightarrow> False | Some t \<Rightarrow> now - t < REAUTH_WINDOW_MS)),
                rq_canReveal = (password \<or> totp \<or> oidc)\<rparr>))"

definition no_step_up :: string where
  "no_step_up = ''This account has no way to re-authenticate. Set an account password, enable two-factor authentication, or '' @
     ''link a single sign-on provider before revealing secrets.''"

definition reveal_account :: "string \<Rightarrow> string" where "reveal_account userId = ''reveal:'' @ userId"

record reveal_request =
  rr_key :: string
  rr_password :: "string option"
  rr_totp :: "string option"
  rr_ip :: "string option"
  rr_reauthAt :: "time option"

definition reveal_checked ::
    "auth_env \<Rightarrow> 'r reveal_world \<Rightarrow> requirements \<Rightarrow> session_user \<Rightarrow> reveal_request \<Rightarrow> time \<Rightarrow> http_error option" where
  "reveal_checked aenv w reqs user rq now =
     (if rq_password reqs \<and> \<not> verifyPassword aenv (rw_db w) (su_id user) (or_text (rr_password rq) [])
      then Some (Unauthorized ''Your account password is incorrect.'')
      else if rq_totp reqs \<and> \<not> verifyCode aenv (rw_db w) (su_id user) (or_text (rr_totp rq) []) now
      then Some (Unauthorized ''That authenticator code is incorrect.'')
      else None)"

definition reveal_secret ::
    "vault_env \<Rightarrow> auth_env \<Rightarrow> 'r redis \<Rightarrow> throttle_config \<Rightarrow> session_user \<Rightarrow> reveal_request \<Rightarrow> time \<Rightarrow> 'r reveal_world \<Rightarrow>
      (http_error + string) \<times> 'r reveal_world" where
  "reveal_secret env aenv rd cfg user rq now w =
     (case requirementsFor w (su_id user) (rr_reauthAt rq) now of
        Inl e \<Rightarrow> (Inl e, w)
      | Inr reqs \<Rightarrow>
          if \<not> rq_canReveal reqs then (Inl (BadRequest no_step_up), w)
          else
            (let acct = reveal_account (su_id user)
             in case throttle_assertAllowed rd cfg (rw_redis w) (rr_ip rq) acct now of
                  Inl e \<Rightarrow> (Inl e, w)
                | Inr _ \<Rightarrow>
                    (case reveal_checked aenv w reqs user rq now of
                       Some e \<Rightarrow> (Inl e, w\<lparr>rw_redis := recordFailure rd cfg (rw_redis w) (rr_ip rq) acct now\<rparr>)
                     | None \<Rightarrow>
                         if rq_oidc reqs \<and> \<not> rq_reauthFresh reqs
                         then (Inl (Unauthorized ''Re-authenticate with your identity provider before revealing this value.''), w)
                         else
                           (let w1 = w\<lparr>rw_redis := recordSuccess rd (rw_redis w) acct now\<rparr>;
                                ctx = \<lparr>cx_actorId = Some (su_id user), cx_actorEmail = Some (su_email user)\<rparr>
                            in case revealForActor env (rr_key rq) ctx now (rw_vault w1) of
                                 (Inl e, v) \<Rightarrow> (Inl e, w1\<lparr>rw_vault := v\<rparr>)
                               | (Inr None, v) \<Rightarrow> (Inl (NotFound ''Secret not found.''), w1\<lparr>rw_vault := v\<rparr>)
                               | (Inr (Some x), v) \<Rightarrow> (Inr x, w1\<lparr>rw_vault := v\<rparr>)))))"

section \<open>What was stored comes back\<close>

lemma audit_write_keeps [simp]:
  "va_secrets (audit_write ctx a k st) = va_secrets st" "va_metas (audit_write ctx a k st) = va_metas st"
  "va_digests (audit_write ctx a k st) = va_digests st" "find_secret (audit_write ctx a k st) j = find_secret st j"
  "find_meta (audit_write ctx a k st) j = find_meta st j"
  by (simp_all add: audit_write_def vault_audit_def find_secret_def find_meta_def)

lemma touch_keeps [simp]: "va_secrets (touch k now st) = va_secrets st" "va_digests (touch k now st) = va_digests st"
  by (simp_all add: touch_def)

lemma find_replaced:
  "List.find (\<lambda>r. vs_key r = j) (rows_update (\<lambda>r. vs_key r = k) (\<lambda>r. r\<lparr>vs_ciphertext := c, vs_updatedAt := now\<rparr>) rows) =
    (if j = k \<and> k \<in> vs_key ` set rows then Some \<lparr>vs_key = k, vs_ciphertext = c, vs_updatedAt = now\<rparr> else List.find (\<lambda>r. vs_key r = j) rows)"
  by (induction rows) (auto simp: rows_update_def find_None_iff)

lemma find_appended: "List.find P (rows @ [r]) = (case List.find P rows of None \<Rightarrow> if P r then Some r else None | Some x \<Rightarrow> Some x)"
  by (induction rows) auto

lemma find_upsert: "List.find (\<lambda>r. vs_key r = j) (upsert_secret k c now rows) =
    (if j = k then Some \<lparr>vs_key = k, vs_ciphertext = c, vs_updatedAt = now\<rparr> else List.find (\<lambda>r. vs_key r = j) rows)"
proof (cases "k \<in> vs_key ` set rows")
  case True
  then have "list_ex (\<lambda>r. vs_key r = k) rows" by (auto simp: list_ex_iff)
  with True show ?thesis by (simp add: upsert_secret_def find_replaced)
next
  case False
  then have "\<not> list_ex (\<lambda>r. vs_key r = k) rows" and "List.find (\<lambda>r. vs_key r = k) rows = None"
    by (auto simp: find_None_iff list_ex_iff)
  then show ?thesis by (auto simp: upsert_secret_def find_appended split: option.split)
qed

lemma find_set: "find_secret (secret_set env iv k v i ctx now st) j =
    (if j = k then Some \<lparr>vs_key = k, vs_ciphertext = vn_encrypt env iv v, vs_updatedAt = now\<rparr> else find_secret st j)"
  by (simp add: secret_set_def Let_def find_upsert) (simp add: find_secret_def find_upsert)

lemma find_kept: "List.find (\<lambda>r. vs_key r = j) (filter (\<lambda>r. vs_key r \<noteq> k) rows) = (if j = k then None else List.find (\<lambda>r. vs_key r = j) rows)"
  by (induction rows) auto

lemma find_remove: "find_secret (secret_remove k ctx st) j = (if j = k then None else find_secret st j)"
  by (simp add: secret_remove_def) (simp add: find_secret_def find_kept)

lemma find_other_events [simp]:
  "find_secret (updateMeta k i ctx now st) j = find_secret st j" "find_secret (snd (reveal env k now st)) j = find_secret st j"
  "find_secret (snd (digestAll env st)) j = find_secret st j" "find_secret (backfillMeta now st) j = find_secret st j"
  by (simp_all add: updateMeta_def reveal_def digestAll_def backfillMeta_def touch_def Let_def split: option.split)
     (simp_all add: find_secret_def)

definition writes_key :: "string \<Rightarrow> vault_event \<Rightarrow> bool" where
  "writes_key k e \<longleftrightarrow> (case e of Va_upsert _ j _ _ _ \<Rightarrow> j = k | Va_set _ j _ _ _ \<Rightarrow> j = k | Va_remove j _ \<Rightarrow> j = k | _ \<Rightarrow> False)"

lemma find_step: "\<not> writes_key k (snd e) \<Longrightarrow> find_secret (vault_step env st e) k = find_secret st k"
  by (cases e) (auto simp: vault_step_def writes_key_def secret_upsert_def Let_def find_set find_remove split: vault_event.splits)

lemma find_run: "\<forall>e \<in> set es. \<not> writes_key k (snd e) \<Longrightarrow> find_secret (foldl (vault_step env) st es) k = find_secret st k"
  by (induction es arbitrary: st) (simp_all add: find_step)

section \<open>Every value has its metadata\<close>

definition vault_ok :: "secret_store \<Rightarrow> bool" where
  "vault_ok st \<longleftrightarrow> distinct (map vs_key (va_secrets st)) \<and> distinct (map sm_key (va_metas st)) \<and>
     set (map sm_key (va_metas st)) = set (map vs_key (va_secrets st))"

lemma upsert_keys: "map vs_key (upsert_secret k c now rows) = (if k \<in> set (map vs_key rows) then map vs_key rows else map vs_key rows @ [k])"
  by (auto simp: upsert_secret_def map_rows_update list_ex_iff)

lemma clean_key [simp]: "sm_key (cleanMeta i m) = sm_key m" "sm_key (fresh_meta k now) = k"
  by (simp_all add: cleanMeta_def fresh_meta_def Let_def)

lemma find_meta_None: "find_meta st k = None \<longleftrightarrow> k \<notin> set (map sm_key (va_metas st))"
  by (auto simp: find_meta_def find_None_iff)

lemma meta_keys [simp]:
  "sm_key ` set (rows_update P (cleanMeta i) ms) = sm_key ` set ms"
  "sm_key ` set (rows_update P (\<lambda>m. cleanMeta i (m\<lparr>sm_rotatedAt := now\<rparr>)) ms) = sm_key ` set ms"
  "sm_key ` set (rows_update P (\<lambda>m. m\<lparr>sm_lastUsedAt := u\<rparr>) ms) = sm_key ` set ms"
  using map_rows_update [of sm_key "cleanMeta i" P ms] map_rows_update [of sm_key "\<lambda>m. cleanMeta i (m\<lparr>sm_rotatedAt := now\<rparr>)" P ms]
    map_rows_update [of sm_key "\<lambda>m. m\<lparr>sm_lastUsedAt := u\<rparr>" P ms]
  by (simp_all flip: set_map)

lemma set_vault_ok: "vault_ok st \<Longrightarrow> vault_ok (secret_set env iv k v i ctx now st)"
  by (auto simp: vault_ok_def secret_set_def Let_def upsert_keys find_meta_None map_rows_update)

lemma updateMeta_vault_ok: "vault_ok st \<Longrightarrow> vault_ok (updateMeta k i ctx now st)"
  by (auto simp: vault_ok_def updateMeta_def has_secret_def find_secret_def find_meta_None map_rows_update dest!: find_SomeD)

lemma remove_vault_ok: "vault_ok st \<Longrightarrow> vault_ok (secret_remove k ctx st)"
  by (auto simp: vault_ok_def secret_remove_def distinct_map_filter)

lemma vault_ok_step: "vault_ok st \<Longrightarrow> vault_ok (vault_step env st e)"
proof (cases "snd e")
  case Va_backfill
  assume ok: "vault_ok st"
  then have "filter (\<lambda>r. find_meta st (vs_key r) = None) (va_secrets st) = []"
    by (auto simp: filter_empty_conv find_meta_None vault_ok_def)
  with Va_backfill ok show ?thesis by (simp add: vault_step_def backfillMeta_def)
next
  case (Va_reveal k)
  assume "vault_ok st"
  with Va_reveal show ?thesis
    by (auto simp: vault_step_def reveal_def touch_def vault_ok_def map_rows_update split: option.split)
next
  case Va_digest
  assume "vault_ok st"
  with Va_digest show ?thesis by (auto simp: vault_step_def digestAll_def Let_def vault_ok_def split: option.split)
qed (auto simp: vault_step_def secret_upsert_def Let_def set_vault_ok updateMeta_vault_ok remove_vault_ok)

interpretation vaults: event_machine "vault_step env" vault_ok for env
  by unfold_locales (rule vault_ok_step)

section \<open>The cached digests\<close>

text \<open>Rows not written since a moment, in their order.\<close>

definition older_rows :: "time \<Rightarrow> secret_row list \<Rightarrow> secret_row list" where
  "older_rows d rows = filter (\<lambda>r. vs_updatedAt r \<le> d) rows"

definition digests_ok :: "vault_env \<Rightarrow> time \<Rightarrow> secret_store \<Rightarrow> bool" where
  "digests_ok env t st \<longleftrightarrow> (\<forall>r \<in> set (va_secrets st). vs_updatedAt r \<le> t) \<and>
     (case va_digests st of
        None \<Rightarrow> True
      | Some (tok, m) \<Rightarrow> (\<exists>rows d. tok = digest_token rows \<and> m = digest_scan env rows \<and> (\<forall>r \<in> set rows. vs_updatedAt r \<le> d) \<and> d \<le> t \<and>
          subseq (older_rows d (va_secrets st)) rows))"

lemma older_upsert: "d < now \<Longrightarrow> subseq (older_rows d (upsert_secret k c now rows)) (older_rows d rows)"
proof -
  assume d: "d < now"
  have "subseq (older_rows d (rows_update (\<lambda>r. vs_key r = k) (\<lambda>r. r\<lparr>vs_ciphertext := c, vs_updatedAt := now\<rparr>) rows)) (older_rows d rows)"
    using d by (induction rows) (auto simp: older_rows_def rows_update_def)
  then show ?thesis using d by (simp add: upsert_secret_def) (simp add: older_rows_def)
qed

lemma older_filter: "subseq (older_rows d (filter P rows)) (older_rows d rows)"
  by (induction rows) (auto simp: older_rows_def)

lemma same_token:
  assumes "digest_token now_rows = digest_token rows" and "\<forall>r \<in> set rows. vs_updatedAt r \<le> d" and "subseq (older_rows d now_rows) rows"
  shows "now_rows = rows"
proof -
  have len: "length now_rows = length rows" using assms(1) by (simp add: digest_token_def)
  have "\<forall>r \<in> set now_rows. vs_updatedAt r \<le> d"
  proof (cases "rows = []")
    case False
    then have ne: "now_rows \<noteq> []" using len by auto
    have "Max (set (map vs_updatedAt now_rows)) = Max (set (map vs_updatedAt rows))" using assms(1) False ne by (simp add: digest_token_def)
    also have "\<dots> \<le> d" using assms(2) False by (subst Max_le_iff) auto
    finally show ?thesis using ne by (subst (asm) Max_le_iff) auto
  qed (use len in simp)
  then have "older_rows d now_rows = now_rows" by (simp add: older_rows_def filter_id_conv)
  with assms(3) len show ?thesis by (simp add: subseq_same_length)
qed

lemma digestAll_exact: "digests_ok env t st \<Longrightarrow> fst (digestAll env st) = digest_scan env (va_secrets st)"
  using same_token by (fastforce simp: digestAll_def digests_ok_def Let_def split: option.splits)

lemma digests_fewer:
  assumes ok: "digests_ok env t st" and "t < now" and "va_digests st' = va_digests st"
    and "\<And>r. r \<in> set (va_secrets st') \<Longrightarrow> vs_updatedAt r \<le> now" and "\<And>d. d < now \<Longrightarrow> subseq (older_rows d (va_secrets st')) (older_rows d (va_secrets st))"
  shows "digests_ok env now st'"
proof (cases "va_digests st")
  case (Some e)
  obtain tok m where e: "e = (tok, m)" by fastforce
  from ok Some e obtain rows d where "tok = digest_token rows" "m = digest_scan env rows" "\<forall>r \<in> set rows. vs_updatedAt r \<le> d" "d \<le> t"
    "subseq (older_rows d (va_secrets st)) rows" by (auto simp: digests_ok_def)
  moreover from this assms(2) have "subseq (older_rows d (va_secrets st')) rows" by (meson assms(5) order.strict_trans1 subseq_order.order_trans)
  ultimately show ?thesis using assms(2-4) Some e unfolding digests_ok_def by (force split: option.splits)
qed (use assms in \<open>simp add: digests_ok_def\<close>)

lemma digests_step:
  assumes ok: "digests_ok env t st" and t: "t < fst e"
  shows "digests_ok env (fst e) (vault_step env st e)"
proof -
  have le: "vs_updatedAt r \<le> fst e" if "r \<in> set (va_secrets st)" for r using ok t that by (force simp: digests_ok_def)
  have set_ok: "digests_ok env (fst e) (secret_set env iv k v i ctx (fst e) st)" for iv k v i ctx
  proof (rule digests_fewer [OF ok t])
    show "vs_updatedAt r \<le> fst e" if "r \<in> set (va_secrets (secret_set env iv k v i ctx (fst e) st))" for r
      using le that by (auto simp: secret_set_def Let_def upsert_secret_def in_rows_update split: if_splits)
  qed (simp_all add: secret_set_def Let_def older_upsert)
  have same: "digests_ok env (fst e) st'" if "va_secrets st' = va_secrets st" "va_digests st' = va_digests st" for st'
    by (rule digests_fewer [OF ok t that(2)]) (use le that(1) in auto)
  have meta: "digests_ok env (fst e) (updateMeta k i ctx (fst e) st)" for k i ctx by (rule same) (simp_all add: updateMeta_def)
  show ?thesis
  proof (cases "snd e")
    case (Va_remove k ctx)
    have "digests_ok env (fst e) (secret_remove k ctx st)"
      by (rule digests_fewer [OF ok t]) (use le in \<open>auto simp: secret_remove_def older_filter\<close>)
    with Va_remove show ?thesis by (simp add: vault_step_def)
  next
    case Va_digest
    have all: "older_rows (fst e) (va_secrets st) = va_secrets st" using le by (simp add: older_rows_def filter_id_conv)
    have "digests_ok env (fst e) st" by (rule same) simp_all
    moreover have "digests_ok env (fst e) (st\<lparr>va_digests := Some (digest_token (va_secrets st), digest_scan env (va_secrets st))\<rparr>)"
      using le all unfolding digests_ok_def by (auto intro!: exI [of _ "va_secrets st"] exI [of _ "fst e"])
    ultimately show ?thesis using Va_digest by (simp add: vault_step_def digestAll_def Let_def split: option.split)
  next
    case (Va_reveal k)
    have "digests_ok env (fst e) (snd (reveal env k (fst e) st))" by (rule same) (simp_all add: reveal_def split: option.split)
    with Va_reveal show ?thesis by (simp add: vault_step_def)
  next
    case Va_backfill
    have "digests_ok env (fst e) (backfillMeta (fst e) st)" by (rule same) (simp_all add: backfillMeta_def)
    with Va_backfill show ?thesis by (simp add: vault_step_def)
  qed (use set_ok meta in \<open>simp_all add: vault_step_def secret_upsert_def Let_def\<close>)
qed

lemma digests_run: "digests_ok env t st \<Longrightarrow> \<forall>e \<in> set es. t < fst e \<Longrightarrow> sorted_wrt (<) (map fst es) \<Longrightarrow>
    \<exists>u. digests_ok env u (foldl (vault_step env) st es)"
proof (induction es arbitrary: t st)
  case (Cons e es)
  have "digests_ok env (fst e) (vault_step env st e)" using Cons.prems(1,2) by (intro digests_step) auto
  then show ?case using Cons.IH [of "fst e" "vault_step env st e"] Cons.prems(3) by auto
qed auto

section \<open>The step-up\<close>

lemma requirements_of:
  assumes "requirementsFor w u reauthAt now = Inr reqs"
  shows "rq_password reqs = hasPassword (rw_db w) u" "rq_totp reqs = mfa_enabled (rw_db w) u"
    "rq_oidc reqs \<longleftrightarrow> \<not> hasPassword (rw_db w) u \<and> \<not> mfa_enabled (rw_db w) u \<and> (\<exists>i \<in> set (rw_identities w). li_userId i = u \<and> li_enabled i)"
    "rq_reauthFresh reqs \<longleftrightarrow> rq_oidc reqs \<and> (\<exists>t. reauthAt = Some t \<and> now - t < REAUTH_WINDOW_MS)"
    "rq_canReveal reqs \<longleftrightarrow> rq_password reqs \<or> rq_totp reqs \<or> rq_oidc reqs"
proof -
  define usable where "usable = (if \<not> hasPassword (rw_db w) u \<and> \<not> mfa_enabled (rw_db w) u
    then List.find (\<lambda>i. li_userId i = u \<and> li_enabled i) (rw_identities w) else None)"
  obtain totp ps where st: "getStatus (rw_db w) u = Inr (totp, ps)" using assms by (auto simp: requirementsFor_def split: sum.splits)
  have totp: "totp = mfa_enabled (rw_db w) u" using getStatus_Inr [OF st] by simp
  have reqs: "reqs = \<lparr>rq_password = hasPassword (rw_db w) u, rq_totp = mfa_enabled (rw_db w) u, rq_oidc = (usable \<noteq> None),
      rq_provider = map_option (\<lambda>i. (li_slug i, li_label i)) usable,
      rq_reauthFresh = (usable \<noteq> None \<and> (case reauthAt of None \<Rightarrow> False | Some t \<Rightarrow> now - t < REAUTH_WINDOW_MS)),
      rq_canReveal = (hasPassword (rw_db w) u \<or> mfa_enabled (rw_db w) u \<or> usable \<noteq> None)\<rparr>"
    using assms by (simp add: requirementsFor_def st totp Let_def usable_def)
  have usable: "usable \<noteq> None \<longleftrightarrow> \<not> hasPassword (rw_db w) u \<and> \<not> mfa_enabled (rw_db w) u \<and>
      (\<exists>i \<in> set (rw_identities w). li_userId i = u \<and> li_enabled i)"
    by (simp add: usable_def find_None_iff del: not_None_eq) blast
  show "rq_password reqs = hasPassword (rw_db w) u" "rq_totp reqs = mfa_enabled (rw_db w) u"
    "rq_canReveal reqs \<longleftrightarrow> rq_password reqs \<or> rq_totp reqs \<or> rq_oidc reqs"
    "rq_reauthFresh reqs \<longleftrightarrow> rq_oidc reqs \<and> (\<exists>t. reauthAt = Some t \<and> now - t < REAUTH_WINDOW_MS)"
    unfolding reqs by (simp_all split: option.split)
  show "rq_oidc reqs \<longleftrightarrow> \<not> hasPassword (rw_db w) u \<and> \<not> mfa_enabled (rw_db w) u \<and> (\<exists>i \<in> set (rw_identities w). li_userId i = u \<and> li_enabled i)"
    using usable by (simp add: reqs)
qed

definition wrong_factor :: "http_error set" where
  "wrong_factor = {Unauthorized ''Your account password is incorrect.'', Unauthorized ''That authenticator code is incorrect.''}"

lemma wrong_factor_fails:
  assumes "fst (reveal_secret env aenv rd cfg user rq now w) = Inl e" and "e \<in> wrong_factor"
  shows "snd (reveal_secret env aenv rd cfg user rq now w) =
      w\<lparr>rw_redis := fail_at rd cfg (reveal_account (su_id user)) (rw_redis w) (rr_ip rq, now)\<rparr>"
    and "\<exists>reqs. requirementsFor w (su_id user) (rr_reauthAt rq) now = Inr reqs \<and> rq_canReveal reqs"
proof -
  have "\<not> (requirementsFor w (su_id user) (rr_reauthAt rq) now = Inl e)"
    using assms(2) by (auto simp: requirementsFor_def getStatus_def wrong_factor_def Let_def split: option.splits)
  moreover have "\<not> (throttle_assertAllowed rd cfg s ip a now = Inl e)" for s ip a
    using assms(2) by (auto simp: throttle_assertAllowed_def wrong_factor_def split: option.splits if_splits)
  moreover have "\<not> (fst (revealForActor env k ctx now v) = Inl e)" for k ctx v
    using assms(2) by (auto simp: revealForActor_def reveal_def wrong_factor_def split: option.splits)
  ultimately have "\<exists>reqs e'. requirementsFor w (su_id user) (rr_reauthAt rq) now = Inr reqs \<and> rq_canReveal reqs \<and>
      throttle_assertAllowed rd cfg (rw_redis w) (rr_ip rq) (reveal_account (su_id user)) now = Inr () \<and>
      reveal_checked aenv w reqs user rq now = Some e'"
    using assms
    by (auto simp: reveal_secret_def Let_def wrong_factor_def no_step_up_def split: sum.splits option.splits if_splits prod.splits)
      (metis fst_conv)+
  then show "snd (reveal_secret env aenv rd cfg user rq now w) =
      w\<lparr>rw_redis := fail_at rd cfg (reveal_account (su_id user)) (rw_redis w) (rr_ip rq, now)\<rparr>"
    and "\<exists>reqs. requirementsFor w (su_id user) (rr_reauthAt rq) now = Inr reqs \<and> rq_canReveal reqs"
    by (auto simp: reveal_secret_def Let_def fail_at_def)
qed

text \<open>Requests that are all answered with a wrong factor.\<close>

fun guessing ::
    "vault_env \<Rightarrow> auth_env \<Rightarrow> 'r redis \<Rightarrow> throttle_config \<Rightarrow> session_user \<Rightarrow> (reveal_request \<times> time) list \<Rightarrow> 'r reveal_world \<Rightarrow> bool" where
  "guessing env aenv rd cfg user [] w = True"
| "guessing env aenv rd cfg user (x # xs) w =
     ((case fst (reveal_secret env aenv rd cfg user (fst x) (snd x) w) of Inl e \<Rightarrow> e \<in> wrong_factor | Inr _ \<Rightarrow> False) \<and>
      guessing env aenv rd cfg user xs (snd (reveal_secret env aenv rd cfg user (fst x) (snd x) w)))"

definition reveal_run ::
    "vault_env \<Rightarrow> auth_env \<Rightarrow> 'r redis \<Rightarrow> throttle_config \<Rightarrow> session_user \<Rightarrow> (reveal_request \<times> time) list \<Rightarrow> 'r reveal_world \<Rightarrow> 'r reveal_world" where
  "reveal_run env aenv rd cfg user xs w = foldl (\<lambda>w x. snd (reveal_secret env aenv rd cfg user (fst x) (snd x) w)) w xs"

lemma guesses_fail:
  "guessing env aenv rd cfg user xs w \<Longrightarrow> reveal_run env aenv rd cfg user xs w =
     w\<lparr>rw_redis := foldl (fail_at rd cfg (reveal_account (su_id user))) (rw_redis w) (map (\<lambda>x. (rr_ip (fst x), snd x)) xs)\<rparr>"
proof (induction xs arbitrary: w)
  case (Cons x xs)
  then obtain e where e: "fst (reveal_secret env aenv rd cfg user (fst x) (snd x) w) = Inl e" "e \<in> wrong_factor"
    by (auto split: sum.splits)
  from Cons.IH [of "snd (reveal_secret env aenv rd cfg user (fst x) (snd x) w)"] Cons.prems wrong_factor_fails(1) [OF e]
  show ?case by (simp add: reveal_run_def)
qed (simp add: reveal_run_def)

lemma requirements_redis:
  assumes "requirementsFor w u r t = Inr reqs" and "rq_canReveal reqs"
  shows "\<exists>reqs'. requirementsFor (w\<lparr>rw_redis := s\<rparr>) u r' t' = Inr reqs' \<and> rq_canReveal reqs'"
  using assms by (auto simp: requirementsFor_def Let_def split: sum.splits prod.splits)

section \<open>Properties\<close>

text \<open>
  A value that was stored comes back as it was, whatever is done afterwards to other keys, to its metadata, or by readers,
  when a ciphertext opens to what was encrypted.
\<close>

theorem stored_value_comes_back:
  assumes "\<forall>iv x. vn_decrypt env (vn_encrypt env iv x) = Some x" and "\<forall>e \<in> set es. \<not> writes_key k (snd e)"
    and "st' = foldl (vault_step env) (secret_set env iv k v i ctx now st) es"
  shows "fst (reveal env k later st') = Inr (Some v)"
proof -
  have "find_secret st' k = Some \<lparr>vs_key = k, vs_ciphertext = vn_encrypt env iv v, vs_updatedAt = now\<rparr>"
    by (simp add: assms(3) find_run [OF assms(2)] find_set)
  then show ?thesis using assms(1) by (simp add: reveal_def)
qed

definition demo_vault_env :: vault_env where
  "demo_vault_env = \<lparr>vn_encrypt = (\<lambda>iv x. iv @ CHR '':'' # x), vn_decrypt = (\<lambda>c. Some (drop 1 (dropWhile (\<lambda>d. d \<noteq> CHR '':'') c))),
     vn_digest = (\<lambda>x. x), vn_date = show_int\<rparr>"

definition demo_seal :: vault_env where
  "demo_seal = demo_vault_env\<lparr>vn_encrypt := (\<lambda>iv x. CHR '':'' # x)\<rparr>"

lemma stored_value_comes_back_witness:
  "fst (reveal demo_seal ''smtp.password''  30 (foldl (vault_step demo_seal)
     (secret_set demo_seal ''iv'' ''smtp.password'' ''hunter2'' no_meta None 10 empty_vault)
     [(20, Va_remove ''zuma.credential'' None), (25, Va_digest)])) = Inr (Some ''hunter2'')"
  by (rule stored_value_comes_back [OF _ _ refl]) (simp_all add: demo_seal_def demo_vault_env_def writes_key_def)

text \<open>
  C22: The cached digests of the vault are never stale: while no two changes fall into one millisecond, what is answered is what a
  scan of the stored values would give at that moment.
\<close>

theorem digests_are_exact:
  assumes "sorted_wrt (<) (map fst es)" and "st = foldl (vault_step env) empty_vault es"
  shows "fst (digestAll env st) = digest_scan env (va_secrets st)"
proof (cases es)
  case Nil
  then show ?thesis using assms(2) by (simp add: digestAll_def empty_vault_def Let_def)
next
  case (Cons e es')
  have "digests_ok env (fst e - 1) empty_vault" by (simp add: digests_ok_def empty_vault_def)
  moreover have "\<forall>x \<in> set es. fst e - 1 < fst x" using assms(1) Cons by auto
  ultimately obtain t where "digests_ok env t st" using digests_run [of env "fst e - 1" empty_vault es] assms by blast
  then show ?thesis by (rule digestAll_exact)
qed

definition demo_changes :: "(time \<times> vault_event) list" where
  "demo_changes = [(10, Va_set ''i'' ''a'' ''x'' no_meta None), (11, Va_digest), (12, Va_remove ''a'' None), (13, Va_set ''i'' ''b'' ''y'' no_meta None)]"

lemma digests_are_exact_witness:
  "fst (digestAll demo_seal (foldl (vault_step demo_seal) empty_vault demo_changes)) = [(''y'', [''b''])]"
proof -
  have "digest_scan demo_seal (va_secrets (foldl (vault_step demo_seal) empty_vault demo_changes)) = [(''y'', [''b''])]" by code_simp
  moreover have "sorted_wrt (<) (map fst demo_changes)" by (simp add: demo_changes_def)
  ultimately show ?thesis using digests_are_exact [OF _ refl, of demo_changes demo_seal] by simp
qed

text \<open>Two changes within one millisecond: the digest of a value that is gone is still answered, that of the new one is missing.\<close>

lemma digests_stale_within_a_millisecond:
  "fst (digestAll demo_seal (foldl (vault_step demo_seal) empty_vault
     [(10, Va_set ''i'' ''a'' ''x'' no_meta None), (10, Va_digest), (10, Va_remove ''a'' None), (10, Va_set ''i'' ''b'' ''y'' no_meta None)])) =
   [(''x'', [''a''])]"
  by code_simp

text \<open>
  C12: A plaintext leaves the vault towards a person only after the step-up of that very request: the password of the account if it
  has one, a live code if the second factor is on, and if it has neither, a sign-in at an enabled identity provider less than five
  minutes ago; it is the value stored under the key, and the reading is recorded with its reader.
\<close>

theorem revealed_only_after_step_up:
  assumes "reveal_secret env aenv rd cfg user rq now w = (Inr value, w')"
  shows "(hasPassword (rw_db w) (su_id user) \<longrightarrow> verifyPassword aenv (rw_db w) (su_id user) (or_text (rr_password rq) [])) \<and>
    (mfa_enabled (rw_db w) (su_id user) \<longrightarrow> verifyCode aenv (rw_db w) (su_id user) (or_text (rr_totp rq) []) now) \<and>
    (hasPassword (rw_db w) (su_id user) \<or> mfa_enabled (rw_db w) (su_id user) \<or>
      (\<exists>i \<in> set (rw_identities w). li_userId i = su_id user \<and> li_enabled i) \<and> (\<exists>t. rr_reauthAt rq = Some t \<and> now - t < 300000)) \<and>
    (\<exists>row. find_secret (rw_vault w) (rr_key rq) = Some row \<and> vn_decrypt env (vs_ciphertext row) = Some value) \<and>
    va_audit (rw_vault w') = va_audit (rw_vault w) @ [\<lparr>au_actorId = Some (su_id user), au_actorEmail = Some (su_email user),
      au_action = ''secret.revealed'', au_target = Some (rr_key rq)\<rparr>]"
proof -
  obtain reqs where reqs: "requirementsFor w (su_id user) (rr_reauthAt rq) now = Inr reqs" "rq_canReveal reqs"
    and checked: "reveal_checked aenv w reqs user rq now = None" and fresh: "\<not> (rq_oidc reqs \<and> \<not> rq_reauthFresh reqs)"
    and found: "fst (revealForActor env (rr_key rq) \<lparr>cx_actorId = Some (su_id user), cx_actorEmail = Some (su_email user)\<rparr> now (rw_vault w)) = Inr (Some value)"
      "rw_vault w' = snd (revealForActor env (rr_key rq) \<lparr>cx_actorId = Some (su_id user), cx_actorEmail = Some (su_email user)\<rparr> now (rw_vault w))"
    using assms by (auto simp: reveal_secret_def Let_def split: sum.splits option.splits if_splits prod.splits)
  note r = requirements_of [OF reqs(1)]
  have "\<exists>row. find_secret (rw_vault w) (rr_key rq) = Some row \<and> vn_decrypt env (vs_ciphertext row) = Some value"
    using found(1) by (auto simp: revealForActor_def reveal_def split: option.splits)
  moreover have "va_audit (rw_vault w') = va_audit (rw_vault w) @ [\<lparr>au_actorId = Some (su_id user), au_actorEmail = Some (su_email user),
      au_action = ''secret.revealed'', au_target = Some (rr_key rq)\<rparr>]"
    using found by (auto simp: revealForActor_def reveal_def vault_audit_def touch_def split: option.splits)
  moreover have "rq_password reqs \<longrightarrow> verifyPassword aenv (rw_db w) (su_id user) (or_text (rr_password rq) [])"
    "rq_totp reqs \<longrightarrow> verifyCode aenv (rw_db w) (su_id user) (or_text (rr_totp rq) []) now"
    using checked by (auto simp: reveal_checked_def split: if_splits)
  moreover have "rq_oidc reqs \<Longrightarrow> \<exists>t. rr_reauthAt rq = Some t \<and> now - t < 300000"
    using fresh r(4) by (auto simp: REAUTH_WINDOW_MS_def)
  ultimately show ?thesis using r(1-3,5) reqs(2) by blast
qed

definition demo_world :: "(string, int \<times> time option) jsmap reveal_world" where
  "demo_world = \<lparr>rw_vault = secret_set demo_seal ''i'' ''smtp.password'' ''hunter2'' no_meta None 10 empty_vault, rw_db = demo_auth_db,
     rw_redis = [], rw_identities = []\<rparr>"

definition demo_reader :: session_user where
  "demo_reader = \<lparr>su_id = ''u1'', su_email = ''root@x.org'', su_displayName = ''Root'', su_roleSlug = ''admin'', su_roleName = ''Administrator'',
     su_permissions = [''secrets:read''], su_authProvider = Local_provider\<rparr>"

definition demo_reveal :: "string \<Rightarrow> reveal_request" where
  "demo_reveal password = \<lparr>rr_key = ''smtp.password'', rr_password = Some password, rr_totp = None, rr_ip = None, rr_reauthAt = None\<rparr>"

lemma revealed_only_after_step_up_witness:
  "verifyPassword demo_auth_env demo_auth_db ''u1'' ''correct horse''"
proof -
  have run: "fst (reveal_secret demo_seal demo_auth_env store_redis default_throttle demo_reader (demo_reveal ''correct horse'') 20 demo_world) =
      Inr ''hunter2'' \<and> hasPassword demo_auth_db ''u1''" by code_simp
  then have "reveal_secret demo_seal demo_auth_env store_redis default_throttle demo_reader (demo_reveal ''correct horse'') 20 demo_world =
      (Inr ''hunter2'', snd (reveal_secret demo_seal demo_auth_env store_redis default_throttle demo_reader (demo_reveal ''correct horse'') 20 demo_world))"
    by (simp add: prod_eq_iff)
  from revealed_only_after_step_up [OF this] run show ?thesis
    by (simp add: demo_world_def demo_reader_def demo_reveal_def or_text_def)
qed

text \<open>
  C21: Guessing at the step-up is braked: after as many wrong passwords or codes in a row as the throttle allows, within its lock
  time, every further request of the account is refused with 429, whatever it gives, from every address, and reads nothing.
\<close>

theorem guesses_lock_the_step_up:
  assumes "redis_behaves rd view" and "0 < th_lockSeconds cfg" and "int (length xs) = th_failMax cfg" and "xs \<noteq> []"
    and "guessing env aenv rd cfg user xs w" and "live view (rw_redis w) (failKey (reveal_account (su_id user))) (snd (hd xs)) = None"
    and "\<forall>x \<in> set xs. snd x < snd (hd xs) + 1000 * th_lockSeconds cfg"
    and "snd (last xs) \<le> t" and "t + 1000 \<le> snd (last xs) + 1000 * th_lockSeconds cfg"
    and "w' = reveal_run env aenv rd cfg user xs w"
  shows "\<exists>msg. reveal_secret env aenv rd cfg user rq t w' = (Inl (TooManyRequests msg), w')"
proof -
  define hits where "hits = map (\<lambda>x. (rr_ip (fst x), snd x)) xs"
  have w': "w' = w\<lparr>rw_redis := foldl (fail_at rd cfg (reveal_account (su_id user))) (rw_redis w) hits\<rparr>"
    using guesses_fail [OF assms(5)] by (simp add: assms(10) hits_def)
  have "snd (hd hits) = snd (hd xs)" "snd (last hits) = snd (last xs)" using assms(4) by (simp_all add: hits_def hd_map last_map)
  then obtain msg where msg: "throttle_assertAllowed rd cfg (rw_redis w') (rr_ip rq) (reveal_account (su_id user)) t = Inl (TooManyRequests msg)"
    using account_locks [OF assms(1,2), of hits "rw_redis w" "reveal_account (su_id user)" t "rr_ip rq"] assms(3,4,6-9)
    by (auto simp: w' hits_def)
  obtain x ys where xs: "xs = x # ys" using assms(4) by (cases xs) auto
  obtain e where "fst (reveal_secret env aenv rd cfg user (fst x) (snd x) w) = Inl e" "e \<in> wrong_factor"
    using assms(5) by (auto simp: xs split: sum.splits)
  from wrong_factor_fails(2) [OF this] obtain reqs where "requirementsFor w (su_id user) (rr_reauthAt (fst x)) (snd x) = Inr reqs" "rq_canReveal reqs" by blast
  from requirements_redis [OF this] obtain reqs' where "requirementsFor w' (su_id user) (rr_reauthAt rq) t = Inr reqs'" "rq_canReveal reqs'"
    unfolding w' by blast
  then show ?thesis using msg by (simp add: reveal_secret_def Let_def)
qed

definition demo_guesses :: "(reveal_request \<times> time) list" where
  "demo_guesses = [(demo_reveal ''a'', 1000), (demo_reveal ''b'', 2000), (demo_reveal ''c'', 3000), (demo_reveal ''d'', 4000), (demo_reveal ''e'', 5000)]"

lemma guesses_lock_the_step_up_witness:
  "\<exists>msg. fst (reveal_secret demo_seal demo_auth_env store_redis default_throttle demo_reader (demo_reveal ''correct horse'') 6000
     (reveal_run demo_seal demo_auth_env store_redis default_throttle demo_reader demo_guesses demo_world)) = Inl (TooManyRequests msg)"
proof -
  have "guessing demo_seal demo_auth_env store_redis default_throttle demo_reader demo_guesses demo_world"
    unfolding wrong_factor_def by code_simp
  with guesses_lock_the_step_up [OF store_redis_behaves _ _ _ this _ _ _ _ refl, of 6000 "demo_reveal ''correct horse''"] show ?thesis
    by (auto simp: demo_guesses_def default_throttle_def envInt_def live_def store_view_def demo_world_def)
qed

end
