(* ===== verification/Spec2Isabelle.thy ===== *)
theory Spec2Isabelle
  imports Rbac Rate_Limiter Ip_Policy Users Login Token_Auth Oauth_Flow Oauth_Clients Oauth_Endpoints
    Oauth_Server Oauth_Concurrency Account_Service Fabric_Approval Timeline Http_Probe Automations
    Alert_Catalog Notifications Monitors Stream_Mux Backup_Schedule Stack_Backup Backup_Run
    Fabric_Agents Fabric_Safety Fabric_Reach Connector_Watch Vault
begin

text \<open>
  A model of the server of Cerebro, a dashboard that manages infrastructure. The server is a set of
  services over one database, driven by HTTP requests, timers and messages of agents. The theories below
  model its core logic and prove what makes it correct; paths are relative to \<^verbatim>\<open>apps/server/src\<close>
  (\<^verbatim>\<open>shared\<close> is \<^verbatim>\<open>packages/shared/src\<close>).

  Conventions. A table is a list of records in insertion order, a JavaScript Map an association list with
  at most one entry per key, a number an \<open>int\<close> unless its width matters, a text a list of characters, an
  optional value an \<open>option\<close>, and a thrown exception the left side of a sum. A service is a
  record of its state; an operation takes the state and returns it. Where a method awaits the database
  between a check and a write, it is modelled in one step only if the property is about requests handled one
  at a time, and in several steps where their interleaving is the point. Hashes, random values, the time, DNS,
  mail, Docker, SSH and all remote services are arguments.

  \<^bold>\<open>Prelude.\<close> \<^verbatim>\<open>Cerebro_Prelude\<close>: maps, rows, JSON values, texts, errors.

  \<^bold>\<open>Access control.\<close>
  \<^item> \<^verbatim>\<open>Rbac\<close> (\<^verbatim>\<open>shared/rbac.ts\<close>, \<^verbatim>\<open>auth/permissions.guard.ts\<close>): permissions, roles, the guard.
  \<^item> \<^verbatim>\<open>Rate_Limiter\<close> (\<^verbatim>\<open>common/rate-limiter.ts\<close>): the sliding window, which refines the specification that
    remembers every accepted hit.
  \<^item> \<^verbatim>\<open>Ip_Policy\<close> (\<^verbatim>\<open>common/ip-allowlist.ts\<close>, \<^verbatim>\<open>auth/local-login-policy.ts\<close>): addresses, networks and the
    decisions over them.
  \<^item> \<^verbatim>\<open>Users\<close> (\<^verbatim>\<open>auth/auth.service.ts\<close>, \<^verbatim>\<open>users/users.service.ts\<close>, \<^verbatim>\<open>auth/totp.service.ts\<close>): accounts and second
    factors; an administrator remains; recovery codes are never accepted.
  \<^item> \<^verbatim>\<open>Login\<close> (\<^verbatim>\<open>auth/auth.controller.ts\<close>, \<^verbatim>\<open>auth/login-throttle.service.ts\<close>): sessions and the throttle.
  \<^item> \<^verbatim>\<open>Token_Auth\<close> (\<^verbatim>\<open>auth/token-auth.service.ts\<close>, \<^verbatim>\<open>auth/oauth-token.service.ts\<close>, \<^verbatim>\<open>auth/auth.guard.ts\<close>,
    \<^verbatim>\<open>tokens/tokens.service.ts\<close>): API tokens, access tokens, machine clients, the global guard.
  \<^item> \<^verbatim>\<open>Vault\<close> (\<^verbatim>\<open>secrets\<close>): stored values with their metadata and digests, and the step-up in front of a plaintext,
    which is checked by \<^verbatim>\<open>Users\<close> and braked by the throttle of \<^verbatim>\<open>Login\<close>.
  \<^item> \<^verbatim>\<open>Account_Service\<close> (\<^verbatim>\<open>account\<close>): the mailed code for a change of password.

  \<^bold>\<open>OAuth server.\<close> \<^verbatim>\<open>Oauth_Flow\<close> (\<^verbatim>\<open>oauth/oauth-flow.service.ts\<close>), \<^verbatim>\<open>Oauth_Clients\<close>
  (\<^verbatim>\<open>oauth/oauth-client.service.ts\<close>) and \<^verbatim>\<open>Oauth_Endpoints\<close> (the controllers) are the operations;
  \<^verbatim>\<open>Oauth_Server\<close> puts them into a step relation and proves what holds in every reachable state: codes
  and refresh tokens are used once, a replay kills the family, scopes are grantable. \<^verbatim>\<open>Oauth_Concurrency\<close> splits
  the requests at every database call and proves the same of all interleavings where the code claims
  conditionally, and shows the interleavings that go wrong where it does not.

  \<^bold>\<open>Remote access.\<close>
  \<^item> \<^verbatim>\<open>Fabric_Approval\<close> (\<^verbatim>\<open>fabric/fabric-approval.service.ts\<close>): four eyes, with timers and the asynchronous mint.
  \<^item> \<^verbatim>\<open>Fabric_Agents\<close> (\<^verbatim>\<open>fabric/fabric-credentials.ts\<close>, \<^verbatim>\<open>fabric-enrollment.service.ts\<close>, \<^verbatim>\<open>agent-registry.service.ts\<close>,
    \<^verbatim>\<open>fabric.service.ts\<close>, \<^verbatim>\<open>fabric-session.service.ts\<close>, \<^verbatim>\<open>fabric-hostkey.ts\<close>): agents from enrollment to removal, as one
    machine whose methods stop at each database call; on its connections runs the multiplexer below.
    \<^verbatim>\<open>Fabric_Safety\<close> has its invariants (connections and timers, revoked agents, keys of the table), \<^verbatim>\<open>Fabric_Reach\<close>
    what can be dialled through an agent, the host keys, and the properties.
  \<^item> \<^verbatim>\<open>Stream_Mux\<close> (\<^verbatim>\<open>fabric/stream-mux.ts\<close>): the streams of one agent connection; bytes arrive in order and
    complete, and a closed stream is silent until the numbers start again.

  \<^bold>\<open>Events, alerts and automations.\<close>
  \<^item> \<^verbatim>\<open>Timeline\<close> (\<^verbatim>\<open>timeline\<close>): seven tables in one paged query, and the gate for audit events.
  \<^item> \<^verbatim>\<open>Alert_Catalog\<close> (\<^verbatim>\<open>notifications/alerts\<close>) and \<^verbatim>\<open>Notifications\<close> (\<^verbatim>\<open>notifications/notifications.service.ts\<close>): what may
    be alerted, and the dispatcher with its rules, quiet hours and deduplication.
  \<^item> \<^verbatim>\<open>Automations\<close> (\<^verbatim>\<open>automations\<close>): rules, schedules, conditions, cooldown and actions.

  \<^bold>\<open>Monitoring.\<close>
  \<^item> \<^verbatim>\<open>Http_Probe\<close> (\<^verbatim>\<open>monitors/probes\<close>): the guard against local targets and the HTTP check; redirects are followed at
    most ten times, so the recursion over the redirects left ends.
  \<^item> \<^verbatim>\<open>Monitors\<close> (\<^verbatim>\<open>monitors\<close>): the scheduler, which is shown equivalent to an automaton over the outcomes, the
    limits of the rows, and the retention, which keeps the hourly counts of deleted beats.
  \<^item> \<^verbatim>\<open>Connector_Watch\<close> (\<^verbatim>\<open>connectors\<close>): the monitors of reachability, guests and limits, and background operations; the
    alerts are the edges of what the connectors answered, and an operation ends once.

  \<^bold>\<open>Stack backups.\<close>
  \<^item> \<^verbatim>\<open>Backup_Schedule\<close> (\<^verbatim>\<open>common/backup-schedule.ts\<close>): the calendar, and the next run as the first due minute.
  \<^item> \<^verbatim>\<open>Stack_Backup\<close> (\<^verbatim>\<open>stack-backup/backup-target.service.ts\<close>, \<^verbatim>\<open>stack-backup.service.ts\<close>,
    \<^verbatim>\<open>stack-backup-scheduler.service.ts\<close>): repositories, policies, runs and the scheduler with its reservations.
  \<^item> \<^verbatim>\<open>Backup_Run\<close> (\<^verbatim>\<open>helper-runner.ts\<close>, \<^verbatim>\<open>quiesce.ts\<close>, \<^verbatim>\<open>relay.ts\<close>, \<^verbatim>\<open>sandbox.ts\<close>): the command of the helper as the
    shell reads it, freezing and resuming, hooks, and the staging area shared by relay runs.

  \<^bold>\<open>How the components meet.\<close> The OAuth server issues the tokens \<^verbatim>\<open>Token_Auth\<close> resolves, by the roles of \<^verbatim>\<open>Users\<close>
  and the policies of \<^verbatim>\<open>Rbac\<close>, and asks \<^verbatim>\<open>Rate_Limiter\<close> and \<^verbatim>\<open>Ip_Policy\<close> first. Monitors and backups raise
  alerts of \<^verbatim>\<open>Alert_Catalog\<close> through \<^verbatim>\<open>Notifications\<close>; automations act on what \<^verbatim>\<open>Timeline\<close> publishes. Interfaces are
  locales, each interpreted on the definitions of the component that provides it.

  \<^bold>\<open>Groups of lemmas.\<close> Each theory holds the operations first, then the facts about single operations, then
  the invariant or the specification, then the properties, each before a witness that applies it at a concrete
  input. Lemmas without a claim show single behaviours, among them the ones that go wrong (named in the
  findings of the manifest).

  \<^bold>\<open>Bounds.\<close> Recursion is structural or has a measure; no fuel is used. The parser of schedules, addresses and
  texts recurses over the text. The numbers of streams are 32 bits on the wire and start again at 1 after
  4294967294 dials. Times are milliseconds in \<open>int\<close>.

  \<^bold>\<open>Not modelled.\<close> The connectors themselves, the replicator, the assistant, the topology and the fleet view are clients of
  remote services: their behaviour is what those services answer. Certificates, file transfer, remote desktops
  and single sign-on are protocols of libraries. The encryption of the vault is a parameter; backups use the
  vault as a map. The web client has no rules of its own; the agent and the command line are in another
  language. Log lines, audit texts beyond the recorded action, and the texts of read models are left out where a
  component says so. Floating point numbers (average latencies, fractions of a day) are left out.
\<close>

end
